(* ===== verification/Mercury_Prelude.thy ===== *)
theory Mercury_Prelude
  imports
    Main
    "HOL-Library.Char_ord"
    "HOL-Library.List_Lexorder"
    "HOL-Library.Product_Lexorder"
    "HOL-Library.Sublist"
begin

text \<open>
  Shared vocabulary of the development.

  Exceptions of the Python code are values: an operation that may raise returns
  \<open>mercury_error + 'a\<close>, with \<open>Inl\<close> for the exception (its class and its stable code, the
  strings the code passes to the constructor) and \<open>Inr\<close> for the returned value.
  \<open>ebind\<close> is sequencing (the rest runs only if the first part returned), \<open>raise_if\<close> is the
  guard \<open>if c: raise e\<close>, \<open>emap\<close> is a comprehension that stops at the first exception.

  Python's \<open>str\<close> is \<open>string\<close> (a list of bytes of its UTF-8 encoding, whose lexicographic order
  is the code point order), \<open>datetime\<close> is \<open>datetime\<close> below, a \<open>UUID\<close> is its integer.
\<close>

section \<open>Errors as values\<close>

datatype mercury_error =
    ValueError string
  | RequestStateError string
  | ExecutionPolicyError string
  | JournalValidationError string
  | HostedPreviewError string
  | ProviderOAuthError string
  | RequestBuildError string
  | NetworkPolicyError string
  | ConnectorAuthError string
  | TransportError string
  | ProjectorError string
  | CredentialVaultError string
  | LookupErr string
  | UnexpectedError string

type_synonym 'a result = "mercury_error + 'a"

text \<open>The classes of the code that derive from \<open>ValueError\<close>.\<close>

fun is_value_error :: "mercury_error \<Rightarrow> bool" where
  "is_value_error (ValueError _) = True"
| "is_value_error (RequestStateError _) = True"
| "is_value_error (ExecutionPolicyError _) = True"
| "is_value_error (JournalValidationError _) = True"
| "is_value_error (RequestBuildError _) = True"
| "is_value_error (NetworkPolicyError _) = True"
| "is_value_error (ProjectorError _) = True"
| "is_value_error _ = False"

text \<open>\<open>except (AttributeError, LookupError, TypeError, ValueError)\<close>\<close>

definition caught_lookup :: "mercury_error \<Rightarrow> bool" where
  "caught_lookup e \<longleftrightarrow>
     is_value_error e \<or> (case e of LookupErr _ \<Rightarrow> True
       | UnexpectedError name \<Rightarrow> name \<in> {''AttributeError'', ''TypeError''} | _ \<Rightarrow> False)"

definition ebind :: "'e + 'a \<Rightarrow> ('a \<Rightarrow> 'e + 'b) \<Rightarrow> 'e + 'b" where
  "ebind m k = (case m of Inl e \<Rightarrow> Inl e | Inr x \<Rightarrow> k x)"

definition raise_if :: "bool \<Rightarrow> 'e \<Rightarrow> 'e + unit" where
  "raise_if c e = (if c then Inl e else Inr ())"

fun emap :: "('a \<Rightarrow> 'e + 'b) \<Rightarrow> 'a list \<Rightarrow> 'e + 'b list" where
  "emap f [] = Inr []"
| "emap f (x # xs) = ebind (f x) (\<lambda>y. ebind (emap f xs) (\<lambda>ys. Inr (y # ys)))"

definition is_ok :: "'e + 'a \<Rightarrow> bool" where
  "is_ok r = (case r of Inl _ \<Rightarrow> False | Inr _ \<Rightarrow> True)"

text \<open>Sequencing evaluates its first argument first, in the code equations too.\<close>

declare ebind_def [code_unfold] raise_if_def [code_unfold]

text \<open>The rewrite rules that open a chain of guards, collected for the component proofs.\<close>

named_theorems outcome_simps \<open>rewrite rules for results of operations that may raise\<close>

lemma ebind_Inl [simp]: "ebind (Inl e) k = Inl e"
  by (simp add: ebind_def)

lemma ebind_Inr [simp]: "ebind (Inr x) k = k x"
  by (simp add: ebind_def)

lemma ebind_eq_Inr [outcome_simps]: "ebind m k = Inr y \<longleftrightarrow> (\<exists>x. m = Inr x \<and> k x = Inr y)"
  by (cases m) auto

lemma ebind_eq_Inl [outcome_simps]:
  "ebind m k = Inl e \<longleftrightarrow> m = Inl e \<or> (\<exists>x. m = Inr x \<and> k x = Inl e)"
  by (cases m) auto

lemma raise_if_eq_Inr [outcome_simps]: "raise_if c e = Inr u \<longleftrightarrow> \<not> c"
  by (simp add: raise_if_def)

lemma raise_if_eq_Inl [outcome_simps]: "raise_if c e = Inl e' \<longleftrightarrow> c \<and> e' = e"
  by (auto simp: raise_if_def)

lemma raise_if_True [simp]: "raise_if True e = Inl e"
  by (simp add: raise_if_def)

lemma raise_if_False [simp]: "raise_if False e = Inr ()"
  by (simp add: raise_if_def)

lemma ebind_raise_if [simp]:
  "ebind (raise_if c e) k = (if c then Inl e else k ())"
  by (simp add: raise_if_def)

lemma emap_eq_Inr_length: "emap f xs = Inr ys \<Longrightarrow> length ys = length xs"
  by (induction xs arbitrary: ys) (auto simp: outcome_simps)

lemma emap_eq_Inr_iff:
  "emap f xs = Inr ys \<longleftrightarrow> list_all2 (\<lambda>x y. f x = Inr y) xs ys"
  by (induction xs arbitrary: ys) (auto simp: outcome_simps list_all2_Cons1)

lemma emap_Inr_map: "(\<And>x. x \<in> set xs \<Longrightarrow> f x = Inr (g x)) \<Longrightarrow> emap f xs = Inr (map g xs)"
  by (induction xs) auto

lemma emap_cong [fundef_cong]:
  "xs = ys \<Longrightarrow> (\<And>x. x \<in> set ys \<Longrightarrow> f x = g x) \<Longrightarrow> emap f xs = emap g ys"
  by (induction ys arbitrary: xs) auto

section \<open>Timestamps and identifiers\<close>

text \<open>
  A Python \<open>datetime\<close> is aware (it has a UTC offset) or naive. Aware ones are their instant in
  microseconds since the epoch: every model normalises them with \<open>astimezone(UTC)\<close> and only
  compares and subtracts them, which depends on the instant alone.
\<close>

datatype datetime = Aware int | Naive int

type_synonym instant = int
type_synonym uuid = nat

abbreviation seconds :: "int \<Rightarrow> int" where
  "seconds n \<equiv> n * 1000000"

fun aware_instant :: "mercury_error \<Rightarrow> datetime \<Rightarrow> instant result" where
  "aware_instant e (Aware t) = Inr t"
| "aware_instant e (Naive t) = Inl e"

section \<open>Character classes of the code's regular expressions\<close>

definition lower_char :: "char \<Rightarrow> bool" where
  "lower_char c \<longleftrightarrow> c \<in> set ''abcdefghijklmnopqrstuvwxyz''"

definition upper_char :: "char \<Rightarrow> bool" where
  "upper_char c \<longleftrightarrow> c \<in> set ''ABCDEFGHIJKLMNOPQRSTUVWXYZ''"

definition digit_char :: "char \<Rightarrow> bool" where
  "digit_char c \<longleftrightarrow> c \<in> set ''0123456789''"

definition alpha_char :: "char \<Rightarrow> bool" where
  "alpha_char c \<longleftrightarrow> lower_char c \<or> upper_char c"

definition hex_char :: "char \<Rightarrow> bool" where
  "hex_char c \<longleftrightarrow> c \<in> set ''0123456789abcdef''"

lemmas char_classes = lower_char_def upper_char_def digit_char_def alpha_char_def hex_char_def

text \<open>A first character of one class followed by at most \<open>n\<close> characters of another.\<close>

fun head_tail_pattern :: "(char \<Rightarrow> bool) \<Rightarrow> (char \<Rightarrow> bool) \<Rightarrow> nat \<Rightarrow> string \<Rightarrow> bool" where
  "head_tail_pattern p q n [] = False"
| "head_tail_pattern p q n (c # cs) = (p c \<and> length cs \<le> n \<and> list_all q cs)"

definition sha256_hex :: "string \<Rightarrow> bool" where
  "sha256_hex s \<longleftrightarrow> length s = 64 \<and> list_all hex_char s"

section \<open>Lists\<close>

text \<open>\<open>tuple(dict.fromkeys(values))\<close>: the first occurrence of every value, in order.\<close>

fun ordered_unique :: "'a list \<Rightarrow> 'a list" where
  "ordered_unique [] = []"
| "ordered_unique (x # xs) = x # filter (\<lambda>y. y \<noteq> x) (ordered_unique xs)"

lemma set_ordered_unique [simp]: "set (ordered_unique xs) = set xs"
  by (induction xs) auto

lemma distinct_ordered_unique [simp]: "distinct (ordered_unique xs)"
  by (induction xs) auto

lemma ordered_unique_id: "distinct xs \<Longrightarrow> ordered_unique xs = xs"
proof (induction xs)
  case Nil
  show ?case by simp
next
  case (Cons x xs)
  then have "filter (\<lambda>y. y \<noteq> x) xs = xs"
    by (intro filter_True) auto
  with Cons show ?case by simp
qed

lemma list_all_update: "list_all P xs \<Longrightarrow> P y \<Longrightarrow> list_all P (xs[i := y])"
  by (auto simp: list_all_iff dest!: set_update_subset_insert [THEN subsetD])

lemma sum_list_update_nat:
  fixes f :: "'a \<Rightarrow> nat"
  assumes "i < length xs"
  shows "sum_list (map f (xs[i := y])) + f (xs ! i) = sum_list (map f xs) + f y"
  using assms
proof (induction xs arbitrary: i)
  case Nil
  then show ?case by simp
next
  case (Cons x xs)
  then show ?case by (cases i) auto
qed

lemma length_filter_le1_iff_same:
  assumes "distinct (map f xs)" and "x \<in> set xs" and "y \<in> set xs" and "f x = f y"
  shows "x = y"
  using assms by (metis distinct_map inj_onD)

end
