(* ===== verification/Canonical_Json.thy ===== *)
theory Canonical_Json
  imports Mercury_Prelude
begin

text \<open>
  Model of \<open>canonical.py\<close>: deterministic JSON text for hashing. \<open>json\<close> is the Python value of
  a JSON document: a dict is its items in insertion order (its keys are strings and distinct,
  \<open>json_wf\<close>), a float is the text of its \<open>repr\<close>, which is what \<open>json.dumps\<close> prints for it
  (\<open>nan\<close>, \<open>inf\<close> and \<open>-inf\<close> for the non-finite ones, which \<open>allow_nan=False\<close> refuses).
  \<open>canonical_payload_json\<close> is \<open>json.dumps\<close> with \<open>sort_keys\<close>, compact separators and
  \<open>ensure_ascii=False\<close>; SHA-256 is a parameter. The lemmas: the text determines the value up to
  the order of the keys, so a hash over the text binds every field of the payload.
\<close>

section \<open>JSON values and their text\<close>

datatype json =
    JNull
  | JBool bool
  | JInt int
  | JFloat string
  | JStr string
  | JArr "json list"
  | JObj "(string \<times> json) list"

definition dec_digit :: "nat \<Rightarrow> char" where
  "dec_digit n = ''0123456789'' ! n"

fun show_nat :: "nat \<Rightarrow> string" where
  "show_nat n =
     (if n < 10 then [dec_digit n] else show_nat (n div 10) @ [dec_digit (n mod 10)])"

declare show_nat.simps [simp del]

definition show_int :: "int \<Rightarrow> string" where
  "show_int i = (if i < 0 then ''-'' @ show_nat (nat (- i)) else show_nat (nat i))"

definition hex_digit :: "nat \<Rightarrow> char" where
  "hex_digit n = ''0123456789abcdef'' ! n"

definition escape_char :: "char \<Rightarrow> string" where
  "escape_char c =
     (let n = (of_char c :: nat) in
      if n = 34 then [CHR 0x5C, CHR 0x22]
      else if n = 92 then [CHR 0x5C, CHR 0x5C]
      else if n = 10 then [CHR 0x5C, CHR ''n'']
      else if n = 13 then [CHR 0x5C, CHR ''r'']
      else if n = 9 then [CHR 0x5C, CHR ''t'']
      else if n = 12 then [CHR 0x5C, CHR ''f'']
      else if n = 8 then [CHR 0x5C, CHR ''b'']
      else if n < 32 then [CHR 0x5C, CHR ''u'', CHR ''0'', CHR ''0'', hex_digit (n div 16), hex_digit (n mod 16)]
      else [c])"

text \<open>The same function by the bits of the character, for evaluation.\<close>

lemma escape_char_code [code]:
  "escape_char (Char b0 b1 b2 b3 b4 b5 b6 b7) =
     (if b6 \<or> b7 then
        (if Char b0 b1 b2 b3 b4 b5 b6 b7 = CHR 0x5C then [CHR 0x5C, CHR 0x5C]
         else [Char b0 b1 b2 b3 b4 b5 b6 b7])
      else if b5 then
        (if Char b0 b1 b2 b3 b4 b5 b6 b7 = CHR 0x22 then [CHR 0x5C, CHR 0x22]
         else [Char b0 b1 b2 b3 b4 b5 b6 b7])
      else
        (let n = (of_char (Char b0 b1 b2 b3 b4 b5 b6 b7) :: nat) in
         if n = 10 then [CHR 0x5C, CHR ''n'']
         else if n = 13 then [CHR 0x5C, CHR ''r'']
         else if n = 9 then [CHR 0x5C, CHR ''t'']
         else if n = 12 then [CHR 0x5C, CHR ''f'']
         else if n = 8 then [CHR 0x5C, CHR ''b'']
         else [CHR 0x5C, CHR ''u'', CHR ''0'', CHR ''0'', hex_digit (n div 16), hex_digit (n mod 16)]))"
  by (cases b0; cases b1; cases b2; cases b3; cases b4; cases b5; cases b6; cases b7;
      simp add: escape_char_def)

definition print_string :: "string \<Rightarrow> string" where
  "print_string s = [CHR 0x22] @ concat (map escape_char s) @ [CHR 0x22]"

fun join :: "string \<Rightarrow> string list \<Rightarrow> string" where
  "join sep [] = []"
| "join sep [x] = x"
| "join sep (x # y # xs) = x @ sep @ join sep (y # xs)"

text \<open>Keys sorted at every level, then printed as they stand.\<close>

fun sort_keys :: "json \<Rightarrow> json" where
  "sort_keys (JArr xs) = JArr (map sort_keys xs)"
| "sort_keys (JObj kvs) = JObj (sort_key fst (map (\<lambda>(k, v). (k, sort_keys v)) kvs))"
| "sort_keys v = v"

fun print_json :: "json \<Rightarrow> string" where
  "print_json JNull = ''null''"
| "print_json (JBool True) = ''true''"
| "print_json (JBool False) = ''false''"
| "print_json (JInt i) = show_int i"
| "print_json (JFloat s) = s"
| "print_json (JStr s) = print_string s"
| "print_json (JArr xs) = ''['' @ join '','' (map print_json xs) @ '']''"
| "print_json (JObj kvs) =
     ''{'' @ join '','' (map (\<lambda>(k, v). print_string k @ '':'' @ print_json v) kvs) @ ''}''"

fun non_finite :: "json \<Rightarrow> bool" where
  "non_finite (JFloat s) = (s \<in> {''nan'', ''inf'', ''-inf''})"
| "non_finite (JArr xs) = list_ex non_finite xs"
| "non_finite (JObj kvs) = list_ex (\<lambda>(k, v). non_finite v) kvs"
| "non_finite _ = False"

definition canonical_payload_json :: "json \<Rightarrow> string result" where
  "canonical_payload_json payload =
     (if non_finite payload then Inl (ValueError ''payload_not_canonicalizable'')
      else Inr (print_json (sort_keys payload)))"

text \<open>A string is already its UTF-8 bytes, so \<open>encode("utf-8")\<close> is the identity.\<close>

definition canonical_payload_bytes :: "json \<Rightarrow> string result" where
  "canonical_payload_bytes payload = canonical_payload_json payload"

definition canonical_payload_hash :: "(string \<Rightarrow> string) \<Rightarrow> json \<Rightarrow> string result" where
  "canonical_payload_hash sha256 payload =
     ebind (canonical_payload_bytes payload) (\<lambda>bytes. Inr (sha256 bytes))"

text \<open>
  What the Python values satisfy: the keys of a dict are distinct, and the \<open>repr\<close> of a finite
  float uses the characters of a number and has a point or an exponent, which an int's has not.
\<close>

definition number_char :: "char \<Rightarrow> bool" where
  "number_char c \<longleftrightarrow> c \<in> set ''0123456789-+.e''"

definition float_repr :: "string \<Rightarrow> bool" where
  "float_repr s \<longleftrightarrow>
     list_all number_char s \<and> list_ex (\<lambda>c. c \<in> set ''.e'') s \<and>
     (case s of [] \<Rightarrow> False | c # _ \<Rightarrow> c \<in> set ''0123456789-'')"

fun json_wf :: "json \<Rightarrow> bool" where
  "json_wf (JFloat s) = (float_repr s \<or> s \<in> {''nan'', ''inf'', ''-inf''})"
| "json_wf (JArr xs) = list_all json_wf xs"
| "json_wf (JObj kvs) = (distinct (map fst kvs) \<and> list_all (\<lambda>(k, v). json_wf v) kvs)"
| "json_wf _ = True"

section \<open>Tokens\<close>

lemma token_split:
  assumes "a @ r = b @ s" and "list_all p a" and "list_all p b"
    and "r = [] \<or> \<not> p (hd r)" and "s = [] \<or> \<not> p (hd s)"
  shows "a = b \<and> r = s"
proof -
  have "takeWhile p (a @ r) = a" "takeWhile p (b @ s) = b"
    using assms(2-5) by (auto simp: takeWhile_append list_all_iff takeWhile_eq_Nil_iff)
  with assms(1) have "a = b" by simp
  with assms(1) show ?thesis by simp
qed

lemma dec_digit_char: "n < 10 \<Longrightarrow> digit_char (dec_digit n)"
  unfolding digit_char_def dec_digit_def by (rule nth_mem) simp

lemma dec_digit_inj: "j < 10 \<Longrightarrow> k < 10 \<Longrightarrow> dec_digit j = dec_digit k \<longleftrightarrow> j = k"
  unfolding dec_digit_def by (subst nth_eq_iff_index_eq) simp_all

lemma show_nat_small: "n < 10 \<Longrightarrow> show_nat n = [dec_digit n]"
  by (subst show_nat.simps) simp

lemma show_nat_large: "\<not> n < 10 \<Longrightarrow> show_nat n = show_nat (n div 10) @ [dec_digit (n mod 10)]"
  by (subst show_nat.simps) simp

lemma show_nat_digits: "list_all digit_char (show_nat n) \<and> show_nat n \<noteq> []"
proof (induction n rule: show_nat.induct)
  case (1 n)
  then show ?case
    by (cases "n < 10") (simp_all add: show_nat_small show_nat_large dec_digit_char)
qed

lemma show_nat_ne [simp]: "show_nat n \<noteq> []" "[] \<noteq> show_nat n"
  using show_nat_digits [of n] by auto

lemma show_nat_inj: "show_nat m = show_nat n \<longleftrightarrow> m = n"
proof
  assume "show_nat m = show_nat n"
  then show "m = n"
  proof (induction m arbitrary: n rule: show_nat.induct)
    case (1 m)
    show ?case
    proof (cases "m < 10")
      case True
      then have "n < 10" using "1.prems"
        by (cases "n < 10") (simp_all add: show_nat_small show_nat_large)
      with True "1.prems" show ?thesis by (simp add: show_nat_small dec_digit_inj)
    next
      case False
      then have big: "\<not> n < 10" using "1.prems"
        by (cases "n < 10") (simp_all add: show_nat_small show_nat_large)
      with False "1.prems" have "show_nat (m div 10) = show_nat (n div 10)"
        and "m mod 10 = n mod 10"
        by (simp_all add: show_nat_large dec_digit_inj)
      with "1.IH" [OF False] show ?thesis by (metis div_mult_mod_eq)
    qed
  qed
qed simp

lemma digit_char_number: "digit_char c \<Longrightarrow> number_char c"
  by (auto simp: digit_char_def number_char_def)

lemma digit_char_no_point: "digit_char c \<Longrightarrow> c \<notin> set ''.e''"
  by (auto simp: digit_char_def)

lemma show_nat_set: "c \<in> set (show_nat n) \<Longrightarrow> digit_char c"
  using show_nat_digits [of n] by (auto simp: list_all_iff)

lemma show_int_ne [simp]: "show_int i \<noteq> []"
  by (simp add: show_int_def)

lemma show_int_set: "c \<in> set (show_int i) \<Longrightarrow> c = CHR ''-'' \<or> digit_char c"
  by (auto simp: show_int_def dest: show_nat_set split: if_splits)

lemma show_int_number: "list_all number_char (show_int i)"
  by (auto simp: list_all_iff number_char_def [of "CHR ''-''"]
      dest!: show_int_set intro: digit_char_number)

lemma show_int_no_point: "\<not> list_ex (\<lambda>c. c \<in> set ''.e'') (show_int i)"
  unfolding list_ex_iff using show_int_set digit_char_no_point by fastforce

lemma show_nat_no_minus: "show_nat n \<noteq> CHR ''-'' # s"
proof
  assume "show_nat n = CHR ''-'' # s"
  then have "CHR ''-'' \<in> set (show_nat n)" by simp
  then have "digit_char (CHR ''-'')" by (rule show_nat_set)
  then show False by (simp add: digit_char_def)
qed

lemma show_int_inj: "show_int i = show_int j \<longleftrightarrow> i = j"
  using show_nat_no_minus [of "nat i"] show_nat_no_minus [of "nat j"]
    show_nat_no_minus [of "nat j", symmetric]
  by (cases "i < 0"; cases "j < 0") (auto simp: show_int_def show_nat_inj)

section \<open>Strings\<close>

text \<open>The decoder of one escaped character, the inverse of \<open>escape_char\<close>.\<close>

definition hex_value :: "char \<Rightarrow> nat" where
  "hex_value c = length (takeWhile (\<lambda>d. d \<noteq> c) ''0123456789abcdef'')"

fun unescape :: "string \<Rightarrow> (char \<times> string) option" where
  "unescape [] = None"
| "unescape (c # cs) =
     (if c \<noteq> CHR 0x5C then Some (c, cs)
      else case cs of
        [] \<Rightarrow> None
      | d # ds \<Rightarrow>
          (if d = CHR ''n'' then Some (CHR 0x0A, ds)
           else if d = CHR ''r'' then Some (CHR 0x0D, ds)
           else if d = CHR ''t'' then Some (CHR 0x09, ds)
           else if d = CHR ''f'' then Some (CHR 0x0C, ds)
           else if d = CHR ''b'' then Some (CHR 0x08, ds)
           else if d = CHR ''u''
             then (case ds of
                     _ # _ # h # l # rest \<Rightarrow>
                       Some (char_of (16 * hex_value h + hex_value l), rest)
                   | _ \<Rightarrow> None)
           else Some (d, ds)))"

definition control_chars :: "char list" where
  "control_chars = map char_of [0..<32 :: nat]"

lemma control_chars_iff: "c \<in> set control_chars \<longleftrightarrow> (of_char c :: nat) < 32"
proof
  assume "(of_char c :: nat) < 32"
  then have "\<exists>n \<in> {0..<32 :: nat}. c = char_of n"
    by (intro bexI [of _ "of_char c"]) auto
  then show "c \<in> set control_chars" by (auto simp: control_chars_def)
qed (auto simp: control_chars_def)

lemma control_unescape:
  "list_all (\<lambda>c. unescape (escape_char c @ x) = Some (c, x)) control_chars"
  by code_simp

lemma of_char_quote: "(of_char c :: nat) = 34 \<longleftrightarrow> c = CHR 0x22"
  using of_char_eq_iff [of c "CHR 0x22", where ?'a = nat] by simp

lemma of_char_backslash: "(of_char c :: nat) = 92 \<longleftrightarrow> c = CHR 0x5C"
  using of_char_eq_iff [of c "CHR 0x5C", where ?'a = nat] by simp

lemma escape_plain:
  "32 \<le> (of_char c :: nat) \<Longrightarrow> c \<noteq> CHR 0x22 \<Longrightarrow> c \<noteq> CHR 0x5C \<Longrightarrow> escape_char c = [c]"
  by (auto simp: escape_char_def Let_def of_char_quote of_char_backslash)

lemma unescape_escape: "unescape (escape_char c @ x) = Some (c, x)"
proof (cases "(of_char c :: nat) < 32")
  case True
  then show ?thesis
    using control_unescape [of x] by (simp add: list_all_iff control_chars_iff)
next
  case False
  show ?thesis
  proof (cases "c = CHR 0x22 \<or> c = CHR 0x5C")
    case True
    then show ?thesis by (auto simp: escape_char_def)
  next
    case plain: False
    then show ?thesis using False by (simp add: escape_plain)
  qed
qed

lemma escape_head: "hd (escape_char c @ x) \<noteq> CHR 0x22"
  by (auto simp: escape_char_def Let_def)

lemma escape_ne [simp]: "escape_char c \<noteq> []"
  by (auto simp: escape_char_def Let_def)

lemma escaped_inj:
  "concat (map escape_char s) @ CHR 0x22 # r = concat (map escape_char t) @ CHR 0x22 # r' \<Longrightarrow>
     s = t \<and> r = r'"
proof (induction s arbitrary: t)
  case Nil
  show ?case
  proof (cases t)
    case Nil
    with Nil.prems show ?thesis by simp
  next
    case (Cons d ds)
    with Nil.prems escape_head [of d "concat (map escape_char ds) @ CHR 0x22 # r'"]
    show ?thesis by (metis append.assoc append_Nil concat.simps list.sel(1) list.simps(8,9))
  qed
next
  case (Cons c s)
  show ?case
  proof (cases t)
    case Nil
    with Cons.prems escape_head [of c "concat (map escape_char s) @ CHR 0x22 # r"]
    show ?thesis by (metis append.assoc append_Nil concat.simps list.sel(1) list.simps(8,9))
  next
    case t: (Cons d ds)
    from Cons.prems
    have "unescape (escape_char c @ concat (map escape_char s) @ CHR 0x22 # r)
        = unescape (escape_char d @ concat (map escape_char ds) @ CHR 0x22 # r')"
      unfolding t by simp
    then have "c = d"
      and "concat (map escape_char s) @ CHR 0x22 # r = concat (map escape_char ds) @ CHR 0x22 # r'"
      by (simp_all add: unescape_escape)
    with Cons.IH t show ?thesis by simp
  qed
qed

lemma print_string_inj: "print_string s @ r = print_string t @ r' \<Longrightarrow> s = t \<and> r = r'"
  using escaped_inj [of s r t r'] by (simp add: print_string_def)

section \<open>Values\<close>

text \<open>What may follow a printed value: nothing, a comma or a closing bracket.\<close>

definition ends_value :: "string \<Rightarrow> bool" where
  "ends_value r \<longleftrightarrow> r = [] \<or> hd r \<in> set '',]}''"

text \<open>The elements of an array or object after its first, with the closing bracket.\<close>

fun print_rest :: "('a \<Rightarrow> string) \<Rightarrow> char \<Rightarrow> 'a list \<Rightarrow> string" where
  "print_rest f close [] = [close]"
| "print_rest f close (x # xs) = '','' @ f x @ print_rest f close xs"

lemma join_rest:
  "join '','' (map f (x # xs)) @ [close] = f x @ print_rest f close xs"
  by (induction xs arbitrary: x) auto

lemma print_rest_ends: "close \<in> set '']}'' \<Longrightarrow> ends_value (print_rest f close xs @ r)"
  by (cases xs) (auto simp: ends_value_def)

lemma print_rest_inj:
  assumes close: "close \<in> set '']}''"
    and inj: "\<And>x y r s. x \<in> set xs \<Longrightarrow> y \<in> set ys \<Longrightarrow> f x @ r = f y @ s \<Longrightarrow>
      ends_value r \<Longrightarrow> ends_value s \<Longrightarrow> x = y \<and> r = s"
    and eq: "print_rest f close xs @ r = print_rest f close ys @ s"
  shows "xs = ys \<and> r = s"
  using inj eq
proof (induction xs arbitrary: ys)
  case Nil
  then show ?case using close by (cases ys) auto
next
  case (Cons x xs)
  show ?case
  proof (cases ys)
    case Nil
    then show ?thesis using Cons.prems(2) close by auto
  next
    case ys: (Cons y ys')
    have "f x @ (print_rest f close xs @ r) = f y @ (print_rest f close ys' @ s)"
      using Cons.prems(2) ys by simp
    then have "x = y \<and> print_rest f close xs @ r = print_rest f close ys' @ s"
      by (rule Cons.prems(1) [rotated 2]) (simp_all add: ys print_rest_ends [OF close])
    moreover have "print_rest f close xs @ r = print_rest f close ys' @ s \<Longrightarrow> xs = ys' \<and> r = s"
      by (rule Cons.IH) (use Cons.prems(1) ys in auto)
    ultimately show ?thesis using ys by simp
  qed
qed

lemma number_ends: "ends_value r \<Longrightarrow> r = [] \<or> \<not> number_char (hd r)"
  by (auto simp: ends_value_def number_char_def)

lemma number_inj:
  "a @ r = b @ s \<Longrightarrow> list_all number_char a \<Longrightarrow> list_all number_char b \<Longrightarrow>
     ends_value r \<Longrightarrow> ends_value s \<Longrightarrow> a = b \<and> r = s"
  using token_split [of a r b s number_char] number_ends by blast

text \<open>The first character of a printed value tells which constructor printed it.\<close>

definition number_start :: "char \<Rightarrow> bool" where
  "number_start c \<longleftrightarrow> c \<in> set ''0123456789-''"

fun print_start :: "json \<Rightarrow> char \<Rightarrow> bool" where
  "print_start JNull c = (c = CHR ''n'')"
| "print_start (JBool b) c = (c = (if b then CHR ''t'' else CHR ''f''))"
| "print_start (JInt i) c = number_start c"
| "print_start (JFloat s) c = number_start c"
| "print_start (JStr s) c = (c = CHR 0x22)"
| "print_start (JArr xs) c = (c = CHR ''['')"
| "print_start (JObj kvs) c = (c = CHR ''{'')"

lemma show_int_start: "number_start (hd (show_int i))"
  using show_int_set [OF hd_in_set [OF show_int_ne]]
  by (auto simp: number_start_def digit_char_def)

definition finite_wf :: "json \<Rightarrow> bool" where
  "finite_wf v \<longleftrightarrow> json_wf v \<and> \<not> non_finite v"

lemma finite_wf_simps [simp]:
  "finite_wf (JFloat s) \<longleftrightarrow> float_repr s \<and> s \<notin> {''nan'', ''inf'', ''-inf''}"
  "finite_wf (JArr xs) \<longleftrightarrow> list_all finite_wf xs"
  "finite_wf (JObj kvs) \<longleftrightarrow> distinct (map fst kvs) \<and> list_all (\<lambda>kv. finite_wf (snd kv)) kvs"
  by (auto simp: finite_wf_def list_all_iff list_ex_iff)

lemma print_json_start: "finite_wf v \<Longrightarrow> print_json v \<noteq> [] \<and> print_start v (hd (print_json v))"
proof (cases v)
  case (JBool b)
  then show ?thesis by (cases b) auto
next
  case (JFloat s)
  then show "finite_wf v \<Longrightarrow> ?thesis"
    by (auto simp: float_repr_def number_start_def split: list.splits)
qed (auto simp: show_int_start print_string_def)

lemma float_repr_number:
  "float_repr s \<Longrightarrow> list_all number_char s \<and> list_ex (\<lambda>c. c \<in> set ''.e'') s"
  by (simp add: float_repr_def)

definition print_body :: "('a \<Rightarrow> string) \<Rightarrow> char \<Rightarrow> 'a list \<Rightarrow> string" where
  "print_body f close xs = (case xs of [] \<Rightarrow> [close] | x # xs' \<Rightarrow> f x @ print_rest f close xs')"

lemma join_body: "join '','' (map f xs) @ [close] = print_body f close xs"
  using join_rest [of f _ _ close] by (cases xs) (auto simp: print_body_def)

lemma print_body_inj:
  assumes close: "close \<in> set '']}''"
    and inj: "\<And>x y r s. x \<in> set xs \<Longrightarrow> y \<in> set ys \<Longrightarrow> f x @ r = f y @ s \<Longrightarrow>
      ends_value r \<Longrightarrow> ends_value s \<Longrightarrow> x = y \<and> r = s"
    and start: "\<And>x. x \<in> set xs \<union> set ys \<Longrightarrow> f x \<noteq> [] \<and> hd (f x) \<noteq> close"
    and eq: "print_body f close xs @ r = print_body f close ys @ s"
  shows "xs = ys \<and> r = s"
proof (cases xs)
  case Nil
  show ?thesis
  proof (cases ys)
    case Nil
    with \<open>xs = []\<close> eq show ?thesis by (simp add: print_body_def)
  next
    case (Cons y ys')
    with start [of y] eq \<open>xs = []\<close> show ?thesis
      by (cases "f y") (auto simp: print_body_def)
  qed
next
  case xs: (Cons x xs')
  show ?thesis
  proof (cases ys)
    case Nil
    with start [of x] eq xs show ?thesis
      by (cases "f x") (auto simp: print_body_def)
  next
    case ys: (Cons y ys')
    have "print_rest f close xs @ r = print_rest f close ys @ s"
      using eq by (simp add: xs ys print_body_def)
    then show ?thesis
      by (rule print_rest_inj [OF close, rotated]) (rule inj)
  qed
qed

lemma print_json_obj:
  "print_json (JObj kvs) =
     CHR ''{'' # print_body (\<lambda>(k, v). print_string k @ '':'' @ print_json v) (CHR ''}'') kvs"
  by (simp flip: join_body)

lemma print_json_arr: "print_json (JArr xs) = CHR ''['' # print_body print_json (CHR '']'') xs"
  by (simp flip: join_body)

lemma start_not_close: "print_start v c \<Longrightarrow> c \<notin> set '']}''"
  by (cases v) (auto simp: number_start_def)

lemma print_json_inj:
  "finite_wf v \<Longrightarrow> finite_wf w \<Longrightarrow> print_json v @ r = print_json w @ s \<Longrightarrow>
     ends_value r \<Longrightarrow> ends_value s \<Longrightarrow> v = w \<and> r = s"
proof (induction v arbitrary: w r s)
  case prems: JNull
  then have "print_start w (CHR ''n'')"
    using print_json_start [of w] by (cases "print_json w") auto
  then have "w = JNull" by (cases w) (auto simp: number_start_def split: if_splits)
  then show ?case using prems by simp
next
  case prems: (JBool b)
  then have "print_start w (if b then CHR ''t'' else CHR ''f'')"
    using print_json_start [of w] by (cases "print_json w"; cases b) auto
  then have "w = JBool b" by (cases w) (auto simp: number_start_def split: if_splits)
  then show ?case using prems by simp
next
  case prems: (JInt i)
  then have "number_start (hd (print_json w))"
    using print_json_start [of w] show_int_start [of i]
    by (cases "print_json w"; cases "show_int i") auto
  then consider j where "w = JInt j" | t where "w = JFloat t"
    using print_json_start [OF prems(2)]
    by (cases w) (auto simp: number_start_def split: if_splits)
  then show ?case
  proof cases
    case 1
    with prems number_inj [of "show_int i" r "show_int j" s] show ?thesis
      by (simp add: show_int_number show_int_inj)
  next
    case 2
    with prems number_inj [of "show_int i" r t s] float_repr_number [of t] show_int_no_point [of i]
    show ?thesis by (auto simp: show_int_number)
  qed
next
  case prems: (JFloat t)
  then have "number_start (hd (print_json w))"
    using print_json_start [of w] print_json_start [of "JFloat t"]
    by (cases "print_json w"; cases t) auto
  then consider j where "w = JInt j" | u where "w = JFloat u"
    using print_json_start [OF prems(2)]
    by (cases w) (auto simp: number_start_def split: if_splits)
  then show ?case
  proof cases
    case 1
    with prems number_inj [of t r "show_int j" s] float_repr_number [of t] show_int_no_point [of j]
    show ?thesis by (auto simp: show_int_number)
  next
    case 2
    with prems number_inj [of t r u s] float_repr_number [of t] float_repr_number [of u]
    show ?thesis by simp
  qed
next
  case prems: (JStr t)
  then have "print_start w (CHR 0x22)"
    using print_json_start [of w] by (cases "print_json w") (auto simp: print_string_def)
  then obtain u where "w = JStr u" by (cases w) (auto simp: number_start_def split: if_splits)
  then show ?case using prems print_string_inj [of t r u s] by simp
next
  case prems: (JArr xs)
  then have "print_start w (CHR ''['')"
    using print_json_start [of w] by (cases "print_json w") auto
  then obtain ys where w: "w = JArr ys"
    by (cases w) (auto simp: number_start_def split: if_splits)
  have "print_body print_json (CHR '']'') xs @ r = print_body print_json (CHR '']'') ys @ s"
    using prems(4) by (simp add: w print_json_arr del: print_json.simps)
  then have "xs = ys \<and> r = s"
  proof (rule print_body_inj [rotated 3])
    fix x
    assume "x \<in> set xs \<union> set ys"
    then have "finite_wf x" using prems(2,3) by (auto simp: w list_all_iff)
    then show "print_json x \<noteq> [] \<and> hd (print_json x) \<noteq> CHR '']''"
      using print_json_start start_not_close by fastforce
  qed (use prems in \<open>auto simp: w list_all_iff\<close>)
  then show ?case by (simp add: w)
next
  case prems: (JObj kvs)
  let ?f = "\<lambda>(k, v). print_string k @ '':'' @ print_json v"
  from prems have "print_start w (CHR ''{'')"
    using print_json_start [of w] by (cases "print_json w") auto
  then obtain kws where w: "w = JObj kws"
    by (cases w) (auto simp: number_start_def split: if_splits)
  have "print_body ?f (CHR ''}'') kvs @ r = print_body ?f (CHR ''}'') kws @ s"
    using prems(4) by (simp add: w print_json_obj del: print_json.simps)
  then have "kvs = kws \<and> r = s"
  proof (rule print_body_inj [rotated 3])
    fix x y r s
    assume x: "x \<in> set kvs" and y: "y \<in> set kws" and eq: "?f x @ r = ?f y @ s"
      and ends: "ends_value r" "ends_value s"
    obtain k v where xv: "x = (k, v)" by (cases x)
    obtain l u where yu: "y = (l, u)" by (cases y)
    from eq have "print_string k @ ('':'' @ print_json v @ r) = print_string l @ ('':'' @ print_json u @ s)"
      by (simp add: xv yu)
    from print_string_inj [OF this] have kl: "k = l" and vu: "print_json v @ r = print_json u @ s"
      by auto
    have "v = u \<and> r = s"
      by (rule prems(1) [of x v]) (use x y xv yu prems(2,3) vu ends w in \<open>auto simp: list_all_iff\<close>)
    then show "x = y \<and> r = s" using kl xv yu by simp
  qed (auto simp: print_string_def)
  then show ?case by (simp add: w)
qed

section \<open>Properties\<close>

lemma finite_wf_sort_keys: "finite_wf v \<Longrightarrow> finite_wf (sort_keys v)"
proof (induction v)
  case (JObj kvs)
  then have "distinct (map fst kvs)" by simp
  then have "distinct (map fst (sort_key fst (map (\<lambda>(k, v). (k, sort_keys v)) kvs)))"
    by (simp add: distinct_map inj_on_def) (force simp: case_prod_beta)
  then show ?case using JObj by (fastforce simp: list_all_iff)
qed (auto simp: list_all_iff)

lemma map_of_sort_key:
  "distinct (map fst kvs) \<Longrightarrow> map_of (sort_key fst kvs) = map_of kvs"
  by (rule map_of_eqI) (auto simp: map_of_eq_Some_iff distinct_map inj_on_def)

lemma sort_keys_lookup:
  assumes "distinct (map fst kvs)"
    and "sort_keys (JObj kvs) = sort_keys (JObj kws)" and "distinct (map fst kws)"
  shows "map_option sort_keys (map_of kvs k) = map_option sort_keys (map_of kws k)"
proof -
  have "map_of (sort_key fst (map (\<lambda>(k, v). (k, sort_keys v)) xs)) k =
      map_option sort_keys (map_of xs k)" if "distinct (map fst xs)" for xs
    using that by (subst map_of_sort_key) (simp_all add: map_of_map comp_def case_prod_beta)
  with assms show ?thesis by (metis json.inject(6) sort_keys.simps(2))
qed

lemma canonical_payload_json_same:
  assumes "finite_wf v" and "finite_wf w"
  shows "canonical_payload_json v = canonical_payload_json w \<longleftrightarrow> sort_keys v = sort_keys w"
  using print_json_inj [of "sort_keys v" "sort_keys w" "[]" "[]"] assms
  by (auto simp: canonical_payload_json_def finite_wf_sort_keys ends_value_def
      finite_wf_def [of v] finite_wf_def [of w])

lemma sort_keys_field:
  assumes "sort_keys (JObj kvs) = sort_keys (JObj kws)"
    and "distinct (map fst kvs)" and "distinct (map fst kws)"
    and "map_of kvs k = Some v" and "map_of kws k = Some w"
  shows "sort_keys v = sort_keys w"
  using sort_keys_lookup [OF assms(2,1,3), of k] assms(4,5) by simp

text \<open>
  C16: the canonical text identifies the payload. For finite well-formed JSON values,
  \<open>canonical_payload_json\<close> never fails, and it gives two of them the same text exactly when they
  are the same value up to the order of the keys in their objects; so in two objects with the
  same text every field has the same value.
\<close>

theorem canonical_payload_json_identifies:
  assumes "finite_wf v" and "finite_wf w"
  shows "is_ok (canonical_payload_json v) \<and>
    (canonical_payload_json v = canonical_payload_json w \<longleftrightarrow> sort_keys v = sort_keys w) \<and>
    (\<forall>kvs kws k. v = JObj kvs \<longrightarrow> w = JObj kws \<longrightarrow>
       canonical_payload_json v = canonical_payload_json w \<longrightarrow>
       map_option sort_keys (map_of kvs k) = map_option sort_keys (map_of kws k))"
proof -
  note same = canonical_payload_json_same [OF assms]
  moreover have "is_ok (canonical_payload_json v)"
    using assms(1) by (simp add: canonical_payload_json_def is_ok_def finite_wf_def)
  moreover have "map_option sort_keys (map_of kvs k) = map_option sort_keys (map_of kws k)"
    if "v = JObj kvs" "w = JObj kws" "sort_keys v = sort_keys w" for kvs kws k
    using that assms by (intro sort_keys_lookup) auto
  ultimately show ?thesis by blast
qed

theorem canonical_payload_json_identifies_witness:
  "canonical_payload_json (JObj [(''b'', JInt 1), (''a'', JStr ''x'')])
     = canonical_payload_json (JObj [(''a'', JStr ''x''), (''b'', JInt 1)])"
proof -
  let ?v = "JObj [(''b'', JInt 1), (''a'', JStr ''x'')]"
  let ?w = "JObj [(''a'', JStr ''x''), (''b'', JInt 1)]"
  have wf: "finite_wf ?v" "finite_wf ?w" by (simp_all add: finite_wf_def)
  have "sort_keys ?v = sort_keys ?w" by code_simp
  then show ?thesis using canonical_payload_json_identifies [OF wf] by simp
qed

end
