(* ===== verification/Catalog_Action.thy ===== *)
theory Catalog_Action
  imports Canonical_Json
begin

text \<open>
  Model of \<open>CatalogAction\<close> (\<open>catalog/models.py\<close>) and of its identity (\<open>catalog/identity.py\<close>): the
  immutable description of one ERP endpoint, the validator of its risk tier, the derived
  \<open>action_id\<close> and \<open>version_id\<close>, and \<open>revalidate_catalog_action\<close>, which every consumer calls.

  Library functions the code calls are the fields of \<open>pylib\<close>: SHA-256 as a hex digest and
  \<open>str.casefold\<close>. The scan of a document for credentials (\<open>validate_credential_safe\<close> and
  \<open>validate_credential_safe_paths\<close>) is the parameter \<open>safe\<close>.
\<close>

record pylib =
  sha256_hexdigest :: "string \<Rightarrow> string"
  casefold :: "string \<Rightarrow> string"

datatype http_method = GET | POST | PUT | PATCH | DELETE

fun method_value :: "http_method \<Rightarrow> string" where
  "method_value GET = ''GET''"
| "method_value POST = ''POST''"
| "method_value PUT = ''PUT''"
| "method_value PATCH = ''PATCH''"
| "method_value DELETE = ''DELETE''"

lemma method_value_inj [simp]: "method_value m = method_value n \<longleftrightarrow> m = n"
  by (cases m; cases n) simp_all

datatype risk_tier = SafeRead | StandardWrite | HighRisk

fun tier_int :: "risk_tier \<Rightarrow> int" where
  "tier_int SafeRead = 0"
| "tier_int StandardWrite = 1"
| "tier_int HighRisk = 2"

text \<open>\<open>RiskTier\<close> is an \<open>IntEnum\<close>: its members compare as their integers.\<close>

instantiation risk_tier :: linorder
begin

definition less_eq_risk_tier :: "risk_tier \<Rightarrow> risk_tier \<Rightarrow> bool" where
  "less_eq_risk_tier a b \<longleftrightarrow> tier_int a \<le> tier_int b"

definition less_risk_tier :: "risk_tier \<Rightarrow> risk_tier \<Rightarrow> bool" where
  "less_risk_tier a b \<longleftrightarrow> tier_int a < tier_int b"

instance
proof
  fix a b c :: risk_tier
  show "a < b \<longleftrightarrow> a \<le> b \<and> \<not> b \<le> a"
    by (auto simp: less_eq_risk_tier_def less_risk_tier_def)
  show "a \<le> a" by (simp add: less_eq_risk_tier_def)
  show "a \<le> b \<Longrightarrow> b \<le> c \<Longrightarrow> a \<le> c" by (simp add: less_eq_risk_tier_def)
  show "a \<le> b \<or> b \<le> a" by (auto simp: less_eq_risk_tier_def)
  show "a \<le> b \<Longrightarrow> b \<le> a \<Longrightarrow> a = b"
    by (cases a; cases b) (simp_all add: less_eq_risk_tier_def)
qed

end

lemmas tier_order = less_eq_risk_tier_def less_risk_tier_def

datatype action_confidence = Exact | ExampleDerived | Inferred

fun confidence_value :: "action_confidence \<Rightarrow> string" where
  "confidence_value Exact = ''exact''"
| "confidence_value ExampleDerived = ''example_derived''"
| "confidence_value Inferred = ''inferred''"

datatype observed_state = Untested | Success | ObservedFailed | ObservedOutcomeUnknown

fun observed_value :: "observed_state \<Rightarrow> string" where
  "observed_value Untested = ''untested''"
| "observed_value Success = ''success''"
| "observed_value ObservedFailed = ''failed''"
| "observed_value ObservedOutcomeUnknown = ''outcome_unknown''"

record catalog_action =
  ca_action_id :: string
  ca_version_id :: string
  ca_connector_id :: string
  ca_environments :: "string list"
  ca_method :: http_method
  ca_path_template :: string
  ca_operation_id :: string
  ca_variant_id :: string
  ca_content_type :: string
  ca_aliases_th :: "string list"
  ca_aliases_en :: "string list"
  ca_capability :: string
  ca_input_schema :: json
  ca_examples :: "json list"
  ca_risk_tier :: risk_tier
  ca_required_confirmations :: int
  ca_side_effects :: "string list"
  ca_preflight_action_ids :: "string list"
  ca_idempotency :: "(string \<times> json) list"
  ca_success_rules :: json
  ca_error_rules :: json
  ca_response_redaction :: "string list"
  ca_source_uri :: string
  ca_source_hash :: string
  ca_confidence :: action_confidence
  ca_observed_state :: observed_state
  ca_description :: string

abbreviation jstrings :: "string list \<Rightarrow> json" where
  "jstrings xs \<equiv> JArr (map JStr xs)"

text \<open>\<open>action.model_dump(mode="json", exclude={"version_id"})\<close>\<close>

definition action_dump :: "catalog_action \<Rightarrow> json" where
  "action_dump a = JObj
    [(''action_id'', JStr (ca_action_id a)),
     (''connector_id'', JStr (ca_connector_id a)),
     (''environments'', jstrings (ca_environments a)),
     (''method'', JStr (method_value (ca_method a))),
     (''path_template'', JStr (ca_path_template a)),
     (''operation_id'', JStr (ca_operation_id a)),
     (''variant_id'', JStr (ca_variant_id a)),
     (''content_type'', JStr (ca_content_type a)),
     (''aliases_th'', jstrings (ca_aliases_th a)),
     (''aliases_en'', jstrings (ca_aliases_en a)),
     (''capability'', JStr (ca_capability a)),
     (''input_schema'', ca_input_schema a),
     (''examples'', JArr (ca_examples a)),
     (''risk_tier'', JInt (tier_int (ca_risk_tier a))),
     (''required_confirmations'', JInt (ca_required_confirmations a)),
     (''side_effects'', jstrings (ca_side_effects a)),
     (''preflight_action_ids'', jstrings (ca_preflight_action_ids a)),
     (''idempotency'', JObj (ca_idempotency a)),
     (''success_rules'', ca_success_rules a),
     (''error_rules'', ca_error_rules a),
     (''response_redaction'', jstrings (ca_response_redaction a)),
     (''source_uri'', JStr (ca_source_uri a)),
     (''source_hash'', JStr (ca_source_hash a)),
     (''confidence'', JStr (confidence_value (ca_confidence a))),
     (''observed_state'', JStr (observed_value (ca_observed_state a))),
     (''description'', JStr (ca_description a))]"

text \<open>
  \<open>canonical_json\<close> of \<open>catalog/identity.py\<close>: the same text as \<open>canonical_payload_json\<close>, with
  its own error for a number that is not finite (\<open>_canonical_value\<close>).
\<close>

definition canonical_json :: "json \<Rightarrow> string result" where
  "canonical_json value =
     (if non_finite value then Inl (ValueError ''non_finite_canonical_number'')
      else Inr (print_json (sort_keys value)))"

definition build_action_id :: "pylib \<Rightarrow> catalog_action \<Rightarrow> string result" where
  "build_action_id lib a =
     ebind (canonical_json (jstrings
       [casefold lib (ca_connector_id a), method_value (ca_method a), ca_path_template a,
        ca_operation_id a, ca_variant_id a]))
     (\<lambda>identity. Inr (''act_'' @ take 24 (sha256_hexdigest lib identity)))"

definition build_version_id :: "pylib \<Rightarrow> catalog_action \<Rightarrow> string result" where
  "build_version_id lib a =
     ebind (canonical_json (action_dump a))
     (\<lambda>data. Inr (''av_'' @ sha256_hexdigest lib data))"

definition validate_action_identity :: "pylib \<Rightarrow> catalog_action \<Rightarrow> unit result" where
  "validate_action_identity lib a =
     ebind (build_action_id lib a) (\<lambda>expected.
     ebind (raise_if (ca_action_id a \<noteq> expected) (ValueError ''catalog_action_id_invalid''))
       (\<lambda>_. ebind (build_version_id lib a) (\<lambda>expected_version.
     raise_if (ca_version_id a \<noteq> expected_version)
       (ValueError ''catalog_action_version_invalid''))))"

definition method_risk_valid :: "http_method \<Rightarrow> risk_tier \<Rightarrow> bool" where
  "method_risk_valid m t =
     (if m = GET then t = SafeRead
      else if m = DELETE then t = HighRisk
      else t \<in> {StandardWrite, HighRisk})"

text \<open>\<open>CatalogAction.model_validate\<close>: the validators before and after the field checks.\<close>

definition validate_catalog_action ::
    "(catalog_action \<Rightarrow> bool) \<Rightarrow> catalog_action \<Rightarrow> catalog_action result" where
  "validate_catalog_action safe a =
     ebind (raise_if (\<not> safe a) (ValueError ''catalog_credentials_unsafe'')) (\<lambda>_.
     ebind (raise_if (ca_required_confirmations a \<noteq> tier_int (ca_risk_tier a))
       (ValueError ''required_confirmations must match risk_tier'')) (\<lambda>_.
     ebind (raise_if (\<not> method_risk_valid (ca_method a) (ca_risk_tier a))
       (ValueError ''method_risk_tier_invalid'')) (\<lambda>_. Inr a)))"

definition revalidate_catalog_action ::
    "pylib \<Rightarrow> (catalog_action \<Rightarrow> bool) \<Rightarrow> catalog_action \<Rightarrow> catalog_action result" where
  "revalidate_catalog_action lib safe a =
     ebind (validate_catalog_action safe a) (\<lambda>validated.
     ebind (validate_action_identity lib validated) (\<lambda>_. Inr validated))"

lemma revalidate_catalog_action_Inr:
  "revalidate_catalog_action lib safe a = Inr b \<Longrightarrow>
     b = a \<and> safe a \<and> method_risk_valid (ca_method a) (ca_risk_tier a) \<and>
     ca_required_confirmations a = tier_int (ca_risk_tier a) \<and>
     build_action_id lib a = Inr (ca_action_id a) \<and>
     build_version_id lib a = Inr (ca_version_id a)"
  by (auto simp: revalidate_catalog_action_def validate_catalog_action_def
      validate_action_identity_def outcome_simps split: if_splits)

lemma revalidate_catalog_action_idem:
  "revalidate_catalog_action lib safe a = Inr b \<Longrightarrow> revalidate_catalog_action lib safe b = Inr b"
  using revalidate_catalog_action_Inr by blast

end
