(* ===== verification/Risk_Policy.thy ===== *)
theory Risk_Policy
  imports Catalog_Action
begin

text \<open>
  Model of \<open>execution/policy.py\<close>: the runtime risk floor of a catalog action. A side effect is
  sensitive if its text, lower-cased, stripped and split at runs of \<open>-\<close>, \<open>_\<close> and white space,
  names an entry of \<open>sensitive_effect_aliases\<close> or of the same table with the underscores
  removed. \<open>effective_risk\<close> decides the mutation class, the approval level and the tier.
\<close>

section \<open>Sensitive effects\<close>

definition sensitive_effect_aliases :: "(string \<times> string) list" where
  "sensitive_effect_aliases =
    [(''payment'', ''payment''), (''payments'', ''payment''),
     (''payment_processed'', ''payment''), (''payments_processed'', ''payment''),
     (''approve'', ''approve''), (''approves'', ''approve''),
     (''approve_document'', ''approve''), (''approves_document'', ''approve''),
     (''void'', ''void''), (''voids'', ''void''),
     (''void_document'', ''void''), (''voids_document'', ''void''),
     (''post'', ''post''), (''posts'', ''post''),
     (''post_journal'', ''post''), (''posts_journal'', ''post''),
     (''finalize'', ''finalize''), (''finalizes'', ''finalize''),
     (''finalize_document'', ''finalize''), (''finalizes_document'', ''finalize''),
     (''email'', ''email''), (''emails'', ''email''),
     (''send_email'', ''email''), (''send_emails'', ''email''),
     (''email_customer'', ''email''), (''emails_customer'', ''email''),
     (''share'', ''share''), (''shares'', ''share''),
     (''share_document'', ''share''), (''shares_document'', ''share''),
     (''invite'', ''invite''), (''invites'', ''invite''),
     (''invite_user'', ''invite''), (''invites_user'', ''invite''),
     (''delete'', ''delete''), (''deletes'', ''delete''),
     (''delete_document'', ''delete''), (''deletes_document'', ''delete'')]"

definition collapsed_sensitive_effect_aliases :: "(string \<times> string) list" where
  "collapsed_sensitive_effect_aliases =
     map (\<lambda>(alias, canonical). (filter (\<lambda>c. c \<noteq> CHR ''_'') alias, canonical))
       (filter (\<lambda>(alias, _). CHR ''_'' \<in> set alias) sensitive_effect_aliases)"

definition ascii_char :: "char \<Rightarrow> bool" where
  "ascii_char c \<longleftrightarrow> (of_char c :: nat) < 128"

lemma ascii_char_code [code]: "ascii_char (Char b0 b1 b2 b3 b4 b5 b6 b7) \<longleftrightarrow> \<not> b7"
  by (cases b0; cases b1; cases b2; cases b3; cases b4; cases b5; cases b6; cases b7;
      simp add: ascii_char_def)

text \<open>\<open>str.casefold\<close> on an ASCII character.\<close>

definition ascii_lower :: "char \<Rightarrow> char" where
  "ascii_lower c = (if upper_char c then char_of ((of_char c :: nat) + 32) else c)"

text \<open>\<open>str.isspace\<close>, and \<open>\s\<close> of a string pattern, on an ASCII character.\<close>

definition space_char :: "char \<Rightarrow> bool" where
  "space_char c \<longleftrightarrow> (of_char c :: nat) \<in> {9, 10, 11, 12, 13, 28, 29, 30, 31, 32}"

definition strip :: "(char \<Rightarrow> bool) \<Rightarrow> string \<Rightarrow> string" where
  "strip p s = rev (dropWhile p (rev (dropWhile p s)))"

definition effect_separator :: "char \<Rightarrow> bool" where
  "effect_separator c \<longleftrightarrow> c = CHR ''-'' \<or> c = CHR ''_'' \<or> space_char c"

text \<open>\<open>re.compile(r"[...]+").split(s)\<close>: the texts between the maximal runs of separators.\<close>

function split_runs :: "(char \<Rightarrow> bool) \<Rightarrow> string \<Rightarrow> string list" where
  "split_runs p s =
     (case dropWhile (\<lambda>c. \<not> p c) s of
        [] \<Rightarrow> [s]
      | c # rest \<Rightarrow> takeWhile (\<lambda>c. \<not> p c) s # split_runs p (dropWhile p rest))"
  by pat_completeness auto
termination
proof (relation "measure (\<lambda>(p, s). length s)")
  fix p :: "char \<Rightarrow> bool" and s c rest
  assume "dropWhile (\<lambda>c. \<not> p c) s = c # rest"
  then have "length (c # rest) \<le> length s"
    by (metis length_dropWhile_le)
  moreover have "length (dropWhile p rest) \<le> length rest" by (rule length_dropWhile_le)
  ultimately show "((p, dropWhile p rest), (p, s)) \<in> measure (\<lambda>(p, s). length s)" by simp
qed simp

declare split_runs.simps [simp del]

definition effect_token :: "string \<Rightarrow> bool" where
  "effect_token t \<longleftrightarrow> t \<noteq> [] \<and> list_all (\<lambda>c. lower_char c \<or> digit_char c) t"

definition canonical_sensitive_effect :: "string \<Rightarrow> string option" where
  "canonical_sensitive_effect effect =
     (if \<not> list_all ascii_char effect then None
      else
        let casefolded_effect = strip space_char (map ascii_lower effect);
            tokens = split_runs effect_separator casefolded_effect
        in if tokens = [] \<or> list_ex (\<lambda>t. \<not> effect_token t) tokens then None
           else let normalized_effect = join ''_'' tokens
                in case map_of sensitive_effect_aliases normalized_effect of
                     Some canonical \<Rightarrow> Some canonical
                   | None \<Rightarrow> map_of collapsed_sensitive_effect_aliases normalized_effect)"

definition has_sensitive_effect :: "catalog_action \<Rightarrow> bool" where
  "has_sensitive_effect a =
     list_ex (\<lambda>effect. canonical_sensitive_effect effect \<noteq> None) (ca_side_effects a)"

section \<open>Risk\<close>

datatype approval_level = Standard | Elevated

fun approval_value :: "approval_level \<Rightarrow> string" where
  "approval_value Standard = ''standard''"
| "approval_value Elevated = ''elevated''"

datatype mutation_class = Create | Update | Sensitive

fun mutation_value :: "mutation_class \<Rightarrow> string" where
  "mutation_value Create = ''create''"
| "mutation_value Update = ''update''"
| "mutation_value Sensitive = ''sensitive''"

record risk_decision =
  rd_tier :: risk_tier
  rd_approval_level :: approval_level
  rd_mutation_class :: mutation_class
  rd_reasons :: "string list"

definition effective_risk :: "catalog_action \<Rightarrow> risk_decision result" where
  "effective_risk a =
     (if ca_method a = GET then Inl (ValueError ''read_action_has_no_mutation_class'')
      else
        let class0 = (if ca_method a \<in> {PUT, PATCH} then Update else Create);
            (class1, tier1, reasons1) =
              (if ca_method a = DELETE then (Sensitive, HighRisk, [''delete_method''])
               else if has_sensitive_effect a
                 then (Sensitive, HighRisk, [''sensitive_side_effect''])
               else (class0, StandardWrite, []));
            (class2, tier2, reasons2) =
              (if ca_confidence a = Inferred
                 then (Sensitive, HighRisk, reasons1 @ [''inferred_mutation''])
               else (class1, tier1, reasons1));
            (class3, tier3, reasons3) =
              (if ca_observed_state a = Untested
                 then (Sensitive, HighRisk, reasons2 @ [''unobserved_mutation''])
               else (class2, tier2, reasons2));
            tier = max (ca_risk_tier a) tier3;
            reasons = (if ca_risk_tier a > tier3 then ''declared_risk_floor'' # reasons3
                       else reasons3)
        in Inr \<lparr>rd_tier = tier,
                rd_approval_level = (if class3 = Sensitive then Elevated else Standard),
                rd_mutation_class = class3,
                rd_reasons = reasons\<rparr>)"

section \<open>Properties\<close>

text \<open>What makes a mutation sensitive at run time.\<close>

definition runtime_sensitive :: "catalog_action \<Rightarrow> bool" where
  "runtime_sensitive a \<longleftrightarrow>
     ca_method a = DELETE \<or> has_sensitive_effect a \<or>
     ca_confidence a = Inferred \<or> ca_observed_state a = Untested"

lemma effective_risk_Inr:
  "effective_risk a = Inr d \<longleftrightarrow>
     ca_method a \<noteq> GET \<and>
     rd_mutation_class d =
       (if runtime_sensitive a then Sensitive
        else if ca_method a \<in> {PUT, PATCH} then Update else Create) \<and>
     rd_approval_level d = (if runtime_sensitive a then Elevated else Standard) \<and>
     rd_tier d = max (ca_risk_tier a) (if runtime_sensitive a then HighRisk else StandardWrite) \<and>
     rd_reasons d =
       (if ca_risk_tier a > (if runtime_sensitive a then HighRisk else StandardWrite)
          then [''declared_risk_floor''] else []) @
       (if ca_method a = DELETE then [''delete_method'']
        else if has_sensitive_effect a then [''sensitive_side_effect''] else []) @
       (if ca_confidence a = Inferred then [''inferred_mutation''] else []) @
       (if ca_observed_state a = Untested then [''unobserved_mutation''] else [])"
  by (cases d) (auto simp: effective_risk_def runtime_sensitive_def Let_def)

lemma effective_risk_total: "ca_method a \<noteq> GET \<Longrightarrow> \<exists>d. effective_risk a = Inr d"
  by (auto simp: effective_risk_def Let_def)

text \<open>
  the effective risk never falls below the declared tier, and the elevated approval is
  required exactly for a deletion, a sensitive side effect, an inferred or an unobserved mutation,
  which also forces the highest tier. A read has no mutation class: it is refused. \<close>
lemma effective_risk_floor:
  "effective_risk a =
     (if ca_method a = GET then Inl (ValueError ''read_action_has_no_mutation_class'')
      else Inr \<lparr>
        rd_tier = max (ca_risk_tier a) (if runtime_sensitive a then HighRisk else StandardWrite),
        rd_approval_level = (if runtime_sensitive a then Elevated else Standard),
        rd_mutation_class =
          (if runtime_sensitive a then Sensitive
           else if ca_method a = PUT \<or> ca_method a = PATCH then Update else Create),
        rd_reasons =
          (if \<not> runtime_sensitive a \<and> ca_risk_tier a = HighRisk
             then [''declared_risk_floor''] else []) @
          (if ca_method a = DELETE then [''delete_method'']
           else if has_sensitive_effect a then [''sensitive_side_effect''] else []) @
          (if ca_confidence a = Inferred then [''inferred_mutation''] else []) @
          (if ca_observed_state a = Untested then [''unobserved_mutation''] else [])\<rparr>)"
proof (cases "ca_method a = GET")
  case True
  then show ?thesis by (simp add: effective_risk_def)
next
  case False
  have floor: "ca_risk_tier a > (if runtime_sensitive a then HighRisk else StandardWrite) \<longleftrightarrow>
      \<not> runtime_sensitive a \<and> ca_risk_tier a = HighRisk"
    by (cases "ca_risk_tier a") (simp_all add: tier_order)
  show ?thesis
    using False by (simp add: effective_risk_Inr floor)
qed

subsection \<open>Spellings of a side effect\<close>

text \<open>\<open>spell t [(s1, t1), ...]\<close> is the text \<open>t s1 t1 ...\<close>: tokens with separators between them.\<close>

fun spell :: "string \<Rightarrow> (string \<times> string) list \<Rightarrow> string" where
  "spell t [] = t"
| "spell t ((sep, u) # rest) = t @ sep @ spell u rest"

definition spelling :: "string \<Rightarrow> (string \<times> string) list \<Rightarrow> bool" where
  "spelling t rest \<longleftrightarrow>
     effect_token t \<and>
     list_all (\<lambda>(sep, u). sep \<noteq> [] \<and> list_all effect_separator sep \<and> effect_token u) rest"

lemma token_char_not_separator:
  "lower_char c \<Longrightarrow> \<not> effect_separator c"
  "digit_char c \<Longrightarrow> \<not> effect_separator c"
  by (auto simp: effect_separator_def space_char_def lower_char_def digit_char_def)

lemma token_no_separator: "effect_token t \<Longrightarrow> \<forall>c \<in> set t. \<not> effect_separator c"
  by (auto simp: effect_token_def list_all_iff dest: token_char_not_separator)

lemma space_is_separator: "space_char c \<Longrightarrow> effect_separator c"
  by (simp add: effect_separator_def)

lemma takeWhile_all_app:
  "\<forall>c \<in> set xs. p c \<Longrightarrow> takeWhile p (xs @ ys) = xs @ takeWhile p ys"
  by (induction xs) auto

lemma dropWhile_all_app:
  "\<forall>c \<in> set xs. p c \<Longrightarrow> dropWhile p (xs @ ys) = dropWhile p ys"
  by (induction xs) auto

lemma spell_head: "spell t rest = t @ (case rest of [] \<Rightarrow> [] | (s, u) # r \<Rightarrow> s @ spell u r)"
  by (cases rest) (auto split: prod.splits)

lemma spelling_Cons:
  "spelling t ((sep, u) # rest) \<longleftrightarrow>
     effect_token t \<and> sep \<noteq> [] \<and> list_all effect_separator sep \<and> spelling u rest"
  by (auto simp: spelling_def)

lemma spell_no_lead:
  "spelling t rest \<Longrightarrow> \<exists>c cs. spell t rest = c # cs \<and> \<not> effect_separator c"
  by (cases t; cases rest)
     (auto simp: spelling_def effect_token_def dest: token_char_not_separator)

lemma split_runs_none:
  assumes "\<forall>c \<in> set t. \<not> p c"
  shows "split_runs p t = [t]"
proof -
  have none: "dropWhile (\<lambda>c. \<not> p c) t = []" using assms by simp
  show ?thesis unfolding split_runs.simps[of p t] none by simp
qed

lemma split_runs_spell:
  "spelling t rest \<Longrightarrow> split_runs effect_separator (spell t rest) = t # map snd rest"
proof (induction rest arbitrary: t)
  case Nil
  then have "\<forall>c \<in> set t. \<not> effect_separator c"
    by (simp add: spelling_def token_no_separator)
  then show ?case by (simp add: split_runs_none)
next
  case (Cons x rest)
  obtain sep u where x: "x = (sep, u)" by (cases x)
  obtain t_ok: "effect_token t" and ne: "sep \<noteq> []" and sep: "list_all effect_separator sep"
    and rest: "spelling u rest"
    using Cons.prems unfolding x spelling_Cons by blast
  obtain c cs where cs: "sep = c # cs" using ne by (cases sep) auto
  obtain d ds where d: "spell u rest = d # ds" "\<not> effect_separator d"
    using spell_no_lead[OF rest] by blast
  have c: "effect_separator c" and all: "\<forall>c \<in> set cs. effect_separator c"
    using sep cs by (auto simp: list_all_iff)
  have tn: "\<forall>c \<in> set t. \<not> effect_separator c" using t_ok by (rule token_no_separator)
  have dw: "dropWhile (\<lambda>c. \<not> effect_separator c) (t @ sep @ spell u rest) = c # cs @ spell u rest"
    using c cs by (simp add: dropWhile_all_app[OF tn])
  have tw: "takeWhile (\<lambda>c. \<not> effect_separator c) (t @ sep @ spell u rest) = t"
    using c cs by (simp add: takeWhile_all_app[OF tn])
  have "dropWhile effect_separator (cs @ spell u rest) = spell u rest"
    using d by (simp add: dropWhile_all_app[OF all])
  then show ?case
    using Cons.IH[OF rest] by (simp add: x split_runs.simps[of _ "t @ sep @ spell u rest"] dw tw)
qed

lemma dropWhile_last_stays:
  "\<forall>c \<in> set xs. p c \<Longrightarrow> \<not> p y \<Longrightarrow> dropWhile p (xs @ y # ys) = y # ys"
  by (induction xs) auto

lemma spell_last:
  "spelling t rest \<Longrightarrow> \<exists>cs c. spell t rest = cs @ [c] \<and> \<not> effect_separator c"
proof (induction rest arbitrary: t)
  case Nil
  then have ne: "t \<noteq> []" and tn: "\<forall>c \<in> set t. \<not> effect_separator c"
    by (auto simp: spelling_def effect_token_def list_all_iff dest: token_char_not_separator)
  then show ?case
    by (metis append_butlast_last_id last_in_set spell.simps(1))
next
  case (Cons x rest)
  obtain sep u where x: "x = (sep, u)" by (cases x)
  then have "spelling u rest" using Cons.prems by (simp add: spelling_Cons)
  then obtain cs c where "spell u rest = cs @ [c]" "\<not> effect_separator c"
    using Cons.IH by blast
  then show ?case by (intro exI[of _ "t @ sep @ cs"] exI[of _ c]) (simp add: x)
qed

lemma strip_spell:
  assumes "spelling t rest" "list_all space_char pre" "list_all space_char post"
  shows "strip space_char (pre @ spell t rest @ post) = spell t rest"
proof -
  obtain c cs where head: "spell t rest = c # cs" "\<not> effect_separator c"
    using spell_no_lead[OF assms(1)] by blast
  obtain ds d where last: "spell t rest = ds @ [d]" "\<not> effect_separator d"
    using spell_last[OF assms(1)] by blast
  have "dropWhile space_char (pre @ spell t rest @ post) = spell t rest @ post"
    unfolding head(1) using assms(2) head(2) space_is_separator
    by (auto simp: list_all_iff intro!: dropWhile_last_stays)
  moreover have "dropWhile space_char (rev post @ d # rev ds) = d # rev ds"
    using assms(3) last(2) space_is_separator
    by (intro dropWhile_last_stays) (auto simp: list_all_iff)
  ultimately show ?thesis by (simp add: strip_def last(1))
qed

text \<open>
  the spelling of a side effect does not matter: with any letter case, any non-empty runs
  of dashes, underscores and white space between its words and any white space around it, an
  effect is classified as the words joined by single underscores are, through the alias table or
  through the table without underscores. \<close>
lemma sensitive_effect_spelling:
  assumes "spelling t rest"
    and "list_all space_char pre" and "list_all space_char post"
    and "list_all ascii_char effect"
    and "map ascii_lower effect = pre @ spell t rest @ post"
  shows "canonical_sensitive_effect effect =
           (case map_of sensitive_effect_aliases (join ''_'' (t # map snd rest)) of
              Some canonical \<Rightarrow> Some canonical
            | None \<Rightarrow> map_of collapsed_sensitive_effect_aliases (join ''_'' (t # map snd rest)))"
proof -
  have tokens: "\<not> list_ex (\<lambda>t. \<not> effect_token t) (t # map snd rest)"
    using assms(1) by (auto simp: spelling_def list_all_iff list_ex_iff)
  show ?thesis
    using assms(4,5) tokens
    by (simp add: canonical_sensitive_effect_def strip_spell[OF assms(1-3)]
        split_runs_spell[OF assms(1)] Let_def)
qed

end
