(* ===== verification/Path_Rendering.thy ===== *)
theory Path_Rendering
  imports Canonical_Json
begin

text \<open>
  Model of the path rendering of \<open>execution/models.py\<close>: \<open>_valid_final_path\<close>,
  \<open>_validate_path_segment\<close> and \<open>render_action_path\<close>, with \<open>urllib.parse\<close>'s \<open>quote\<close> and
  \<open>unquote\<close> on UTF-8 bytes. The lemmas: quoting is inverted by decoding, the bounded decoding
  loop reaches its fixed point, so its final \<open>raise\<close> is dead code, and a rendered path has the
  segments of its template, with no traversal in any of them however often it is decoded.
\<close>

section \<open>Percent encoding\<close>

definition hex_upper :: "nat \<Rightarrow> char" where
  "hex_upper n = ''0123456789ABCDEF'' ! n"

definition quote_safe :: "char \<Rightarrow> bool" where
  "quote_safe c \<longleftrightarrow> alpha_char c \<or> digit_char c \<or> c \<in> set ''-._~''"

definition quote_byte :: "char \<Rightarrow> string" where
  "quote_byte c =
     (if quote_safe c then [c]
      else let n = (of_char c :: nat)
           in [CHR ''%'', hex_upper (n div 16), hex_upper (n mod 16)])"

definition quote :: "string \<Rightarrow> string" where
  "quote s = concat (map quote_byte s)"

text \<open>The value of a hexadecimal digit of either case.\<close>

definition hex_digit_value :: "char \<Rightarrow> nat option" where
  "hex_digit_value c =
     map_of (zip ''0123456789ABCDEFabcdef'' ([0..<16] @ [10..<16])) c"

fun percent_decode :: "string \<Rightarrow> string" where
  "percent_decode (c # a # b # r) =
     (if c = CHR ''%''
      then (case (hex_digit_value a, hex_digit_value b) of
              (Some h, Some l) \<Rightarrow> char_of (16 * h + l) # percent_decode r
            | _ \<Rightarrow> c # percent_decode (a # b # r))
      else c # percent_decode (a # b # r))"
| "percent_decode s = s"

text \<open>Bytes that a strict UTF-8 decoder accepts.\<close>

definition byte_in :: "nat \<Rightarrow> nat \<Rightarrow> char \<Rightarrow> bool" where
  "byte_in l h c \<longleftrightarrow> l \<le> (of_char c :: nat) \<and> (of_char c :: nat) \<le> h"

fun utf8_valid :: "string \<Rightarrow> bool" where
  "utf8_valid [] = True"
| "utf8_valid (a # s) =
     (if byte_in 0 127 a then utf8_valid s
      else case s of
        [] \<Rightarrow> False
      | b # s2 \<Rightarrow>
         (if byte_in 0xC2 0xDF a then byte_in 0x80 0xBF b \<and> utf8_valid s2
          else case s2 of
            [] \<Rightarrow> False
          | c # s3 \<Rightarrow>
             (if byte_in 0xE0 0xEF a
              then byte_in (if byte_in 0xE0 0xE0 a then 0xA0 else 0x80)
                     (if byte_in 0xED 0xED a then 0x9F else 0xBF) b \<and>
                   byte_in 0x80 0xBF c \<and> utf8_valid s3
              else case s3 of
                [] \<Rightarrow> False
              | d # s4 \<Rightarrow>
                  byte_in 0xF0 0xF4 a \<and>
                  byte_in (if byte_in 0xF0 0xF0 a then 0x90 else 0x80)
                    (if byte_in 0xF4 0xF4 a then 0x8F else 0xBF) b \<and>
                  byte_in 0x80 0xBF c \<and> byte_in 0x80 0xBF d \<and> utf8_valid s4)))"

text \<open>The maximal runs of ASCII characters, whose escapes \<open>unquote\<close> decodes separately.\<close>

function ascii_runs :: "string \<Rightarrow> string list" where
  "ascii_runs s =
     (case dropWhile (\<lambda>c. \<not> byte_in 0 127 c) s of
        [] \<Rightarrow> []
      | c # r \<Rightarrow> takeWhile (byte_in 0 127) (c # r) # ascii_runs (dropWhile (byte_in 0 127) r))"
  by pat_completeness auto
termination
proof (relation "measure length")
  fix s :: string and c r
  assume "dropWhile (\<lambda>c. \<not> byte_in 0 127 c) s = c # r"
  then have "length (c # r) \<le> length s" by (metis length_dropWhile_le)
  then show "(dropWhile (byte_in 0 127) r, s) \<in> measure length"
    using length_dropWhile_le[of "byte_in 0 127" r] by simp
qed simp

declare ascii_runs.simps [simp del]

definition unquote :: "string \<Rightarrow> string result" where
  "unquote s =
     (if CHR ''%'' \<notin> set s then Inr s
      else if list_all (\<lambda>run. utf8_valid (percent_decode run)) (ascii_runs s)
        then Inr (percent_decode s)
      else Inl (ValueError ''unicode_decode_error''))"

section \<open>Paths\<close>

fun has_prefix :: "string \<Rightarrow> string \<Rightarrow> bool" where
  "has_prefix [] s = True"
| "has_prefix (c # p) [] = False"
| "has_prefix (c # p) (d # s) = (c = d \<and> has_prefix p s)"

fun contains :: "string \<Rightarrow> string \<Rightarrow> bool" where
  "contains p [] = (p = [])"
| "contains p (c # s) = (has_prefix p (c # s) \<or> contains p s)"

definition valid_final_path :: "string \<Rightarrow> bool" where
  "valid_final_path value \<longleftrightarrow>
     has_prefix ''/'' value \<and>
     \<not> contains ''//'' value \<and>
     \<not> contains ''?'' value \<and>
     \<not> contains ''#'' value \<and>
     \<not> contains [CHR 0x5C] value \<and>
     \<not> contains ''://'' value"

text \<open>\<open>str.split\<close> at a one-character separator.\<close>

fun split_at :: "char \<Rightarrow> string \<Rightarrow> string list" where
  "split_at sep [] = [[]]"
| "split_at sep (c # s) =
     (if c = sep then [] # split_at sep s
      else case split_at sep s of
             [] \<Rightarrow> [[c]]
           | seg # segs \<Rightarrow> (c # seg) # segs)"

text \<open>A character of category \<open>Cc\<close>: U+0000 to U+001F and U+007F to U+009F.\<close>

fun has_control :: "string \<Rightarrow> bool" where
  "has_control [] = False"
| "has_control (c # s) =
     (byte_in 0 31 c \<or> byte_in 127 127 c \<or>
      (byte_in 0xC2 0xC2 c \<and> (case s of [] \<Rightarrow> False | d # _ \<Rightarrow> byte_in 0x80 0x9F d)) \<or>
      has_control s)"

definition segment_unsafe :: "string \<Rightarrow> bool" where
  "segment_unsafe decoded \<longleftrightarrow>
     decoded = ''.'' \<or> decoded = ''..'' \<or>
     CHR ''/'' \<in> set decoded \<or> CHR 0x5C \<in> set decoded \<or>
     CHR ''?'' \<in> set decoded \<or> CHR ''#'' \<in> set decoded \<or>
     has_control decoded"

abbreviation invalid_action_path :: mercury_error where
  "invalid_action_path \<equiv> ValueError ''invalid_action_path''"

fun decode_loop :: "nat \<Rightarrow> string \<Rightarrow> unit result" where
  "decode_loop 0 decoded = Inl invalid_action_path"
| "decode_loop (Suc n) decoded =
     (if segment_unsafe decoded then Inl invalid_action_path
      else ebind (unquote decoded) (\<lambda>next_value.
        if next_value = decoded then Inr () else decode_loop n next_value))"

text \<open>\<open>len\<close> of a string: its bytes that do not continue a character.\<close>

definition char_count :: "string \<Rightarrow> nat" where
  "char_count s = length (filter (\<lambda>c. \<not> byte_in 0x80 0xBF c) s)"

definition validate_path_segment :: "string \<Rightarrow> bool \<Rightarrow> unit result" where
  "validate_path_segment v allow_empty =
     (if v = [] \<and> \<not> allow_empty then Inl invalid_action_path
      else decode_loop (char_count v + 2) v)"

definition path_placeholder :: "string \<Rightarrow> string option" where
  "path_placeholder seg =
     (case seg of
        [] \<Rightarrow> None
      | c # s \<Rightarrow>
         (if c = CHR ''{'' \<and> s \<noteq> [] \<and> last s = CHR ''}'' \<and>
             (case butlast s of
                [] \<Rightarrow> False
              | d # r \<Rightarrow> alpha_char d \<and>
                  list_all (\<lambda>x. alpha_char x \<or> digit_char x \<or> x = CHR ''_'') r)
          then Some (butlast s) else None))"

fun scan_segments ::
    "string list \<Rightarrow> (string \<times> nat) list \<Rightarrow> string list
       \<Rightarrow> ((string \<times> nat) list \<times> string list) result" where
  "scan_segments [] placeholders rendered = Inr (placeholders, rendered)"
| "scan_segments (seg # segs) placeholders rendered =
     (case path_placeholder seg of
        Some name \<Rightarrow>
          (if name \<in> fst ` set placeholders then Inl invalid_action_path
           else scan_segments segs (placeholders @ [(name, length rendered)]) (rendered @ [[]]))
      | None \<Rightarrow>
          (if CHR ''{'' \<in> set seg \<or> CHR ''}'' \<in> set seg then Inl invalid_action_path
           else ebind (validate_path_segment seg (seg = [])) (\<lambda>_.
             scan_segments segs placeholders (rendered @ [seg]))))"

text \<open>\<open>str(raw_value)\<close> of a string or an integer that is not a \<open>bool\<close>.\<close>

fun segment_text :: "json \<Rightarrow> string result" where
  "segment_text (JStr s) = Inr s"
| "segment_text (JInt i) = Inr (show_int i)"
| "segment_text _ = Inl invalid_action_path"

fun fill_segments ::
    "(string \<times> nat) list \<Rightarrow> (string \<times> json) list \<Rightarrow> string list \<Rightarrow> string list result" where
  "fill_segments [] params rendered = Inr rendered"
| "fill_segments ((name, index) # placeholders) params rendered =
     (case map_of params name of
        None \<Rightarrow> Inl (LookupErr name)
      | Some raw_value \<Rightarrow>
          ebind (segment_text raw_value) (\<lambda>raw_segment.
          ebind (validate_path_segment raw_segment False) (\<lambda>_.
          fill_segments placeholders params (rendered[index := quote raw_segment]))))"

definition render_action_path :: "string \<Rightarrow> json \<Rightarrow> string result" where
  "render_action_path path_template path_parameters =
     (if \<not> valid_final_path path_template then Inl invalid_action_path
      else case path_parameters of
        JObj params \<Rightarrow>
          ebind (scan_segments (split_at (CHR ''/'') path_template) [] [])
            (\<lambda>(placeholders, rendered_segments).
          if set (map fst params) \<noteq> set (map fst placeholders) then Inl invalid_action_path
          else ebind (fill_segments placeholders params rendered_segments) (\<lambda>segments.
            let rendered = join ''/'' segments in
            if \<not> valid_final_path rendered then Inl invalid_action_path else Inr rendered))
      | _ \<Rightarrow> Inl invalid_action_path)"

section \<open>Quoting and decoding\<close>

lemma hex_value_upper: "n < 16 \<Longrightarrow> hex_digit_value (hex_upper n) = Some n"
proof -
  assume "n < 16"
  moreover have "list_all (\<lambda>n. hex_digit_value (hex_upper n) = Some n) [0..<16]" by code_simp
  ultimately show ?thesis using \<open>n < 16\<close> by (simp add: list_all_iff)
qed

lemma hex_upper_char: "n < 16 \<Longrightarrow> hex_upper n \<in> set ''0123456789ABCDEF''"
  unfolding hex_upper_def by (rule nth_mem) simp

lemma map_of_zip_key: "map_of (zip xs ys) x = Some y \<Longrightarrow> x \<in> set xs"
  by (meson map_of_SomeD set_zip_leftD)

lemma hex_value_ascii: "hex_digit_value a = Some h \<Longrightarrow> \<not> byte_in 0x80 0xBF a"
proof -
  assume "hex_digit_value a = Some h"
  then have "a \<in> set ''0123456789ABCDEFabcdef''"
    unfolding hex_digit_value_def by (rule map_of_zip_key)
  moreover have "list_all (\<lambda>c. \<not> byte_in 0x80 0xBF c) ''0123456789ABCDEFabcdef''"
    by code_simp
  ultimately show ?thesis unfolding list_all_iff by blast
qed

lemma char_nibble: "(of_char c :: nat) div 16 < 16"
proof -
  have "(of_char c :: nat) < 256" by (rule nat_of_char_less_256)
  then show ?thesis by (intro less_mult_imp_div_less) simp
qed

lemma percent_decode_plain: "c \<noteq> CHR ''%'' \<Longrightarrow> percent_decode (c # s) = c # percent_decode s"
  by (cases s; cases "tl s") auto

lemma percent_decode_quote_byte:
  "percent_decode (quote_byte c @ s) = c # percent_decode s"
proof (cases "quote_safe c")
  case True
  then have "c \<noteq> CHR ''%''" by (auto simp: quote_safe_def char_classes)
  with True show ?thesis by (simp add: quote_byte_def percent_decode_plain)
next
  case False
  note d = char_nibble[of c]
  have "char_of (16 * ((of_char c :: nat) div 16) + of_char c mod 16) = c" by simp
  with False d show ?thesis
    by (simp add: quote_byte_def Let_def hex_value_upper del: mult_div_mod_eq)
qed

lemma percent_decode_quote: "percent_decode (quote s) = s"
  by (induction s) (simp_all add: quote_def percent_decode_quote_byte)

lemma quote_chars: "x \<in> set (quote s) \<Longrightarrow> quote_safe x \<or> x = CHR ''%''"
proof -
  assume "x \<in> set (quote s)"
  then obtain c where x: "x \<in> set (quote_byte c)" by (auto simp: quote_def)
  note d = char_nibble[of c]
  have hex: "y \<in> set ''0123456789ABCDEF'' \<Longrightarrow> quote_safe y" for y
    by (auto simp: quote_safe_def char_classes)
  show ?thesis
    using x hex[OF hex_upper_char[OF d]] hex[OF hex_upper_char[of "of_char c mod 16"]]
    by (auto simp: quote_byte_def Let_def split: if_splits)
qed

lemma quote_eq_Nil [simp]: "quote s = [] \<longleftrightarrow> s = []"
  by (cases s) (auto simp: quote_def quote_byte_def Let_def)

section \<open>The decoding loop\<close>

lemma unquote_Inr: "unquote s = Inr t \<Longrightarrow> t = percent_decode s"
proof -
  have "CHR ''%'' \<notin> set s \<Longrightarrow> percent_decode s = s"
    by (induction s) (auto simp: percent_decode_plain)
  then show "unquote s = Inr t \<Longrightarrow> t = percent_decode s"
    by (auto simp: unquote_def split: if_splits)
qed

lemma char_count_Cons:
  "char_count (c # s) = (if byte_in 0x80 0xBF c then 0 else 1) + char_count s"
  by (simp add: char_count_def)

lemma percent_decode_shrinks:
  "percent_decode s = s \<or> char_count (percent_decode s) < char_count s"
proof (induction s rule: percent_decode.induct)
  case (1 c a b r)
  show ?case
  proof (cases "c = CHR ''%'' \<and> hex_digit_value a \<noteq> None \<and> hex_digit_value b \<noteq> None")
    case True
    then obtain h l where hl: "hex_digit_value a = Some h" "hex_digit_value b = Some l" by auto
    have p: "\<not> byte_in 0x80 0xBF (CHR ''%'')" by code_simp
    have "char_count (percent_decode r) \<le> char_count r"
      using 1(3)[OF _ refl hl(1,2)] True by auto
    then show ?thesis
      using True hl p hex_value_ascii[OF hl(1)] hex_value_ascii[OF hl(2)]
      by (simp add: char_count_Cons)
  next
    case False
    then have step: "percent_decode (c # a # b # r) = c # percent_decode (a # b # r)"
      by (auto split: option.splits)
    have "percent_decode (a # b # r) = a # b # r \<or>
        char_count (percent_decode (a # b # r)) < char_count (a # b # r)"
      using 1 False by (cases "c = CHR ''%''"; cases "hex_digit_value a"; cases "hex_digit_value b") auto
    then show ?thesis unfolding step by (auto simp: char_count_Cons[of c])
  qed
qed auto

text \<open>A text one decoding of which is safe and possible.\<close>

definition decodes_safely :: "string \<Rightarrow> bool" where
  "decodes_safely s \<longleftrightarrow> \<not> segment_unsafe s \<and> is_ok (unquote s)"

lemma is_ok_Inr [simp]: "is_ok (Inr x)" and is_ok_Inl [simp]: "\<not> is_ok (Inl e)"
  by (simp_all add: is_ok_def)

lemma decode_loop_iff:
  "char_count s < n \<Longrightarrow>
     decode_loop n s = Inr () \<longleftrightarrow> (\<forall>k. decodes_safely ((percent_decode ^^ k) s))"
proof (induction n arbitrary: s)
  case 0
  then show ?case by simp
next
  case (Suc n)
  show ?case
  proof (cases "decodes_safely s")
    case False
    then have "decode_loop (Suc n) s \<noteq> Inr ()"
      by (cases "unquote s") (auto simp: decodes_safely_def)
    moreover have "\<not> decodes_safely ((percent_decode ^^ 0) s)" using False by simp
    ultimately show ?thesis by blast
  next
    case True
    then obtain t where t: "unquote s = Inr t"
      by (cases "unquote s") (auto simp: decodes_safely_def)
    then have td: "t = percent_decode s" by (rule unquote_Inr)
    show ?thesis
    proof (cases "percent_decode s = s")
      case fixed: True
      have "(percent_decode ^^ k) s = s" for k by (induction k) (simp_all add: fixed)
      then show ?thesis using True t td fixed by (simp add: decodes_safely_def)
    next
      case False
      then have "char_count (percent_decode s) < n"
        using percent_decode_shrinks[of s] Suc.prems by linarith
      then have "decode_loop n (percent_decode s) = Inr () \<longleftrightarrow>
          (\<forall>k. decodes_safely ((percent_decode ^^ Suc k) s))"
        using Suc.IH[of "percent_decode s"] by (simp add: funpow_swap1)
      moreover have "(\<forall>k. decodes_safely ((percent_decode ^^ k) s)) \<longleftrightarrow>
          (\<forall>k. decodes_safely ((percent_decode ^^ Suc k) s))"
        using True by (metis funpow_0 not0_implies_Suc)
      ultimately show ?thesis
        using True t td False by (simp add: decodes_safely_def)
    qed
  qed
qed

lemma validate_path_segment_iff:
  "validate_path_segment v allow_empty = Inr () \<longleftrightarrow>
     (v \<noteq> [] \<or> allow_empty) \<and> (\<forall>k. decodes_safely ((percent_decode ^^ k) v))"
  using decode_loop_iff[of v "char_count v + 2"] by (simp add: validate_path_segment_def)

text \<open>C11: the bounded decoding loop of a path segment is exact: it accepts a segment if and only
  if the segment is not empty (or may be) and no number of percent-decodings of it, however large,
  gives a dot segment, a separator, a control character or invalid UTF-8; so the bound
  \<open>len(value) + 2\<close> is never what refuses a segment. \<close>
theorem validate_path_segment_exact:
  "validate_path_segment v allow_empty = Inr () \<longleftrightarrow>
     \<not> (v = [] \<and> \<not> allow_empty) \<and>
     (\<forall>k. \<not> segment_unsafe ((percent_decode ^^ k) v) \<and> is_ok (unquote ((percent_decode ^^ k) v)))"
  by (auto simp: validate_path_segment_iff decodes_safely_def)

section \<open>Rendering\<close>

lemma has_prefix_single [simp]: "has_prefix [c] s \<longleftrightarrow> (\<exists>r. s = c # r)"
  by (cases s) auto

lemma contains_single [simp]: "contains [c] s \<longleftrightarrow> c \<in> set s"
  by (induction s) auto

lemma split_at_none [simp]: "sep \<notin> set s \<Longrightarrow> split_at sep s = [s]"
  by (induction s) auto

lemma split_at_append:
  "sep \<notin> set s \<Longrightarrow> split_at sep (s @ sep # r) = s # split_at sep r"
  by (induction s) auto

lemma split_at_join:
  "segs \<noteq> [] \<Longrightarrow> \<forall>seg \<in> set segs. sep \<notin> set seg \<Longrightarrow> split_at sep (join [sep] segs) = segs"
  by (induction "[sep]" segs rule: join.induct) (auto simp: split_at_append)

lemma split_at_neq_Nil [simp]: "split_at sep s \<noteq> []"
  by (induction s) (auto split: list.splits)

text \<open>What the scan of the template establishes, for any segments scanned so far.\<close>

lemma scan_segments_Inr:
  assumes "scan_segments segs ph rs = Inr (ph', rs')"
    and "\<forall>(n, i) \<in> set ph. i < length rs" and "distinct (map snd ph)"
  shows "rs' = rs @ map (\<lambda>s. if path_placeholder s = None then s else []) segs \<and>
         distinct (map snd ph') \<and> set ph \<subseteq> set ph' \<and>
         (\<forall>(n, i) \<in> set ph'. (n, i) \<in> set ph \<or>
            (\<exists>j < length segs. i = length rs + j \<and> path_placeholder (segs ! j) = Some n)) \<and>
         (\<forall>j < length segs. \<forall>n. path_placeholder (segs ! j) = Some n \<longrightarrow>
            (n, length rs + j) \<in> set ph') \<and>
         (\<forall>seg \<in> set segs. path_placeholder seg = None \<longrightarrow>
            validate_path_segment seg (seg = []) = Inr ())"
  using assms
proof (induction segs arbitrary: ph rs)
  case Nil
  then show ?case by auto
next
  case (Cons seg segs)
  show ?case
  proof (cases "path_placeholder seg")
    case None
    then have step: "scan_segments segs ph (rs @ [seg]) = Inr (ph', rs')"
      and ok: "validate_path_segment seg (seg = []) = Inr ()"
      using Cons.prems(1) by (auto simp: outcome_simps split: if_splits)
    have pre: "\<forall>(n, i) \<in> set ph. i < length (rs @ [seg])" using Cons.prems(2) by auto
    note ih = Cons.IH[OF step pre Cons.prems(3)]
    have "rs' = rs @ map (\<lambda>s. if path_placeholder s = None then s else []) (seg # segs)"
      using ih None by simp
    moreover have "\<forall>(n, i) \<in> set ph'. (n, i) \<in> set ph \<or>
        (\<exists>j < length (seg # segs). i = length rs + j \<and> path_placeholder ((seg # segs) ! j) = Some n)"
      using ih by (fastforce intro: exI[of _ "Suc _"])
    moreover have "\<forall>j < length (seg # segs). \<forall>n. path_placeholder ((seg # segs) ! j) = Some n \<longrightarrow>
        (n, length rs + j) \<in> set ph'"
      using ih None by (auto simp: nth_Cons split: nat.splits)
    ultimately show ?thesis using ih ok by simp
  next
    case (Some name)
    let ?ph = "ph @ [(name, length rs)]"
    have step: "scan_segments segs ?ph (rs @ [[]]) = Inr (ph', rs')"
      using Cons.prems(1) Some by (auto split: if_splits)
    have pre: "\<forall>(n, i) \<in> set ?ph. i < length (rs @ [[]])" using Cons.prems(2) by auto
    have dis: "distinct (map snd ?ph)" using Cons.prems(2,3) by auto
    note ih = Cons.IH[OF step pre dis]
    have "rs' = rs @ map (\<lambda>s. if path_placeholder s = None then s else []) (seg # segs)"
      using ih Some by simp
    moreover have "\<forall>(n, i) \<in> set ph'. (n, i) \<in> set ph \<or>
        (\<exists>j < length (seg # segs). i = length rs + j \<and> path_placeholder ((seg # segs) ! j) = Some n)"
      using ih Some by (fastforce intro: exI[of _ "Suc _"] exI[of _ 0])
    moreover have "\<forall>j < length (seg # segs). \<forall>n. path_placeholder ((seg # segs) ! j) = Some n \<longrightarrow>
        (n, length rs + j) \<in> set ph'"
      using ih Some by (auto simp: nth_Cons split: nat.splits)
    ultimately show ?thesis using ih Some by simp
  qed
qed

lemma fill_segments_Inr:
  assumes "fill_segments ph params rs = Inr rs'"
    and "distinct (map snd ph)" and "\<forall>(n, i) \<in> set ph. i < length rs"
  shows "length rs' = length rs \<and>
         (\<forall>i < length rs. i \<notin> snd ` set ph \<longrightarrow> rs' ! i = rs ! i) \<and>
         (\<forall>(n, i) \<in> set ph. \<exists>v raw. map_of params n = Some v \<and> segment_text v = Inr raw \<and>
            validate_path_segment raw False = Inr () \<and> rs' ! i = quote raw)"
  using assms
proof (induction ph arbitrary: rs)
  case Nil
  then show ?case by simp
next
  case (Cons x ph)
  obtain n i where x: "x = (n, i)" by (cases x)
  obtain v raw where v: "map_of params n = Some v" "segment_text v = Inr raw"
      "validate_path_segment raw False = Inr ()"
    and step: "fill_segments ph params (rs[i := quote raw]) = Inr rs'"
    using Cons.prems(1) by (auto simp: x outcome_simps split: option.splits)
  have ih: "length rs' = length (rs[i := quote raw]) \<and>
      (\<forall>k < length (rs[i := quote raw]). k \<notin> snd ` set ph \<longrightarrow> rs' ! k = rs[i := quote raw] ! k) \<and>
      (\<forall>(n, i) \<in> set ph. \<exists>v raw. map_of params n = Some v \<and> segment_text v = Inr raw \<and>
        validate_path_segment raw False = Inr () \<and> rs' ! i = quote raw)"
    using Cons.prems(2,3) by (intro Cons.IH[OF step]) (auto simp: x)
  have "i \<notin> snd ` set ph" and "i < length rs" using Cons.prems(2,3) by (auto simp: x)
  then have "rs' ! i = quote raw" using ih by simp
  then show ?case using ih v by (auto simp: x)
qed

lemma quote_char_plain:
  assumes "quote_safe c \<or> c = CHR ''%''"
  shows "\<not> byte_in 0 31 c \<and> \<not> byte_in 127 127 c \<and> \<not> byte_in 0xC2 0xC2 c"
proof -
  let ?all = "''abcdefghijklmnopqrstuvwxyz'' @ ''ABCDEFGHIJKLMNOPQRSTUVWXYZ'' @ ''0123456789'' @ ''-._~'' @ ''%''"
  have "c \<in> set ?all"
    using assms unfolding quote_safe_def char_classes set_append by auto
  moreover have "list_all (\<lambda>c. \<not> byte_in 0 31 c \<and> \<not> byte_in 127 127 c \<and> \<not> byte_in 0xC2 0xC2 c) ?all"
    by code_simp
  ultimately show ?thesis unfolding list_all_iff by blast
qed

lemma no_control_plain:
  "\<forall>c \<in> set s. quote_safe c \<or> c = CHR ''%'' \<Longrightarrow> \<not> has_control s"
proof (induction s)
  case (Cons c s)
  then show ?case using quote_char_plain[of c] by simp
qed simp

text \<open>The text a segment of the template is rendered to.\<close>

definition rendered_segment :: "(string \<times> json) list \<Rightarrow> string \<Rightarrow> string" where
  "rendered_segment params seg =
     (case path_placeholder seg of
        None \<Rightarrow> seg
      | Some n \<Rightarrow>
          (case map_of params n of
             None \<Rightarrow> []
           | Some v \<Rightarrow> (case segment_text v of Inl _ \<Rightarrow> [] | Inr raw \<Rightarrow> quote raw)))"

lemma quoted_safe:
  assumes "validate_path_segment raw False = Inr ()"
  shows "\<not> segment_unsafe ((percent_decode ^^ k) (quote raw))" and "quote raw \<noteq> []"
proof -
  have raw: "raw \<noteq> []" "\<And>k. \<not> segment_unsafe ((percent_decode ^^ k) raw)"
    using assms by (simp_all add: validate_path_segment_iff decodes_safely_def)
  show "quote raw \<noteq> []" using raw(1) by simp
  show "\<not> segment_unsafe ((percent_decode ^^ k) (quote raw))"
  proof (cases k)
    case (Suc l)
    then show ?thesis using raw(2)[of l] by (simp add: funpow_swap1 percent_decode_quote)
  next
    case 0
    have decoded: "percent_decode (quote raw) = raw" by (rule percent_decode_quote)
    have "quote raw \<noteq> ''.''" "quote raw \<noteq> ''..''"
      using decoded raw(2)[of 0] by (auto simp: segment_unsafe_def)
    moreover have "x \<notin> set (quote raw)" if "\<not> quote_safe x" "x \<noteq> CHR ''%''" for x
      using that quote_chars by blast
    moreover have "\<not> has_control (quote raw)"
      using quote_chars by (intro no_control_plain) blast
    ultimately show ?thesis
      using 0 by (auto simp: segment_unsafe_def quote_safe_def char_classes)
  qed
qed


lemma render_action_path_parts:
  assumes "render_action_path t ps = Inr p"
  obtains params segs where "ps = JObj params" "segs = split_at (CHR ''/'') t"
    "p = join ''/'' (map (rendered_segment params) segs)" "valid_final_path p"
    "\<And>seg. seg \<in> set segs \<Longrightarrow> \<not> segment_unsafe ((percent_decode ^^ k) (rendered_segment params seg))"
proof -
  define segs where "segs = split_at (CHR ''/'') t"
  obtain params ph rs rs' where params: "ps = JObj params"
    and scan: "scan_segments segs [] [] = Inr (ph, rs)"
    and fill: "fill_segments ph params rs = Inr rs'"
    and p: "p = join ''/'' rs'" "valid_final_path p"
    using assms unfolding render_action_path_def segs_def
    by (auto simp: outcome_simps Let_def split: json.splits if_splits)
  have s: "rs = map (\<lambda>s. if path_placeholder s = None then s else []) segs"
      "distinct (map snd ph)"
      "\<forall>(n, i) \<in> set ph. i < length segs \<and> path_placeholder (segs ! i) = Some n"
      "\<forall>j < length segs. \<forall>n. path_placeholder (segs ! j) = Some n \<longrightarrow> (n, j) \<in> set ph"
      "\<forall>seg \<in> set segs. path_placeholder seg = None \<longrightarrow> validate_path_segment seg (seg = []) = Inr ()"
    using scan_segments_Inr[OF scan] by auto
  then have len: "\<forall>(n, i) \<in> set ph. i < length rs" by auto
  note f = fill_segments_Inr[OF fill s(2) len]
  have nth: "rs' ! i = rendered_segment params (segs ! i) \<and>
      \<not> segment_unsafe ((percent_decode ^^ k) (rs' ! i))" if i: "i < length segs" for i
  proof (cases "path_placeholder (segs ! i)")
    case None
    then have "i \<notin> snd ` set ph" using s(3) by auto
    then have "rs' ! i = segs ! i" using f i None by (simp add: s(1))
    then show ?thesis using None s(5) i
      by (simp add: rendered_segment_def validate_path_segment_iff decodes_safely_def)
  next
    case (Some n)
    then have "(n, i) \<in> set ph" using s(4) i by simp
    then obtain v raw where "map_of params n = Some v" "segment_text v = Inr raw"
        "validate_path_segment raw False = Inr ()" "rs' ! i = quote raw"
      using f by blast
    then show ?thesis using Some quoted_safe(1) by (simp add: rendered_segment_def)
  qed
  have rs': "rs' = map (rendered_segment params) segs"
    using f nth by (intro nth_equalityI) (auto simp: s(1))
  show ?thesis
  proof (rule that[OF params refl])
    show "p = join ''/'' (map (rendered_segment params) (split_at (CHR ''/'') t))"
      using p(1) rs' by (simp add: segs_def)
    show "valid_final_path p" by (rule p(2))
    fix seg assume "seg \<in> set (split_at (CHR ''/'') t)"
    then obtain i where "i < length segs" "seg = segs ! i"
      by (metis in_set_conv_nth segs_def)
    then show "\<not> segment_unsafe ((percent_decode ^^ k) (rendered_segment params seg))"
      using nth[of i] by metis
  qed
qed

text \<open>C10: a rendered path has exactly the segments of its template, each static one unchanged and
  each placeholder replaced by the quoted text of its parameter, which decodes to that text; and no
  segment of it, decoded any number of times, is a dot segment or contains a separator or a control
  character: a parameter cannot change the route of the request. \<close>
theorem render_action_path_confined:
  assumes "render_action_path path_template path_parameters = Inr p"
  shows "\<exists>params. path_parameters = JObj params \<and>
           split_at (CHR ''/'') p =
             map (rendered_segment params) (split_at (CHR ''/'') path_template) \<and>
           valid_final_path p \<and>
           (\<forall>seg \<in> set (split_at (CHR ''/'') p).
              \<forall>k. \<not> segment_unsafe ((percent_decode ^^ k) seg)) \<and>
           (\<forall>raw. percent_decode (quote raw) = raw)"
proof -
  obtain params where params: "path_parameters = JObj params"
    and p: "p = join ''/'' (map (rendered_segment params) (split_at (CHR ''/'') path_template))"
      "valid_final_path p"
    using render_action_path_parts[OF assms] by metis
  have safe: "\<not> segment_unsafe ((percent_decode ^^ k) (rendered_segment params seg))"
    if "seg \<in> set (split_at (CHR ''/'') path_template)" for seg k
    using render_action_path_parts[OF assms, of k] that params by (metis json.inject(6))
  then have "\<forall>seg \<in> set (map (rendered_segment params) (split_at (CHR ''/'') path_template)).
      CHR ''/'' \<notin> set seg"
    using safe[of _ 0] by (auto simp: segment_unsafe_def)
  then have "split_at (CHR ''/'') p =
      map (rendered_segment params) (split_at (CHR ''/'') path_template)"
    unfolding p(1) by (intro split_at_join) auto
  with safe params p(2) show ?thesis by (auto simp: percent_decode_quote)
qed

theorem render_action_path_confined_witness:
  "split_at (CHR ''/'') ''/orders/a%20%2520b/7'' =
     map (rendered_segment [(''id'', JStr ''a %20b''), (''n'', JInt 7)])
       (split_at (CHR ''/'') ''/orders/{id}/{n}'')"
proof -
  have "render_action_path ''/orders/{id}/{n}'' (JObj [(''id'', JStr ''a %20b''), (''n'', JInt 7)]) =
      Inr ''/orders/a%20%2520b/7''"
    by code_simp
  then show ?thesis using render_action_path_confined by blast
qed

end
