(* ===== verification/Prepared_Request.thy ===== *)
theory Prepared_Request
  imports Risk_Policy Path_Rendering
begin

text \<open>
  Model of \<open>PreparedRequest\<close> and \<open>PreflightActionBinding\<close> (\<open>execution/models.py\<close>): the
  confirmation-bound preview of one ERP mutation, its validator, its construction from a request
  template and its public projection.

  \<open>request_lib\<close> extends \<open>pylib\<close> with \<open>redact_text\<close>, the regular expressions of
  \<open>safety/redaction.py\<close>. \<open>datetime.now(UTC)\<close> and \<open>secrets.token_hex(16)\<close> are arguments.
  \<open>deep_freeze\<close> makes a value immutable and is the identity here.
\<close>

record request_lib = pylib +
  redact_text :: "string \<Rightarrow> string"

section \<open>Data\<close>

type_synonym json_dict = "(string \<times> json) list"

datatype request_state =
    Previewed | AwaitingConfirmation | ReadyToExecute | Executing | Succeeded | RequestFailed
  | OutcomeUnknown

fun state_value :: "request_state \<Rightarrow> string" where
  "state_value Previewed = ''previewed''"
| "state_value AwaitingConfirmation = ''awaiting_confirmation''"
| "state_value ReadyToExecute = ''ready_to_execute''"
| "state_value Executing = ''executing''"
| "state_value Succeeded = ''succeeded''"
| "state_value RequestFailed = ''failed''"
| "state_value OutcomeUnknown = ''outcome_unknown''"

record preflight_binding =
  pb_action_id :: string
  pb_version_id :: string
  pb_connector_id :: string
  pb_method :: http_method
  pb_path_template :: string

record prepared_request =
  pr_request_id :: string
  pr_repository_id :: string
  pr_connector_id :: string
  pr_environment :: string
  pr_action_id :: string
  pr_version_id :: string
  pr_method :: http_method
  pr_path_template :: string
  pr_final_path :: string
  pr_sanitized_summary :: json_dict
  pr_request_inputs :: json_dict
  pr_payload_hash :: string
  pr_risk_tier :: risk_tier
  pr_approval_level :: approval_level
  pr_mutation_class :: mutation_class
  pr_credential_revision :: string
  pr_preflight_actions :: "preflight_binding list"
  pr_approval_count :: int
  pr_state :: request_state
  pr_failure_reason :: "string option"
  pr_response_summary :: json_dict
  pr_created_at :: datetime
  pr_expires_at :: datetime

definition PREVIEW_TTL :: int where
  "PREVIEW_TTL = seconds (15 * 60)"

definition mutating_methods :: "http_method list" where
  "mutating_methods = [POST, PUT, PATCH, DELETE]"

definition forbidden_header_names :: "string list" where
  "forbidden_header_names =
     [''authorization'', ''cookie'', ''host'', ''proxy-authorization'', ''set-cookie'']"

definition preview_summary_keys :: "string list" where
  "preview_summary_keys =
     [''amount'', ''body'', ''content_type'', ''count'', ''currency'', ''customer'', ''document'',
      ''document_type'', ''fields'', ''files'', ''has_body'', ''headers'', ''idempotency'',
      ''items'', ''line_items'', ''name'', ''operation'', ''path'', ''query'', ''record'',
      ''records'', ''request'', ''resource'', ''resources'', ''total'']"

definition response_summary_keys :: "string list" where
  "response_summary_keys =
     [''count'', ''customer'', ''data'', ''document_number'', ''error'', ''error_code'',
      ''http_status'', ''invoice_number'', ''items'', ''latency_ms'', ''outcome'',
      ''provider_code'', ''provider_status'', ''result'', ''status'', ''status_class'',
      ''success'']"

definition sensitive_public_key_parts :: "string list" where
  "sensitive_public_key_parts =
     [''address'', ''authorization'', ''cookie'', ''email'', ''firstname'', ''fullname'',
      ''lastname'', ''mobile'', ''name'', ''nationalid'', ''passport'', ''phone'', ''taxid'']"

text \<open>Dictionary lookup, and \<open>d.get(key, default)\<close>, on a JSON object.\<close>

definition jget :: "json_dict \<Rightarrow> string \<Rightarrow> json \<Rightarrow> json" where
  "jget kvs key fallback = (case map_of kvs key of None \<Rightarrow> fallback | Some v \<Rightarrow> v)"

text \<open>\<open>secrets.compare_digest\<close> of two strings raises \<open>TypeError\<close> unless both are ASCII.\<close>

definition compare_digest :: "string \<Rightarrow> string \<Rightarrow> bool result" where
  "compare_digest a b =
     (if list_all ascii_char a \<and> list_all ascii_char b then Inr (a = b)
      else Inl (UnexpectedError ''TypeError''))"

lemma compare_digest_Inr [outcome_simps]:
  "compare_digest a b = Inr c \<longleftrightarrow> list_all ascii_char a \<and> list_all ascii_char b \<and> c = (a = b)"
  by (auto simp: compare_digest_def)

section \<open>The hash binding\<close>

definition preflight_payload :: "preflight_binding \<Rightarrow> json" where
  "preflight_payload b = JObj
     [(''action_id'', JStr (pb_action_id b)),
      (''version_id'', JStr (pb_version_id b)),
      (''connector_id'', JStr (pb_connector_id b)),
      (''method'', JStr (method_value (pb_method b))),
      (''path_template'', JStr (pb_path_template b))]"

definition binding_payload ::
    "string \<Rightarrow> string \<Rightarrow> string \<Rightarrow> string \<Rightarrow> string \<Rightarrow> http_method \<Rightarrow> string \<Rightarrow> json_dict \<Rightarrow> risk_tier
       \<Rightarrow> approval_level \<Rightarrow> mutation_class \<Rightarrow> string \<Rightarrow> preflight_binding list \<Rightarrow> json" where
  "binding_payload repository_id connector_id environment action_id version_id http final_path
       request_inputs tier level class credential_revision preflights = JObj
     [(''repository_id'', JStr repository_id),
      (''connector_id'', JStr connector_id),
      (''environment'', JStr environment),
      (''action_id'', JStr action_id),
      (''version_id'', JStr version_id),
      (''method'', JStr (method_value http)),
      (''final_path'', JStr final_path),
      (''request_inputs'', JObj request_inputs),
      (''risk_tier'', JInt (tier_int tier)),
      (''approval_level'', JStr (approval_value level)),
      (''mutation_class'', JStr (mutation_value class)),
      (''credential_revision'', JStr credential_revision),
      (''preflight_actions'', JArr (map preflight_payload preflights))]"

definition request_binding_payload :: "prepared_request \<Rightarrow> json" where
  "request_binding_payload r =
     binding_payload (pr_repository_id r) (pr_connector_id r) (pr_environment r) (pr_action_id r)
       (pr_version_id r) (pr_method r) (pr_final_path r) (pr_request_inputs r) (pr_risk_tier r)
       (pr_approval_level r) (pr_mutation_class r) (pr_credential_revision r)
       (pr_preflight_actions r)"

section \<open>Public summaries\<close>

definition compact_name :: "pylib \<Rightarrow> string \<Rightarrow> string" where
  "compact_name lib name = filter (\<lambda>c. lower_char c \<or> digit_char c) (casefold lib name)"

definition sensitive_name :: "pylib \<Rightarrow> string \<Rightarrow> bool" where
  "sensitive_name lib name =
     list_ex (\<lambda>part. contains part (compact_name lib name)) sensitive_public_key_parts"

fun redact_public_value :: "request_lib \<Rightarrow> string list \<Rightarrow> json \<Rightarrow> json" where
  "redact_public_value lib allowlist (JObj kvs) =
     JObj (map (\<lambda>(name, item).
                 (name, if sensitive_name (pylib.truncate lib) name then JStr ''[REDACTED]''
                        else redact_public_value lib allowlist item))
            (filter (\<lambda>(name, item). name \<in> set allowlist) kvs))"
| "redact_public_value lib allowlist (JArr xs) = JArr (map (redact_public_value lib allowlist) xs)"
| "redact_public_value lib allowlist (JStr s) = JStr (redact_text lib s)"
| "redact_public_value lib allowlist v = v"

definition sanitize_public_data ::
    "request_lib \<Rightarrow> json_dict \<Rightarrow> string list \<Rightarrow> json_dict result" where
  "sanitize_public_data lib value allowlist =
     (case redact_public_value lib allowlist (JObj value) of
        JObj sanitized \<Rightarrow> Inr sanitized
      | _ \<Rightarrow> Inl (ValueError ''invalid_public_summary''))"

fun summary_shape :: "string list \<Rightarrow> json \<Rightarrow> json" where
  "summary_shape selected (JObj kvs) =
     JObj (map (\<lambda>(key, item). (key, summary_shape selected item))
            (filter (\<lambda>(key, item). key \<in> set selected) kvs))"
| "summary_shape selected (JArr xs) = JArr (map (summary_shape selected) xs)"
| "summary_shape selected v = JStr ''[REDACTED]''"

definition public_summary :: "json_dict \<Rightarrow> string list \<Rightarrow> json_dict" where
  "public_summary value allowlist =
     map (\<lambda>(key, item). (key, summary_shape allowlist item))
       (filter (\<lambda>(key, item). key \<in> set allowlist) value)"

section \<open>Validation\<close>

definition identifier_pattern :: "string \<Rightarrow> bool" where
  "identifier_pattern =
     head_tail_pattern alpha_char
       (\<lambda>c. alpha_char c \<or> digit_char c \<or> c = CHR ''_'' \<or> c = CHR ''-'') 127"

definition request_id_pattern :: "string \<Rightarrow> bool" where
  "request_id_pattern s \<longleftrightarrow>
     take 4 s = ''req_'' \<and> 8 \<le> length (drop 4 s) \<and> length (drop 4 s) \<le> 128 \<and>
     list_all (\<lambda>c. digit_char c \<or> lower_char c \<or> c = CHR ''_'') (drop 4 s)"

definition is_reason :: "string \<Rightarrow> bool" where
  "is_reason =
     head_tail_pattern lower_char (\<lambda>c. lower_char c \<or> digit_char c \<or> c = CHR ''_'') 63"

definition valid_approval_binding :: "approval_level \<Rightarrow> mutation_class \<Rightarrow> bool" where
  "valid_approval_binding level class \<longleftrightarrow>
     level = (if class = Sensitive then Elevated else Standard)"

definition risk_covers_floor :: "risk_decision \<Rightarrow> risk_decision \<Rightarrow> bool" where
  "risk_covers_floor candidate floor =
     (if rd_tier candidate < rd_tier floor then False
      else if rd_mutation_class floor = Sensitive then rd_mutation_class candidate = Sensitive
      else rd_mutation_class candidate \<in> {rd_mutation_class floor, Sensitive})"

text \<open>The loop over the headers, whose keys are strings in a JSON object.\<close>

fun check_headers :: "pylib \<Rightarrow> json_dict \<Rightarrow> unit result" where
  "check_headers lib [] = Inr ()"
| "check_headers lib ((header, value) # rest) =
     (case value of
        JStr _ \<Rightarrow>
          (if casefold lib header \<in> set forbidden_header_names
           then Inl (ValueError ''forbidden_request_header'')
           else check_headers lib rest)
      | _ \<Rightarrow> Inl (ValueError ''invalid_request_inputs''))"

definition validate_static_headers :: "pylib \<Rightarrow> json_dict \<Rightarrow> unit result" where
  "validate_static_headers lib inputs =
     (case jget inputs ''headers'' (JObj []) of
        JObj headers \<Rightarrow> check_headers lib headers
      | _ \<Rightarrow> Inl (ValueError ''invalid_request_inputs''))"

definition valid_state_fields :: "request_state \<Rightarrow> int \<Rightarrow> string option \<Rightarrow> bool" where
  "valid_state_fields state approval_count failure_reason =
     (if state \<in> {Previewed, AwaitingConfirmation}
        then approval_count = 0 \<and> failure_reason = None
      else if state \<in> {ReadyToExecute, Executing}
        then approval_count = 1 \<and> failure_reason = None
      else approval_count \<in> {0, 1})"

definition mutation_class_fits :: "http_method \<Rightarrow> mutation_class \<Rightarrow> bool" where
  "mutation_class_fits http class \<longleftrightarrow>
     \<not> (http = DELETE \<and> class \<noteq> Sensitive \<or> http = POST \<and> class = Update \<or>
        http \<in> {PUT, PATCH} \<and> class = Create)"

definition validate_preflight_binding :: "preflight_binding \<Rightarrow> preflight_binding result" where
  "validate_preflight_binding b =
     (if pb_method b \<noteq> GET \<or> pb_action_id b = [] \<or> pb_version_id b = [] \<or>
         \<not> identifier_pattern (pb_connector_id b) \<or> \<not> valid_final_path (pb_path_template b)
      then Inl (ValueError ''invalid_preflight_binding'') else Inr b)"

definition preflight_from_action ::
    "pylib \<Rightarrow> (catalog_action \<Rightarrow> bool) \<Rightarrow> catalog_action \<Rightarrow> preflight_binding result" where
  "preflight_from_action lib safe action =
     (case revalidate_catalog_action lib safe action of
        Inl _ \<Rightarrow> Inl (ValueError ''invalid_preflight_binding'')
      | Inr action \<Rightarrow>
         (if ca_method action \<noteq> GET then Inl (ValueError ''invalid_preflight_binding'')
          else validate_preflight_binding
            \<lparr>pb_action_id = ca_action_id action, pb_version_id = ca_version_id action,
             pb_connector_id = ca_connector_id action, pb_method = GET,
             pb_path_template = ca_path_template action\<rparr>))"

text \<open>
  \<open>PreparedRequest.model_validate\<close>: the field validators, then \<open>validate_preview\<close>, which also
  normalises the two timestamps and replaces the two summaries by their sanitised form.
\<close>

definition validate_path_binding :: "prepared_request \<Rightarrow> unit result" where
  "validate_path_binding r =
     (case render_action_path (pr_path_template r)
             (jget (pr_request_inputs r) ''path'' (JObj [])) of
        Inl _ \<Rightarrow> Inl (ValueError ''invalid_action_path'')
      | Inr rendered_path \<Rightarrow>
          ebind (compare_digest (pr_final_path r) rendered_path) (\<lambda>same.
          raise_if (\<not> same) (ValueError ''request_path_mismatch'')))"

definition validate_preview_times :: "prepared_request \<Rightarrow> (instant \<times> instant) result" where
  "validate_preview_times r =
     ebind (aware_instant (ValueError ''preview_created_at_naive'') (pr_created_at r))
       (\<lambda>created_at.
     ebind (aware_instant (ValueError ''preview_expiry_naive'') (pr_expires_at r))
       (\<lambda>expires_at.
     ebind (raise_if (expires_at - created_at \<noteq> PREVIEW_TTL) (ValueError ''preview_ttl_invalid''))
       (\<lambda>_. Inr (created_at, expires_at))))"

definition validate_request_fields :: "prepared_request \<Rightarrow> unit result" where
  "validate_request_fields r =
     ebind (raise_if (pr_approval_count r \<notin> {0, 1}) (ValueError ''invalid_approval_count''))
       (\<lambda>_.
     ebind (raise_if (pr_method r \<notin> set mutating_methods) (ValueError ''literal_error'')) (\<lambda>_.
     ebind (emap validate_preflight_binding (pr_preflight_actions r)) (\<lambda>_. Inr ())))"

definition validate_preview :: "request_lib \<Rightarrow> prepared_request \<Rightarrow> prepared_request result" where
  "validate_preview lib r =
     ebind (validate_request_fields r) (\<lambda>_.
     ebind (raise_if (\<not> request_id_pattern (pr_request_id r)) (ValueError ''invalid_request_id''))
       (\<lambda>_.
     ebind (raise_if (list_ex (\<lambda>v. \<not> identifier_pattern v)
         [pr_repository_id r, pr_connector_id r, pr_environment r])
       (ValueError ''invalid_request_binding'')) (\<lambda>_.
     ebind (raise_if (pr_action_id r = [] \<or> pr_version_id r = [])
       (ValueError ''invalid_request_binding'')) (\<lambda>_.
     ebind (raise_if (pr_method r \<notin> set mutating_methods \<or> \<not> valid_final_path (pr_final_path r))
       (ValueError ''invalid_request_binding'')) (\<lambda>_.
     ebind (validate_path_binding r) (\<lambda>_.
     ebind (raise_if (\<not> sha256_hex (pr_payload_hash r)) (ValueError ''invalid_payload_hash''))
       (\<lambda>_.
     ebind (raise_if (\<not> sha256_hex (pr_credential_revision r))
       (ValueError ''invalid_credential_revision'')) (\<lambda>_.
     ebind (raise_if (\<not> distinct (map pb_action_id (pr_preflight_actions r)))
       (ValueError ''invalid_preflight_binding'')) (\<lambda>_.
     ebind (raise_if (\<not> valid_approval_binding (pr_approval_level r) (pr_mutation_class r))
       (ValueError ''invalid_approval_binding'')) (\<lambda>_.
     ebind (validate_preview_times r) (\<lambda>(created_at, expires_at).
     ebind (raise_if (case pr_failure_reason r of None \<Rightarrow> False | Some reason \<Rightarrow> \<not> is_reason reason)
       (ValueError ''invalid_failure_reason'')) (\<lambda>_.
     ebind (validate_static_headers (pylib.truncate lib) (pr_request_inputs r)) (\<lambda>_.
     ebind (raise_if (\<not> valid_state_fields (pr_state r) (pr_approval_count r) (pr_failure_reason r))
       (ValueError ''invalid_request_state'')) (\<lambda>_.
     ebind (canonical_payload_hash (sha256_hexdigest lib) (request_binding_payload r))
       (\<lambda>expected_hash.
     ebind (compare_digest (pr_payload_hash r) expected_hash) (\<lambda>same.
     ebind (raise_if (\<not> same) (ValueError ''payload_hash_mismatch'')) (\<lambda>_.
     ebind (raise_if (\<not> mutation_class_fits (pr_method r) (pr_mutation_class r))
       (ValueError ''invalid_mutation_class'')) (\<lambda>_.
     ebind (sanitize_public_data lib (pr_sanitized_summary r) preview_summary_keys) (\<lambda>summary.
     ebind (sanitize_public_data lib (pr_response_summary r) response_summary_keys) (\<lambda>response.
     Inr (r\<lparr>pr_created_at := Aware created_at, pr_expires_at := Aware expires_at,
            pr_sanitized_summary := summary, pr_response_summary := response\<rparr>)))))))))))))))))))))"

section \<open>From a request template\<close>

text \<open>
  The fields \<open>from_template\<close> reads of the request, a mapping or an object that may lack any of
  them: \<open>None\<close> stands for an absent one (and for \<open>final_path = None\<close>).
\<close>

record request_source =
  rs_method :: "string option"
  rs_final_path :: "string option"
  rs_path :: "string option"
  rs_sanitized_summary :: "json option"
  rs_request_inputs :: "json option"

definition from_template ::
    "request_lib \<Rightarrow> (catalog_action \<Rightarrow> bool) \<Rightarrow> instant \<Rightarrow> string \<Rightarrow> string \<Rightarrow> catalog_action \<Rightarrow> string
       \<Rightarrow> request_source \<Rightarrow> risk_decision \<Rightarrow> string \<Rightarrow> string \<Rightarrow> preflight_binding list
       \<Rightarrow> prepared_request result" where
  "from_template lib safe now token repository_id action environment request risk payload_hash
       credential_revision preflight_actions =
     (case revalidate_catalog_action (pylib.truncate lib) safe action of
        Inl _ \<Rightarrow> Inl (ValueError ''invalid_action_binding'')
      | Inr action \<Rightarrow>
     ebind (raise_if (environment \<notin> set (ca_environments action))
       (ValueError ''action_environment_not_supported'')) (\<lambda>_.
     ebind (raise_if (ca_method action \<notin> set mutating_methods)
       (ValueError ''read_action_cannot_be_previewed'')) (\<lambda>_.
     ebind (raise_if (\<not> valid_approval_binding (rd_approval_level risk) (rd_mutation_class risk))
       (ValueError ''invalid_risk_decision'')) (\<lambda>_.
     ebind (effective_risk action) (\<lambda>risk_floor.
     ebind (raise_if (\<not> risk_covers_floor risk risk_floor)
       (ValueError ''risk_below_runtime_floor'')) (\<lambda>_.
     let http = (case rs_method request of None \<Rightarrow> method_value (ca_method action) | Some m \<Rightarrow> m);
         final_path = (case rs_final_path request of None \<Rightarrow> rs_path request | Some p \<Rightarrow> Some p);
         summary = (case rs_sanitized_summary request of None \<Rightarrow> JObj [] | Some s \<Rightarrow> s);
         inputs = (case rs_request_inputs request of None \<Rightarrow> JObj [] | Some i \<Rightarrow> i) in
     ebind (raise_if (http \<noteq> method_value (ca_method action))
       (ValueError ''request_method_mismatch'')) (\<lambda>_.
     case inputs of
       JObj inputs \<Rightarrow>
         (case render_action_path (ca_path_template action) (jget inputs ''path'' (JObj [])) of
            Inl _ \<Rightarrow> Inl (ValueError ''invalid_action_path'')
          | Inr rendered_path \<Rightarrow>
         ebind (case final_path of None \<Rightarrow> Inr False | Some p \<Rightarrow> compare_digest p rendered_path)
           (\<lambda>same_path.
         ebind (raise_if (\<not> same_path) (ValueError ''request_path_mismatch'')) (\<lambda>_.
         ebind (canonical_payload_hash (sha256_hexdigest lib)
             (binding_payload repository_id (ca_connector_id action) environment
                (ca_action_id action) (ca_version_id action) (ca_method action) rendered_path
                inputs (rd_tier risk) (rd_approval_level risk) (rd_mutation_class risk)
                credential_revision preflight_actions)) (\<lambda>expected_hash.
         ebind (compare_digest payload_hash expected_hash) (\<lambda>same_hash.
         ebind (raise_if (\<not> same_hash) (ValueError ''payload_hash_mismatch'')) (\<lambda>_.
         case summary of JObj summary \<Rightarrow> validate_preview lib
           \<lparr>pr_request_id = ''req_'' @ token,
            pr_repository_id = repository_id,
            pr_connector_id = ca_connector_id action,
            pr_environment = environment,
            pr_action_id = ca_action_id action,
            pr_version_id = ca_version_id action,
            pr_method = ca_method action,
            pr_path_template = ca_path_template action,
            pr_final_path = rendered_path,
            pr_sanitized_summary = summary,
            pr_request_inputs = inputs,
            pr_payload_hash = payload_hash,
            pr_risk_tier = rd_tier risk,
            pr_approval_level = rd_approval_level risk,
            pr_mutation_class = rd_mutation_class risk,
            pr_credential_revision = credential_revision,
            pr_preflight_actions = preflight_actions,
            pr_approval_count = 0,
            pr_state = Previewed,
            pr_failure_reason = None,
            pr_response_summary = [],
            pr_created_at = Aware now,
            pr_expires_at = Aware (now + PREVIEW_TTL)\<rparr>
         | _ \<Rightarrow> Inl (ValueError ''dict_type'')))))))
     | _ \<Rightarrow> Inl (ValueError ''invalid_action_path''))))))))"

section \<open>The public projection\<close>

text \<open>\<open>datetime.isoformat()\<close> of a UTC timestamp: proleptic Gregorian date, time, microseconds.\<close>

definition civil_date :: "int \<Rightarrow> int \<times> int \<times> int" where
  "civil_date day =
     (let z = day + 719468;
          era = z div 146097;
          doe = z mod 146097;
          yoe = (doe - doe div 1460 + doe div 36524 - doe div 146096) div 365;
          doy = doe - (365 * yoe + yoe div 4 - yoe div 100);
          mp = (5 * doy + 2) div 153;
          d = doy - (153 * mp + 2) div 5 + 1;
          m = (if mp < 10 then mp + 3 else mp - 9)
      in (yoe + era * 400 + (if m \<le> 2 then 1 else 0), m, d))"

definition pad :: "nat \<Rightarrow> int \<Rightarrow> string" where
  "pad width n = (let s = show_int n in replicate (width - length s) (CHR ''0'') @ s)"

definition isoformat_utc :: "instant \<Rightarrow> string" where
  "isoformat_utc t =
     (let day = t div 86400000000; micros = t mod 86400000000;
          (y, m, d) = civil_date day;
          s = micros div 1000000; us = micros mod 1000000
      in pad 4 y @ ''-'' @ pad 2 m @ ''-'' @ pad 2 d @ ''T'' @ pad 2 (s div 3600) @ '':'' @
         pad 2 (s div 60 mod 60) @ '':'' @ pad 2 (s mod 60) @
         (if us = 0 then [] else ''.'' @ pad 6 us) @ ''+00:00'')"

text \<open>The two timestamps of a validated request are aware.\<close>

fun isoformat :: "datetime \<Rightarrow> string" where
  "isoformat (Aware t) = isoformat_utc t"
| "isoformat (Naive t) = take (length (isoformat_utc t) - 6) (isoformat_utc t)"

definition public_dict :: "prepared_request \<Rightarrow> json_dict" where
  "public_dict r =
     [(''request_id'', JStr (pr_request_id r)),
      (''repository_id'', JStr (pr_repository_id r)),
      (''connector_id'', JStr (pr_connector_id r)),
      (''environment'', JStr (pr_environment r)),
      (''action_id'', JStr (pr_action_id r)),
      (''version_id'', JStr (pr_version_id r)),
      (''method'', JStr (method_value (pr_method r))),
      (''target'', JStr (pr_path_template r)),
      (''sanitized_summary'', JObj (public_summary (pr_sanitized_summary r) preview_summary_keys)),
      (''payload_hash'', JStr (pr_payload_hash r)),
      (''risk_tier'', JInt (tier_int (pr_risk_tier r))),
      (''approval_level'', JStr (approval_value (pr_approval_level r))),
      (''mutation_class'', JStr (mutation_value (pr_mutation_class r))),
      (''approval_count'', JInt (pr_approval_count r)),
      (''state'', JStr (state_value (pr_state r))),
      (''failure_reason'',
         case pr_failure_reason r of None \<Rightarrow> JNull | Some reason \<Rightarrow> JStr reason),
      (''response_summary'', JObj (public_summary (pr_response_summary r) response_summary_keys)),
      (''created_at'', JStr (isoformat (pr_created_at r))),
      (''expires_at'', JStr (isoformat (pr_expires_at r)))]"

section \<open>The request of the HTTP client\<close>

text \<open>\<open>dict.update\<close> on items in insertion order.\<close>

fun dict_put :: "string \<Rightarrow> 'a \<Rightarrow> (string \<times> 'a) list \<Rightarrow> (string \<times> 'a) list" where
  "dict_put k v [] = [(k, v)]"
| "dict_put k v ((l, w) # rest) = (if l = k then (k, v) # rest else (l, w) # dict_put k v rest)"

definition dict_update :: "(string \<times> 'a) list \<Rightarrow> (string \<times> 'a) list \<Rightarrow> (string \<times> 'a) list" where
  "dict_update d updates = fold (\<lambda>(k, v). dict_put k v) updates d"

fun string_items :: "json_dict \<Rightarrow> (string \<times> string) list result" where
  "string_items [] = Inr []"
| "string_items ((k, v) # rest) =
     (case v of
        JStr s \<Rightarrow> ebind (string_items rest) (\<lambda>items. Inr ((k, s) # items))
      | _ \<Rightarrow> Inl (ValueError ''invalid_request_inputs''))"

definition string_mapping :: "json \<Rightarrow> (string \<times> string) list result" where
  "string_mapping value =
     (case value of
        JObj kvs \<Rightarrow> string_items kvs
      | _ \<Rightarrow> Inl (ValueError ''invalid_request_inputs''))"

record auth_context =
  auth_headers :: "(string \<times> string) list"
  auth_query :: "(string \<times> string) list"

record http_request =
  hr_method :: http_method
  hr_url :: string
  hr_params :: "(string \<times> string) list"
  hr_headers :: "(string \<times> string) list"
  hr_json :: "json option"

definition to_httpx_request :: "prepared_request \<Rightarrow> auth_context \<Rightarrow> http_request result" where
  "to_httpx_request r auth =
     ebind (string_mapping (jget (pr_request_inputs r) ''query'' (JObj []))) (\<lambda>query.
     ebind (string_mapping (jget (pr_request_inputs r) ''headers'' (JObj []))) (\<lambda>headers.
     let headers = dict_update headers (auth_headers auth);
         query = dict_update query (auth_query auth);
         body = jget (pr_request_inputs r) ''body'' (jget (pr_request_inputs r) ''json'' JNull)
     in Inr \<lparr>hr_method = pr_method r, hr_url = pr_final_path r, hr_params = query,
             hr_headers = headers, hr_json = (if body = JNull then None else Some body)\<rparr>))"

section \<open>The hash binds the request\<close>

lemma approval_value_inj [simp]: "approval_value a = approval_value b \<longleftrightarrow> a = b"
  by (cases a; cases b) simp_all

lemma mutation_value_inj [simp]: "mutation_value a = mutation_value b \<longleftrightarrow> a = b"
  by (cases a; cases b) simp_all

lemma tier_int_inj [simp]: "tier_int a = tier_int b \<longleftrightarrow> a = b"
  by (cases a; cases b) simp_all

lemma state_value_inj [simp]: "state_value a = state_value b \<longleftrightarrow> a = b"
  by (cases a; cases b) simp_all

lemma preflight_payload_inj:
  assumes "sort_keys (preflight_payload b) = sort_keys (preflight_payload c)"
  shows "b = c"
proof -
  note field = sort_keys_lookup[OF _ assms[unfolded preflight_payload_def]]
  have "pb_action_id b = pb_action_id c" using field[of "''action_id''"] by simp
  moreover have "pb_version_id b = pb_version_id c" using field[of "''version_id''"] by simp
  moreover have "pb_connector_id b = pb_connector_id c" using field[of "''connector_id''"] by simp
  moreover have "pb_method b = pb_method c" using field[of "''method''"] by simp
  moreover have "pb_path_template b = pb_path_template c"
    using field[of "''path_template''"] by simp
  ultimately show ?thesis by simp
qed

lemma preflight_payloads_inj:
  "map (sort_keys \<circ> preflight_payload) bs = map (sort_keys \<circ> preflight_payload) cs \<Longrightarrow> bs = cs"
proof -
  have "inj (sort_keys \<circ> preflight_payload)"
    by (rule injI) (simp only: comp_def preflight_payload_inj)
  then show "map (sort_keys \<circ> preflight_payload) bs = map (sort_keys \<circ> preflight_payload) cs \<Longrightarrow> bs = cs"
    by (simp only: inj_map_eq_map)
qed

text \<open>Two requests whose hash-bound fields agree, the inputs up to the order of object keys.\<close>

definition same_binding :: "prepared_request \<Rightarrow> prepared_request \<Rightarrow> bool" where
  "same_binding r s \<longleftrightarrow>
     pr_repository_id r = pr_repository_id s \<and> pr_connector_id r = pr_connector_id s \<and>
     pr_environment r = pr_environment s \<and> pr_action_id r = pr_action_id s \<and>
     pr_version_id r = pr_version_id s \<and> pr_method r = pr_method s \<and>
     pr_final_path r = pr_final_path s \<and>
     sort_keys (JObj (pr_request_inputs r)) = sort_keys (JObj (pr_request_inputs s)) \<and>
     pr_risk_tier r = pr_risk_tier s \<and> pr_approval_level r = pr_approval_level s \<and>
     pr_mutation_class r = pr_mutation_class s \<and>
     pr_credential_revision r = pr_credential_revision s \<and>
     pr_preflight_actions r = pr_preflight_actions s"

lemma request_binding_payload_same:
  assumes "sort_keys (request_binding_payload r) = sort_keys (request_binding_payload s)"
  shows "same_binding r s"
proof -
  note field = sort_keys_lookup[OF _ assms[unfolded request_binding_payload_def binding_payload_def]]
  have "pr_repository_id r = pr_repository_id s" using field[of "''repository_id''"] by simp
  moreover have "pr_connector_id r = pr_connector_id s" using field[of "''connector_id''"] by simp
  moreover have "pr_environment r = pr_environment s" using field[of "''environment''"] by simp
  moreover have "pr_action_id r = pr_action_id s" using field[of "''action_id''"] by simp
  moreover have "pr_version_id r = pr_version_id s" using field[of "''version_id''"] by simp
  moreover have "pr_method r = pr_method s" using field[of "''method''"] by simp
  moreover have "pr_final_path r = pr_final_path s" using field[of "''final_path''"] by simp
  moreover have "sort_keys (JObj (pr_request_inputs r)) = sort_keys (JObj (pr_request_inputs s))"
    using field[of "''request_inputs''"] by (simp del: sort_keys.simps(2))
  moreover have "pr_risk_tier r = pr_risk_tier s" using field[of "''risk_tier''"] by simp
  moreover have "pr_approval_level r = pr_approval_level s"
    using field[of "''approval_level''"] by simp
  moreover have "pr_mutation_class r = pr_mutation_class s"
    using field[of "''mutation_class''"] by simp
  moreover have "pr_credential_revision r = pr_credential_revision s"
    using field[of "''credential_revision''"] by simp
  moreover have "pr_preflight_actions r = pr_preflight_actions s"
    using field[of "''preflight_actions''"] by (intro preflight_payloads_inj) simp
  ultimately show ?thesis by (simp add: same_binding_def)
qed

lemma request_binding_payload_wf:
  "json_wf (JObj (pr_request_inputs r)) \<Longrightarrow> json_wf (request_binding_payload r)"
  by (simp add: request_binding_payload_def binding_payload_def preflight_payload_def list_all_iff)

text \<open>What a validated request satisfies.\<close>

lemma validate_preview_Inr:
  assumes "validate_preview lib r = Inr r'"
  shows "canonical_payload_hash (sha256_hexdigest lib) (request_binding_payload r) =
           Inr (pr_payload_hash r)"
    and "\<exists>c s p. pr_created_at r = Aware c \<and> pr_expires_at r = Aware (c + PREVIEW_TTL) \<and>
           r' = r\<lparr>pr_created_at := Aware c, pr_expires_at := Aware (c + PREVIEW_TTL),
                 pr_sanitized_summary := s, pr_response_summary := p\<rparr>"
    and "valid_state_fields (pr_state r) (pr_approval_count r) (pr_failure_reason r)"
    and "mutation_class_fits (pr_method r) (pr_mutation_class r)"
    and "valid_approval_binding (pr_approval_level r) (pr_mutation_class r)"
    and "render_action_path (pr_path_template r) (jget (pr_request_inputs r) ''path'' (JObj [])) =
           Inr (pr_final_path r)"
    and "sha256_hex (pr_payload_hash r)"
proof -
  show "canonical_payload_hash (sha256_hexdigest lib) (request_binding_payload r) =
      Inr (pr_payload_hash r)"
    and "valid_state_fields (pr_state r) (pr_approval_count r) (pr_failure_reason r)"
    and "mutation_class_fits (pr_method r) (pr_mutation_class r)"
    and "valid_approval_binding (pr_approval_level r) (pr_mutation_class r)"
    and "sha256_hex (pr_payload_hash r)"
    using assms unfolding validate_preview_def
    by (auto simp: outcome_simps simp del: ebind_raise_if)
  have "validate_path_binding r = Inr ()"
    using assms unfolding validate_preview_def
    by (auto simp: outcome_simps simp del: ebind_raise_if)
  then show "render_action_path (pr_path_template r) (jget (pr_request_inputs r) ''path'' (JObj [])) =
      Inr (pr_final_path r)"
    by (auto simp: validate_path_binding_def outcome_simps simp del: ebind_raise_if
        split: sum.splits)
  obtain c e s p where t: "validate_preview_times r = Inr (c, e)"
    and r': "r' = r\<lparr>pr_created_at := Aware c, pr_expires_at := Aware e,
             pr_sanitized_summary := s, pr_response_summary := p\<rparr>"
    using assms unfolding validate_preview_def
    by (auto simp: outcome_simps simp del: ebind_raise_if)
  from t have "pr_created_at r = Aware c" "pr_expires_at r = Aware e" "e = c + PREVIEW_TTL"
    by (cases "pr_created_at r"; cases "pr_expires_at r";
        auto simp: validate_preview_times_def outcome_simps split: if_splits)+
  with r' show "\<exists>c s p. pr_created_at r = Aware c \<and> pr_expires_at r = Aware (c + PREVIEW_TTL) \<and>
      r' = r\<lparr>pr_created_at := Aware c, pr_expires_at := Aware (c + PREVIEW_TTL),
             pr_sanitized_summary := s, pr_response_summary := p\<rparr>"
    by blast
qed

section \<open>Properties\<close>

text \<open>Concrete values for the witnesses: a digest, a catalog action and a request.\<close>

definition sample_lib :: request_lib where
  "sample_lib =
     \<lparr>sha256_hexdigest = (\<lambda>_. replicate 64 (CHR ''0'')), casefold = map ascii_lower,
      redact_text = (\<lambda>s. s)\<rparr>"

definition sample_action :: catalog_action where
  "sample_action =
     \<lparr>ca_action_id = ''act_'' @ replicate 24 (CHR ''0''),
      ca_version_id = ''av_'' @ replicate 64 (CHR ''0''),
      ca_connector_id = ''flowaccount'', ca_environments = [''sandbox''], ca_method = POST,
      ca_path_template = ''/invoices/{id}'', ca_operation_id = ''createInvoice'',
      ca_variant_id = ''default'', ca_content_type = ''application/json'', ca_aliases_th = [],
      ca_aliases_en = [], ca_capability = ''invoices'', ca_input_schema = JObj [],
      ca_examples = [], ca_risk_tier = StandardWrite, ca_required_confirmations = 1,
      ca_side_effects = [''Send-Email''], ca_preflight_action_ids = [], ca_idempotency = [],
      ca_success_rules = JObj [], ca_error_rules = JObj [], ca_response_redaction = [],
      ca_source_uri = ''https://example.com'', ca_source_hash = replicate 64 (CHR ''0''),
      ca_confidence = Exact, ca_observed_state = Success, ca_description = ''Create''\<rparr>"

definition sample_inputs :: json_dict where
  "sample_inputs = [(''path'', JObj [(''id'', JInt 7)]), (''body'', JObj [(''total'', JInt 5)])]"

definition sample_request :: "json_dict \<Rightarrow> prepared_request" where
  "sample_request inputs =
     \<lparr>pr_request_id = ''req_00000000'', pr_repository_id = ''repo'',
      pr_connector_id = ''flowaccount'', pr_environment = ''sandbox'',
      pr_action_id = ca_action_id sample_action, pr_version_id = ca_version_id sample_action,
      pr_method = POST, pr_path_template = ''/invoices/{id}'', pr_final_path = ''/invoices/7'',
      pr_sanitized_summary = [(''total'', JInt 5)], pr_request_inputs = inputs,
      pr_payload_hash = replicate 64 (CHR ''0''), pr_risk_tier = HighRisk,
      pr_approval_level = Elevated, pr_mutation_class = Sensitive,
      pr_credential_revision = replicate 64 (CHR ''a''), pr_preflight_actions = [],
      pr_approval_count = 0, pr_state = Previewed, pr_failure_reason = None,
      pr_response_summary = [], pr_created_at = Aware 0, pr_expires_at = Aware PREVIEW_TTL\<rparr>"

text \<open>C9: the payload hash binds the whole request. Two validated requests with the same hash,
  if SHA-256 does not collide on their two canonical texts, agree on the repository, connector,
  environment, action, version, method, final path, inputs (up to the order of object keys), risk
  tier, approval level, mutation class, credential revision and preflights: an approval of a hash
  cannot be spent on another request. \<close>
theorem payload_hash_binds_request:
  assumes "validate_preview lib r = Inr r'" and "validate_preview lib s = Inr s'"
    and "json_wf (JObj (pr_request_inputs r))" and "json_wf (JObj (pr_request_inputs s))"
    and "inj_on (sha256_hexdigest lib)
           {text. \<exists>q \<in> {r, s}. canonical_payload_json (request_binding_payload q) = Inr text}"
    and "pr_payload_hash r = pr_payload_hash s"
  shows "same_binding r s"
proof -
  obtain a where a: "canonical_payload_json (request_binding_payload r) = Inr a"
      "sha256_hexdigest lib a = pr_payload_hash r"
    using validate_preview_Inr(1)[OF assms(1)]
    by (auto simp: canonical_payload_hash_def canonical_payload_bytes_def outcome_simps)
  obtain b where b: "canonical_payload_json (request_binding_payload s) = Inr b"
      "sha256_hexdigest lib b = pr_payload_hash s"
    using validate_preview_Inr(1)[OF assms(2)]
    by (auto simp: canonical_payload_hash_def canonical_payload_bytes_def outcome_simps)
  have "a = b"
  proof (rule inj_onD[OF assms(5)])
    show "sha256_hexdigest lib a = sha256_hexdigest lib b" by (simp only: a(2) b(2) assms(6))
  qed (use a(1) b(1) in blast)+
  moreover have "finite_wf (request_binding_payload r)" "finite_wf (request_binding_payload s)"
    using a(1) b(1) request_binding_payload_wf[OF assms(3)] request_binding_payload_wf[OF assms(4)]
    by (auto simp: finite_wf_def canonical_payload_json_def split: if_splits)
  ultimately have "sort_keys (request_binding_payload r) = sort_keys (request_binding_payload s)"
    using a(1) b(1) canonical_payload_json_same by metis
  then show ?thesis by (rule request_binding_payload_same)
qed

theorem payload_hash_binds_request_witness:
  "same_binding (sample_request sample_inputs) (sample_request (rev sample_inputs))"
proof -
  have ok: "is_ok (validate_preview sample_lib (sample_request sample_inputs))"
    "is_ok (validate_preview sample_lib (sample_request (rev sample_inputs)))"
    by code_simp+
  then obtain r s where "validate_preview sample_lib (sample_request sample_inputs) = Inr r"
    "validate_preview sample_lib (sample_request (rev sample_inputs)) = Inr s"
    by (auto simp: is_ok_def split: sum.splits)
  then show ?thesis
  proof (rule payload_hash_binds_request)
    have "canonical_payload_json (request_binding_payload (sample_request sample_inputs)) =
        canonical_payload_json (request_binding_payload (sample_request (rev sample_inputs)))"
      by code_simp
    then show "inj_on (sha256_hexdigest sample_lib)
       {text. \<exists>q \<in> {sample_request sample_inputs, sample_request (rev sample_inputs)}.
          canonical_payload_json (request_binding_payload q) = Inr text}"
      by (auto simp: inj_on_def)
  qed (simp_all add: sample_request_def sample_inputs_def)
qed

text \<open>A JSON value with every scalar erased.\<close>

fun json_shape :: "json \<Rightarrow> json" where
  "json_shape (JObj kvs) = JObj (map (\<lambda>(k, v). (k, json_shape v)) kvs)"
| "json_shape (JArr xs) = JArr (map json_shape xs)"
| "json_shape v = JNull"

definition erase_values :: "json_dict \<Rightarrow> json_dict" where
  "erase_values kvs = map (\<lambda>(k, v). (k, json_shape v)) kvs"

lemma summary_shape_json_shape: "summary_shape selected (json_shape v) = summary_shape selected v"
proof (induction v)
  case (JObj kvs)
  then have "\<forall>(k, v) \<in> set kvs. summary_shape selected (json_shape v) = summary_shape selected v"
    by auto
  then show ?case by (induction kvs) auto
qed auto

lemma public_summary_erase: "public_summary (erase_values kvs) allowlist = public_summary kvs allowlist"
  by (induction kvs) (auto simp: public_summary_def erase_values_def summary_shape_json_shape)

text \<open>The keys of every object inside a JSON value.\<close>

fun json_keys :: "json \<Rightarrow> string set" where
  "json_keys (JObj kvs) = set (map fst kvs) \<union> (\<Union>(k, v) \<in> set kvs. json_keys v)"
| "json_keys (JArr xs) = (\<Union>x \<in> set xs. json_keys x)"
| "json_keys v = {}"

lemma json_keys_summary_shape: "json_keys (summary_shape selected v) \<subseteq> set selected"
  by (induction v) (auto, blast)

text \<open>C13: what a caller sees of a request does not depend on its inputs, its rendered path, its
  credential revision, its preflights or any scalar inside its summaries: changing all of them
  leaves the public projection as it is; and every key that the projected summaries contain is on
  the allowlist. \<close>
theorem public_dict_hides_values:
  "public_dict (r\<lparr>pr_request_inputs := inputs, pr_final_path := path,
       pr_credential_revision := revision, pr_preflight_actions := preflights,
       pr_sanitized_summary := erase_values (pr_sanitized_summary r),
       pr_response_summary := erase_values (pr_response_summary r)\<rparr>) = public_dict r \<and>
   json_keys (JObj (public_summary (pr_sanitized_summary r) preview_summary_keys))
     \<subseteq> set preview_summary_keys \<and>
   json_keys (JObj (public_summary (pr_response_summary r) response_summary_keys))
     \<subseteq> set response_summary_keys"
proof (intro conjI)
  have keys: "json_keys (JObj (public_summary kvs allowlist)) \<subseteq> set allowlist" for kvs allowlist
    using json_keys_summary_shape[of allowlist] by (fastforce simp: public_summary_def)
  show "json_keys (JObj (public_summary (pr_sanitized_summary r) preview_summary_keys))
      \<subseteq> set preview_summary_keys" by (rule keys)
  show "json_keys (JObj (public_summary (pr_response_summary r) response_summary_keys))
      \<subseteq> set response_summary_keys" by (rule keys)
qed (simp add: public_dict_def public_summary_erase)

lemma from_template_Inr:
  assumes "from_template lib safe now token repository_id action environment request risk
     payload_hash credential_revision preflight_actions = Inr r"
  obtains floor draft where
    "revalidate_catalog_action (pylib.truncate lib) safe action = Inr action"
    "environment \<in> set (ca_environments action)"
    "effective_risk action = Inr floor" "risk_covers_floor risk floor"
    "valid_approval_binding (rd_approval_level risk) (rd_mutation_class risk)"
    "validate_preview lib draft = Inr r"
    "pr_state draft = Previewed" "pr_approval_count draft = 0"
    "pr_created_at draft = Aware now" "pr_risk_tier draft = rd_tier risk"
    "pr_mutation_class draft = rd_mutation_class risk"
    "pr_approval_level draft = rd_approval_level risk"
    "pr_action_id draft = ca_action_id action" "pr_version_id draft = ca_version_id action"
    "pr_payload_hash draft = payload_hash" "pr_path_template draft = ca_path_template action"
proof -
  obtain b where b: "revalidate_catalog_action (pylib.truncate lib) safe action = Inr b"
    using assms by (auto simp: from_template_def split: sum.splits)
  then have ba: "b = action" using revalidate_catalog_action_Inr by blast
  show ?thesis
    using assms b that unfolding from_template_def Let_def ba
    by (auto simp: outcome_simps simp del: ebind_raise_if split: json.splits sum.splits)
qed

text \<open>C12: a request built from a template is a fresh preview of the validated action that lives
  exactly fifteen minutes; its risk is never below the runtime floor of the action, a sensitive
  floor forces a sensitive class with an elevated approval, and its hash is the hash of its own
  binding. \<close>
theorem from_template_covers_floor:
  assumes "from_template lib safe now token repository_id action environment request risk
     payload_hash credential_revision preflight_actions = Inr r"
  shows "pr_state r = Previewed \<and> pr_approval_count r = 0 \<and>
    pr_action_id r = ca_action_id action \<and> pr_version_id r = ca_version_id action \<and>
    pr_created_at r = Aware now \<and> pr_expires_at r = Aware (now + PREVIEW_TTL) \<and>
    environment \<in> set (ca_environments action) \<and>
    (\<exists>floor. effective_risk action = Inr floor \<and> rd_tier floor \<le> pr_risk_tier r \<and>
       (rd_mutation_class floor = Sensitive \<longrightarrow>
          pr_mutation_class r = Sensitive \<and> pr_approval_level r = Elevated)) \<and>
    canonical_payload_hash (sha256_hexdigest lib) (request_binding_payload r) = Inr payload_hash"
proof -
  obtain floor draft where d:
    "environment \<in> set (ca_environments action)"
    "effective_risk action = Inr floor" "risk_covers_floor risk floor"
    "valid_approval_binding (rd_approval_level risk) (rd_mutation_class risk)"
    "validate_preview lib draft = Inr r"
    "pr_state draft = Previewed" "pr_approval_count draft = 0"
    "pr_created_at draft = Aware now" "pr_risk_tier draft = rd_tier risk"
    "pr_mutation_class draft = rd_mutation_class risk"
    "pr_approval_level draft = rd_approval_level risk"
    "pr_action_id draft = ca_action_id action" "pr_version_id draft = ca_version_id action"
    "pr_payload_hash draft = payload_hash"
    by (rule from_template_Inr[OF assms])
  obtain s p where r: "r = draft\<lparr>pr_created_at := Aware now,
      pr_expires_at := Aware (now + PREVIEW_TTL), pr_sanitized_summary := s,
      pr_response_summary := p\<rparr>"
    using validate_preview_Inr(2)[OF d(5)] d(8) by auto
  have "request_binding_payload r = request_binding_payload draft"
    by (simp add: r request_binding_payload_def)
  then have "canonical_payload_hash (sha256_hexdigest lib) (request_binding_payload r) =
      Inr payload_hash"
    using validate_preview_Inr(1)[OF d(5)] d(14) by simp
  moreover have "rd_tier floor \<le> rd_tier risk"
    "rd_mutation_class floor = Sensitive \<longrightarrow>
       rd_mutation_class risk = Sensitive \<and> rd_approval_level risk = Elevated"
    using d(3,4) by (auto simp: risk_covers_floor_def valid_approval_binding_def split: if_splits)
  ultimately show ?thesis using d by (auto simp: r)
qed

definition sample_template_request :: "prepared_request result" where
  "sample_template_request =
     from_template sample_lib (\<lambda>_. True) 0 (replicate 32 (CHR ''0'')) ''repo'' sample_action
       ''sandbox''
       \<lparr>rs_method = None, rs_final_path = Some ''/invoices/7'', rs_path = None,
        rs_sanitized_summary = None, rs_request_inputs = Some (JObj sample_inputs)\<rparr>
       \<lparr>rd_tier = HighRisk, rd_approval_level = Elevated, rd_mutation_class = Sensitive,
        rd_reasons = []\<rparr>
       (replicate 64 (CHR ''0'')) (replicate 64 (CHR ''a'')) []"

theorem from_template_covers_floor_witness:
  "\<exists>r. sample_template_request = Inr r \<and> pr_approval_level r = Elevated"
proof -
  have "is_ok sample_template_request" by code_simp
  then obtain r where r: "sample_template_request = Inr r"
    by (auto simp: is_ok_def split: sum.splits)
  have "case effective_risk sample_action of
      Inl _ \<Rightarrow> False | Inr floor \<Rightarrow> rd_mutation_class floor = Sensitive" by code_simp
  with from_template_covers_floor[OF r[unfolded sample_template_request_def]]
  have "pr_approval_level r = Elevated" by auto
  with r show ?thesis by blast
qed

end
