(* ===== verification/One_Shot.thy ===== *)
theory One_Shot
  imports Mercury_Prelude
begin

text \<open>
  The contract of a one-shot resource, shared by the components that hand something out at most
  once (the execution of a request, an OAuth state, the result of a qualification run). The state
  is changed by operations; an operation may fire a key, which spends it; a spent key stays spent
  and does not fire. Then in any sequence of operations every key fires at most once.
\<close>

text \<open>How often a key fires in a sequence of operations.\<close>

fun fire_count ::
    "('op \<Rightarrow> 'st \<Rightarrow> 'st) \<Rightarrow> ('op \<Rightarrow> 'k \<Rightarrow> 'st \<Rightarrow> bool) \<Rightarrow> 'k \<Rightarrow> 'op list \<Rightarrow> 'st \<Rightarrow> nat" where
  "fire_count step fires k [] s = 0"
| "fire_count step fires k (op # ops) s =
     (if fires op k s then 1 else 0) + fire_count step fires k ops (step op s)"

definition run_all :: "('op \<Rightarrow> 'st \<Rightarrow> 'st) \<Rightarrow> 'op list \<Rightarrow> 'st \<Rightarrow> 'st" where
  "run_all step ops s = fold step ops s"

locale one_shot =
  fixes step :: "'op \<Rightarrow> 'st \<Rightarrow> 'st"
    and fires :: "'op \<Rightarrow> 'k \<Rightarrow> 'st \<Rightarrow> bool"
    and spent :: "'st \<Rightarrow> 'k \<Rightarrow> bool"
    and inv :: "'st \<Rightarrow> bool"
  assumes inv_step: "inv s \<Longrightarrow> inv (step op s)"
    and spent_step: "inv s \<Longrightarrow> spent s k \<Longrightarrow> spent (step op s) k"
    and fires_once: "inv s \<Longrightarrow> fires op k s \<Longrightarrow> \<not> spent s k \<and> spent (step op s) k"
begin

lemma fire_count_bound:
  "inv s \<Longrightarrow> fire_count step fires k ops s \<le> (if spent s k then 0 else 1)"
proof (induction ops arbitrary: s)
  case Nil
  then show ?case by simp
next
  case (Cons op ops)
  from Cons.IH[OF inv_step[OF Cons.prems, of op]]
  have ih: "fire_count step fires k ops (step op s) \<le> (if spent (step op s) k then 0 else 1)" .
  show ?case
  proof (cases "fires op k s")
    case True
    with ih fires_once[OF Cons.prems True] show ?thesis by simp
  next
    case False
    with ih spent_step[OF Cons.prems, of k op] show ?thesis by (auto split: if_splits)
  qed
qed

lemma fires_at_most_once: "inv s \<Longrightarrow> fire_count step fires k ops s \<le> 1"
  by (rule order_trans[OF fire_count_bound]) simp_all

lemma inv_run: "inv s \<Longrightarrow> inv (run_all step ops s)"
  by (induction ops arbitrary: s) (auto simp: run_all_def inv_step)

lemma spent_run: "inv s \<Longrightarrow> spent s k \<Longrightarrow> spent (run_all step ops s) k"
  by (induction ops arbitrary: s) (auto simp: run_all_def inv_step spent_step)

text \<open>After a key has fired, no later operation of any sequence fires it again.\<close>

lemma spent_blocks: "inv s \<Longrightarrow> spent s k \<Longrightarrow> \<not> fires op k (run_all step ops s)"
  using inv_run spent_run fires_once by blast

end

end
