(* ===== verification/Request_Store.thy ===== *)
theory Request_Store
  imports Prepared_Request One_Shot
begin

text \<open>
  Model of \<open>LocalRequestStore\<close> (\<open>execution/store.py\<close>): the local state machine of the previews.
  The SQLite table is the list of its rows, with the columns of the schema and the parsed
  \<open>request_json\<close> (the column \<open>expires_at\<close>, the ISO text of a timestamp, is the timestamp);
  \<open>request_id\<close> is the primary key and the partial unique index of the schema
  admits one row per payload hash among those that are executing, succeeded or of unknown
  outcome. An operation is a function of the table that returns its result and the new table. It
  runs in an immediate transaction, so an exception leaves the table as it was. The operation lock,
  the file system checks and the schema migration around it are not modelled.

  \<open>datetime.now(UTC)\<close> is an argument: \<open>now\<close>, or a \<open>clock\<close> where the code reads it repeatedly.
\<close>

section \<open>Rows and the table\<close>

record request_row =
  rw_request_id :: string
  rw_payload_hash :: string
  rw_connector_id :: string
  rw_environment :: string
  rw_state :: string
  rw_expires_at :: datetime
  rw_request :: prepared_request

type_synonym request_db = "request_row list"

record store_context =
  sc_lib :: request_lib
  sc_safe :: "catalog_action \<Rightarrow> bool"
  sc_repository_id :: string

definition pending_states :: "string list" where
  "pending_states = map state_value [Previewed, AwaitingConfirmation, ReadyToExecute]"

definition replay_blocking_states :: "string list" where
  "replay_blocking_states = map state_value [Executing, Succeeded, OutcomeUnknown]"

definition row_of :: "prepared_request \<Rightarrow> request_row" where
  "row_of r =
     \<lparr>rw_request_id = pr_request_id r, rw_payload_hash = pr_payload_hash r,
      rw_connector_id = pr_connector_id r, rw_environment = pr_environment r,
      rw_state = state_value (pr_state r), rw_expires_at = pr_expires_at r,
      rw_request = r\<rparr>"

abbreviation state_error :: "string \<Rightarrow> 'a result" where
  "state_error code \<equiv> Inl (RequestStateError code)"

definition row_to_request :: "request_lib \<Rightarrow> request_row \<Rightarrow> prepared_request result" where
  "row_to_request lib row =
     (case validate_preview lib (rw_request row) of
        Inl _ \<Rightarrow> state_error ''invalid_stored_request''
      | Inr request \<Rightarrow>
         (if rw_request_id row \<noteq> pr_request_id request \<or>
             rw_payload_hash row \<noteq> pr_payload_hash request \<or>
             rw_connector_id row \<noteq> pr_connector_id request \<or>
             rw_environment row \<noteq> pr_environment request \<or>
             rw_state row \<noteq> state_value (pr_state request) \<or>
             rw_expires_at row \<noteq> pr_expires_at request
          then state_error ''invalid_stored_request'' else Inr request))"

definition fetch :: "request_lib \<Rightarrow> request_db \<Rightarrow> string \<Rightarrow> prepared_request result" where
  "fetch lib db request_id =
     (case find (\<lambda>row. rw_request_id row = request_id) db of
        None \<Rightarrow> state_error ''request_not_found''
      | Some row \<Rightarrow> row_to_request lib row)"

text \<open>\<open>_updated\<close>: the request with some fields replaced, validated again.\<close>

definition updated :: "request_lib \<Rightarrow> prepared_request \<Rightarrow> prepared_request result" where
  "updated lib r =
     (case validate_preview lib r of
        Inl _ \<Rightarrow> state_error ''invalid_stored_request''
      | Inr request \<Rightarrow> Inr request)"

text \<open>Rows that the partial unique index covers.\<close>

definition replay_blocking :: "string \<Rightarrow> request_row \<Rightarrow> bool" where
  "replay_blocking payload_hash row \<longleftrightarrow>
     rw_payload_hash row = payload_hash \<and> rw_state row \<in> set replay_blocking_states"

text \<open>The \<open>UPDATE\<close> of \<open>_store\<close>; \<open>Inl ()\<close> is \<open>sqlite3.IntegrityError\<close> from the index.\<close>

definition store_request :: "request_db \<Rightarrow> prepared_request \<Rightarrow> unit + request_db" where
  "store_request db r =
     (if state_value (pr_state r) \<in> set replay_blocking_states \<and>
         list_ex (\<lambda>row. rw_request_id row \<noteq> pr_request_id r \<and>
                        replay_blocking (pr_payload_hash r) row) db \<and>
         list_ex (\<lambda>row. rw_request_id row = pr_request_id r) db
      then Inl ()
      else Inr (map (\<lambda>row. if rw_request_id row = pr_request_id r then row_of r else row) db))"

text \<open>The \<open>INSERT\<close> of \<open>create_preview\<close>: the primary key and the index.\<close>

definition insert_request :: "request_db \<Rightarrow> prepared_request \<Rightarrow> unit + request_db" where
  "insert_request db r =
     (if list_ex (\<lambda>row. rw_request_id row = pr_request_id r) db \<or>
         state_value (pr_state r) \<in> set replay_blocking_states \<and>
         list_ex (replay_blocking (pr_payload_hash r)) db
      then Inl () else Inr (db @ [row_of r]))"

text \<open>Any other SQLite error ends the transaction with this code.\<close>

definition sqlite_error :: "unit + 'a \<Rightarrow> 'a result" where
  "sqlite_error res =
     (case res of Inl _ \<Rightarrow> state_error ''request_store_unavailable'' | Inr x \<Rightarrow> Inr x)"

definition immediate_transaction ::
    "(request_db \<Rightarrow> ('a \<times> request_db) result) \<Rightarrow> request_db \<Rightarrow> 'a result \<times> request_db" where
  "immediate_transaction body db =
     (case body db of Inl e \<Rightarrow> (Inl e, db) | Inr (x, db') \<Rightarrow> (Inr x, db'))"

declare immediate_transaction_def [code_unfold]

section \<open>Checks\<close>

definition require_state :: "prepared_request \<Rightarrow> request_state list \<Rightarrow> unit result" where
  "require_state r states =
     (if pr_state r \<in> set states then Inr ()
      else state_error (case pr_failure_reason r of
             None \<Rightarrow> ''invalid_request_state''
           | Some reason \<Rightarrow> if reason = [] then ''invalid_request_state'' else reason))"

definition require_state_values :: "prepared_request \<Rightarrow> string list \<Rightarrow> unit result" where
  "require_state_values r states =
     (if state_value (pr_state r) \<in> set states then Inr ()
      else state_error (case pr_failure_reason r of
             None \<Rightarrow> ''invalid_request_state''
           | Some reason \<Rightarrow> if reason = [] then ''invalid_request_state'' else reason))"

definition replay_error :: "request_db \<Rightarrow> string \<Rightarrow> string option \<Rightarrow> mercury_error" where
  "replay_error db payload_hash state =
     (let current_state =
        (case state of
           Some s \<Rightarrow> Some s
         | None \<Rightarrow> map_option rw_state (find (replay_blocking payload_hash) db))
      in if current_state = Some (state_value OutcomeUnknown)
         then RequestStateError ''replay_blocked_outcome_unknown''
         else RequestStateError ''replay_blocked_active_request'')"

definition check_replay_allowed ::
    "request_db \<Rightarrow> string \<Rightarrow> string option \<Rightarrow> unit result" where
  "check_replay_allowed db payload_hash excluding_request_id =
     (if \<not> sha256_hex payload_hash then state_error ''invalid_payload_hash''
      else case find (\<lambda>row. replay_blocking payload_hash row \<and>
                         excluding_request_id \<noteq> Some (rw_request_id row)) db of
        None \<Rightarrow> Inr ()
      | Some row \<Rightarrow> Inl (replay_error db payload_hash (Some (rw_state row))))"

text \<open>The timestamps of a fetched request are aware.\<close>

definition expired :: "prepared_request \<Rightarrow> instant \<Rightarrow> bool" where
  "expired r now = (case pr_expires_at r of Aware e \<Rightarrow> e \<le> now | Naive e \<Rightarrow> False)"

definition expire_if_needed ::
    "request_lib \<Rightarrow> instant \<Rightarrow> request_db \<Rightarrow> prepared_request
       \<Rightarrow> (prepared_request \<times> request_db) result" where
  "expire_if_needed lib now db request =
     (if state_value (pr_state request) \<in> set pending_states \<and> expired request now
      then ebind (updated lib (request\<lparr>pr_state := RequestFailed,
                                       pr_failure_reason := Some ''preview_expired''\<rparr>))
             (\<lambda>expired_request.
           ebind (sqlite_error (store_request db expired_request))
             (\<lambda>db'. Inr (expired_request, db')))
      else Inr (request, db))"

fun expire_rows ::
    "request_lib \<Rightarrow> (nat \<Rightarrow> instant) \<Rightarrow> nat \<Rightarrow> request_row list \<Rightarrow> request_db
       \<Rightarrow> request_db result" where
  "expire_rows lib clock n [] db = Inr db"
| "expire_rows lib clock n (row # rows) db =
     ebind (row_to_request lib row) (\<lambda>request.
     ebind (expire_if_needed lib (clock n) db request) (\<lambda>(_, db').
     expire_rows lib clock (Suc n) rows db'))"

definition expire_pending ::
    "request_lib \<Rightarrow> (nat \<Rightarrow> instant) \<Rightarrow> request_db \<Rightarrow> request_db result" where
  "expire_pending lib clock db =
     expire_rows lib clock 0 (filter (\<lambda>row. rw_state row \<in> set pending_states) db) db"

section \<open>Operations\<close>

definition validated_request :: "request_lib \<Rightarrow> prepared_request \<Rightarrow> prepared_request result" where
  "validated_request lib r =
     (case validate_preview lib r of
        Inl _ \<Rightarrow> state_error ''invalid_prepared_request''
      | Inr request \<Rightarrow> Inr request)"

text \<open>\<open>any(not compare_digest(a, b) for a, b in pairs)\<close>\<close>

fun any_mismatch :: "(string \<times> string) list \<Rightarrow> bool result" where
  "any_mismatch [] = Inr False"
| "any_mismatch ((actual, expected) # rest) =
     ebind (compare_digest actual expected) (\<lambda>same.
     if \<not> same then Inr True else any_mismatch rest)"

definition verify_catalog_binding ::
    "store_context \<Rightarrow> prepared_request \<Rightarrow> catalog_action \<Rightarrow> unit result" where
  "verify_catalog_binding ctx request action =
     (case revalidate_catalog_action (pylib.truncate (sc_lib ctx)) (sc_safe ctx) action of
        Inl _ \<Rightarrow> state_error ''invalid_catalog_action''
      | Inr validated \<Rightarrow>
     (case render_action_path (ca_path_template validated)
             (jget (pr_request_inputs request) ''path'' (JObj [])) of
        Inl _ \<Rightarrow> state_error ''invalid_catalog_action''
      | Inr rendered_path \<Rightarrow>
     ebind (if pr_environment request \<notin> set (ca_environments validated) then Inr True
            else any_mismatch
              [(pr_action_id request, ca_action_id validated),
               (pr_version_id request, ca_version_id validated),
               (pr_connector_id request, ca_connector_id validated),
               (method_value (pr_method request), method_value (ca_method validated)),
               (pr_path_template request, ca_path_template validated),
               (pr_final_path request, rendered_path)]) (\<lambda>mismatch.
     ebind (raise_if mismatch (RequestStateError ''catalog_binding_mismatch'')) (\<lambda>_.
     ebind (raise_if
         (map pb_action_id (pr_preflight_actions request) \<noteq> ca_preflight_action_ids validated \<or>
          list_ex (\<lambda>item. pb_connector_id item \<noteq> ca_connector_id validated)
            (pr_preflight_actions request))
         (RequestStateError ''catalog_binding_mismatch'')) (\<lambda>_.
     ebind (effective_risk validated) (\<lambda>risk.
     raise_if (pr_risk_tier request \<noteq> rd_tier risk \<or>
               pr_approval_level request \<noteq> rd_approval_level risk \<or>
               pr_mutation_class request \<noteq> rd_mutation_class risk)
       (RequestStateError ''catalog_risk_mismatch'')))))))"

definition create_preview ::
    "store_context \<Rightarrow> prepared_request \<Rightarrow> catalog_action \<Rightarrow> request_db
       \<Rightarrow> prepared_request result \<times> request_db" where
  "create_preview ctx prepared action db =
     (case ebind (validated_request (sc_lib ctx) prepared) (\<lambda>request.
           ebind (verify_catalog_binding ctx request action) (\<lambda>_.
           ebind (raise_if (pr_repository_id request \<noteq> sc_repository_id ctx)
             (RequestStateError ''repository_mismatch'')) (\<lambda>_.
           ebind (raise_if (pr_state request \<noteq> Previewed \<or> pr_approval_count request \<noteq> 0 \<or>
                            pr_failure_reason request \<noteq> None \<or> pr_response_summary request \<noteq> [])
             (RequestStateError ''invalid_initial_request_state'')) (\<lambda>_. Inr request)))) of
        Inl e \<Rightarrow> (Inl e, db)
      | Inr request \<Rightarrow>
          immediate_transaction (\<lambda>db.
            ebind (check_replay_allowed db (pr_payload_hash request) None) (\<lambda>_.
            ebind (updated (sc_lib ctx) (request\<lparr>pr_state := AwaitingConfirmation\<rparr>))
              (\<lambda>awaiting_confirmation.
            case insert_request db awaiting_confirmation of
              Inl _ \<Rightarrow> state_error ''request_already_exists''
            | Inr db' \<Rightarrow> Inr (awaiting_confirmation, db')))) db)"

definition get_request ::
    "request_lib \<Rightarrow> instant \<Rightarrow> string \<Rightarrow> request_db \<Rightarrow> prepared_request result \<times> request_db" where
  "get_request lib now request_id =
     immediate_transaction (\<lambda>db.
       ebind (fetch lib db request_id) (\<lambda>request. expire_if_needed lib now db request))"

definition approval_candidate ::
    "request_lib \<Rightarrow> instant \<Rightarrow> string \<Rightarrow> string \<Rightarrow> mutation_class \<Rightarrow> request_db
       \<Rightarrow> (prepared_request \<times> request_db) result" where
  "approval_candidate lib now request_id payload_hash expected_class db =
     ebind (fetch lib db request_id) (\<lambda>request.
     ebind (compare_digest payload_hash (pr_payload_hash request)) (\<lambda>same.
     ebind (raise_if (\<not> same) (RequestStateError ''payload_hash_mismatch'')) (\<lambda>_.
     ebind (expire_if_needed lib now db request) (\<lambda>(request, db).
     ebind (require_state request [AwaitingConfirmation]) (\<lambda>_.
     ebind (raise_if (pr_mutation_class request \<noteq> expected_class)
       (RequestStateError ''mutation_class_mismatch'')) (\<lambda>_. Inr (request, db)))))))"

text \<open>Updating the request of a transaction and storing it.\<close>

definition update_and_store ::
    "request_lib \<Rightarrow> prepared_request \<Rightarrow> request_db \<Rightarrow> (prepared_request \<times> request_db) result" where
  "update_and_store lib r db =
     ebind (updated lib r) (\<lambda>request.
     ebind (sqlite_error (store_request db request)) (\<lambda>db'. Inr (request, db')))"

definition approve ::
    "request_lib \<Rightarrow> instant \<Rightarrow> string \<Rightarrow> string \<Rightarrow> mutation_class \<Rightarrow> request_db
       \<Rightarrow> prepared_request result \<times> request_db" where
  "approve lib now request_id payload_hash expected_class =
     immediate_transaction (\<lambda>db.
       ebind (approval_candidate lib now request_id payload_hash expected_class db)
         (\<lambda>(request, db).
       update_and_store lib (request\<lparr>pr_state := ReadyToExecute, pr_approval_count := 1\<rparr>) db))"

definition precheck_approval ::
    "request_lib \<Rightarrow> instant \<Rightarrow> string \<Rightarrow> string \<Rightarrow> mutation_class \<Rightarrow> request_db
       \<Rightarrow> prepared_request result \<times> request_db" where
  "precheck_approval lib now request_id payload_hash expected_class =
     immediate_transaction (approval_candidate lib now request_id payload_hash expected_class)"

definition confirm_request ::
    "request_lib \<Rightarrow> (nat \<Rightarrow> instant) \<Rightarrow> string \<Rightarrow> string \<Rightarrow> request_db
       \<Rightarrow> prepared_request result \<times> request_db" where
  "confirm_request lib clock request_id payload_hash db =
     (case get_request lib (clock 0) request_id db of
        (Inl e, db) \<Rightarrow> (Inl e, db)
      | (Inr request, db) \<Rightarrow>
          approve lib (clock 1) request_id payload_hash (pr_mutation_class request) db)"

definition invalidate_request ::
    "request_lib \<Rightarrow> instant \<Rightarrow> string \<Rightarrow> string \<Rightarrow> request_db
       \<Rightarrow> prepared_request result \<times> request_db" where
  "invalidate_request lib now request_id reason db =
     (if \<not> is_reason reason then (state_error ''invalid_invalidation_reason'', db)
      else immediate_transaction (\<lambda>db.
        ebind (fetch lib db request_id) (\<lambda>request.
        ebind (expire_if_needed lib now db request) (\<lambda>(request, db).
        ebind (require_state_values request pending_states) (\<lambda>_.
        update_and_store lib
          (request\<lparr>pr_state := RequestFailed, pr_failure_reason := Some reason\<rparr>) db)))) db)"

definition require_ready ::
    "request_lib \<Rightarrow> instant \<Rightarrow> string \<Rightarrow> request_db \<Rightarrow> prepared_request result \<times> request_db" where
  "require_ready lib now request_id =
     immediate_transaction (\<lambda>db.
       ebind (fetch lib db request_id) (\<lambda>request.
       ebind (expire_if_needed lib now db request) (\<lambda>(request, db).
       ebind (require_state request [ReadyToExecute]) (\<lambda>_. Inr (request, db)))))"

definition fail_before_dispatch ::
    "request_lib \<Rightarrow> instant \<Rightarrow> string \<Rightarrow> string \<Rightarrow> json_dict \<Rightarrow> request_db
       \<Rightarrow> prepared_request result \<times> request_db" where
  "fail_before_dispatch lib now request_id reason response_summary db =
     (if \<not> is_reason reason then (state_error ''invalid_failure_reason'', db)
      else immediate_transaction (\<lambda>db.
        ebind (fetch lib db request_id) (\<lambda>request.
        ebind (expire_if_needed lib now db request) (\<lambda>(request, db).
        ebind (require_state request [ReadyToExecute]) (\<lambda>_.
        update_and_store lib
          (request\<lparr>pr_state := RequestFailed, pr_failure_reason := Some reason,
                   pr_response_summary := response_summary\<rparr>) db)))) db)"

definition start_execution ::
    "request_lib \<Rightarrow> instant \<Rightarrow> string \<Rightarrow> request_db \<Rightarrow> prepared_request result \<times> request_db" where
  "start_execution lib now request_id =
     immediate_transaction (\<lambda>db.
       ebind (fetch lib db request_id) (\<lambda>request.
       ebind (expire_if_needed lib now db request) (\<lambda>(request, db).
       ebind (require_state request [ReadyToExecute]) (\<lambda>_.
       ebind (check_replay_allowed db (pr_payload_hash request) (Some (pr_request_id request)))
         (\<lambda>_.
       ebind (updated lib (request\<lparr>pr_state := Executing\<rparr>)) (\<lambda>executing.
       case store_request db executing of
         Inl _ \<Rightarrow> Inl (replay_error db (pr_payload_hash request) None)
       | Inr db' \<Rightarrow> Inr (executing, db')))))))"

definition complete_outcomes :: "(string \<times> request_state) list" where
  "complete_outcomes =
     [(''succeeded'', Succeeded), (''failed'', RequestFailed), (''outcome_unknown'', OutcomeUnknown)]"

definition complete_request ::
    "request_lib \<Rightarrow> string \<Rightarrow> string \<Rightarrow> json_dict \<Rightarrow> request_db
       \<Rightarrow> prepared_request result \<times> request_db" where
  "complete_request lib request_id outcome response_summary db =
     (case map_of complete_outcomes outcome of
        None \<Rightarrow> (state_error ''invalid_completion_outcome'', db)
      | Some state \<Rightarrow>
          immediate_transaction (\<lambda>db.
            ebind (fetch lib db request_id) (\<lambda>request.
            ebind (require_state request [Executing]) (\<lambda>_.
            let failure_reason =
              (if state = RequestFailed then Some ''execution_failed''
               else if state = OutcomeUnknown then Some ''outcome_unknown'' else None)
            in update_and_store lib
                 (request\<lparr>pr_state := state, pr_failure_reason := failure_reason,
                          pr_response_summary := response_summary\<rparr>) db))) db)"

definition resolution_outcomes :: "(string \<times> request_state) list" where
  "resolution_outcomes = [(''succeeded'', Succeeded), (''failed'', RequestFailed)]"

definition resolve_outcome_unknown ::
    "request_lib \<Rightarrow> string \<Rightarrow> string \<Rightarrow> json_dict \<Rightarrow> request_db
       \<Rightarrow> prepared_request result \<times> request_db" where
  "resolve_outcome_unknown lib request_id outcome response_summary db =
     (case map_of resolution_outcomes outcome of
        None \<Rightarrow> (state_error ''invalid_resolution_outcome'', db)
      | Some state \<Rightarrow>
          immediate_transaction (\<lambda>db.
            ebind (fetch lib db request_id) (\<lambda>request.
            ebind (require_state request [OutcomeUnknown]) (\<lambda>_.
            update_and_store lib
              (request\<lparr>pr_state := state,
                       pr_failure_reason :=
                         (if state = RequestFailed then Some ''execution_failed'' else None),
                       pr_response_summary := response_summary\<rparr>) db))) db)"

fun invalidate_rows ::
    "request_lib \<Rightarrow> string \<Rightarrow> request_row list \<Rightarrow> request_db \<Rightarrow> request_db result" where
  "invalidate_rows lib reason [] db = Inr db"
| "invalidate_rows lib reason (row # rows) db =
     ebind (row_to_request lib row) (\<lambda>request.
     ebind (update_and_store lib
         (request\<lparr>pr_state := RequestFailed, pr_failure_reason := Some reason\<rparr>) db) (\<lambda>(_, db').
     invalidate_rows lib reason rows db'))"

definition in_scope :: "string option \<Rightarrow> string option \<Rightarrow> request_row \<Rightarrow> bool" where
  "in_scope connector_id environment row \<longleftrightarrow>
     rw_state row \<in> set pending_states \<and>
     (case connector_id of None \<Rightarrow> True | Some c \<Rightarrow> rw_connector_id row = c) \<and>
     (case environment of None \<Rightarrow> True | Some e \<Rightarrow> rw_environment row = e)"

definition invalidate_pending ::
    "request_lib \<Rightarrow> (nat \<Rightarrow> instant) \<Rightarrow> string option \<Rightarrow> string option \<Rightarrow> string \<Rightarrow> request_db
       \<Rightarrow> nat result \<times> request_db" where
  "invalidate_pending lib clock connector_id environment reason db =
     (if (case connector_id of None \<Rightarrow> False | Some c \<Rightarrow> \<not> identifier_pattern c) \<or>
         (case environment of None \<Rightarrow> False | Some e \<Rightarrow> \<not> identifier_pattern e)
      then (state_error ''invalid_invalidation_scope'', db)
      else if \<not> is_reason reason then (state_error ''invalid_invalidation_reason'', db)
      else immediate_transaction (\<lambda>db.
        ebind (expire_pending lib clock db) (\<lambda>db.
        let rows = filter (in_scope connector_id environment) db in
        ebind (invalidate_rows lib reason rows db) (\<lambda>db'. Inr (length rows, db')))) db)"

definition assert_replay_allowed :: "string \<Rightarrow> request_db \<Rightarrow> unit result" where
  "assert_replay_allowed payload_hash db =
     (if \<not> sha256_hex payload_hash then state_error ''invalid_payload_hash''
      else check_replay_allowed db payload_hash None)"

section \<open>The abstract machine of the store\<close>

text \<open>
  Every operation is refined by a sequence of single moves. A move creates a request that waits
  for its confirmation, or changes the state, approval count, failure reason and summaries of one
  request, and nothing else of it.
\<close>

datatype store_event =
    Created
  | Expired_or_invalidated
  | Approved string mutation_class instant
  | Started
  | Finished request_state
  | Resolved request_state

definition validated :: "request_lib \<Rightarrow> prepared_request \<Rightarrow> bool" where
  "validated lib q \<longleftrightarrow> (\<exists>p. validate_preview lib p = Inr q)"

definition frozen :: "prepared_request \<Rightarrow> prepared_request \<Rightarrow> bool" where
  "frozen r q \<longleftrightarrow>
     q = r\<lparr>pr_state := pr_state q, pr_approval_count := pr_approval_count q,
           pr_failure_reason := pr_failure_reason q,
           pr_response_summary := pr_response_summary q,
           pr_sanitized_summary := pr_sanitized_summary q\<rparr>"

fun move_ok :: "store_event \<Rightarrow> prepared_request \<Rightarrow> prepared_request \<Rightarrow> bool" where
  "move_ok Created r q = False"
| "move_ok Expired_or_invalidated r q =
     (state_value (pr_state r) \<in> set pending_states \<and> pr_state q = RequestFailed)"
| "move_ok (Approved payload_hash class now) r q =
     (pr_state r = AwaitingConfirmation \<and> pr_state q = ReadyToExecute \<and>
      payload_hash = pr_payload_hash r \<and> class = pr_mutation_class r \<and> \<not> expired r now)"
| "move_ok Started r q = (pr_state r = ReadyToExecute \<and> pr_state q = Executing)"
| "move_ok (Finished s) r q =
     (pr_state r = Executing \<and> pr_state q = s \<and> s \<in> {Succeeded, RequestFailed, OutcomeUnknown})"
| "move_ok (Resolved s) r q =
     (pr_state r = OutcomeUnknown \<and> pr_state q = s \<and> s \<in> {Succeeded, RequestFailed})"

inductive db_step :: "request_lib \<Rightarrow> string \<times> store_event \<Rightarrow> request_db \<Rightarrow> request_db \<Rightarrow> bool"
  for lib where
  create: "\<lbrakk>validated lib q; pr_state q = AwaitingConfirmation;
     insert_request db q = Inr db'\<rbrakk>
     \<Longrightarrow> db_step lib (pr_request_id q, Created) db db'"
| move: "\<lbrakk>fetch lib db rid = Inr r; validated lib q; frozen r q; move_ok event r q;
     store_request db q = Inr db'\<rbrakk>
     \<Longrightarrow> db_step lib (rid, event) db db'"

inductive db_steps ::
    "request_lib \<Rightarrow> (string \<times> store_event) list \<Rightarrow> request_db \<Rightarrow> request_db \<Rightarrow> bool"
  for lib where
  stop: "db_steps lib [] db db"
| step: "\<lbrakk>db_steps lib es db db'; db_step lib e db' db''\<rbrakk> \<Longrightarrow> db_steps lib (es @ [e]) db db''"

inductive_cases db_stepE: "db_step lib e db db'"

lemma db_steps_append:
  "db_steps lib fs db' db'' \<Longrightarrow> db_steps lib es db db' \<Longrightarrow> db_steps lib (es @ fs) db db''"
proof (induction rule: db_steps.induct)
  case (stop db)
  then show ?case by simp
next
  case (step fs db1 db2 e db3)
  then show ?case using db_steps.step[of lib "es @ fs" db db2 e db3] by simp
qed

lemma db_steps_one: "db_step lib e db db' \<Longrightarrow> db_steps lib [e] db db'"
  using db_steps.step[OF db_steps.stop] by simp

subsection \<open>Facts about validated requests\<close>

lemma frozen_refl [simp]: "frozen r r"
  by (simp add: frozen_def)

lemma frozen_trans: "frozen r q \<Longrightarrow> frozen q p \<Longrightarrow> frozen r p"
  by (cases r; cases q; cases p) (simp add: frozen_def)

lemma frozen_updates [simp]:
  "frozen r (r\<lparr>pr_state := state\<rparr>)"
  "frozen r (r\<lparr>pr_state := state, pr_approval_count := count\<rparr>)"
  "frozen r (r\<lparr>pr_state := state, pr_failure_reason := reason\<rparr>)"
  "frozen r (r\<lparr>pr_state := state, pr_failure_reason := reason, pr_response_summary := response\<rparr>)"
  "frozen r (r\<lparr>pr_sanitized_summary := summary, pr_response_summary := response\<rparr>)"
  by (cases r; simp add: frozen_def)+

lemma frozen_fields:
  assumes "frozen r q"
  shows "pr_request_id q = pr_request_id r" and "pr_payload_hash q = pr_payload_hash r"
    and "pr_mutation_class q = pr_mutation_class r" and "pr_expires_at q = pr_expires_at r"
    and "pr_connector_id q = pr_connector_id r" and "pr_environment q = pr_environment r"
    and "expired q now = expired r now"
    and "request_binding_payload q = request_binding_payload r"
  using assms
  by (cases r; cases q; simp add: frozen_def expired_def request_binding_payload_def)+

lemma validate_preview_frozen:
  assumes "validate_preview lib r = Inr q"
  shows "\<exists>s p. q = r\<lparr>pr_sanitized_summary := s, pr_response_summary := p\<rparr>"
    and "frozen r q" and "pr_state q = pr_state r" and "pr_approval_count q = pr_approval_count r"
    and "validated lib q"
proof -
  obtain c s p where "pr_created_at r = Aware c" "pr_expires_at r = Aware (c + PREVIEW_TTL)"
    and "q = r\<lparr>pr_created_at := Aware c, pr_expires_at := Aware (c + PREVIEW_TTL),
      pr_sanitized_summary := s, pr_response_summary := p\<rparr>"
    using validate_preview_Inr(2)[OF assms] by blast
  then have q: "q = r\<lparr>pr_sanitized_summary := s, pr_response_summary := p\<rparr>" by simp
  then show "\<exists>s p. q = r\<lparr>pr_sanitized_summary := s, pr_response_summary := p\<rparr>" by blast
  show "frozen r q" unfolding q by simp
  show "pr_state q = pr_state r" "pr_approval_count q = pr_approval_count r" by (simp_all add: q)
  show "validated lib q" using assms by (auto simp: validated_def)
qed

lemma validated_state_fields:
  assumes "validated lib q"
  shows "pr_state q \<in> {ReadyToExecute, Executing} \<Longrightarrow> pr_approval_count q = 1"
    and "pr_state q = AwaitingConfirmation \<Longrightarrow> pr_approval_count q = 0"
    and "sha256_hex (pr_payload_hash q)"
proof -
  obtain p where p: "validate_preview lib p = Inr q" using assms by (auto simp: validated_def)
  note v = validate_preview_Inr[OF p] validate_preview_frozen(3,4)[OF p]
  show "pr_state q \<in> {ReadyToExecute, Executing} \<Longrightarrow> pr_approval_count q = 1"
    "pr_state q = AwaitingConfirmation \<Longrightarrow> pr_approval_count q = 0"
    using v by (auto simp: valid_state_fields_def split: if_splits)
  show "sha256_hex (pr_payload_hash q)"
    using v(7) frozen_fields(2)[OF validate_preview_frozen(2)[OF p]] by simp
qed

lemma updated_Inr:
  assumes "updated lib r = Inr q"
  shows "validated lib q" and "frozen r q" and "pr_state q = pr_state r"
    and "pr_approval_count q = pr_approval_count r"
  using assms validate_preview_frozen by (auto simp: updated_def split: sum.splits)

lemma fetch_Inr:
  assumes "fetch lib db rid = Inr r"
  obtains row where "find (\<lambda>row. rw_request_id row = rid) db = Some row" "row \<in> set db"
    "validate_preview lib (rw_request row) = Inr r" "rw_request_id row = rid"
    "pr_request_id r = rid" "rw_state row = state_value (pr_state r)"
    "rw_payload_hash row = pr_payload_hash r" "frozen (rw_request row) r" "validated lib r"
proof -
  obtain row where find: "find (\<lambda>row. rw_request_id row = rid) db = Some row"
    and row: "row_to_request lib row = Inr r"
    using assms by (auto simp: fetch_def split: option.splits)
  have "row \<in> set db" "rw_request_id row = rid"
    using find by (auto simp: find_Some_iff)
  moreover have "validate_preview lib (rw_request row) = Inr r" "rw_request_id row = pr_request_id r"
    "rw_state row = state_value (pr_state r)" "rw_payload_hash row = pr_payload_hash r"
    using row by (auto simp: row_to_request_def split: sum.splits if_splits)
  ultimately show ?thesis
    using find validate_preview_frozen[of lib "rw_request row" r] that by metis
qed

lemma expire_if_needed_Inr:
  assumes "expire_if_needed lib now db r = Inr (q, db')"
  shows "(q = r \<and> db' = db \<and> \<not> (state_value (pr_state r) \<in> set pending_states \<and> expired r now)) \<or>
     (state_value (pr_state r) \<in> set pending_states \<and> expired r now \<and> pr_state q = RequestFailed \<and>
      validated lib q \<and> frozen r q \<and> store_request db q = Inr db')"
  using assms frozen_trans[OF frozen_updates(3)]
  by (auto simp: expire_if_needed_def sqlite_error_def outcome_simps dest: updated_Inr
      split: if_splits sum.splits)

subsection \<open>Every operation is a sequence of moves\<close>

lemma transaction_eq [outcome_simps]:
  "immediate_transaction body db = (res, db') \<longleftrightarrow>
     (\<exists>e. body db = Inl e \<and> res = Inl e \<and> db' = db) \<or> (\<exists>x. body db = Inr (x, db') \<and> res = Inr x)"
  by (auto simp: immediate_transaction_def split: sum.splits prod.splits)

lemma require_state_Inr [outcome_simps]:
  "require_state r states = Inr u \<longleftrightarrow> pr_state r \<in> set states"
  by (simp add: require_state_def)

lemma require_state_values_Inr [outcome_simps]:
  "require_state_values r states = Inr u \<longleftrightarrow> state_value (pr_state r) \<in> set states"
  by (simp add: require_state_values_def)

lemma stored_or_error [outcome_simps]:
  "(case m of Inl u \<Rightarrow> Inl e | Inr d \<Rightarrow> Inr (q, d)) = Inr (p, d') \<longleftrightarrow> m = Inr d' \<and> p = q"
  by (auto split: sum.splits)

lemma failed_not_pending [simp]: "state_value RequestFailed \<notin> set pending_states"
  by (simp add: pending_states_def)

lemma update_and_store_Inr:
  assumes "update_and_store lib r db = Inr (q, db')"
  shows "validated lib q" and "frozen r q" and "pr_state q = pr_state r"
    and "store_request db q = Inr db'"
  using assms updated_Inr[of lib r q]
  by (auto simp: update_and_store_def sqlite_error_def outcome_simps split: sum.splits)

lemma not_expired_now:
  assumes "expire_if_needed lib now db r = Inr (q, db')" and "pr_state q \<noteq> RequestFailed"
  shows "q = r" and "db' = db" and "state_value (pr_state r) \<in> set pending_states \<Longrightarrow> \<not> expired r now"
  using expire_if_needed_Inr[OF assms(1)] assms(2) by auto

text \<open>A single-request operation either fails and changes nothing or makes one move.\<close>

definition one_move ::
    "request_lib \<Rightarrow> string \<Rightarrow> store_event \<Rightarrow> request_db \<Rightarrow> prepared_request result \<times> request_db \<Rightarrow> bool"
  where
  "one_move lib rid event db out \<longleftrightarrow>
     (\<exists>e. out = (Inl e, db)) \<or>
     (\<exists>r q db'. out = (Inr q, db') \<and> fetch lib db rid = Inr r \<and> validated lib q \<and> frozen r q \<and>
        move_ok event r q \<and> store_request db q = Inr db')"

lemma one_move_steps:
  assumes "one_move lib rid event db (res, db')"
  shows "\<exists>es. db_steps lib es db db' \<and> set es \<subseteq> {(rid, event)}"
proof (cases "\<exists>e. (res, db') = (Inl e, db)")
  case True
  then show ?thesis by (auto intro: exI[of _ "[]"] db_steps.stop)
next
  case False
  then have "db_step lib (rid, event) db db'"
    using assms unfolding one_move_def by (auto intro: db_step.move)
  then show ?thesis by (auto intro: exI[of _ "[(rid, event)]"] db_steps_one)
qed

lemma one_move_Inl [simp]: "one_move lib rid event db (Inl e, db)"
  by (simp add: one_move_def)

lemma one_moveI:
  assumes "\<And>q db'. body db = Inr (q, db') \<Longrightarrow>
     \<exists>r. fetch lib db rid = Inr r \<and> validated lib q \<and> frozen r q \<and> move_ok event r q \<and>
         store_request db q = Inr db'"
  shows "one_move lib rid event db (immediate_transaction body db)"
proof (cases "body db")
  case (Inl e)
  then show ?thesis by (simp add: one_move_def immediate_transaction_def)
next
  case (Inr x)
  then obtain q db' where x: "body db = Inr (q, db')" by (cases x) auto
  with assms[OF x] show ?thesis by (auto simp: one_move_def immediate_transaction_def)
qed

lemma approval_candidate_Inr:
  assumes "approval_candidate lib now rid payload_hash expected_class db = Inr (r, db')"
  shows "fetch lib db rid = Inr r" and "db' = db" and "pr_state r = AwaitingConfirmation"
    and "payload_hash = pr_payload_hash r" and "expected_class = pr_mutation_class r"
    and "\<not> expired r now"
proof -
  obtain r0 where r0: "fetch lib db rid = Inr r0" "payload_hash = pr_payload_hash r0"
    and exp: "expire_if_needed lib now db r0 = Inr (r, db')"
    and st: "pr_state r = AwaitingConfirmation" "pr_mutation_class r = expected_class"
    using assms by (auto simp: approval_candidate_def outcome_simps simp del: ebind_raise_if)
  have "pr_state r \<noteq> RequestFailed" using st by simp
  note same = not_expired_now[OF exp this]
  show "fetch lib db rid = Inr r" "db' = db" "pr_state r = AwaitingConfirmation"
    "payload_hash = pr_payload_hash r" "expected_class = pr_mutation_class r"
    using r0 st same(1,2) by simp_all
  show "\<not> expired r now" using same st by (simp add: pending_states_def)
qed

lemma approve_moves:
  "one_move lib rid (Approved payload_hash expected_class now) db
     (approve lib now rid payload_hash expected_class db)"
  unfolding approve_def
proof (rule one_moveI)
  fix q db'
  assume "ebind (approval_candidate lib now rid payload_hash expected_class db)
      (\<lambda>(request, db). update_and_store lib
         (request\<lparr>pr_state := ReadyToExecute, pr_approval_count := 1\<rparr>) db) = Inr (q, db')"
  then obtain r where r: "approval_candidate lib now rid payload_hash expected_class db = Inr (r, db)"
    and u: "update_and_store lib (r\<lparr>pr_state := ReadyToExecute, pr_approval_count := 1\<rparr>) db = Inr (q, db')"
    using approval_candidate_Inr(2) by (auto simp: outcome_simps) blast
  note c = approval_candidate_Inr[OF r] and w = update_and_store_Inr[OF u]
  have "frozen r q" using frozen_trans[OF frozen_updates(2) w(2)] .
  then show "\<exists>r. fetch lib db rid = Inr r \<and> validated lib q \<and> frozen r q \<and>
      move_ok (Approved payload_hash expected_class now) r q \<and> store_request db q = Inr db'"
    using c w by (intro exI[of _ r]) simp
qed

text \<open>Fetching, expiring and requiring states, for the operations that then update the request.\<close>

lemma fetched_and_required:
  assumes "ebind (fetch lib db rid) (\<lambda>request.
     ebind (expire_if_needed lib now db request) (\<lambda>(request, db).
     ebind (check request) (\<lambda>_. k request db))) = Inr (q, db')"
    and "\<And>r. check r = Inr () \<Longrightarrow> pr_state r \<noteq> RequestFailed"
  obtains r where "fetch lib db rid = Inr r" "check r = Inr ()" "k r db = Inr (q, db')"
    "state_value (pr_state r) \<in> set pending_states \<Longrightarrow> \<not> expired r now"
proof -
  obtain r0 r db1 where f: "fetch lib db rid = Inr r0"
    and exp: "expire_if_needed lib now db r0 = Inr (r, db1)"
    and c: "check r = Inr ()" and k: "k r db1 = Inr (q, db')"
    using assms(1) by (auto simp: ebind_eq_Inr)
  from not_expired_now[OF exp assms(2)[OF c]] f c k show ?thesis by (intro that) simp_all
qed

lemma move_of_update:
  assumes "fetch lib db rid = Inr r" and "update_and_store lib p db = Inr (q, db')"
    and "frozen r p" and "\<And>q. pr_state q = pr_state p \<Longrightarrow> move_ok event r q"
  shows "\<exists>r. fetch lib db rid = Inr r \<and> validated lib q \<and> frozen r q \<and> move_ok event r q \<and>
     store_request db q = Inr db'"
  using assms update_and_store_Inr[OF assms(2)] frozen_trans[OF assms(3)] by auto

lemma pending_not_failed: "state_value (pr_state r) \<in> set pending_states \<Longrightarrow> pr_state r \<noteq> RequestFailed"
  using failed_not_pending by metis

lemma invalidate_request_moves:
  "one_move lib rid Expired_or_invalidated db (invalidate_request lib now rid reason db)"
  unfolding invalidate_request_def
  apply (simp, intro impI one_moveI)
  apply (erule fetched_and_required)
   apply (simp only: require_state_values_Inr pending_not_failed not_False_eq_True)
  apply (erule (1) move_of_update)
   apply simp
  apply (simp add: require_state_values_Inr)
  done

lemma fail_before_dispatch_moves:
  "one_move lib rid Expired_or_invalidated db
     (fail_before_dispatch lib now rid reason response db)"
  unfolding fail_before_dispatch_def
  apply (simp, intro impI one_moveI)
  apply (erule fetched_and_required)
   apply (simp add: require_state_Inr)
  apply (erule (1) move_of_update)
   apply simp
  apply (simp add: require_state_Inr pending_states_def)
  done

lemma start_execution_moves: "one_move lib rid Started db (start_execution lib now rid db)"
  unfolding start_execution_def
proof (rule one_moveI, erule fetched_and_required)
  show "require_state r [ReadyToExecute] = Inr () \<Longrightarrow> pr_state r \<noteq> RequestFailed" for r
    by (simp add: require_state_Inr)
next
  fix q db' r
  assume "fetch lib db rid = Inr r" "require_state r [ReadyToExecute] = Inr ()"
    and "ebind (check_replay_allowed db (pr_payload_hash r) (Some (pr_request_id r)))
      (\<lambda>_. ebind (updated lib (r\<lparr>pr_state := Executing\<rparr>)) (\<lambda>executing.
         case store_request db executing of
           Inl x \<Rightarrow> Inl (replay_error db (pr_payload_hash r) None)
         | Inr db' \<Rightarrow> Inr (executing, db'))) = Inr (q, db')"
  then show "\<exists>r. fetch lib db rid = Inr r \<and> validated lib q \<and> frozen r q \<and> move_ok Started r q \<and>
      store_request db q = Inr db'"
    unfolding ebind_eq_Inr require_state_Inr stored_or_error
    by (elim exE conjE, intro exI[of _ r] conjI)
      (simp_all add: updated_Inr frozen_trans[OF frozen_updates(1) updated_Inr(2)])
qed

lemma get_request_steps:
  assumes "get_request lib now rid db = (res, db')"
  shows "\<exists>es. db_steps lib es db db' \<and> set es \<subseteq> {(rid, Expired_or_invalidated)}"
proof (cases "\<exists>e. (res, db') = (Inl e, db)")
  case True
  then show ?thesis by (auto intro: exI[of _ "[]"] db_steps.stop)
next
  case False
  then obtain r q where f: "fetch lib db rid = Inr r"
    and e: "expire_if_needed lib now db r = Inr (q, db')"
    using assms by (auto simp: get_request_def outcome_simps)
  from expire_if_needed_Inr[OF e] show ?thesis
  proof
    assume "q = r \<and> db' = db \<and> \<not> (state_value (pr_state r) \<in> set pending_states \<and> expired r now)"
    then show ?thesis by (auto intro: exI[of _ "[]"] db_steps.stop)
  next
    assume "state_value (pr_state r) \<in> set pending_states \<and> expired r now \<and>
      pr_state q = RequestFailed \<and> validated lib q \<and> frozen r q \<and> store_request db q = Inr db'"
    then have "db_step lib (rid, Expired_or_invalidated) db db'"
      using f by (auto intro: db_step.move)
    then show ?thesis
      by (auto intro: exI[of _ "[(rid, Expired_or_invalidated)]"] db_steps_one)
  qed
qed

lemma require_ready_unchanged: "require_ready lib now rid db = (res, db') \<Longrightarrow> db' = db"
  using not_expired_now(2)
  by (fastforce simp: require_ready_def outcome_simps)

lemma precheck_approval_unchanged:
  "precheck_approval lib now rid payload_hash class db = (res, db') \<Longrightarrow> db' = db"
  using approval_candidate_Inr(2) by (fastforce simp: precheck_approval_def outcome_simps)

lemma complete_request_moves:
  "\<exists>s. one_move lib rid (Finished s) db (complete_request lib rid outcome response db)"
proof (cases "map_of complete_outcomes outcome")
  case None
  then show ?thesis by (simp add: complete_request_def)
next
  case (Some s)
  then have s: "s \<in> {Succeeded, RequestFailed, OutcomeUnknown}"
    by (auto simp: complete_outcomes_def split: if_splits)
  show ?thesis
  proof (rule exI[of _ s], unfold complete_request_def Some option.case, rule one_moveI)
    fix q db'
    assume "ebind (fetch lib db rid) (\<lambda>request. ebind (require_state request [Executing]) (\<lambda>_.
      let failure_reason = if s = RequestFailed then Some ''execution_failed''
                           else if s = OutcomeUnknown then Some ''outcome_unknown'' else None
      in update_and_store lib (request\<lparr>pr_state := s, pr_failure_reason := failure_reason,
            pr_response_summary := response\<rparr>) db)) = Inr (q, db')"
    then show "\<exists>r. fetch lib db rid = Inr r \<and> validated lib q \<and> frozen r q \<and>
        move_ok (Finished s) r q \<and> store_request db q = Inr db'"
      using s unfolding Let_def ebind_eq_Inr require_state_Inr
      by (elim exE conjE) (erule (1) move_of_update; simp)
  qed
qed


lemma resolve_outcome_unknown_moves:
  "\<exists>s. one_move lib rid (Resolved s) db (resolve_outcome_unknown lib rid outcome response db)"
proof (cases "map_of resolution_outcomes outcome")
  case None
  then show ?thesis by (simp add: resolve_outcome_unknown_def)
next
  case (Some s)
  then have s: "s \<in> {Succeeded, RequestFailed}"
    by (auto simp: resolution_outcomes_def split: if_splits)
  show ?thesis
  proof (rule exI[of _ s], unfold resolve_outcome_unknown_def Some option.case, rule one_moveI)
    fix q db'
    assume "ebind (fetch lib db rid) (\<lambda>request. ebind (require_state request [OutcomeUnknown]) (\<lambda>_.
      update_and_store lib (request\<lparr>pr_state := s,
        pr_failure_reason := if s = RequestFailed then Some ''execution_failed'' else None,
        pr_response_summary := response\<rparr>) db)) = Inr (q, db')"
    then show "\<exists>r. fetch lib db rid = Inr r \<and> validated lib q \<and> frozen r q \<and>
        move_ok (Resolved s) r q \<and> store_request db q = Inr db'"
      using s unfolding ebind_eq_Inr require_state_Inr
      by (elim exE conjE) (erule (1) move_of_update; simp)
  qed
qed

lemma create_preview_steps:
  assumes "create_preview ctx prepared action db = (res, db')"
  shows "\<exists>es. db_steps (sc_lib ctx) es db db' \<and> set es \<subseteq> {(pr_request_id prepared, Created)}"
proof (cases "\<exists>e. (res, db') = (Inl e, db)")
  case True
  then show ?thesis by (auto intro: exI[of _ "[]"] db_steps.stop)
next
  case False
  then obtain request q where v: "validated_request (sc_lib ctx) prepared = Inr request"
    and u: "updated (sc_lib ctx) (request\<lparr>pr_state := AwaitingConfirmation\<rparr>) = Inr q"
    and i: "insert_request db q = Inr db'"
    using assms
    unfolding create_preview_def
    by (cases "validated_request (sc_lib ctx) prepared")
      (auto simp: outcome_simps split: if_splits sum.splits, metis)
  have "frozen prepared request"
    using v validate_preview_frozen(2) by (auto simp: validated_request_def split: sum.splits)
  then have "pr_request_id q = pr_request_id prepared"
    using frozen_fields(1) updated_Inr(2)[OF u] by fastforce
  then have "db_step (sc_lib ctx) (pr_request_id prepared, Created) db db'"
    using updated_Inr[OF u] i db_step.create[of "sc_lib ctx" q db db'] by simp
  then show ?thesis
    by (auto intro: exI[of _ "[(pr_request_id prepared, Created)]"] db_steps_one)
qed

lemma confirm_request_steps:
  assumes "confirm_request lib clock rid payload_hash db = (res, db')"
  shows "\<exists>es class. db_steps lib es db db' \<and>
     set es \<subseteq> {(rid, Expired_or_invalidated), (rid, Approved payload_hash class (clock 1))}"
proof -
  obtain got db1 where g: "get_request lib (clock 0) rid db = (got, db1)" by fastforce
  obtain es where es: "db_steps lib es db db1" "set es \<subseteq> {(rid, Expired_or_invalidated)}"
    using get_request_steps[OF g] by blast
  show ?thesis
  proof (cases got)
    case (Inl e)
    then show ?thesis using assms g es by (auto simp: confirm_request_def)
  next
    case (Inr r)
    then have a: "approve lib (clock 1) rid payload_hash (pr_mutation_class r) db1 = (res, db')"
      using assms g by (simp add: confirm_request_def)
    then obtain fs where "db_steps lib fs db1 db'"
        "set fs \<subseteq> {(rid, Approved payload_hash (pr_mutation_class r) (clock 1))}"
      using one_move_steps[OF approve_moves[of lib rid payload_hash "pr_mutation_class r" "clock 1" db1,
        unfolded a]] by blast
    then show ?thesis using es db_steps_append[of lib fs db1 db' es db]
      by (intro exI[of _ "es @ fs"] exI[of _ "pr_mutation_class r"]) auto
  qed
qed


text \<open>\<open>expire_pending\<close> and the loop of \<open>invalidate_pending\<close> work on rows selected before the first
  update: a row is still in the table when its turn comes, because the updates before it changed
  rows with other identifiers.\<close>

lemma store_request_keeps:
  assumes "store_request db q = Inr db'"
  shows "map rw_request_id db' = map rw_request_id db"
    and "row \<in> set db \<Longrightarrow> rw_request_id row \<noteq> pr_request_id q \<Longrightarrow> row \<in> set db'"
  using assms by (auto simp: store_request_def row_of_def image_iff split: if_splits)

lemma fetch_row:
  assumes "distinct (map rw_request_id db)" and "row \<in> set db"
    and "row_to_request lib row = Inr r"
  shows "fetch lib db (rw_request_id row) = Inr r" and "pr_request_id r = rw_request_id row"
proof -
  have "find (\<lambda>x. rw_request_id x = rw_request_id row) db = Some row"
    using assms(1,2) by (induction db) (auto simp: image_iff)
  then show "fetch lib db (rw_request_id row) = Inr r" using assms(3) by (simp add: fetch_def)
  show "pr_request_id r = rw_request_id row"
    using assms(3) by (auto simp: row_to_request_def split: sum.splits if_splits)
qed

lemma rows_after_store:
  assumes "distinct (map rw_request_id (row # rows))" and "set (row # rows) \<subseteq> set db"
    and "store_request db q = Inr db'" and "pr_request_id q = rw_request_id row"
  shows "set rows \<subseteq> set db'"
  using assms store_request_keeps(2)[OF assms(3)] by (fastforce simp: image_iff)

lemma expire_rows_steps:
  assumes "expire_rows lib clock n rows db = Inr db'"
    and "distinct (map rw_request_id db)" and "distinct (map rw_request_id rows)"
    and "set rows \<subseteq> set db"
  shows "\<exists>es. db_steps lib es db db' \<and> snd ` set es \<subseteq> {Expired_or_invalidated} \<and>
     map rw_request_id db' = map rw_request_id db"
  using assms
proof (induction rows arbitrary: n db)
  case Nil
  then show ?case by (auto intro: exI[of _ "[]"] db_steps.stop)
next
  case (Cons row rows)
  obtain r q db1 where r: "row_to_request lib row = Inr r"
    and e: "expire_if_needed lib (clock n) db r = Inr (q, db1)"
    and rest: "expire_rows lib clock (Suc n) rows db1 = Inr db'"
    using Cons.prems(1) by (auto simp: outcome_simps)
  note f = fetch_row[OF Cons.prems(2) _ r]
  have row: "row \<in> set db" using Cons.prems(4) by simp
  from expire_if_needed_Inr[OF e] show ?case
  proof (elim disjE conjE)
    assume "q = r" "db1 = db"
    then show ?case using Cons.IH[OF _ Cons.prems(2), of "Suc n"] Cons.prems(3,4) rest by simp
  next
    assume m: "state_value (pr_state r) \<in> set pending_states" "pr_state q = RequestFailed"
      "validated lib q" "frozen r q" "store_request db q = Inr db1"
    have q: "pr_request_id q = rw_request_id row"
      using f(2)[OF row] frozen_fields(1)[OF m(4)] by simp
    have st: "db_step lib (rw_request_id row, Expired_or_invalidated) db db1"
      using m f(1)[OF row] by (auto intro: db_step.move)
    note keep = store_request_keeps(1)[OF m(5)]
    have "set rows \<subseteq> set db1" by (rule rows_after_store[OF Cons.prems(3,4) m(5) q])
    then obtain es where "db_steps lib es db1 db'" "snd ` set es \<subseteq> {Expired_or_invalidated}"
        "map rw_request_id db' = map rw_request_id db1"
      using Cons.IH[OF rest] Cons.prems(2,3) keep by auto
    then show ?case using db_steps_append[OF _ db_steps_one[OF st]] keep
      by (intro exI[of _ "[(rw_request_id row, Expired_or_invalidated)] @ es"]) auto
  qed
qed

lemma invalidate_rows_steps:
  assumes "invalidate_rows lib reason rows db = Inr db'"
    and "distinct (map rw_request_id db)" and "distinct (map rw_request_id rows)"
    and "set rows \<subseteq> set db" and "\<forall>row \<in> set rows. rw_state row \<in> set pending_states"
  shows "\<exists>es. db_steps lib es db db' \<and> snd ` set es \<subseteq> {Expired_or_invalidated}"
  using assms
proof (induction rows arbitrary: db)
  case Nil
  then show ?case by (auto intro: exI[of _ "[]"] db_steps.stop)
next
  case (Cons row rows)
  obtain r q db1 where r: "row_to_request lib row = Inr r"
    and u: "update_and_store lib (r\<lparr>pr_state := RequestFailed, pr_failure_reason := Some reason\<rparr>) db =
      Inr (q, db1)"
    and rest: "invalidate_rows lib reason rows db1 = Inr db'"
    using Cons.prems(1) by (auto simp: outcome_simps)
  note m = update_and_store_Inr[OF u]
  have row: "row \<in> set db" using Cons.prems(4) by simp
  note f = fetch_row[OF Cons.prems(2) row r]
  have fr: "frozen r q" using frozen_trans[OF frozen_updates(3) m(2)] .
  then have q: "pr_request_id q = rw_request_id row" using f(2) frozen_fields(1) by simp
  have "rw_state row = state_value (pr_state r)"
    using r by (auto simp: row_to_request_def split: sum.splits if_splits)
  then have st: "db_step lib (rw_request_id row, Expired_or_invalidated) db db1"
    using m f(1) fr Cons.prems(5) by (auto intro!: db_step.move)
  have "set rows \<subseteq> set db1" by (rule rows_after_store[OF Cons.prems(3,4) m(4) q])
  then obtain es where "db_steps lib es db1 db'" "snd ` set es \<subseteq> {Expired_or_invalidated}"
    using Cons.IH[OF rest] Cons.prems(2,3,5) store_request_keeps(1)[OF m(4)] by auto
  then show ?case using db_steps_append[OF _ db_steps_one[OF st]]
    by (intro exI[of _ "[(rw_request_id row, Expired_or_invalidated)] @ es"]) auto
qed

lemma invalidate_pending_steps:
  assumes "invalidate_pending lib clock connector env reason db = (res, db')"
    and "distinct (map rw_request_id db)"
  shows "\<exists>es. db_steps lib es db db' \<and> snd ` set es \<subseteq> {Expired_or_invalidated}"
proof (cases "\<exists>e. (res, db') = (Inl e, db)")
  case True
  then show ?thesis by (auto intro: exI[of _ "[]"] db_steps.stop)
next
  case False
  then obtain db1 where e: "expire_pending lib clock db = Inr db1"
    and i: "invalidate_rows lib reason (filter (in_scope connector env) db1) db1 = Inr db'"
    using assms(1)
    by (auto simp: invalidate_pending_def Let_def outcome_simps split: if_splits)
  obtain es where es: "db_steps lib es db db1" "snd ` set es \<subseteq> {Expired_or_invalidated}"
      "map rw_request_id db1 = map rw_request_id db"
    using expire_rows_steps[OF e[unfolded expire_pending_def] assms(2)] assms(2)
    by (auto simp: distinct_map_filter)
  have d1: "distinct (map rw_request_id db1)" by (simp only: es(3) assms(2))
  have "\<exists>fs. db_steps lib fs db1 db' \<and> snd ` set fs \<subseteq> {Expired_or_invalidated}"
    by (rule invalidate_rows_steps[OF i d1 distinct_map_filter[OF d1]])
      (simp_all add: in_scope_def)
  then obtain fs where "db_steps lib fs db1 db'" "snd ` set fs \<subseteq> {Expired_or_invalidated}"
    by blast
  then show ?thesis using db_steps_append[OF _ es(1)] es(2)
    by (intro exI[of _ "es @ fs"]) auto
qed

section \<open>Runs of the store\<close>

datatype store_op =
    CreatePreview prepared_request catalog_action
  | GetRequest string
  | ApproveRequest string string mutation_class
  | PrecheckApproval string string mutation_class
  | ConfirmRequest string string
  | InvalidateRequest string string
  | RequireReady string
  | FailBeforeDispatch string string json_dict
  | StartExecution string
  | CompleteRequest string string json_dict
  | ResolveOutcome string string json_dict
  | InvalidatePending "string option" "string option" string

text \<open>The table after one call, made at the times the clock gives.\<close>

fun apply_op :: "store_context \<Rightarrow> (nat \<Rightarrow> instant) \<Rightarrow> store_op \<Rightarrow> request_db \<Rightarrow> request_db" where
  "apply_op ctx clock (CreatePreview prepared action) db = snd (create_preview ctx prepared action db)"
| "apply_op ctx clock (GetRequest rid) db = snd (get_request (sc_lib ctx) (clock 0) rid db)"
| "apply_op ctx clock (ApproveRequest rid h class) db =
     snd (approve (sc_lib ctx) (clock 0) rid h class db)"
| "apply_op ctx clock (PrecheckApproval rid h class) db =
     snd (precheck_approval (sc_lib ctx) (clock 0) rid h class db)"
| "apply_op ctx clock (ConfirmRequest rid h) db = snd (confirm_request (sc_lib ctx) clock rid h db)"
| "apply_op ctx clock (InvalidateRequest rid reason) db =
     snd (invalidate_request (sc_lib ctx) (clock 0) rid reason db)"
| "apply_op ctx clock (RequireReady rid) db = snd (require_ready (sc_lib ctx) (clock 0) rid db)"
| "apply_op ctx clock (FailBeforeDispatch rid reason response) db =
     snd (fail_before_dispatch (sc_lib ctx) (clock 0) rid reason response db)"
| "apply_op ctx clock (StartExecution rid) db = snd (start_execution (sc_lib ctx) (clock 0) rid db)"
| "apply_op ctx clock (CompleteRequest rid outcome response) db =
     snd (complete_request (sc_lib ctx) rid outcome response db)"
| "apply_op ctx clock (ResolveOutcome rid outcome response) db =
     snd (resolve_outcome_unknown (sc_lib ctx) rid outcome response db)"
| "apply_op ctx clock (InvalidatePending connector env reason) db =
     snd (invalidate_pending (sc_lib ctx) clock connector env reason db)"

text \<open>The moves that a call may make.\<close>

fun op_allows :: "(nat \<Rightarrow> instant) \<Rightarrow> store_op \<Rightarrow> string \<times> store_event \<Rightarrow> bool" where
  "op_allows clock (CreatePreview prepared action) e = (e = (pr_request_id prepared, Created))"
| "op_allows clock (GetRequest rid) e = (e = (rid, Expired_or_invalidated))"
| "op_allows clock (ApproveRequest rid h class) e = (e = (rid, Approved h class (clock 0)))"
| "op_allows clock (PrecheckApproval rid h class) e = False"
| "op_allows clock (ConfirmRequest rid h) e =
     (e = (rid, Expired_or_invalidated) \<or> (\<exists>class. e = (rid, Approved h class (clock 1))))"
| "op_allows clock (InvalidateRequest rid reason) e = (e = (rid, Expired_or_invalidated))"
| "op_allows clock (RequireReady rid) e = False"
| "op_allows clock (FailBeforeDispatch rid reason response) e = (e = (rid, Expired_or_invalidated))"
| "op_allows clock (StartExecution rid) e = (e = (rid, Started))"
| "op_allows clock (CompleteRequest rid outcome response) e = (\<exists>s. e = (rid, Finished s))"
| "op_allows clock (ResolveOutcome rid outcome response) e = (\<exists>s. e = (rid, Resolved s))"
| "op_allows clock (InvalidatePending connector env reason) e = (snd e = Expired_or_invalidated)"

lemma one_move_allows:
  assumes "one_move lib rid event db out" and "\<And>e. e = (rid, event) \<Longrightarrow> op_allows clock op e"
  shows "\<exists>es. db_steps lib es db (snd out) \<and> (\<forall>e \<in> set es. op_allows clock op e)"
  using one_move_steps[of lib rid event db "fst out" "snd out"] assms by fastforce

lemma apply_op_steps:
  assumes "distinct (map rw_request_id db)"
  shows "\<exists>es. db_steps (sc_lib ctx) es db (apply_op ctx clock op db) \<and>
     (\<forall>e \<in> set es. op_allows clock op e)"
proof (cases op)
  case (CreatePreview prepared action)
  then show ?thesis
    using create_preview_steps[of ctx prepared action db "fst (create_preview ctx prepared action db)"
        "snd (create_preview ctx prepared action db)"] by fastforce
next
  case (GetRequest rid)
  then show ?thesis
    using get_request_steps[of "sc_lib ctx" "clock 0" rid db _ "apply_op ctx clock op db"]
    by (simp add: prod_eq_iff) fastforce
next
  case (ApproveRequest rid h cls)
  show ?thesis unfolding ApproveRequest apply_op.simps
    by (rule one_move_allows[OF approve_moves]) simp
next
  case (PrecheckApproval rid h cls)
  then show ?thesis
    using precheck_approval_unchanged[of "sc_lib ctx" "clock 0" rid h cls db _
        "apply_op ctx clock op db"]
    by (auto simp: prod_eq_iff intro: exI[of _ "[]"] db_steps.stop)
next
  case (ConfirmRequest rid h)
  then show ?thesis
    using confirm_request_steps[of "sc_lib ctx" clock rid h db
        "fst (confirm_request (sc_lib ctx) clock rid h db)"
        "snd (confirm_request (sc_lib ctx) clock rid h db)"] by fastforce
next
  case (InvalidateRequest rid reason)
  show ?thesis unfolding InvalidateRequest apply_op.simps
    by (rule one_move_allows[OF invalidate_request_moves]) simp
next
  case (RequireReady rid)
  then show ?thesis
    using require_ready_unchanged[of "sc_lib ctx" "clock 0" rid db _ "apply_op ctx clock op db"]
    by (auto simp: prod_eq_iff intro: exI[of _ "[]"] db_steps.stop)
next
  case (FailBeforeDispatch rid reason response)
  show ?thesis unfolding FailBeforeDispatch apply_op.simps
    by (rule one_move_allows[OF fail_before_dispatch_moves]) simp
next
  case (StartExecution rid)
  show ?thesis unfolding StartExecution apply_op.simps
    by (rule one_move_allows[OF start_execution_moves]) simp
next
  case (CompleteRequest rid outcome response)
  obtain s where "one_move (sc_lib ctx) rid (Finished s) db
      (complete_request (sc_lib ctx) rid outcome response db)"
    using complete_request_moves by blast
  then show ?thesis unfolding CompleteRequest apply_op.simps by (rule one_move_allows) simp
next
  case (ResolveOutcome rid outcome response)
  obtain s where "one_move (sc_lib ctx) rid (Resolved s) db
      (resolve_outcome_unknown (sc_lib ctx) rid outcome response db)"
    using resolve_outcome_unknown_moves by blast
  then show ?thesis unfolding ResolveOutcome apply_op.simps by (rule one_move_allows) simp
next
  case (InvalidatePending connector env reason)
  then show ?thesis
    using invalidate_pending_steps[OF prod.collapse[symmetric] assms,
        of "sc_lib ctx" clock connector env reason]
    by (auto simp: image_subset_iff)
qed

fun run_ops :: "store_context \<Rightarrow> ((nat \<Rightarrow> instant) \<times> store_op) list \<Rightarrow> request_db \<Rightarrow> request_db" where
  "run_ops ctx [] db = db"
| "run_ops ctx ((clock, op) # ops) db = run_ops ctx ops (apply_op ctx clock op db)"

lemma run_ops_append: "run_ops ctx (xs @ ys) db = run_ops ctx ys (run_ops ctx xs db)"
  by (induction ctx xs db rule: run_ops.induct) auto

section \<open>The invariant\<close>

definition row_ok :: "request_lib \<Rightarrow> request_row \<Rightarrow> bool" where
  "row_ok lib row \<longleftrightarrow> row_of (rw_request row) = row \<and> validated lib (rw_request row)"

definition store_ok :: "request_lib \<Rightarrow> request_db \<Rightarrow> bool" where
  "store_ok lib db \<longleftrightarrow>
     distinct (map rw_request_id db) \<and>
     (\<forall>row \<in> set db. row_ok lib row) \<and>
     (\<forall>payload_hash. \<forall>x \<in> set db. \<forall>y \<in> set db.
        replay_blocking payload_hash x \<longrightarrow> replay_blocking payload_hash y \<longrightarrow>
        rw_request_id x = rw_request_id y)"

lemma store_ok_distinct: "store_ok lib db \<Longrightarrow> distinct (map rw_request_id db)"
  by (simp add: store_ok_def)

lemma store_ok_unique:
  "store_ok lib db \<Longrightarrow> x \<in> set db \<Longrightarrow> y \<in> set db \<Longrightarrow> replay_blocking h x \<Longrightarrow>
     replay_blocking h y \<Longrightarrow> rw_request_id x = rw_request_id y"
  unfolding store_ok_def by blast

lemma row_of_simps [simp]:
  "rw_request_id (row_of r) = pr_request_id r" "rw_payload_hash (row_of r) = pr_payload_hash r"
  "rw_state (row_of r) = state_value (pr_state r)" "rw_request (row_of r) = r"
  by (simp_all add: row_of_def)

lemma row_ok_row_of [simp]: "row_ok lib (row_of r) \<longleftrightarrow> validated lib r"
  by (simp add: row_ok_def)

lemma store_request_set:
  assumes "store_request db q = Inr db'"
  shows "\<forall>row \<in> set db'. row \<in> set db \<and> rw_request_id row \<noteq> pr_request_id q \<or> row = row_of q"
  using assms by (auto simp: store_request_def split: if_splits)

lemma db_step_ok: "db_step lib e db db' \<Longrightarrow> store_ok lib db \<Longrightarrow> store_ok lib db'"
proof (induction rule: db_step.induct)
  case (create q db db')
  then have db': "db' = db @ [row_of q]" and new: "pr_request_id q \<notin> rw_request_id ` set db"
    by (auto simp: insert_request_def list_ex_iff split: if_splits)
  have block: "\<not> replay_blocking h (row_of q)" for h
    using create(2) by (simp add: replay_blocking_def replay_blocking_states_def)
  have "distinct (map rw_request_id db')" using create(4) new by (simp add: store_ok_def db')
  moreover have "\<forall>row \<in> set db'. row_ok lib row" using create(1,4) by (simp add: store_ok_def db')
  moreover have "rw_request_id x = rw_request_id y"
    if "x \<in> set db'" "y \<in> set db'" "replay_blocking h x" "replay_blocking h y" for h x y
  proof (rule store_ok_unique[OF create(4) _ _ that(3,4)])
    have "x \<noteq> row_of q" "y \<noteq> row_of q" using that(3,4) block by metis+
    then show "x \<in> set db" "y \<in> set db" using that(1,2) by (simp_all add: db')
  qed
  ultimately show ?case unfolding store_ok_def by blast
next
  case (move db rid r q event db')
  note sub = store_request_set[OF move(5)]
  have block: "\<not> replay_blocking h x"
    if "replay_blocking h (row_of q)" "x \<in> set db" "rw_request_id x \<noteq> pr_request_id q" for h x
  proof -
    obtain row where "row \<in> set db" "rw_request_id row = rid"
      by (rule fetch_Inr[OF move(1)])
    moreover have "pr_request_id q = rid"
      using frozen_fields(1)[OF move(3)] fetch_Inr[OF move(1)] by metis
    ultimately show ?thesis
      using move(5) that
      by (auto simp: store_request_def replay_blocking_def list_ex_iff split: if_splits)
  qed
  have "distinct (map rw_request_id db')"
    using store_request_keeps(1)[OF move(5)] move(6) by (simp add: store_ok_def)
  moreover have "\<forall>row \<in> set db'. row_ok lib row"
    using sub move(2,6) by (auto simp: store_ok_def)
  moreover have "rw_request_id x = rw_request_id y"
    if "x \<in> set db'" "y \<in> set db'" "replay_blocking h x" "replay_blocking h y" for h x y
  proof (cases "x = row_of q \<or> y = row_of q")
    case True
    then show ?thesis using that sub block by (metis row_of_simps(1))
  next
    case False
    then have "x \<in> set db" "y \<in> set db" using that(1,2) sub by blast+
    then show ?thesis using store_ok_unique[OF move(6)] that(3,4) by blast
  qed
  ultimately show ?case unfolding store_ok_def by blast
qed

lemma db_steps_ok: "db_steps lib es db db' \<Longrightarrow> store_ok lib db \<Longrightarrow> store_ok lib db'"
  by (induction rule: db_steps.induct) (auto dest: db_step_ok)

lemma store_ok_Nil [simp]: "store_ok lib []"
  by (simp add: store_ok_def)

lemma apply_op_ok: "store_ok (sc_lib ctx) db \<Longrightarrow> store_ok (sc_lib ctx) (apply_op ctx clock op db)"
  using apply_op_steps[OF store_ok_distinct] db_steps_ok by metis

lemma run_ops_ok: "store_ok (sc_lib ctx) db \<Longrightarrow> store_ok (sc_lib ctx) (run_ops ctx ops db)"
  by (induction ctx ops db rule: run_ops.induct) (auto simp: apply_op_ok)

lemma run_ops_steps:
  "\<exists>es. db_steps (sc_lib ctx) es [] (run_ops ctx ops []) \<and>
     (\<forall>e \<in> set es. \<exists>(clock, op) \<in> set ops. op_allows clock op e)"
proof (induction ops rule: rev_induct)
  case Nil
  then show ?case by (auto intro: exI[of _ "[]"] db_steps.stop)
next
  case (snoc x ops)
  obtain clock op where x: "x = (clock, op)" by (cases x)
  let ?db = "run_ops ctx ops []"
  obtain es where es: "db_steps (sc_lib ctx) es [] ?db"
    "\<forall>e \<in> set es. \<exists>(clock, op) \<in> set ops. op_allows clock op e" using snoc by blast
  have "distinct (map rw_request_id ?db)"
    using run_ops_ok[of ctx "[]" ops] by (simp add: store_ok_def)
  from apply_op_steps[OF this] obtain fs where
    "db_steps (sc_lib ctx) fs ?db (apply_op ctx clock op ?db)" "\<forall>e \<in> set fs. op_allows clock op e"
    by blast
  then show ?case using db_steps_append[OF _ es(1)] es(2)
    by (intro exI[of _ "es @ fs"]) (auto simp: x run_ops_append)
qed

section \<open>Validating an updated request\<close>

lemma sanitize_public_data_total: "\<exists>s. sanitize_public_data lib value allowlist = Inr s"
  by (simp add: sanitize_public_data_def)

lemma frozen_bound_fields:
  assumes "frozen r q"
  shows "pr_repository_id q = pr_repository_id r" and "pr_action_id q = pr_action_id r"
    and "pr_version_id q = pr_version_id r" and "pr_method q = pr_method r"
    and "pr_path_template q = pr_path_template r" and "pr_final_path q = pr_final_path r"
    and "pr_request_inputs q = pr_request_inputs r" and "pr_approval_level q = pr_approval_level r"
    and "pr_credential_revision q = pr_credential_revision r"
    and "pr_preflight_actions q = pr_preflight_actions r" and "pr_created_at q = pr_created_at r"
  using assms by (cases r; cases q; simp add: frozen_def)+

text \<open>A validated request stays valid when its state, approvals and reason change consistently.\<close>

lemma validate_preview_again:
  assumes "validate_preview lib p = Inr r" and "frozen r q"
    and "valid_state_fields (pr_state q) (pr_approval_count q) (pr_failure_reason q)"
    and "case pr_failure_reason q of None \<Rightarrow> True | Some reason \<Rightarrow> is_reason reason"
  shows "\<exists>q'. validate_preview lib q = Inr q'"
proof -
  have f: "frozen p q" using validate_preview_frozen(2)[OF assms(1)] assms(2) by (rule frozen_trans)
  note eqs = frozen_fields[OF f] frozen_bound_fields[OF f]
  have "validate_path_binding q = validate_path_binding p"
    unfolding validate_path_binding_def eqs by (rule refl)
  moreover have "validate_preview_times q = validate_preview_times p"
    unfolding validate_preview_times_def eqs by (rule refl)
  moreover have "pr_approval_count q \<in> {0, 1}"
    using assms(3) by (auto simp: valid_state_fields_def split: if_splits)
  moreover have "validate_request_fields p = Inr ()"
    using assms(1) unfolding validate_preview_def
    by (auto simp: outcome_simps simp del: ebind_raise_if)
  ultimately have req: "validate_request_fields q = Inr ()"
    by (auto simp: validate_request_fields_def eqs outcome_simps split: if_splits)
  obtain s t where "sanitize_public_data lib (pr_sanitized_summary q) preview_summary_keys = Inr s"
    "sanitize_public_data lib (pr_response_summary q) response_summary_keys = Inr t"
    using sanitize_public_data_total by metis
  then show ?thesis
    using assms(1,3,4) req \<open>validate_path_binding q = _\<close> \<open>validate_preview_times q = _\<close>
    unfolding validate_preview_def
    by (auto simp: outcome_simps eqs simp del: ebind_raise_if split: option.splits)
qed

lemma fetch_validate:
  assumes "fetch lib db rid = Inr r"
  shows "\<exists>row \<in> set db. validate_preview lib (rw_request row) = Inr r \<and> pr_request_id r = rid"
  by (rule fetch_Inr[OF assms]) blast

lemma updated_total:
  assumes "fetch lib db rid = Inr r" and "frozen r q"
    and "valid_state_fields (pr_state q) (pr_approval_count q) (pr_failure_reason q)"
    and "case pr_failure_reason q of None \<Rightarrow> True | Some reason \<Rightarrow> is_reason reason"
  obtains p where "updated lib q = Inr p" "pr_state p = pr_state q" "frozen r p"
    "pr_failure_reason p = pr_failure_reason q"
proof -
  obtain row :: request_row where "validate_preview lib (rw_request row) = Inr r" using fetch_validate[OF assms(1)] by blast
  then obtain p where p: "validate_preview lib q = Inr p"
    using validate_preview_again assms(2-4) by blast
  note v = validate_preview_frozen[OF p]
  show ?thesis
  proof (rule that)
    show "updated lib q = Inr p" using p by (simp add: updated_def)
    show "pr_state p = pr_state q" by (rule v(3))
    show "frozen r p" by (rule frozen_trans[OF assms(2) v(2)])
    show "pr_failure_reason p = pr_failure_reason q" using v(1) by auto
  qed
qed

lemma fetched_valid:
  assumes "fetch lib db rid = Inr r"
  shows "valid_state_fields (pr_state r) (pr_approval_count r) (pr_failure_reason r)"
    and "list_all ascii_char (pr_payload_hash r)" and "sha256_hex (pr_payload_hash r)"
    and "pr_request_id r = rid"
proof -
  obtain row :: request_row where v: "validate_preview lib (rw_request row) = Inr r" "pr_request_id r = rid"
    using fetch_validate[OF assms] by blast
  show "valid_state_fields (pr_state r) (pr_approval_count r) (pr_failure_reason r)"
    using validate_preview_Inr(3)[OF v(1)] validate_preview_frozen(1)[OF v(1)] by auto
  show "sha256_hex (pr_payload_hash r)" "pr_request_id r = rid"
    using validate_preview_Inr(7)[OF v(1)] frozen_fields(2)[OF validate_preview_frozen(2)[OF v(1)]] v(2)
    by simp_all
  then have "list_all hex_char (pr_payload_hash r)" by (simp add: sha256_hex_def)
  moreover have "list_all ascii_char ''0123456789abcdef''" by code_simp
  ultimately show "list_all ascii_char (pr_payload_hash r)"
    unfolding list_all_iff hex_char_def by blast
qed

lemma store_failed_total:
  "pr_state q \<notin> {Executing, Succeeded, OutcomeUnknown} \<Longrightarrow> \<exists>db'. store_request db q = Inr db'"
  by (cases "pr_state q") (auto simp: store_request_def replay_blocking_states_def)

section \<open>Properties\<close>

text \<open>C4: every call of the store is implemented by single moves of the abstract machine that the
  call may make: a creation, an approval, a start, a completion, a resolution, or a failure of
  pending requests; each move changes one request, along an edge of the state machine. \<close>
theorem store_operation_refines:
  "\<exists>es. db_steps (sc_lib ctx) es (run_ops ctx ops []) (apply_op ctx clock op (run_ops ctx ops [])) \<and>
     list_all (op_allows clock op) es"
  using apply_op_steps[OF store_ok_distinct[OF run_ops_ok[OF store_ok_Nil]]]
  by (simp add: list_all_iff)

text \<open>C3: at no point of any run are two requests with the same payload hash executing, succeeded or
  of unknown outcome: a payload in flight or done is never sent again. \<close>
theorem store_replay_exclusive:
  "length (filter (replay_blocking payload_hash) (run_ops ctx ops [])) \<le> 1"
proof (rule ccontr)
  let ?db = "run_ops ctx ops []"
  have ok: "store_ok (sc_lib ctx) ?db" by (rule run_ops_ok) simp
  let ?f = "filter (replay_blocking payload_hash) ?db"
  assume "\<not> length ?f \<le> 1"
  then obtain x y rest where f: "?f = x # y # rest"
    by (cases ?f; cases "tl ?f") auto
  have "distinct (map rw_request_id ?f)" using ok by (simp add: store_ok_def distinct_map_filter)
  then have "rw_request_id x \<noteq> rw_request_id y" by (simp add: f)
  moreover have "x \<in> set ?f" "y \<in> set ?f" by (simp_all add: f)
  then have "x \<in> set ?db" "replay_blocking payload_hash x" "y \<in> set ?db" "replay_blocking payload_hash y"
    by auto
  then have "rw_request_id x = rw_request_id y" using store_ok_unique[OF ok] by blast
  ultimately show False by blast
qed

lemma approve_records:
  "case approve lib now rid payload_hash cls db of
     (Inl e, db') \<Rightarrow> db' = db
   | (Inr q, db') \<Rightarrow>
       db' = map (\<lambda>row. if rw_request_id row = rid then row_of q else row) db \<and>
       (\<exists>r. fetch lib db rid = Inr r \<and>
            q = r\<lparr>pr_state := ReadyToExecute, pr_approval_count := 1,
                   pr_sanitized_summary := pr_sanitized_summary q,
                   pr_response_summary := pr_response_summary q\<rparr>)"
proof (cases "approve lib now rid payload_hash cls db")
  case (Pair out db')
  note moves = approve_moves[where lib = lib and db = db and now = now, of rid payload_hash cls, unfolded Pair]
  show ?thesis
  proof (cases out)
    case (Inl e)
    with moves show ?thesis by (simp add: Pair one_move_def)
  next
    case (Inr q)
    from moves Inr obtain r where r: "fetch lib db rid = Inr r" "pr_state r = AwaitingConfirmation"
        "payload_hash = pr_payload_hash r" "cls = pr_mutation_class r" "\<not> expired r now"
      by (auto simp: one_move_def)
    note v = fetched_valid[OF r(1)]
    have w: "update_and_store lib (r\<lparr>pr_state := ReadyToExecute, pr_approval_count := 1\<rparr>) db = Inr (q, db')"
      using Pair Inr r v
      by (auto simp: approve_def approval_candidate_def compare_digest_def expire_if_needed_def
          require_state_def outcome_simps)
    note st = update_and_store_Inr(4)[OF w]
    have u: "updated lib (r\<lparr>pr_state := ReadyToExecute, pr_approval_count := 1\<rparr>) = Inr q"
      using w by (auto simp: update_and_store_def outcome_simps)
    from u obtain s p where q: "q = r\<lparr>pr_state := ReadyToExecute, pr_approval_count := 1,
        pr_sanitized_summary := s, pr_response_summary := p\<rparr>"
      using validate_preview_frozen[of lib "r\<lparr>pr_state := ReadyToExecute, pr_approval_count := 1\<rparr>" q]
      by (auto simp: updated_def split: sum.splits)
    have "pr_request_id q = rid" using q v(4) by simp
    with st have "db' = map (\<lambda>row. if rw_request_id row = rid then row_of q else row) db"
      by (auto simp: store_request_def split: if_splits)
    with r(1) q show ?thesis by (simp add: Pair Inr)
  qed
qed

text \<open>C7: an approval is recorded exactly for a request that exists, waits for its confirmation, has
  exactly the given hash and mutation class, and has not expired; in every other case the call
  fails and the table stays as it was. What is recorded: the row of the request, and no other, is
  replaced by the request in state \<open>ready_to_execute\<close> with one approval, its summaries written out
  again and everything else as it was; that request is also the answer. \<close>
theorem approve_exact:
  "(is_ok (fst (approve (sc_lib ctx) now rid payload_hash cls (run_ops ctx ops []))) \<longleftrightarrow>
      (\<exists>r. fetch (sc_lib ctx) (run_ops ctx ops []) rid = Inr r \<and>
           pr_state r = AwaitingConfirmation \<and> payload_hash = pr_payload_hash r \<and>
           cls = pr_mutation_class r \<and> \<not> expired r now)) \<and>
   (case approve (sc_lib ctx) now rid payload_hash cls (run_ops ctx ops []) of
      (Inl e, db') \<Rightarrow> db' = run_ops ctx ops []
    | (Inr q, db') \<Rightarrow>
        db' = map (\<lambda>row. if rw_request_id row = rid then row_of q else row) (run_ops ctx ops []) \<and>
        (\<exists>r. fetch (sc_lib ctx) (run_ops ctx ops []) rid = Inr r \<and>
             q = r\<lparr>pr_state := ReadyToExecute, pr_approval_count := 1,
                    pr_sanitized_summary := pr_sanitized_summary q,
                    pr_response_summary := pr_response_summary q\<rparr>))"
proof -
  let ?lib = "sc_lib ctx" and ?db = "run_ops ctx ops []"
  let ?out = "approve ?lib now rid payload_hash cls ?db"
  have moves: "one_move ?lib rid (Approved payload_hash cls now) ?db ?out" by (rule approve_moves)
  have sound: "\<exists>r. fetch ?lib ?db rid = Inr r \<and> pr_state r = AwaitingConfirmation \<and>
      payload_hash = pr_payload_hash r \<and> cls = pr_mutation_class r \<and> \<not> expired r now"
    if "is_ok (fst ?out)"
    using moves that unfolding one_move_def by auto
  have complete: "is_ok (fst ?out)"
    if r: "fetch ?lib ?db rid = Inr r" "pr_state r = AwaitingConfirmation"
      "payload_hash = pr_payload_hash r" "cls = pr_mutation_class r" "\<not> expired r now" for r
  proof -
    note v = fetched_valid[OF r(1)]
    have none: "pr_failure_reason r = None" using v(1) r(2) by (simp add: valid_state_fields_def)
    obtain q where q: "updated ?lib (r\<lparr>pr_state := ReadyToExecute, pr_approval_count := 1\<rparr>) = Inr q"
        "pr_state q = ReadyToExecute"
      by (rule updated_total[OF r(1) frozen_updates(2)[of r 1 ReadyToExecute]])
        (auto simp: valid_state_fields_def none)
    then obtain db' where "store_request ?db q = Inr db'" using store_failed_total[of q] by auto
    with q r v show ?thesis
      by (simp add: approve_def immediate_transaction_def approval_candidate_def compare_digest_def
          expire_if_needed_def require_state_def update_and_store_def sqlite_error_def)
  qed
  show ?thesis
  proof (rule conjI[OF iffI approve_records])
    show "is_ok (fst ?out) \<Longrightarrow> \<exists>r. fetch ?lib ?db rid = Inr r \<and> pr_state r = AwaitingConfirmation \<and>
        payload_hash = pr_payload_hash r \<and> cls = pr_mutation_class r \<and> \<not> expired r now"
      by (rule sound)
  qed (use complete in blast)
qed

lemma is_ok_iff: "is_ok r \<longleftrightarrow> (\<exists>x. r = Inr x)"
  by (cases r) simp_all

lemma no_other_replay:
  assumes ok: "store_ok lib db" and r: "fetch lib db rid = Inr r" "pr_state r = ReadyToExecute"
  shows "(\<forall>row \<in> set db. \<not> (replay_blocking h row \<and> Some rid \<noteq> Some (rw_request_id row))) \<longleftrightarrow>
    filter (replay_blocking h) db = []"
proof -
  obtain row :: request_row where row: "row \<in> set db" "rw_request_id row = rid"
      "rw_state row = state_value (pr_state r)"
    by (rule fetch_Inr[OF r(1)])
  have "x = row" if "x \<in> set db" "rw_request_id x = rid" for x
    using that row store_ok_distinct[OF ok] by (metis distinct_map inj_onD)
  moreover have "\<not> replay_blocking h row"
    using row(3) r(2) by (simp add: replay_blocking_def replay_blocking_states_def)
  ultimately have "\<not> replay_blocking h x" if "x \<in> set db" "rw_request_id x = rid" for x
    using that by blast
  then show ?thesis by (auto simp: filter_empty_conv)
qed

lemma replay_allowed_iff:
  assumes "store_ok lib db" and "fetch lib db rid = Inr r" and "pr_state r = ReadyToExecute"
  shows "check_replay_allowed db (pr_payload_hash r) (Some (pr_request_id r)) = Inr () \<longleftrightarrow>
    filter (replay_blocking (pr_payload_hash r)) db = []"
proof -
  have "find (\<lambda>row. replay_blocking (pr_payload_hash r) row \<and> Some rid \<noteq> Some (rw_request_id row)) db = None \<longleftrightarrow>
      filter (replay_blocking (pr_payload_hash r)) db = []"
    unfolding no_other_replay[OF assms, symmetric] by (auto simp: find_None_iff)
  then show ?thesis using fetched_valid(3,4)[OF assms(2)]
    by (auto simp: check_replay_allowed_def split: option.splits)
qed

lemma start_execution_ready:
  assumes ok: "store_ok lib db" and started: "is_ok (fst (start_execution lib now rid db))"
  shows "\<exists>r. fetch lib db rid = Inr r \<and> pr_state r = ReadyToExecute \<and> \<not> expired r now \<and>
    filter (replay_blocking (pr_payload_hash r)) db = []"
proof -
  obtain q where "fst (start_execution lib now rid db) = Inr q"
    using started by (auto simp: is_ok_iff)
  then obtain db' where out: "start_execution lib now rid db = (Inr q, db')"
    by (metis prod.collapse)
  have body: "ebind (fetch lib db rid) (\<lambda>request.
     ebind (expire_if_needed lib now db request) (\<lambda>(request, db).
     ebind (require_state request [ReadyToExecute]) (\<lambda>_.
     ebind (check_replay_allowed db (pr_payload_hash request) (Some (pr_request_id request))) (\<lambda>_.
     ebind (updated lib (request\<lparr>pr_state := Executing\<rparr>)) (\<lambda>executing.
       case store_request db executing of
         Inl x \<Rightarrow> Inl (replay_error db (pr_payload_hash request) None)
       | Inr db' \<Rightarrow> Inr (executing, db')))))) = Inr (q, db')"
    using out by (auto simp: start_execution_def transaction_eq)
  show ?thesis
  proof (rule fetched_and_required[OF body])
    show "require_state r [ReadyToExecute] = Inr () \<Longrightarrow> pr_state r \<noteq> RequestFailed" for r
      by (simp add: require_state_Inr)
    fix r
    assume r: "fetch lib db rid = Inr r" "require_state r [ReadyToExecute] = Inr ()"
      and k: "ebind (check_replay_allowed db (pr_payload_hash r) (Some (pr_request_id r))) (\<lambda>_.
        ebind (updated lib (r\<lparr>pr_state := Executing\<rparr>)) (\<lambda>executing.
        case store_request db executing of
          Inl x \<Rightarrow> Inl (replay_error db (pr_payload_hash r) None)
        | Inr db' \<Rightarrow> Inr (executing, db'))) = Inr (q, db')"
      and e: "state_value (pr_state r) \<in> set pending_states \<Longrightarrow> \<not> expired r now"
    have st: "pr_state r = ReadyToExecute" using r(2) by (simp add: require_state_Inr)
    have "check_replay_allowed db (pr_payload_hash r) (Some (pr_request_id r)) = Inr ()"
      using k by (auto simp: ebind_eq_Inr)
    then have "filter (replay_blocking (pr_payload_hash r)) db = []"
      by (simp add: replay_allowed_iff[OF ok r(1) st])
    then show ?thesis using r(1) st e by (auto simp: pending_states_def)
  qed
qed

lemma start_execution_starts:
  assumes ok: "store_ok lib db"
    and r: "fetch lib db rid = Inr r" "pr_state r = ReadyToExecute" "\<not> expired r now"
      "filter (replay_blocking (pr_payload_hash r)) db = []"
  shows "is_ok (fst (start_execution lib now rid db))"
proof -
  note v = fetched_valid[OF r(1)]
  have one: "pr_failure_reason r = None" "pr_approval_count r = 1"
    using v(1) r(2) by (simp_all add: valid_state_fields_def)
  obtain q where q: "updated lib (r\<lparr>pr_state := Executing\<rparr>) = Inr q" "frozen r q"
    by (rule updated_total[OF r(1) frozen_updates(1)[of r Executing]])
      (auto simp: valid_state_fields_def one)
  have "check_replay_allowed db (pr_payload_hash r) (Some (pr_request_id r)) = Inr ()"
    using r(4) by (simp add: replay_allowed_iff[OF ok r(1,2)])
  moreover have "\<exists>db'. store_request db q = Inr db'"
    using r(4) frozen_fields(2)[OF q(2)]
    by (auto simp: store_request_def filter_empty_conv list_ex_iff)
  ultimately show ?thesis
    using r q(1) v
    by (auto simp: start_execution_def immediate_transaction_def expire_if_needed_def
        require_state_def)
qed

text \<open>C8: an execution starts exactly for a request that exists, is approved and ready, has not expired,
  and whose payload hash no other request holds in execution, success or unknown outcome; the
  uniqueness index of the table never has to refuse what the check before it let through. \<close>
theorem start_execution_exact:
  "is_ok (fst (start_execution (sc_lib ctx) now rid (run_ops ctx ops []))) \<longleftrightarrow>
      (\<exists>r. fetch (sc_lib ctx) (run_ops ctx ops []) rid = Inr r \<and>
           pr_state r = ReadyToExecute \<and> \<not> expired r now \<and>
           filter (replay_blocking (pr_payload_hash r)) (run_ops ctx ops []) = [])"
  using start_execution_ready[of "sc_lib ctx" "run_ops ctx ops []" now rid]
    start_execution_starts[of "sc_lib ctx" "run_ops ctx ops []" rid _ now] run_ops_ok[of ctx "[]" ops]
  by auto

section \<open>Histories\<close>

text \<open>The request of an identifier, and whether it ever started.\<close>

definition request_of :: "request_db \<Rightarrow> string \<Rightarrow> prepared_request option" where
  "request_of db rid = map_option rw_request (find (\<lambda>row. rw_request_id row = rid) db)"

definition has_started :: "request_db \<Rightarrow> string \<Rightarrow> bool" where
  "has_started db rid \<longleftrightarrow>
     (case request_of db rid of
        None \<Rightarrow> False
      | Some q \<Rightarrow> pr_state q \<in> {Executing, Succeeded, RequestFailed, OutcomeUnknown})"

lemma find_id:
  fixes row :: request_row
  shows "find (\<lambda>row. rw_request_id row = rid) db = Some row \<Longrightarrow> rw_request_id row = rid"
  by (auto simp: find_Some_iff)

lemma find_store:
  assumes "store_request db q = Inr db'" and "fetch lib db (pr_request_id q) = Inr r"
  shows "request_of db' rid = (if rid = pr_request_id q then Some q else request_of db rid)"
proof -
  let ?f = "\<lambda>row. if rw_request_id row = pr_request_id q then row_of q else row"
  have db': "db' = map ?f db" using assms(1) by (auto simp: store_request_def split: if_splits)
  have ids: "rw_request_id (?f row) = rw_request_id row" for row by simp
  have "find (\<lambda>row. rw_request_id row = rid) (map ?f xs) =
      map_option ?f (find (\<lambda>row. rw_request_id row = rid) xs)" for xs
    by (induction xs) auto
  then have "request_of db' rid =
      map_option (rw_request \<circ> ?f) (find (\<lambda>row. rw_request_id row = rid) db)"
    unfolding request_of_def db' by (simp add: option.map_comp comp_def)
  then have eq: "request_of db' rid =
      map_option (rw_request \<circ> ?f) (find (\<lambda>row. rw_request_id row = rid) db)" .
  obtain old :: request_row where old: "find (\<lambda>row. rw_request_id row = pr_request_id q) db = Some old"
    by (rule fetch_Inr[OF assms(2)])
  show ?thesis
  proof (cases "rid = pr_request_id q")
    case True
    then show ?thesis using eq old find_id[OF old] by simp
  next
    case False
    show ?thesis
    proof (cases "find (\<lambda>row. rw_request_id row = rid) db")
      case None
      then show ?thesis using eq False by (simp add: request_of_def)
    next
      case (Some x)
      then show ?thesis using eq False find_id[OF Some] by (simp add: request_of_def)
    qed
  qed
qed

lemma find_insert:
  assumes "insert_request db q = Inr db'"
  shows "request_of db' rid = (if rid = pr_request_id q then Some q else request_of db rid)"
proof -
  have db': "db' = db @ [row_of q]" "\<forall>row \<in> set db. rw_request_id row \<noteq> pr_request_id q"
    using assms by (auto simp: insert_request_def list_ex_iff split: if_splits)
  then have new: "find (\<lambda>row. rw_request_id row = pr_request_id q) db = None"
    by (auto simp: find_None_iff)
  have "find P (xs @ [x]) = (case find P xs of None \<Rightarrow> if P x then Some x else None | Some y \<Rightarrow> Some y)"
    for P xs and x :: request_row by (induction xs) auto
  with new show ?thesis
    by (cases "find (\<lambda>row. rw_request_id row = rid) db") (auto simp: request_of_def db'(1))
qed

lemma request_of_fetch:
  assumes "fetch lib db rid = Inr r"
  shows "\<exists>q. request_of db rid = Some q \<and> frozen q r \<and> pr_state r = pr_state q"
proof -
  obtain row :: request_row where "find (\<lambda>row. rw_request_id row = rid) db = Some row"
    "validate_preview lib (rw_request row) = Inr r"
    by (rule fetch_Inr[OF assms])
  then show ?thesis using validate_preview_frozen[of lib "rw_request row" r]
    by (auto simp: request_of_def)
qed

lemma request_of_row:
  assumes "store_ok lib db" and "row \<in> set db"
  shows "request_of db (rw_request_id row) = Some (rw_request row)"
proof -
  have "find (\<lambda>x. rw_request_id x = rw_request_id row) db = Some row"
    using store_ok_distinct[OF assms(1)] assms(2) by (induction db) (auto simp: image_iff)
  then show ?thesis by (simp add: request_of_def)
qed

lemma db_step_request_of:
  assumes "db_step lib (rid, event) db db'"
  shows "(event = Created \<and> request_of db rid = None \<and>
          (\<exists>q. pr_request_id q = rid \<and> pr_state q = AwaitingConfirmation \<and> validated lib q \<and>
             (\<forall>x. request_of db' x = (if x = rid then Some q else request_of db x)))) \<or>
         (\<exists>r q. request_of db rid = Some r \<and> frozen r q \<and> move_ok event r q \<and>
             (\<forall>x. request_of db' x = (if x = rid then Some q else request_of db x)))"
  using assms
proof (cases rule: db_step.cases)
  case (create q)
  then have "request_of db rid = None"
    by (auto simp: insert_request_def request_of_def list_ex_iff find_None_iff split: if_splits)
  then show ?thesis using create find_insert[OF create(5)] by auto
next
  case (move r q)
  then obtain r0 where r0: "request_of db rid = Some r0" "frozen r0 r" "pr_state r = pr_state r0"
    using request_of_fetch by blast
  have id: "pr_request_id q = rid"
    using frozen_fields(1)[OF move(3)] fetched_valid(4)[OF move(1)] by simp
  have "move_ok event r0 q"
    using move(4) r0(3) frozen_fields[OF r0(2)] by (cases event) auto
  moreover have "frozen r0 q" using r0(2) move(3) by (rule frozen_trans)
  moreover have "fetch lib db (pr_request_id q) = Inr r" using move(1) id by simp
  then have "\<forall>x. request_of db' x = (if x = rid then Some q else request_of db x)"
    using find_store[OF move(5)] id by auto
  ultimately show ?thesis using r0(1) by blast
qed

text \<open>Once started, a request never waits or is ready again.\<close>

lemma db_step_started:
  assumes "db_step lib e db db'"
  shows "has_started db rid \<Longrightarrow> has_started db' rid"
    and "e = (rid, Started) \<Longrightarrow> \<not> has_started db rid \<and> has_started db' rid"
proof -
  obtain x event where e: "e = (x, event)" by (cases e)
  note cases = db_step_request_of[OF assms[unfolded e]]
  show "has_started db rid \<Longrightarrow> has_started db' rid"
    using cases by (cases "rid = x"; cases event) (auto simp: has_started_def)
  show "e = (rid, Started) \<Longrightarrow> \<not> has_started db rid \<and> has_started db' rid"
    using cases by (auto simp: e has_started_def)
qed

lemma db_steps_started: "db_steps lib es db db' \<Longrightarrow> has_started db rid \<Longrightarrow> has_started db' rid"
  by (induction rule: db_steps.induct) (auto dest: db_step_started(1))

lemma db_steps_Nil [simp]: "db_steps lib [] db db' \<longleftrightarrow> db' = db"
  by (auto intro: db_steps.stop elim: db_steps.cases)

lemma db_steps_single: "db_steps lib [e] db db' \<Longrightarrow> db_step lib e db db'"
  by (erule db_steps.cases) auto

lemma start_execution_started:
  assumes "start_execution lib now rid db = (Inr q, db')"
  shows "\<not> has_started db rid \<and> has_started db' rid"
proof -
  obtain r where "fetch lib db rid = Inr r" "validated lib q" "frozen r q" "move_ok Started r q"
      "store_request db q = Inr db'"
    using start_execution_moves[of lib rid db now] assms by (auto simp: one_move_def)
  then have "db_step lib (rid, Started) db db'" by (rule db_step.move)
  then show ?thesis using db_step_started(2) by blast
qed

text \<open>The execution of a request is a one-shot resource of the store.\<close>

definition store_step ::
    "store_context \<Rightarrow> (nat \<Rightarrow> instant) \<times> store_op \<Rightarrow> request_db \<Rightarrow> request_db" where
  "store_step ctx = (\<lambda>(clock, op). apply_op ctx clock op)"

definition starts ::
    "store_context \<Rightarrow> (nat \<Rightarrow> instant) \<times> store_op \<Rightarrow> string \<Rightarrow> request_db \<Rightarrow> bool" where
  "starts ctx = (\<lambda>(clock, op) rid db.
     op = StartExecution rid \<and> is_ok (fst (start_execution (sc_lib ctx) (clock 0) rid db)))"

interpretation execution: one_shot "store_step ctx" "starts ctx" has_started "store_ok (sc_lib ctx)"
  for ctx
proof
  fix db :: request_db and x :: "(nat \<Rightarrow> instant) \<times> store_op" and rid
  obtain clock op where x: "x = (clock, op)" by (cases x)
  assume ok: "store_ok (sc_lib ctx) db"
  show "store_ok (sc_lib ctx) (store_step ctx x db)"
    using apply_op_ok[OF ok] by (simp add: x store_step_def)
  obtain es where "db_steps (sc_lib ctx) es db (apply_op ctx clock op db)"
    using apply_op_steps[OF store_ok_distinct[OF ok]] by blast
  then show "has_started db rid \<Longrightarrow> has_started (store_step ctx x db) rid"
    by (simp add: x store_step_def db_steps_started)
  assume "starts ctx x rid db"
  then obtain q where "start_execution (sc_lib ctx) (clock 0) rid db = (Inr q, store_step ctx x db)"
    by (cases "start_execution (sc_lib ctx) (clock 0) rid db")
      (auto simp: x store_step_def starts_def is_ok_iff)
  then show "\<not> has_started db rid \<and> has_started (store_step ctx x db) rid"
    by (rule start_execution_started)
qed

text \<open>C2: in any run of the store, whatever the order of the calls, the execution of a request is
  started at most once, so it is sent at most once. \<close>
theorem execution_started_at_most_once:
  "fire_count (store_step ctx) (starts ctx) rid ops [] \<le> 1"
  by (rule execution.fires_at_most_once) simp

text \<open>The approval that a history must contain.\<close>

definition approved_in ::
    "(string \<times> store_event) list \<Rightarrow> prepared_request \<Rightarrow> bool" where
  "approved_in es q \<longleftrightarrow>
     (\<exists>now. (pr_request_id q, Approved (pr_payload_hash q) (pr_mutation_class q) now) \<in> set es \<and>
        \<not> expired q now)"

definition past_approval :: "request_state list" where
  "past_approval = [ReadyToExecute, Executing, Succeeded, OutcomeUnknown]"

lemma approved_in_frozen: "approved_in es r \<Longrightarrow> frozen r q \<Longrightarrow> approved_in (es @ fs) q"
  by (auto simp: approved_in_def frozen_fields)

lemma db_steps_history:
  assumes "db_steps lib es db db'" and "db = []" and "request_of db' rid = Some q"
  shows "pr_request_id q = rid \<and> (pr_state q \<in> set past_approval \<longrightarrow> approved_in es q)"
  using assms
proof (induction arbitrary: rid q rule: db_steps.induct)
  case (stop db)
  then show ?case by (simp add: request_of_def)
next
  case (step es db db' e db'')
  obtain x event where e: "e = (x, event)" by (cases e)
  have old: "pr_request_id p = y \<and> (pr_state p \<in> set past_approval \<longrightarrow> approved_in (es @ [e]) p)"
    if "request_of db' y = Some p" for y p
    using step.IH[OF step.prems(1) that] approved_in_frozen[OF _ frozen_refl] by blast
  from db_step_request_of[OF step.hyps(2)[unfolded e]] show ?case
  proof (elim disjE exE conjE)
    fix p
    assume "pr_request_id p = x" "pr_state p = AwaitingConfirmation"
      and "\<forall>y. request_of db'' y = (if y = x then Some p else request_of db' y)"
    then show ?thesis using old step.prems(2) by (auto simp: past_approval_def split: if_splits)
  next
    fix r p
    assume m: "request_of db' x = Some r" "frozen r p" "move_ok event r p"
      and upd: "\<forall>y. request_of db'' y = (if y = x then Some p else request_of db' y)"
    show ?thesis
    proof (cases "rid = x")
      case False
      then show ?thesis using old upd step.prems(2) by simp
    next
      case True
      then have q: "q = p" using upd step.prems(2) by simp
      have id: "pr_request_id p = x" using old[OF m(1)] frozen_fields(1)[OF m(2)] by simp
      have "approved_in (es @ [e]) p" if "pr_state p \<in> set past_approval"
      proof (cases "pr_state r \<in> set past_approval")
        case True
        then show ?thesis
          using step.IH[OF step.prems(1) m(1)] approved_in_frozen[OF _ m(2)] by blast
      next
        case False
        then show ?thesis
          using m(3) that frozen_fields[OF m(2)] id
          by (cases event) (auto simp: past_approval_def approved_in_def e)
      qed
      then show ?thesis using id q True by simp
    qed
  qed
qed

text \<open>C1: nothing is executed without its approval. In any run, a request that is ready, executing,
  succeeded or of unknown outcome was approved by a call for exactly its identifier and payload
  hash, at a time before its expiry, and by \<open>approve\<close> for exactly its mutation class. \<close>
theorem no_execution_without_approval:
  assumes "row \<in> set (run_ops ctx ops [])"
    and "pr_state (rw_request row) \<in> set past_approval"
  shows "\<exists>(clock, op) \<in> set ops.
    op = ApproveRequest (rw_request_id row) (rw_payload_hash row) (pr_mutation_class (rw_request row))
      \<and> \<not> expired (rw_request row) (clock 0) \<or>
    op = ConfirmRequest (rw_request_id row) (rw_payload_hash row)
      \<and> \<not> expired (rw_request row) (clock 1)"
proof -
  let ?q = "rw_request row"
  have ok: "store_ok (sc_lib ctx) (run_ops ctx ops [])" by (rule run_ops_ok) simp
  then have "row_of ?q = row" using assms(1) by (auto simp: store_ok_def row_ok_def)
  then have cols: "rw_request_id row = pr_request_id ?q" "rw_payload_hash row = pr_payload_hash ?q"
    by (metis row_of_simps(1), metis row_of_simps(2))
  obtain es where es: "db_steps (sc_lib ctx) es [] (run_ops ctx ops [])"
      "\<forall>e \<in> set es. \<exists>(clock, op) \<in> set ops. op_allows clock op e"
    using run_ops_steps by blast
  have "approved_in es ?q"
    using db_steps_history[OF es(1) refl request_of_row[OF ok assms(1)]] assms(2) by blast
  then obtain now where "(pr_request_id ?q, Approved (pr_payload_hash ?q) (pr_mutation_class ?q) now)
      \<in> set es" and now: "\<not> expired ?q now"
    by (auto simp: approved_in_def)
  with es(2) obtain clock op where op: "(clock, op) \<in> set ops"
      "op_allows clock op (pr_request_id ?q, Approved (pr_payload_hash ?q) (pr_mutation_class ?q) now)"
    by blast
  from op(2) have
    "op = ApproveRequest (pr_request_id ?q) (pr_payload_hash ?q) (pr_mutation_class ?q) \<and>
       now = clock 0 \<or>
     op = ConfirmRequest (pr_request_id ?q) (pr_payload_hash ?q) \<and> now = clock 1"
    by (cases op) auto
  with op(1) now cols show ?thesis by (intro bexI[of _ "(clock, op)"]) auto
qed

definition sample_context :: store_context where
  "sample_context = \<lparr>sc_lib = sample_lib, sc_safe = (\<lambda>_. True), sc_repository_id = ''repo''\<rparr>"

definition sample_ops :: "((nat \<Rightarrow> instant) \<times> store_op) list" where
  "sample_ops =
     map (\<lambda>op. (\<lambda>_. 5, op))
      [CreatePreview (sample_request sample_inputs) sample_action,
       ApproveRequest ''req_00000000'' (replicate 64 (CHR ''0'')) Sensitive]"

theorem no_execution_without_approval_witness:
  "\<exists>(clock, op) \<in> set sample_ops. \<exists>h c. op = ApproveRequest ''req_00000000'' h c \<or>
     op = ConfirmRequest ''req_00000000'' h"
proof -
  have one: "map (\<lambda>row. (rw_request_id row, pr_state (rw_request row)))
      (run_ops sample_context sample_ops []) = [(''req_00000000'', ReadyToExecute)]" by code_simp
  then obtain row where row: "run_ops sample_context sample_ops [] = [row]"
    by (cases "run_ops sample_context sample_ops []") auto
  then have mem: "row \<in> set (run_ops sample_context sample_ops [])"
    and id: "rw_request_id row = ''req_00000000''"
    and st: "pr_state (rw_request row) \<in> set past_approval"
    using one by (simp_all add: past_approval_def)
  obtain clock op where "(clock, op) \<in> set sample_ops"
    "(\<exists>h c. op = ApproveRequest ''req_00000000'' h c) \<or> (\<exists>h. op = ConfirmRequest ''req_00000000'' h)"
    using no_execution_without_approval[OF mem st] unfolding id by blast
  then show ?thesis by blast
qed

text \<open>
  the expiry of a preview. An approval, invalidation, readiness check or start that finds a
  pending request expired raises \<open>preview_expired\<close> and its transaction rolls the recorded failure
  back, so the table stays as it was; reading the request with \<open>get\<close> records the failure. \<close>
lemma expiry_recorded_only_by_get:
  assumes "fetch lib db rid = Inr r" and "state_value (pr_state r) \<in> set pending_states"
    and "expired r now"
  shows "approve lib now rid (pr_payload_hash r) cls db =
           (state_error ''preview_expired'', db) \<and>
         require_ready lib now rid db = (state_error ''preview_expired'', db) \<and>
         start_execution lib now rid db = (state_error ''preview_expired'', db) \<and>
         invalidate_request lib now rid ''stale'' db = (state_error ''preview_expired'', db) \<and>
         (\<exists>q db'. get_request lib now rid db = (Inr q, db') \<and> pr_state q = RequestFailed \<and>
            pr_failure_reason q = Some ''preview_expired'' \<and> request_of db' rid = Some q)"
proof -
  let ?e = "r\<lparr>pr_state := RequestFailed, pr_failure_reason := Some ''preview_expired''\<rparr>"
  note v = fetched_valid[OF assms(1)]
  have reason: "is_reason ''preview_expired''" "is_reason ''stale''" by code_simp+
  have count: "pr_approval_count r \<in> {0, 1}"
    using v(1) by (auto simp: valid_state_fields_def split: if_splits)
  obtain q where q: "updated lib ?e = Inr q" "pr_state q = RequestFailed" "frozen r q"
      "pr_failure_reason q = Some ''preview_expired''"
    by (rule updated_total[OF assms(1) frozen_updates(3)[of r "Some ''preview_expired''" RequestFailed]])
      (use count reason in \<open>auto simp: valid_state_fields_def\<close>)
  obtain db' where db': "store_request db q = Inr db'" using store_failed_total q(2) by fastforce
  have exp: "expire_if_needed lib now db r = Inr (q, db')"
    using assms(2,3) q(1) db' by (simp add: expire_if_needed_def sqlite_error_def)
  have id: "pr_request_id q = rid" using frozen_fields(1)[OF q(3)] v(4) by simp
  have get: "get_request lib now rid db = (Inr q, db')"
    using assms(1) exp by (simp add: get_request_def immediate_transaction_def)
  have "request_of db' rid = Some q"
    using find_store[OF db', of lib r] assms(1) id by simp
  with get q have "\<exists>q db'. get_request lib now rid db = (Inr q, db') \<and> pr_state q = RequestFailed \<and>
      pr_failure_reason q = Some ''preview_expired'' \<and> request_of db' rid = Some q" by blast
  moreover have "approve lib now rid (pr_payload_hash r) cls db = (state_error ''preview_expired'', db)"
    using assms(1) exp q v
    by (simp add: approve_def immediate_transaction_def approval_candidate_def compare_digest_def
        require_state_def)
  moreover have "require_ready lib now rid db = (state_error ''preview_expired'', db)"
    using assms(1) exp q by (simp add: require_ready_def immediate_transaction_def require_state_def)
  moreover have "start_execution lib now rid db = (state_error ''preview_expired'', db)"
    using assms(1) exp q by (simp add: start_execution_def immediate_transaction_def require_state_def)
  moreover have "invalidate_request lib now rid ''stale'' db = (state_error ''preview_expired'', db)"
    using assms(1) exp q reason
    by (simp add: invalidate_request_def immediate_transaction_def require_state_values_def
        pending_states_def)
  ultimately show ?thesis by blast
qed

definition sample_db :: request_db where
  "sample_db =
     [row_of ((sample_request sample_inputs)\<lparr>pr_state := ReadyToExecute, pr_approval_count := 1\<rparr>)]"

end
