(* ===== verification/Text_Tools.thy ===== *)
theory Text_Tools
  imports Prepared_Request
begin

text \<open>
  Text and number primitives of the Python language that several components use: the characters of
  a UTF-8 text, \<open>str.strip\<close> and the collapse of white space, \<open>str(value)\<close> and the truth value of a
  JSON value, decimal literals. A decimal is its coefficient and exponent, an amount of money its
  number of hundredths.
\<close>

section \<open>Characters and white space\<close>

text \<open>A text as its characters, each the bytes of its encoding.\<close>

fun utf8_chars :: "string \<Rightarrow> string list" where
  "utf8_chars [] = []"
| "utf8_chars (c # s) =
     (case utf8_chars s of
        [] \<Rightarrow> [[c]]
      | d # ds \<Rightarrow>
          (if d \<noteq> [] \<and> byte_in 0x80 0xBF (hd d) then (c # d) # ds else [c] # d # ds))"

lemma concat_utf8_chars: "concat (utf8_chars s) = s"
  by (induction s) (auto split: list.splits)

text \<open>\<open>str.isspace\<close> of one character, which is also what \<open>\s\<close> matches.\<close>

fun whitespace :: "string \<Rightarrow> bool" where
  "whitespace [c] = space_char c"
| "whitespace [a, b] = (byte_in 0xC2 0xC2 a \<and> (byte_in 0x85 0x85 b \<or> byte_in 0xA0 0xA0 b))"
| "whitespace [a, b, c] =
     (byte_in 0xE1 0xE1 a \<and> byte_in 0x9A 0x9A b \<and> byte_in 0x80 0x80 c \<or>
      byte_in 0xE2 0xE2 a \<and> byte_in 0x80 0x80 b \<and>
        (byte_in 0x80 0x8A c \<or> byte_in 0xA8 0xA9 c \<or> byte_in 0xAF 0xAF c) \<or>
      byte_in 0xE2 0xE2 a \<and> byte_in 0x81 0x81 b \<and> byte_in 0x9F 0x9F c \<or>
      byte_in 0xE3 0xE3 a \<and> byte_in 0x80 0x80 b \<and> byte_in 0x80 0x80 c)"
| "whitespace _ = False"

definition strip_chars :: "string list \<Rightarrow> string list" where
  "strip_chars cs = rev (dropWhile whitespace (rev (dropWhile whitespace cs)))"

definition py_strip :: "string \<Rightarrow> string" where
  "py_strip s = concat (strip_chars (utf8_chars s))"

text \<open>\<open>re.sub(r"\s+", " ", s)\<close> on the characters.\<close>

fun collapse_spaces :: "string list \<Rightarrow> string list" where
  "collapse_spaces [] = []"
| "collapse_spaces (c # cs) =
     (if whitespace c
      then (case cs of
              [] \<Rightarrow> ['' '']
            | d # _ \<Rightarrow> if whitespace d then collapse_spaces cs else '' '' # collapse_spaces cs)
      else c # collapse_spaces cs)"

section \<open>Values\<close>

text \<open>
  What the model leaves to the Python library: \<open>repr\<close> of a container, the decimal value of a
  non-ASCII digit character, \<open>str.lower\<close>, \<open>int(text)\<close> and \<open>int\<close> of a float (given as its
  \<open>repr\<close>; \<open>None\<close> where they raise).
\<close>

record value_lib = pylib +
  py_repr :: "json \<Rightarrow> string"
  unicode_digit :: "string \<Rightarrow> nat option"
  lower_text :: "string \<Rightarrow> string"
  int_of_text :: "string \<Rightarrow> int option"
  int_of_float :: "string \<Rightarrow> int option"

text \<open>\<open>bool(value)\<close>\<close>

fun truthy :: "json \<Rightarrow> bool" where
  "truthy JNull = False"
| "truthy (JBool b) = b"
| "truthy (JInt i) = (i \<noteq> 0)"
| "truthy (JFloat s) = (s \<notin> {''0.0'', ''-0.0''})"
| "truthy (JStr s) = (s \<noteq> [])"
| "truthy (JArr xs) = (xs \<noteq> [])"
| "truthy (JObj kvs) = (kvs \<noteq> [])"

text \<open>\<open>str(value)\<close>; the \<open>repr\<close> of a list or dictionary is a parameter.\<close>

fun py_str :: "(json \<Rightarrow> string) \<Rightarrow> json \<Rightarrow> string" where
  "py_str repr JNull = ''None''"
| "py_str repr (JBool b) = (if b then ''True'' else ''False'')"
| "py_str repr (JInt i) = show_int i"
| "py_str repr (JFloat s) = s"
| "py_str repr (JStr s) = s"
| "py_str repr v = repr v"

text \<open>\<open>str(value or "")\<close>\<close>

definition str_or_empty :: "(json \<Rightarrow> string) \<Rightarrow> json \<Rightarrow> string" where
  "str_or_empty repr v = (if truthy v then py_str repr v else [])"

text \<open>\<open>int(value)\<close>\<close>

fun py_int :: "'a value_lib_scheme \<Rightarrow> json \<Rightarrow> int result" where
  "py_int lib (JInt i) = Inr i"
| "py_int lib (JBool b) = Inr (if b then 1 else 0)"
| "py_int lib (JFloat s) =
     (case int_of_float lib s of None \<Rightarrow> Inl (UnexpectedError ''OverflowError'') | Some i \<Rightarrow> Inr i)"
| "py_int lib (JStr s) =
     (case int_of_text lib s of None \<Rightarrow> Inl (ValueError ''int'') | Some i \<Rightarrow> Inr i)"
| "py_int lib v = Inl (UnexpectedError ''TypeError'')"

section \<open>Decimal literals\<close>

definition digit_value :: "char \<Rightarrow> nat" where
  "digit_value c = (of_char c :: nat) - 48"

definition digits_value :: "string \<Rightarrow> nat" where
  "digits_value s = foldl (\<lambda>n c. 10 * n + digit_value c) 0 s"

definition take_digits :: "string \<Rightarrow> string" where
  "take_digits s = takeWhile digit_char s"

definition drop_digits :: "string \<Rightarrow> string" where
  "drop_digits s = dropWhile digit_char s"

datatype decimal = Finite bool nat int | NotFinite

definition split_sign :: "string \<Rightarrow> bool \<times> string" where
  "split_sign s =
     (case s of
        [] \<Rightarrow> (False, [])
      | c # r \<Rightarrow> if c = CHR ''-'' then (True, r) else if c = CHR ''+'' then (False, r) else (False, s))"

text \<open>An optional exponent at the end of the literal.\<close>

definition parse_exponent :: "string \<Rightarrow> int option" where
  "parse_exponent s =
     (case s of
        [] \<Rightarrow> Some 0
      | c # r \<Rightarrow>
         (if c = CHR ''e'' \<or> c = CHR ''E'' then
            (let (neg, ds) = split_sign r in if ds \<noteq> [] \<and> list_all digit_char ds
                then Some (if neg then - int (digits_value ds) else int (digits_value ds))
                else None)
          else None))"

definition parse_unsigned :: "bool \<Rightarrow> string \<Rightarrow> decimal option" where
  "parse_unsigned neg s =
     (let whole = take_digits s; rest = drop_digits s;
          (frac, tail) = (case rest of
             c # r \<Rightarrow> if c = CHR ''.'' then (take_digits r, drop_digits r) else ([], rest)
           | [] \<Rightarrow> ([], []))
      in if whole @ frac = [] then None
         else case parse_exponent tail of
                None \<Rightarrow> None
              | Some e \<Rightarrow> Some (Finite neg (digits_value (whole @ frac)) (e - int (length frac))))"

text \<open>A character of the literal as ASCII; the null character stands for one without a meaning.\<close>

definition numeric_char :: "'a value_lib_scheme \<Rightarrow> string \<Rightarrow> char" where
  "numeric_char lib ch =
     (case ch of
        [c] \<Rightarrow> if byte_in 0 0x7F c then c else CHR 0x00
      | _ \<Rightarrow> (case unicode_digit lib ch of Some d \<Rightarrow> dec_digit (d mod 10) | None \<Rightarrow> CHR 0x00))"

definition not_a_number :: "string \<Rightarrow> bool" where
  "not_a_number l \<longleftrightarrow>
     (take 3 l = ''nan'' \<and> list_all digit_char (drop 3 l)) \<or>
     (take 4 l = ''snan'' \<and> list_all digit_char (drop 4 l))"

text \<open>
  \<open>Decimal(text)\<close>: white space around the literal and underscores in it are ignored; \<open>None\<close> is
  \<open>InvalidOperation\<close>. Infinities and NaNs are \<open>NotFinite\<close>.
\<close>

definition parse_decimal :: "'a value_lib_scheme \<Rightarrow> string \<Rightarrow> decimal option" where
  "parse_decimal lib text =
     (let s = filter (\<lambda>c. c \<noteq> CHR ''_'') (map (numeric_char lib) (strip_chars (utf8_chars text)));
          (neg, u) = split_sign s;
          l = map ascii_lower u
      in if l = ''inf'' \<or> l = ''infinity'' \<or> not_a_number l then Some NotFinite
         else parse_unsigned neg u)"

text \<open>The quotient \<open>k / d\<close> rounded to an integer, half up and half to even.\<close>

definition round_half_up :: "nat \<Rightarrow> nat \<Rightarrow> nat" where
  "round_half_up k d = k div d + (if d \<le> 2 * (k mod d) then 1 else 0)"

definition round_half_even :: "nat \<Rightarrow> nat \<Rightarrow> nat" where
  "round_half_even k d =
     k div d + (if d < 2 * (k mod d) \<or> d = 2 * (k mod d) \<and> odd (k div d) then 1 else 0)"

text \<open>
  \<open>quantize(Decimal("0.01"))\<close> of a finite decimal, as hundredths; a result of more than 28 digits
  is \<open>InvalidOperation\<close> in the default context.
\<close>

definition hundredths :: "(nat \<Rightarrow> nat \<Rightarrow> nat) \<Rightarrow> nat \<Rightarrow> int \<Rightarrow> nat" where
  "hundredths rounding k e =
     (if -2 \<le> e then k * 10 ^ nat (e + 2) else rounding k (10 ^ nat (- 2 - e)))"

definition quantize :: "(nat \<Rightarrow> nat \<Rightarrow> nat) \<Rightarrow> nat \<Rightarrow> int \<Rightarrow> nat option" where
  "quantize rounding k e =
     (if hundredths rounding k e < 10 ^ 28 then Some (hundredths rounding k e) else None)"

text \<open>Addition of amounts in the default context: 28 digits, rounding half to even.\<close>

definition context_round :: "nat \<Rightarrow> nat" where
  "context_round n =
     (let unit = 10 ^ (length (show_nat n) - 28) in unit * round_half_even n unit)"

definition add_amounts :: "nat \<Rightarrow> nat \<Rightarrow> nat" where
  "add_amounts a b = context_round (a + b)"

text \<open>\<open>f"{amount:.2f}"\<close>\<close>

definition format_amount :: "nat \<Rightarrow> string" where
  "format_amount c = show_nat (c div 100) @ ''.'' @ pad 2 (int (c mod 100))"

section \<open>Facts\<close>

lemma digit_value_dec: "n < 10 \<Longrightarrow> digit_value (dec_digit n) = n"
  by (auto simp: digit_value_def dec_digit_def less_Suc_eq numeral_eq_Suc nth_Cons')

lemma digits_value_append: "digits_value (s @ [c]) = 10 * digits_value s + digit_value c"
  by (simp add: digits_value_def)

lemma digits_value_show [simp]: "digits_value (show_nat n) = n"
proof (induction n rule: show_nat.induct)
  case (1 n)
  show ?case
  proof (cases "n < 10")
    case True
    then show ?thesis by (simp add: show_nat_small digits_value_def digit_value_dec)
  next
    case False
    with 1 show ?thesis by (simp add: show_nat_large digits_value_append digit_value_dec)
  qed
qed

lemma show_nat_length: "0 < k \<Longrightarrow> length (show_nat n) \<le> k \<longleftrightarrow> n < 10 ^ k"
proof (induction n arbitrary: k rule: show_nat.induct)
  case (1 n)
  show ?case
  proof (cases "n < 10")
    case True
    with 1(2) have "n < 10 ^ k" by (cases k) (auto intro: less_le_trans)
    with True 1(2) show ?thesis by (simp add: show_nat_small)
  next
    case False
    show ?thesis
    proof (cases "k = 1")
      case True
      with False show ?thesis by (simp add: show_nat_large)
    next
      case neq: False
      with 1(2) obtain j where k: "k = Suc j" and j: "0 < j" by (cases k) auto
      from False 1(1)[OF _ j] have "length (show_nat (n div 10)) \<le> j \<longleftrightarrow> n div 10 < 10 ^ j" by simp
      with False k show ?thesis by (simp add: show_nat_large div_less_iff_less_mult mult.commute)
    qed
  qed
qed

text \<open>Sums of at most 28 digits are exact.\<close>

lemma round_half_even_1 [simp]: "round_half_even n 1 = n"
  by (simp add: round_half_even_def)

lemma context_round_exact: "n < 10 ^ 28 \<Longrightarrow> context_round n = n"
  using show_nat_length[of 28 n] by (simp add: context_round_def Let_def round_half_even_def)

lemma round_half_up_bound:
  "0 < d \<Longrightarrow> 2 * (d * round_half_up k d) \<le> 2 * k + d \<and> 2 * k < 2 * (d * round_half_up k d) + d"
proof -
  assume d: "0 < d"
  define q r where "q = k div d" and "r = k mod d"
  have k: "k = d * q + r" and r: "r < d" using d by (simp_all add: q_def r_def)
  have "round_half_up k d = q + (if d \<le> 2 * r then 1 else 0)"
    by (simp add: round_half_up_def q_def r_def)
  then show ?thesis using k r by (cases "d \<le> 2 * r") (simp_all add: algebra_simps)
qed

lemma utf8_chars_ascii: "list_all (byte_in 0 0x7F) s \<Longrightarrow> utf8_chars s = map (\<lambda>c. [c]) s"
  by (induction s) (auto simp: byte_in_def split: list.splits)

lemma pad2: "m < 100 \<Longrightarrow> pad 2 (int m) = [dec_digit (m div 10), dec_digit (m mod 10)]"
proof -
  assume m: "m < 100"
  have z: "dec_digit 0 = CHR ''0''" by (simp add: dec_digit_def)
  have s: "show_int (int m) = show_nat m" by (simp add: show_int_def)
  show ?thesis
  proof (cases "m < 10")
    case True
    then have "show_nat m = [dec_digit m]" by (rule show_nat_small)
    with True show ?thesis by (simp add: pad_def s z)
  next
    case False
    with m have "show_nat (m div 10) = [dec_digit (m div 10)]" by (intro show_nat_small) simp
    with False have "show_nat m = [dec_digit (m div 10), dec_digit (m mod 10)]"
      by (simp add: show_nat_large)
    then show ?thesis by (simp add: pad_def s)
  qed
qed

lemma strip_chars_id:
  "cs = [] \<or> \<not> whitespace (hd cs) \<and> \<not> whitespace (last cs) \<Longrightarrow> strip_chars cs = cs"
proof (cases cs)
  case (Cons c r)
  assume "cs = [] \<or> \<not> whitespace (hd cs) \<and> \<not> whitespace (last cs)"
  with Cons have h: "\<not> whitespace c" and l: "\<not> whitespace (last cs)" by auto
  from h Cons have "dropWhile whitespace cs = cs" by simp
  moreover from l Cons have "dropWhile whitespace (rev cs) = rev cs"
    by (simp add: dropWhile_eq_self_iff hd_rev del: rev.simps)
  ultimately show ?thesis by (simp add: strip_chars_def)
qed (simp add: strip_chars_def)

text \<open>A formatted amount is read back as the same number of hundredths.\<close>

definition amount_char :: "char \<Rightarrow> bool" where
  "amount_char c \<longleftrightarrow> digit_char c \<or> c = CHR ''.''"

definition plain_char :: "char \<Rightarrow> bool" where
  "plain_char c \<longleftrightarrow> byte_in 0 0x7F c \<and> c \<noteq> CHR ''_'' \<and> \<not> whitespace [c] \<and> ascii_lower c = c \<and>
     c \<notin> set ''-+ins''"

lemma amount_char_plain: "amount_char c \<Longrightarrow> plain_char c"
proof -
  have "list_all plain_char ''0123456789.''" by code_simp
  moreover assume "amount_char c"
  then have "c \<in> set ''0123456789.''" by (auto simp: amount_char_def digit_char_def)
  ultimately show ?thesis unfolding list_all_iff by blast
qed

lemma parse_decimal_plain:
  assumes "list_all amount_char s" and "s \<noteq> []"
  shows "parse_decimal lib s = parse_unsigned False s"
proof -
  have plain: "plain_char c" if "c \<in> set s" for c
    using assms(1) that amount_char_plain by (simp add: list_all_iff)
  have byte: "byte_in 0 0x7F c" and us: "c \<noteq> CHR ''_''" and sp: "\<not> whitespace [c]" and low: "ascii_lower c = c"
    if "c \<in> set s" for c
    using plain[OF that] by (simp_all add: plain_char_def)
  have c: "utf8_chars s = map (\<lambda>c. [c]) s"
    by (rule utf8_chars_ascii) (simp add: list_all_iff byte)
  have strip: "strip_chars (utf8_chars s) = utf8_chars s"
    unfolding c using assms(2) sp[OF hd_in_set] sp[OF last_in_set]
    by (intro strip_chars_id) (simp add: hd_map last_map)
  have num: "map (numeric_char lib) (utf8_chars s) = s"
    unfolding c map_map by (intro map_idI) (simp add: numeric_char_def byte)
  have filt: "filter (\<lambda>c. c \<noteq> CHR ''_'') s = s"
    by (rule filter_True) (simp add: us)
  have lower: "map ascii_lower s = s"
    by (intro map_idI) (rule low)
  obtain h t where s: "s = h # t" using assms(2) by (cases s) auto
  then have h: "h \<noteq> CHR ''-'' \<and> h \<noteq> CHR ''+'' \<and> h \<noteq> CHR ''i'' \<and> h \<noteq> CHR ''n'' \<and> h \<noteq> CHR ''s''"
    using plain[of h] by (simp add: plain_char_def)
  have "split_sign s = (False, s)" using h by (simp add: s split_sign_def)
  moreover have "s \<noteq> ''inf'' \<and> s \<noteq> ''infinity''" using h by (simp add: s)
  moreover have "\<not> not_a_number s" using h by (simp add: s not_a_number_def numeral_eq_Suc)
  ultimately show ?thesis
    by (simp add: parse_decimal_def Let_def strip num filt lower)
qed

lemma format_amount_chars: "list_all amount_char (format_amount c)" "format_amount c \<noteq> []"
proof -
  have "list_all digit_char (pad 2 (int (c mod 100)))"
    using dec_digit_char[of "c mod 100 div 10"] dec_digit_char[of "c mod 100 mod 10"]
    by (simp add: pad2)
  then show "list_all amount_char (format_amount c)"
    using show_nat_digits[of "c div 100"] by (auto simp: format_amount_def amount_char_def list_all_iff)
qed (simp add: format_amount_def)

lemma takeWhile_digits: "list_all digit_char s \<Longrightarrow> take_digits (s @ r) = s @ take_digits r"
  and dropWhile_digits: "list_all digit_char s \<Longrightarrow> drop_digits (s @ r) = drop_digits r"
  by (simp_all add: take_digits_def drop_digits_def list_all_iff takeWhile_append dropWhile_append)

lemma parse_format_amount:
  "parse_decimal lib (format_amount c) = Some (Finite False c (- 2))"
proof -
  define w f where "w = show_nat (c div 100)" and "f = pad 2 (int (c mod 100))"
  have f: "f = [dec_digit (c mod 100 div 10), dec_digit (c mod 100 mod 10)]"
    by (simp add: f_def pad2)
  have fd: "list_all digit_char f"
    using dec_digit_char[of "c mod 100 div 10"] dec_digit_char[of "c mod 100 mod 10"] by (simp add: f)
  have wd: "list_all digit_char w" using show_nat_digits by (simp add: w_def)
  have "digits_value (w @ f) = 10 * (10 * (c div 100) + c mod 100 div 10) + c mod 100 mod 10"
    using digits_value_append[of "w @ [dec_digit (c mod 100 div 10)]" "dec_digit (c mod 100 mod 10)"]
      digits_value_append[of w "dec_digit (c mod 100 div 10)"]
    by (simp add: f w_def digit_value_dec)
  also have "\<dots> = 100 * (c div 100) + (10 * (c mod 100 div 10) + c mod 100 mod 10)"
    by simp
  also have "\<dots> = c"
    unfolding mult_div_mod_eq ..
  finally have v: "digits_value (w @ f) = c" .
  have e: "take_digits [] = []" "drop_digits [] = []" "\<not> digit_char CHR ''.''"
    by (simp_all add: take_digits_def drop_digits_def digit_char_def)
  have d: "take_digits (CHR ''.'' # r) = []" "drop_digits (CHR ''.'' # r) = CHR ''.'' # r" for r
    by (simp_all add: take_digits_def drop_digits_def e)
  have "take_digits f = f" "drop_digits f = []"
    using takeWhile_digits[OF fd, of "[]"] dropWhile_digits[OF fd, of "[]"] by (simp_all add: e)
  then have "parse_unsigned False (w @ CHR ''.'' # f) = Some (Finite False c (- 2))"
    using v by (simp add: parse_unsigned_def takeWhile_digits[OF wd] dropWhile_digits[OF wd] d Let_def
        parse_exponent_def f)
  then show ?thesis
    using parse_decimal_plain[OF format_amount_chars, of lib c] by (simp add: format_amount_def w_def f_def)
qed

end
