(* ===== verification/Journal.thy ===== *)
theory Journal
  imports Text_Tools Complex_Main "HOL-Library.Code_Target_Nat"
begin

text \<open>
  Model of \<open>journals/models.py\<close>: the validation of a general journal and the payload of its
  voucher. Lines and accounts are JSON objects, an amount of money is its number of hundredths.
  \<open>journal_lib\<close> adds \<open>date.fromisoformat(text).isoformat()\<close> (\<open>None\<close> is \<open>ValueError\<close>) and the
  \<open>repr\<close> of the float nearest to a number of hundredths. The properties: an accepted journal
  balances, its amounts are the given ones rounded half up, and every refusal has its code.
\<close>

record journal_lib = value_lib +
  iso_date :: "string \<Rightarrow> string option"
  amount_float :: "nat \<Rightarrow> string"

datatype journal_error =
    JournalError string json_dict
  | OtherError mercury_error

definition side_codes :: "(string \<times> int) list" where
  "side_codes = [(''debit'', 1), (''credit'', 3)]"

record prepared_journal =
  pj_document_date :: string
  pj_reference :: string
  pj_description :: string
  pj_total_debit :: string
  pj_total_credit :: string
  pj_preview_lines :: "json_dict list"
  pj_flowaccount_payload :: json_dict

definition input_hash :: "journal_lib \<Rightarrow> prepared_journal \<Rightarrow> string \<Rightarrow> string \<Rightarrow> string \<Rightarrow> string" where
  "input_hash lib j workspace_id connector_profile_id environment =
     sha256_hexdigest lib (print_json (sort_keys (JObj
       [(''workspace_id'', JStr workspace_id),
        (''connector_profile_id'', JStr connector_profile_id),
        (''environment'', JStr environment),
        (''payload'', JObj (pj_flowaccount_payload j))])))"

definition stripped :: "journal_lib \<Rightarrow> json \<Rightarrow> string" where
  "stripped lib v = py_strip (str_or_empty (py_repr lib) v)"

definition normalize_text :: "journal_lib \<Rightarrow> json \<Rightarrow> string" where
  "normalize_text lib v =
     casefold lib (concat (collapse_spaces (utf8_chars (stripped lib v))))"

text \<open>The code quantizes the sign with the amount; a negative amount is refused either way.\<close>

definition money :: "journal_lib \<Rightarrow> json \<Rightarrow> journal_error + nat" where
  "money lib v =
     (let invalid = Inl (JournalError ''invalid_amount'' []) in
      case parse_decimal lib (py_str (py_repr lib) v) of
        None \<Rightarrow> invalid
      | Some NotFinite \<Rightarrow> invalid
      | Some (Finite neg k e) \<Rightarrow>
          (case quantize round_half_up k e of
             None \<Rightarrow> invalid
           | Some cents \<Rightarrow> if neg \<or> cents = 0 then invalid else Inr cents))"

definition json_amount :: "journal_lib \<Rightarrow> nat \<Rightarrow> json" where
  "json_amount lib cents =
     (if cents mod 100 = 0 then JInt (int (cents div 100)) else JFloat (amount_float lib cents))"

text \<open>\<open>row.get("nameLocal") or row.get("nameForeign")\<close>\<close>

definition account_name :: "json_dict \<Rightarrow> json" where
  "account_name row =
     (let name = jget row ''nameLocal'' JNull
      in if truthy name then name else jget row ''nameForeign'' JNull)"

definition candidate_summary :: "journal_lib \<Rightarrow> json_dict \<Rightarrow> json" where
  "candidate_summary lib row = JObj
     [(''code'', JStr (str_or_empty (py_repr lib) (jget row ''code'' JNull))),
      (''name'', JStr (str_or_empty (py_repr lib) (account_name row)))]"

definition account_matches :: "journal_lib \<Rightarrow> json_dict \<Rightarrow> json_dict list \<Rightarrow> json_dict list" where
  "account_matches lib line accounts =
     (let requested_code = normalize_text lib (jget line ''account_code'' JNull);
          requested_name = normalize_text lib (jget line ''account_name'' JNull)
      in if requested_code \<noteq> []
         then filter (\<lambda>row. normalize_text lib (jget row ''code'' JNull) = requested_code) accounts
         else filter (\<lambda>row. requested_name = normalize_text lib (jget row ''nameLocal'' JNull) \<or>
                            requested_name = normalize_text lib (jget row ''nameForeign'' JNull)) accounts)"

definition resolve_account ::
    "journal_lib \<Rightarrow> json_dict \<Rightarrow> json_dict list \<Rightarrow> journal_error + json_dict" where
  "resolve_account lib line accounts =
     (if normalize_text lib (jget line ''account_code'' JNull) = [] \<and>
         normalize_text lib (jget line ''account_name'' JNull) = []
      then Inl (JournalError ''account_required'' [])
      else (case account_matches lib line accounts of
              [] \<Rightarrow> Inl (JournalError ''account_resolution_required''
                 [(''account_code'', jget line ''account_code'' JNull),
                  (''account_name'', jget line ''account_name'' JNull)])
            | [row] \<Rightarrow> Inr row
            | rows \<Rightarrow> Inl (JournalError ''ambiguous_account''
                 [(''candidates'', JArr (map (candidate_summary lib) rows))])))"

definition optional_text :: "string \<Rightarrow> json" where
  "optional_text s = (if s = [] then JNull else JStr s)"

text \<open>\<open>account["id"]\<close> and its conversion.\<close>

definition account_id :: "journal_lib \<Rightarrow> json_dict \<Rightarrow> journal_error + int" where
  "account_id lib account =
     (case map_of account ''id'' of
        None \<Rightarrow> Inl (OtherError (UnexpectedError ''KeyError''))
      | Some v \<Rightarrow> (case py_int lib v of Inl e \<Rightarrow> Inl (OtherError e) | Inr i \<Rightarrow> Inr i))"

section \<open>One line\<close>

record journal_line =
  jl_side :: string
  jl_amount :: nat
  jl_body :: json_dict
  jl_preview :: json_dict

definition prepare_line ::
    "journal_lib \<Rightarrow> json_dict list \<Rightarrow> json_dict \<Rightarrow> journal_error + journal_line" where
  "prepare_line lib accounts line =
     (let side = lower_text lib (stripped lib (jget line ''side'' JNull)) in
      case map_of side_codes side of
        None \<Rightarrow> Inl (JournalError ''invalid_side'' [])
      | Some code \<Rightarrow>
          ebind (money lib (jget line ''amount'' JNull)) (\<lambda>amount.
          ebind (resolve_account lib line accounts) (\<lambda>account.
          let line_description = optional_text (stripped lib (jget line ''description'' JNull)) in
          ebind (account_id lib account) (\<lambda>chart_id.
            Inr \<lparr>jl_side = side, jl_amount = amount,
                 jl_body =
                   [(''debitCredit'', JInt code),
                    (''chartOfAccountId'', JInt chart_id),
                    (''value'', json_amount lib amount),
                    (''description'', line_description)],
                 jl_preview =
                   [(''side'', JStr side),
                    (''account_code'', JStr (str_or_empty (py_repr lib) (jget account ''code'' JNull))),
                    (''account_name'', JStr (str_or_empty (py_repr lib) (account_name account))),
                    (''amount'', JStr (format_amount amount)),
                    (''description'', line_description)]\<rparr>))))"

text \<open>The loop over the lines: the two running sums and the two lists.\<close>

fun prepare_lines ::
    "journal_lib \<Rightarrow> json_dict list \<Rightarrow> json_dict list \<Rightarrow> nat \<times> nat \<times> journal_line list
       \<Rightarrow> journal_error + nat \<times> nat \<times> journal_line list" where
  "prepare_lines lib accounts [] acc = Inr acc"
| "prepare_lines lib accounts (line # lines) (debit, credit, done) =
     ebind (prepare_line lib accounts line) (\<lambda>l.
       prepare_lines lib accounts lines
         (if jl_side l = ''debit'' then (add_amounts debit (jl_amount l), credit, done @ [l])
          else (debit, add_amounts credit (jl_amount l), done @ [l])))"

section \<open>The journal\<close>

record journal_input =
  ji_document_date :: string
  ji_reference :: string
  ji_description :: string
  ji_lines :: "json_dict list"
  ji_accounts :: "json_dict list"
  ji_environment :: string
  ji_note :: "string option"
  ji_remarks :: "string option"

definition optional_strip :: "string option \<Rightarrow> json" where
  "optional_strip v =
     (case v of None \<Rightarrow> JNull | Some s \<Rightarrow> if s = [] then JNull else JStr (py_strip s))"

definition journal_payload ::
    "journal_input \<Rightarrow> string \<Rightarrow> string \<Rightarrow> string \<Rightarrow> journal_line list \<Rightarrow> json_dict" where
  "journal_payload inp normalized_date clean_reference clean_description ls =
     [(''documentType'', JInt 51),
      (''documentDate'', JStr normalized_date),
      (''contactId'', JNull),
      (''contactName'', JStr ''''),
      (''description'', JStr clean_description),
      (''note'', optional_strip (ji_note inp)),
      (''remarks'', optional_strip (ji_remarks inp)),
      (''reference'', optional_text clean_reference),
      (''bookOfAccounts'', JArr (map (JObj \<circ> jl_body) ls))]"

definition prepare_general_journal ::
    "journal_lib \<Rightarrow> journal_input \<Rightarrow> journal_error + prepared_journal" where
  "prepare_general_journal lib inp =
     (case iso_date lib (ji_document_date inp) of
        None \<Rightarrow> Inl (JournalError ''invalid_document_date'' [])
      | Some normalized_date \<Rightarrow>
          let clean_reference = py_strip (ji_reference inp);
              clean_description = py_strip (ji_description inp) in
          ebind (raise_if (ji_environment inp = ''production'' \<and> clean_reference = [])
                  (JournalError ''reference_required'' [])) (\<lambda>_.
          ebind (raise_if (clean_description = []) (JournalError ''description_required'' [])) (\<lambda>_.
          ebind (raise_if (length (ji_lines inp) < 2) (JournalError ''insufficient_lines'' [])) (\<lambda>_.
          ebind (prepare_lines lib (ji_accounts inp) (ji_lines inp) (0, 0, []))
            (\<lambda>(debit, credit, ls).
          ebind (raise_if (debit = 0 \<or> credit = 0 \<or> debit \<noteq> credit)
                  (JournalError ''unbalanced_journal''
                    [(''total_debit'', JStr (format_amount debit)),
                     (''total_credit'', JStr (format_amount credit))])) (\<lambda>_.
            Inr \<lparr>pj_document_date = normalized_date,
                 pj_reference = clean_reference,
                 pj_description = clean_description,
                 pj_total_debit = format_amount debit,
                 pj_total_credit = format_amount credit,
                 pj_preview_lines = map jl_preview ls,
                 pj_flowaccount_payload =
                   journal_payload inp normalized_date clean_reference clean_description ls\<rparr>))))))"
section \<open>Reading a prepared journal\<close>

text \<open>The side and the amount a reader of the preview, and of the voucher, sees.\<close>

definition text_cents :: "journal_lib \<Rightarrow> json \<Rightarrow> nat" where
  "text_cents lib v =
     (case v of
        JStr s \<Rightarrow> (case parse_decimal lib s of
            Some (Finite neg k e) \<Rightarrow> hundredths round_half_up k e
          | _ \<Rightarrow> 0)
      | _ \<Rightarrow> 0)"

definition preview_side :: "json_dict \<Rightarrow> json" where
  "preview_side l = jget l ''side'' JNull"

definition preview_cents :: "journal_lib \<Rightarrow> json_dict \<Rightarrow> nat" where
  "preview_cents lib l = text_cents lib (jget l ''amount'' JNull)"

definition side_sum :: "journal_lib \<Rightarrow> string \<Rightarrow> json_dict list \<Rightarrow> nat" where
  "side_sum lib side ls = sum_list (map (preview_cents lib) (filter (\<lambda>l. preview_side l = JStr side) ls))"

definition voucher_lines :: "prepared_journal \<Rightarrow> json list" where
  "voucher_lines j =
     (case jget (pj_flowaccount_payload j) ''bookOfAccounts'' JNull of JArr ls \<Rightarrow> ls | _ \<Rightarrow> [])"

fun voucher_side :: "json \<Rightarrow> json" where
  "voucher_side (JObj l) =
     (if jget l ''debitCredit'' JNull = JInt 1 then JStr ''debit''
      else if jget l ''debitCredit'' JNull = JInt 3 then JStr ''credit'' else JNull)"
| "voucher_side v = JNull"

text \<open>
  What a preview line records of its input line: the given decimal, positive and rounded to the
  nearest hundredth, and the only account that matches the requested one.
\<close>

definition line_recorded :: "journal_lib \<Rightarrow> json_dict list \<Rightarrow> json_dict \<Rightarrow> json_dict \<Rightarrow> bool" where
  "line_recorded lib accounts line preview \<longleftrightarrow>
     (\<exists>k e account.
        parse_decimal lib (py_str (py_repr lib) (jget line ''amount'' JNull)) = Some (Finite False k e) \<and>
        \<bar>of_nat (preview_cents lib preview) - of_nat k * 10 powi (e + 2)\<bar> \<le> (1 / 2 :: rat) \<and>
        0 < preview_cents lib preview \<and>
        account_matches lib line accounts = [account] \<and> account \<in> set accounts \<and>
        jget preview ''account_code'' JNull = JStr (str_or_empty (py_repr lib) (jget account ''code'' JNull)))"

section \<open>Lemmas\<close>

lemma hundredths_near:
  "\<bar>of_nat (hundredths round_half_up k e) - of_nat k * 10 powi (e + 2)\<bar> \<le> (1 / 2 :: rat)"
proof (cases "-2 \<le> e")
  case True
  then show ?thesis by (simp add: hundredths_def power_int_def)
next
  case False
  define d :: nat where "d = 10 ^ nat (- 2 - e)"
  define c where "c = round_half_up k d"
  have d: "0 < d" by (simp add: d_def)
  have p: "(10 :: rat) powi (e + 2) = 1 / of_nat d"
    using False by (simp add: power_int_def d_def field_simps)
  have b: "2 * (d * c) \<le> 2 * k + d" "2 * k < 2 * (d * c) + d"
    using round_half_up_bound[OF d, of k] by (simp_all add: c_def)
  have "(of_nat (2 * (d * c)) :: rat) \<le> of_nat (2 * k + d)" "(of_nat (2 * k) :: rat) \<le> of_nat (2 * (d * c) + d)"
    using b by (simp_all only: of_nat_le_iff)
  then have r: "2 * (of_nat d * of_nat c) \<le> 2 * of_nat k + (of_nat d :: rat)"
      "2 * of_nat k \<le> 2 * (of_nat d * of_nat c) + (of_nat d :: rat)"
    by simp_all
  have dp: "(0 :: rat) < of_nat d" using d by simp
  have "of_nat c - of_nat k / of_nat d \<le> (1 / 2 :: rat)" "- (of_nat c - of_nat k / of_nat d) \<le> (1 / 2 :: rat)"
    using r dp by (simp_all add: field_simps)
  then have "\<bar>of_nat c - of_nat k / of_nat d\<bar> \<le> (1 / 2 :: rat)" by linarith
  moreover have "hundredths round_half_up k e = c" using False by (simp add: hundredths_def c_def d_def)
  ultimately show ?thesis by (simp add: p)
qed

lemma text_cents_format [simp]: "text_cents lib (JStr (format_amount c)) = c"
  by (simp add: text_cents_def parse_format_amount hundredths_def)

lemma money_Inr:
  assumes "money lib v = Inr c"
  obtains k e where "parse_decimal lib (py_str (py_repr lib) v) = Some (Finite False k e)"
    and "c = hundredths round_half_up k e" and "0 < c" and "c < 10 ^ 28"
  using assms
  by (auto simp: money_def Let_def quantize_def split: option.splits decimal.splits if_splits)

lemma resolve_account_Inr:
  assumes "resolve_account lib line accounts = Inr account"
  shows "account_matches lib line accounts = [account]" and "account \<in> set accounts"
proof -
  show m: "account_matches lib line accounts = [account]"
    using assms by (auto simp: resolve_account_def split: if_splits list.splits)
  have "set (account_matches lib line accounts) \<subseteq> set accounts"
    by (auto simp: account_matches_def Let_def)
  with m show "account \<in> set accounts" by simp
qed

lemma side_code_cases:
  "map_of side_codes side = Some code \<Longrightarrow> side = ''debit'' \<and> code = 1 \<or> side = ''credit'' \<and> code = 3"
  by (auto simp: side_codes_def split: if_splits)

lemma prepare_line_Inr:
  assumes "prepare_line lib accounts line = Inr l"
  shows "jl_side l = ''debit'' \<or> jl_side l = ''credit''"
    and "preview_side (jl_preview l) = JStr (jl_side l)"
    and "preview_cents lib (jl_preview l) = jl_amount l"
    and "voucher_side (JObj (jl_body l)) = JStr (jl_side l)"
    and "line_recorded lib accounts line (jl_preview l)"
proof -
  define side where "side = lower_text lib (stripped lib (jget line ''side'' JNull))"
  from assms obtain code amount account chart_id where
    code: "map_of side_codes side = Some code" and
    amount: "money lib (jget line ''amount'' JNull) = Inr amount" and
    account: "resolve_account lib line accounts = Inr account" and
    l: "jl_side l = side" "jl_amount l = amount"
      "jl_body l = [(''debitCredit'', JInt code), (''chartOfAccountId'', JInt chart_id),
         (''value'', json_amount lib amount),
         (''description'', optional_text (stripped lib (jget line ''description'' JNull)))]"
      "jl_preview l = [(''side'', JStr side),
         (''account_code'', JStr (str_or_empty (py_repr lib) (jget account ''code'' JNull))),
         (''account_name'', JStr (str_or_empty (py_repr lib) (account_name account))),
         (''amount'', JStr (format_amount amount)),
         (''description'', optional_text (stripped lib (jget line ''description'' JNull)))]"
    by (auto simp: prepare_line_def Let_def side_def outcome_simps split: option.splits)
  note sc = side_code_cases[OF code]
  show "jl_side l = ''debit'' \<or> jl_side l = ''credit''" using sc l(1) by auto
  show "preview_side (jl_preview l) = JStr (jl_side l)" by (simp add: l preview_side_def jget_def)
  show pc: "preview_cents lib (jl_preview l) = jl_amount l" by (simp add: l preview_cents_def jget_def)
  show "voucher_side (JObj (jl_body l)) = JStr (jl_side l)" using sc by (auto simp: l jget_def)
  obtain k e where m: "parse_decimal lib (py_str (py_repr lib) (jget line ''amount'' JNull)) = Some (Finite False k e)"
    "amount = hundredths round_half_up k e" "0 < amount"
    by (rule money_Inr[OF amount])
  have "jget (jl_preview l) ''account_code'' JNull =
      JStr (str_or_empty (py_repr lib) (jget account ''code'' JNull))"
    by (simp add: l jget_def)
  with m resolve_account_Inr[OF account] hundredths_near[of k e]
  show "line_recorded lib accounts line (jl_preview l)"
    unfolding line_recorded_def pc by (intro exI[of _ k] exI[of _ e] exI[of _ account]) (simp add: l)
qed

text \<open>The running sums, exact as long as they fit the decimal context.\<close>

definition side_total :: "string \<Rightarrow> journal_line list \<Rightarrow> nat" where
  "side_total side ls = sum_list (map jl_amount (filter (\<lambda>l. jl_side l = side) ls))"

lemma side_total_simps [simp]:
  "side_total side [] = 0"
  "side_total side (l # ls) = (if jl_side l = side then jl_amount l else 0) + side_total side ls"
  by (simp_all add: side_total_def)

lemma add_amounts_exact: "a + b < 10 ^ 28 \<Longrightarrow> add_amounts a b = a + b"
  by (simp add: add_amounts_def context_round_exact)

lemma prepare_lines_Inr:
  assumes "prepare_lines lib accounts lines (d, c, done) = Inr (d', c', ls)"
  shows "\<exists>new. ls = done @ new \<and> list_all2 (\<lambda>line l. prepare_line lib accounts line = Inr l) lines new \<and>
     (d + side_total ''debit'' new < 10 ^ 28 \<longrightarrow> d' = d + side_total ''debit'' new) \<and>
     (c + side_total ''credit'' new < 10 ^ 28 \<longrightarrow> c' = c + side_total ''credit'' new)"
  using assms
proof (induction lines arbitrary: d c "done")
  case Nil
  then show ?case by auto
next
  case (Cons line lines)
  from Cons.prems obtain l where l: "prepare_line lib accounts line = Inr l"
    and rest: "prepare_lines lib accounts lines
         (if jl_side l = ''debit'' then (add_amounts d (jl_amount l), c, done @ [l])
          else (d, add_amounts c (jl_amount l), done @ [l])) = Inr (d', c', ls)"
    by (auto simp: outcome_simps)
  show ?case
  proof (cases "jl_side l = ''debit''")
    case True
    with rest have "prepare_lines lib accounts lines (add_amounts d (jl_amount l), c, done @ [l]) = Inr (d', c', ls)"
      by simp
    from Cons.IH[OF this] obtain new where new: "ls = (done @ [l]) @ new"
      "list_all2 (\<lambda>line l. prepare_line lib accounts line = Inr l) lines new"
      "add_amounts d (jl_amount l) + side_total ''debit'' new < 10 ^ 28 \<longrightarrow>
         d' = add_amounts d (jl_amount l) + side_total ''debit'' new"
      "c + side_total ''credit'' new < 10 ^ 28 \<longrightarrow> c' = c + side_total ''credit'' new"
      by blast
    show ?thesis
      using new l True add_amounts_exact[of d "jl_amount l"] by (intro exI[of _ "l # new"]) simp
  next
    case False
    with prepare_line_Inr(1)[OF l] have s: "jl_side l = ''credit''" by simp
    with rest have "prepare_lines lib accounts lines (d, add_amounts c (jl_amount l), done @ [l]) = Inr (d', c', ls)"
      by simp
    from Cons.IH[OF this] obtain new where new: "ls = (done @ [l]) @ new"
      "list_all2 (\<lambda>line l. prepare_line lib accounts line = Inr l) lines new"
      "d + side_total ''debit'' new < 10 ^ 28 \<longrightarrow> d' = d + side_total ''debit'' new"
      "add_amounts c (jl_amount l) + side_total ''credit'' new < 10 ^ 28 \<longrightarrow>
         c' = add_amounts c (jl_amount l) + side_total ''credit'' new"
      by blast
    show ?thesis
      using new l s add_amounts_exact[of c "jl_amount l"] by (intro exI[of _ "l # new"]) simp
  qed
qed
lemma prepare_general_journal_Inr:
  assumes "prepare_general_journal lib inp = Inr j"
  obtains debit credit ls date where
    "prepare_lines lib (ji_accounts inp) (ji_lines inp) (0, 0, []) = Inr (debit, credit, ls)"
    and "debit \<noteq> 0" and "debit = credit" and "2 \<le> length (ji_lines inp)"
    and "pj_total_debit j = format_amount debit" and "pj_total_credit j = format_amount credit"
    and "pj_preview_lines j = map jl_preview ls"
    and "pj_flowaccount_payload j =
           journal_payload inp date (py_strip (ji_reference inp)) (py_strip (ji_description inp)) ls"
    and "iso_date lib (ji_document_date inp) = Some date"
    and "py_strip (ji_description inp) \<noteq> []"
    and "ji_environment inp = ''production'' \<longrightarrow> py_strip (ji_reference inp) \<noteq> []"
  using assms
  by (auto simp: prepare_general_journal_def Let_def outcome_simps split: option.splits if_splits)

lemma preview_line_sides:
  "list_all2 (\<lambda>line l. prepare_line lib accounts line = Inr l) lines ls \<Longrightarrow>
     side_sum lib side (map jl_preview ls) = side_total side ls"
proof (induction rule: list_all2_induct)
  case Nil
  show ?case by (simp add: side_sum_def)
next
  case (Cons line lines l ls)
  from Cons(3) prepare_line_Inr(2,3)[OF Cons(1)] show ?case
    by (simp add: side_sum_def)
qed

lemma voucher_line_sides:
  "list_all2 (\<lambda>line l. prepare_line lib accounts line = Inr l) lines ls \<Longrightarrow>
     map voucher_side (map (JObj \<circ> jl_body) ls) = map preview_side (map jl_preview ls)"
proof (induction rule: list_all2_induct)
  case (Cons line lines l ls)
  from Cons(3) prepare_line_Inr(2,4)[OF Cons(1)] show ?case by simp
qed simp

lemma recorded_lines:
  "list_all2 (\<lambda>line l. prepare_line lib accounts line = Inr l) lines ls \<Longrightarrow>
     list_all2 (line_recorded lib accounts) lines (map jl_preview ls)"
  unfolding list_all2_map2 by (erule list_all2_mono) (rule prepare_line_Inr(5))

text \<open>A library for the examples: ASCII texts, dates taken as they are.\<close>

definition sample_journal_lib :: journal_lib where
  "sample_journal_lib =
     \<lparr>sha256_hexdigest = (\<lambda>_. replicate 64 (CHR ''0'')), casefold = map ascii_lower,
      py_repr = (\<lambda>_. ''...''), unicode_digit = (\<lambda>_. None), lower_text = map ascii_lower,
      int_of_text = (\<lambda>s. if s \<noteq> [] \<and> list_all digit_char s then Some (int (digits_value s)) else None),
      int_of_float = (\<lambda>_. None),
      iso_date = (\<lambda>s. if length s = 10 then Some s else None), amount_float = format_amount\<rparr>"

definition sample_account :: "string \<Rightarrow> int \<Rightarrow> json_dict" where
  "sample_account code n = [(''code'', JStr code), (''nameLocal'', JStr ''Cash''), (''id'', JInt n)]"

definition sample_line :: "string \<Rightarrow> string \<Rightarrow> string \<Rightarrow> json_dict" where
  "sample_line side amount code =
     [(''side'', JStr side), (''amount'', JStr amount), (''account_code'', JStr code)]"

definition sample_accounts :: "json_dict list" where
  "sample_accounts = [sample_account ''1000'' 7, sample_account ''2000'' 8]"

definition sample_journal :: "json_dict list \<Rightarrow> journal_input" where
  "sample_journal ls =
     \<lparr>ji_document_date = ''2026-01-31'', ji_reference = ''JV 1'', ji_description = ''Closing'',
      ji_lines = ls, ji_accounts = sample_accounts,
      ji_environment = ''production'', ji_note = None, ji_remarks = None\<rparr>"

definition sample_lines :: "json_dict list" where
  "sample_lines = [sample_line ''Debit'' ''10.005'' ''1000'', sample_line ''credit'' ''10.01'' ''2000'']"

definition prepared_or_empty :: "journal_error + prepared_journal \<Rightarrow> prepared_journal" where
  "prepared_or_empty r = (case r of
       Inr j \<Rightarrow> j
     | Inl e \<Rightarrow> \<lparr>pj_document_date = [], pj_reference = [], pj_description = [], pj_total_debit = [],
         pj_total_credit = [], pj_preview_lines = [], pj_flowaccount_payload = []\<rparr>)"

lemma sample_prepared:
  "is_ok (prepare_general_journal sample_journal_lib (sample_journal sample_lines))"
  by code_simp

lemma prepared_or_empty_ok: "is_ok r \<Longrightarrow> r = Inr (prepared_or_empty r)"
  by (cases r) (simp_all add: prepared_or_empty_def)

section \<open>Properties\<close>

text \<open>
  C17: An accepted journal the sums of whose two sides both fit the 28 digits of the decimal context
  balances. Reading the amounts back from its preview lines, the debits sum to the credits, to more
  than zero, and to the totals the preview shows; the voucher has a line with the same side for every
  preview line, and there are at least two. Without the bound this is false (see the next property).
\<close>

theorem prepared_journal_balances:
  assumes "prepare_general_journal lib inp = Inr j"
    and "side_sum lib ''debit'' (pj_preview_lines j) < 10 ^ 28"
    and "side_sum lib ''credit'' (pj_preview_lines j) < 10 ^ 28"
  shows "side_sum lib ''debit'' (pj_preview_lines j) = side_sum lib ''credit'' (pj_preview_lines j) \<and>
    0 < side_sum lib ''debit'' (pj_preview_lines j) \<and>
    pj_total_debit j = format_amount (side_sum lib ''debit'' (pj_preview_lines j)) \<and>
    pj_total_credit j = format_amount (side_sum lib ''credit'' (pj_preview_lines j)) \<and>
    map voucher_side (voucher_lines j) = map preview_side (pj_preview_lines j) \<and>
    2 \<le> length (pj_preview_lines j)"
proof -
  obtain debit credit ls date where
    run: "prepare_lines lib (ji_accounts inp) (ji_lines inp) (0, 0, []) = Inr (debit, credit, ls)"
    and ne: "debit \<noteq> 0" and eq: "debit = credit" and len: "2 \<le> length (ji_lines inp)"
    and td: "pj_total_debit j = format_amount debit" and tc: "pj_total_credit j = format_amount credit"
    and pv: "pj_preview_lines j = map jl_preview ls"
    and pay: "pj_flowaccount_payload j =
        journal_payload inp date (py_strip (ji_reference inp)) (py_strip (ji_description inp)) ls"
    by (rule prepare_general_journal_Inr[OF assms(1)])
  from prepare_lines_Inr[OF run]
  have all: "list_all2 (\<lambda>line l. prepare_line lib (ji_accounts inp) line = Inr l) (ji_lines inp) ls"
    and d: "side_total ''debit'' ls < 10 ^ 28 \<Longrightarrow> debit = side_total ''debit'' ls"
    and c: "side_total ''credit'' ls < 10 ^ 28 \<Longrightarrow> credit = side_total ''credit'' ls"
    by auto
  note sides = preview_line_sides[OF all]
  have "voucher_lines j = map (JObj \<circ> jl_body) ls"
    by (simp add: voucher_lines_def pay journal_payload_def jget_def)
  with voucher_line_sides[OF all] have "map voucher_side (voucher_lines j) = map preview_side (pj_preview_lines j)"
    by (simp add: pv)
  moreover have "debit = side_sum lib ''debit'' (pj_preview_lines j)"
    and "credit = side_sum lib ''credit'' (pj_preview_lines j)"
    using assms(2,3) d c by (simp_all add: pv sides)
  ultimately show ?thesis
    using ne eq td tc len list_all2_lengthD[OF all] by (simp add: pv)
qed

theorem prepared_journal_balances_witness:
  "side_sum sample_journal_lib ''debit''
     (pj_preview_lines (prepared_or_empty (prepare_general_journal sample_journal_lib (sample_journal sample_lines)))) = 1001 \<and>
   side_sum sample_journal_lib ''credit''
     (pj_preview_lines (prepared_or_empty (prepare_general_journal sample_journal_lib (sample_journal sample_lines)))) = 1001"
proof -
  define j where "j = prepared_or_empty (prepare_general_journal sample_journal_lib (sample_journal sample_lines))"
  have ok: "prepare_general_journal sample_journal_lib (sample_journal sample_lines) = Inr j"
    unfolding j_def by (rule prepared_or_empty_ok[OF sample_prepared])
  have d: "side_sum sample_journal_lib ''debit'' (pj_preview_lines j) = 1001"
    unfolding j_def by code_simp
  have c: "side_sum sample_journal_lib ''credit'' (pj_preview_lines j) < 10 ^ 28"
    unfolding j_def by code_simp
  from prepared_journal_balances[OF ok _ c] d show ?thesis unfolding j_def by simp
qed

definition large_lines :: "json_dict list" where
  "large_lines =
     [sample_line ''debit'' ''99999999999999999999999999.99'' ''1000'',
      sample_line ''debit'' ''0.02'' ''1000'',
      sample_line ''credit'' ''99999999999999999999999999.99'' ''2000'',
      sample_line ''credit'' ''0.01'' ''2000'']"

text \<open>A line of the sample chart whose amount is read as \<open>c\<close> is accepted.\<close>

lemma sample_texts:
  "iso_date sample_journal_lib ''2026-01-31'' = Some ''2026-01-31''"
  "py_strip ''JV 1'' = ''JV 1''" "py_strip ''Closing'' = ''Closing''"
  by code_simp+

lemma sample_codes:
  "normalize_text sample_journal_lib (JStr ''1000'') = ''1000''"
  "normalize_text sample_journal_lib (JStr ''2000'') = ''2000''"
  by code_simp+

lemma sample_sides:
  "map_of side_codes (lower_text sample_journal_lib (stripped sample_journal_lib (JStr ''debit''))) = Some 1 \<and>
   lower_text sample_journal_lib (stripped sample_journal_lib (JStr ''debit'')) = ''debit''"
  "map_of side_codes (lower_text sample_journal_lib (stripped sample_journal_lib (JStr ''credit''))) = Some 3 \<and>
   lower_text sample_journal_lib (stripped sample_journal_lib (JStr ''credit'')) = ''credit''"
  by code_simp+

lemma sample_prepare_line:
  assumes "money sample_journal_lib (JStr amount) = Inr c"
    and "map_of side_codes (lower_text sample_journal_lib (stripped sample_journal_lib (JStr side))) = Some code \<and>
      lower_text sample_journal_lib (stripped sample_journal_lib (JStr side)) = s"
    and "account = ''1000'' \<or> account = ''2000''"
  shows "\<exists>l. prepare_line sample_journal_lib sample_accounts (sample_line side amount account) = Inr l \<and>
    jl_side l = s \<and> jl_amount l = c"
  using assms
  by (auto simp: prepare_line_def sample_line_def jget_def Let_def resolve_account_def account_matches_def
      sample_accounts_def sample_account_def sample_codes account_id_def)

lemma large_amounts:
  "money sample_journal_lib (JStr ''99999999999999999999999999.99'') = Inr 9999999999999999999999999999"
  "money sample_journal_lib (JStr ''0.02'') = Inr 2"
  "money sample_journal_lib (JStr ''0.01'') = Inr 1"
  by code_simp+

lemma large_lengths:
  "length (show_nat 9999999999999999999999999999) = 28"
  "length (show_nat 10000000000000000000000000000) = 29"
  "length (show_nat 10000000000000000000000000001) = 29"
  using show_nat_length[of 27 9999999999999999999999999999] show_nat_length[of 28 9999999999999999999999999999]
    show_nat_length[of 28 10000000000000000000000000000] show_nat_length[of 29 10000000000000000000000000000]
    show_nat_length[of 28 10000000000000000000000000001] show_nat_length[of 29 10000000000000000000000000001]
  by simp_all

lemma large_sums:
  "add_amounts 0 9999999999999999999999999999 = 9999999999999999999999999999"
  "add_amounts 0 2 = 2"
  "add_amounts 0 (Suc 0) = Suc 0"
  "add_amounts 9999999999999999999999999999 2 = 10000000000000000000000000000"
  "add_amounts 9999999999999999999999999999 (Suc 0) = 10000000000000000000000000000"
  by (simp_all add: add_amounts_def context_round_def large_lengths round_half_even_def show_nat_small)

lemma large_journal_accepted:
  "is_ok (prepare_general_journal sample_journal_lib (sample_journal large_lines)) \<and>
   side_sum sample_journal_lib ''debit''
     (pj_preview_lines (prepared_or_empty (prepare_general_journal sample_journal_lib (sample_journal large_lines)))) =
   side_sum sample_journal_lib ''credit''
     (pj_preview_lines (prepared_or_empty (prepare_general_journal sample_journal_lib (sample_journal large_lines)))) + 1"
proof -
  let ?lib = sample_journal_lib
  obtain l1 where l1: "prepare_line ?lib sample_accounts (large_lines ! 0) = Inr l1"
    "jl_side l1 = ''debit''" "jl_amount l1 = 9999999999999999999999999999"
    using sample_prepare_line[OF large_amounts(1) sample_sides(1) disjI1[OF refl]]
    by (auto simp: large_lines_def side_codes_def)
  obtain l2 where l2: "prepare_line ?lib sample_accounts (large_lines ! Suc 0) = Inr l2"
    "jl_side l2 = ''debit''" "jl_amount l2 = 2"
    using sample_prepare_line[OF large_amounts(2) sample_sides(1) disjI1[OF refl]]
    by (auto simp: large_lines_def side_codes_def)
  obtain l3 where l3: "prepare_line ?lib sample_accounts (large_lines ! 2) = Inr l3"
    "jl_side l3 = ''credit''" "jl_amount l3 = 9999999999999999999999999999"
    using sample_prepare_line[OF large_amounts(1) sample_sides(2) disjI2[OF refl]]
    by (auto simp: large_lines_def side_codes_def)
  obtain l4 where l4: "prepare_line ?lib sample_accounts (large_lines ! 3) = Inr l4"
    "jl_side l4 = ''credit''" "jl_amount l4 = 1"
    using sample_prepare_line[OF large_amounts(3) sample_sides(2) disjI2[OF refl]]
    by (auto simp: large_lines_def side_codes_def)
  note ls = l1 l2 l3 l4
  have lines: "large_lines = [large_lines ! 0, large_lines ! Suc 0, large_lines ! 2, large_lines ! 3]"
    by (simp add: large_lines_def)
  have all: "list_all2 (\<lambda>line l. prepare_line ?lib sample_accounts line = Inr l) large_lines [l1, l2, l3, l4]"
    by (subst lines) (simp add: ls)
  have run: "prepare_lines ?lib sample_accounts large_lines (0, 0, []) =
      Inr (10000000000000000000000000000, 10000000000000000000000000000, [l1, l2, l3, l4])"
    by (subst lines) (simp add: ls large_sums)
  obtain j where j: "prepare_general_journal ?lib (sample_journal large_lines) = Inr j"
    "pj_preview_lines j = map jl_preview [l1, l2, l3, l4]"
    using run by (auto simp: prepare_general_journal_def Let_def sample_journal_def sample_texts
        sample_accounts_def[symmetric] large_lines_def[THEN arg_cong[of _ _ length]])
  have "side_sum ?lib side (pj_preview_lines j) = side_total side [l1, l2, l3, l4]" for side
    unfolding j(2) by (rule preview_line_sides[OF all])
  then show ?thesis by (simp add: j(1) prepared_or_empty_def ls)
qed

text \<open>The running sum of one side, rounded to the digits of the context at every addition.\<close>

definition rounded_total :: "string \<Rightarrow> journal_line list \<Rightarrow> nat" where
  "rounded_total side ls = foldl add_amounts 0 (map jl_amount (filter (\<lambda>l. jl_side l = side) ls))"

abbreviation all_prepared :: "journal_lib \<Rightarrow> json_dict list \<Rightarrow> json_dict list \<Rightarrow> journal_line list \<Rightarrow> bool" where
  "all_prepared lib accounts lines ls \<equiv> list_all2 (\<lambda>line l. prepare_line lib accounts line = Inr l) lines ls"

lemma prepare_lines_sums:
  "prepare_lines lib accounts lines (d, c, done) = Inr out \<longleftrightarrow>
     (\<exists>ls. all_prepared lib accounts lines ls \<and>
        out = (foldl add_amounts d (map jl_amount (filter (\<lambda>l. jl_side l = ''debit'') ls)),
               foldl add_amounts c (map jl_amount (filter (\<lambda>l. jl_side l = ''credit'') ls)), done @ ls))"
proof (induction lines arbitrary: d c "done")
  case (Cons line lines)
  show ?case
  proof (cases "prepare_line lib accounts line")
    case (Inr l)
    with prepare_line_Inr(1)[OF Inr] show ?thesis
      by (auto simp: Cons.IH list_all2_Cons1)
  qed (simp add: list_all2_Cons1)
qed auto

lemma prepare_general_journal_totals:
  assumes "prepare_general_journal lib inp = Inr j"
  shows "\<exists>ls. all_prepared lib (ji_accounts inp) (ji_lines inp) ls \<and>
    rounded_total ''debit'' ls = rounded_total ''credit'' ls \<and> rounded_total ''debit'' ls \<noteq> 0"
proof (rule prepare_general_journal_Inr[OF assms])
  fix debit credit ls
  assume "prepare_lines lib (ji_accounts inp) (ji_lines inp) (0, 0, []) = Inr (debit, credit, ls)"
    and "debit \<noteq> 0" and "debit = credit"
  then show ?thesis by (auto simp: prepare_lines_sums rounded_total_def)
qed

lemma prepare_general_journal_accepts:
  assumes "iso_date lib (ji_document_date inp) = Some date"
    and "\<not> (ji_environment inp = ''production'' \<and> py_strip (ji_reference inp) = [])"
    and "py_strip (ji_description inp) \<noteq> []" and "2 \<le> length (ji_lines inp)"
    and "all_prepared lib (ji_accounts inp) (ji_lines inp) ls"
    and "rounded_total ''debit'' ls = rounded_total ''credit'' ls" and "rounded_total ''debit'' ls \<noteq> 0"
  shows "is_ok (prepare_general_journal lib inp)"
proof -
  have "prepare_lines lib (ji_accounts inp) (ji_lines inp) (0, 0, []) =
      Inr (rounded_total ''debit'' ls, rounded_total ''credit'' ls, ls)"
    using assms(5) by (auto simp: prepare_lines_sums rounded_total_def)
  with assms show ?thesis by (auto simp: prepare_general_journal_def Let_def)
qed

text \<open>
  C18: Exactly when a journal is accepted. Besides the date, the reference in production, the
  description and two lines that can all be prepared, the rounded totals of its two sides must be
  equal and not zero. The rounded totals are not the sums: there is an accepted journal whose debits
  exceed its credits by one hundredth (99999999999999999999999999.99 and 0.02 against
  99999999999999999999999999.99 and 0.01).
\<close>

theorem balance_checked_on_rounded_sums:
  "(is_ok (prepare_general_journal lib inp) \<longleftrightarrow>
      iso_date lib (ji_document_date inp) \<noteq> None \<and>
      \<not> (ji_environment inp = ''production'' \<and> py_strip (ji_reference inp) = []) \<and>
      py_strip (ji_description inp) \<noteq> [] \<and> 2 \<le> length (ji_lines inp) \<and>
      (\<exists>ls. all_prepared lib (ji_accounts inp) (ji_lines inp) ls \<and>
         rounded_total ''debit'' ls = rounded_total ''credit'' ls \<and> rounded_total ''debit'' ls \<noteq> 0)) \<and>
   (\<exists>lib inp j. prepare_general_journal lib inp = Inr j \<and>
      side_sum lib ''debit'' (pj_preview_lines j) = side_sum lib ''credit'' (pj_preview_lines j) + 1)"
proof (rule conjI)
  show "\<exists>lib inp j. prepare_general_journal lib inp = Inr j \<and>
      side_sum lib ''debit'' (pj_preview_lines j) = side_sum lib ''credit'' (pj_preview_lines j) + 1"
    using large_journal_accepted prepared_or_empty_ok by blast
  show "is_ok (prepare_general_journal lib inp) \<longleftrightarrow>
      iso_date lib (ji_document_date inp) \<noteq> None \<and>
      \<not> (ji_environment inp = ''production'' \<and> py_strip (ji_reference inp) = []) \<and>
      py_strip (ji_description inp) \<noteq> [] \<and> 2 \<le> length (ji_lines inp) \<and>
      (\<exists>ls. all_prepared lib (ji_accounts inp) (ji_lines inp) ls \<and>
         rounded_total ''debit'' ls = rounded_total ''credit'' ls \<and> rounded_total ''debit'' ls \<noteq> 0)"
    (is "?ok \<longleftrightarrow> ?fits")
  proof (rule iffI)
    assume ?ok
    then obtain j where j: "prepare_general_journal lib inp = Inr j"
      by (cases "prepare_general_journal lib inp") simp_all
    from prepare_general_journal_totals[OF j] show ?fits
      by (auto intro: prepare_general_journal_Inr[OF j])
  next
    assume ?fits
    then show ?ok by (auto intro: prepare_general_journal_accepts)
  qed
qed

text \<open>
  Every line of an accepted journal is recorded in order: its amount is a finite, positive
  decimal, the preview has it rounded to the nearest hundredth, and the account is the only one of
  the chart that matches the requested code, or name.
\<close>

lemma journal_lines_recorded:
  assumes "prepare_general_journal lib inp = Inr j"
  shows "list_all2 (line_recorded lib (ji_accounts inp)) (ji_lines inp) (pj_preview_lines j)"
proof -
  obtain debit credit ls date where
    run: "prepare_lines lib (ji_accounts inp) (ji_lines inp) (0, 0, []) = Inr (debit, credit, ls)"
    and pv: "pj_preview_lines j = map jl_preview ls"
    by (rule prepare_general_journal_Inr[OF assms(1)])
  from prepare_lines_Inr[OF run]
  have "list_all2 (\<lambda>line l. prepare_line lib (ji_accounts inp) line = Inr l) (ji_lines inp) ls" by auto
  then show ?thesis unfolding pv by (rule recorded_lines)
qed

end
