(* ===== verification/Effects.thy ===== *)
theory Effects
  imports Mercury_Prelude
begin

text \<open>
  Methods of objects with state that may raise: a function from the state to the outcome and the
  state afterwards. The state changes made before an exception stay, as in Python. \<open>wp\<close>
  states a claim about the outcome and the final state of a method; its rules follow the
  structure of the method.
\<close>

type_synonym ('s, 'a) eff = "'s \<Rightarrow> 'a result \<times> 's"

definition eret :: "'a \<Rightarrow> ('s, 'a) eff" where
  "eret x = (\<lambda>s. (Inr x, s))"

definition efail :: "mercury_error \<Rightarrow> ('s, 'a) eff" where
  "efail e = (\<lambda>s. (Inl e, s))"

definition eseq :: "('s, 'a) eff \<Rightarrow> ('a \<Rightarrow> ('s, 'b) eff) \<Rightarrow> ('s, 'b) eff" where
  "eseq m k = (\<lambda>s. case m s of (r, s') \<Rightarrow> (case r of Inl e \<Rightarrow> (Inl e, s') | Inr x \<Rightarrow> k x s'))"

definition eget :: "('s \<Rightarrow> 'a) \<Rightarrow> ('s, 'a) eff" where
  "eget f = (\<lambda>s. (Inr (f s), s))"

definition eput :: "('s \<Rightarrow> 's) \<Rightarrow> ('s, unit) eff" where
  "eput f = (\<lambda>s. (Inr (), f s))"

definition elift :: "'a result \<Rightarrow> ('s, 'a) eff" where
  "elift r = (\<lambda>s. (r, s))"

definition eguard :: "bool \<Rightarrow> mercury_error \<Rightarrow> ('s, unit) eff" where
  "eguard c e = (if c then efail e else eret ())"

text \<open>\<open>try: m except p as e: h(e)\<close>, and the same where the handler only notes the exception.\<close>

definition ecatch ::
    "('s, 'a) eff \<Rightarrow> (mercury_error \<Rightarrow> bool) \<Rightarrow> (mercury_error \<Rightarrow> ('s, 'a) eff) \<Rightarrow> ('s, 'a) eff" where
  "ecatch m p h = (\<lambda>s. case m s of (r, s') \<Rightarrow>
     (case r of Inl e \<Rightarrow> if p e then h e s' else (Inl e, s') | Inr x \<Rightarrow> (Inr x, s')))"

definition eattempt ::
    "('s, 'a) eff \<Rightarrow> (mercury_error \<Rightarrow> bool) \<Rightarrow> ('s, mercury_error + 'a) eff" where
  "eattempt m p = ecatch (eseq m (\<lambda>x. eret (Inr x))) p (\<lambda>e. eret (Inl e))"

definition final :: "('s, 'a) eff \<Rightarrow> 's \<Rightarrow> 's" where
  "final m s = snd (m s)"

definition outcome :: "('s, 'a) eff \<Rightarrow> 's \<Rightarrow> 'a result" where
  "outcome m s = fst (m s)"

text \<open>Evaluation runs the first method before it looks at the second.\<close>

declare eret_def [code_unfold] efail_def [code_unfold] eget_def [code_unfold] eput_def [code_unfold]
  elift_def [code_unfold]

lemmas eff_defs = eret_def efail_def eseq_def eget_def eput_def elift_def eguard_def

named_theorems eff_simps \<open>rewrite rules that run a method\<close>

lemma run_eret [simp, eff_simps]: "eret x s = (Inr x, s)"
  by (simp add: eff_defs)

lemma run_efail [simp, eff_simps]: "efail e s = (Inl e, s)"
  by (simp add: eff_defs)

lemma run_eget [simp, eff_simps]: "eget f s = (Inr (f s), s)"
  by (simp add: eff_defs)

lemma run_eput [simp, eff_simps]: "eput g s = (Inr (), g s)"
  by (simp add: eff_defs)

lemma run_elift [simp, eff_simps]: "elift r s = (r, s)"
  by (simp add: eff_defs)

lemma run_eguard [simp, eff_simps]: "eguard c e s = (if c then (Inl e, s) else (Inr (), s))"
  by (simp add: eff_defs)

lemma eseq_Inl [simp]: "m s = (Inl e, s') \<Longrightarrow> eseq m k s = (Inl e, s')"
  by (simp add: eseq_def)

lemma eseq_Inr [simp]: "m s = (Inr x, s') \<Longrightarrow> eseq m k s = k x s'"
  by (simp add: eseq_def)

lemma eseq_run [eff_simps]:
  "eseq m k s = (case m s of (Inl e, s') \<Rightarrow> (Inl e, s') | (Inr x, s') \<Rightarrow> k x s')"
  by (simp add: eseq_def split: prod.splits sum.splits)

lemma eseq_eq_Inr:
  "eseq m k s = (Inr y, s') \<longleftrightarrow> (\<exists>x s1. m s = (Inr x, s1) \<and> k x s1 = (Inr y, s'))"
  by (auto simp: eseq_def split: prod.splits sum.splits)

section \<open>Claims about methods\<close>

text \<open>\<open>Q\<close> holds of the outcome and the state after a method.\<close>

definition wp :: "('s, 'a) eff \<Rightarrow> ('a result \<Rightarrow> 's \<Rightarrow> bool) \<Rightarrow> 's \<Rightarrow> bool" where
  "wp m Q s \<longleftrightarrow> Q (outcome m s) (final m s)"

named_theorems wp_rules \<open>introduction rules for \<open>wp\<close>\<close>

lemma wp_eret [simp]: "wp (eret x) Q s = Q (Inr x) s"
  by (simp add: wp_def outcome_def final_def)

lemma wp_Pair [simp]: "wp (Pair r) Q s = Q r s"
  by (simp add: wp_def outcome_def final_def)

lemma wp_efail [simp]: "wp (efail e) Q s = Q (Inl e) s"
  by (simp add: wp_def outcome_def final_def)

lemma wp_eget [simp]: "wp (eget f) Q s = Q (Inr (f s)) s"
  by (simp add: wp_def outcome_def final_def)

lemma wp_eput [simp]: "wp (eput g) Q s = Q (Inr ()) (g s)"
  by (simp add: wp_def outcome_def final_def)

lemma wp_elift [simp]: "wp (elift r) Q s = Q r s"
  by (simp add: wp_def outcome_def final_def)

lemma wp_eguard [simp]: "wp (eguard c e) Q s = (if c then Q (Inl e) s else Q (Inr ()) s)"
  by (simp add: wp_def outcome_def final_def)

lemma wp_eseq [simp]:
  "wp (eseq m k) Q s = wp m (\<lambda>r s'. case r of Inl e \<Rightarrow> Q (Inl e) s' | Inr x \<Rightarrow> wp (k x) Q s') s"
  by (auto simp: wp_def outcome_def final_def eseq_def split: prod.splits sum.splits)

lemma wp_ecatch [simp]:
  "wp (ecatch m p h) Q s =
     wp m (\<lambda>r s'. case r of Inl e \<Rightarrow> if p e then wp (h e) Q s' else Q (Inl e) s'
                            | Inr x \<Rightarrow> Q (Inr x) s') s"
  by (auto simp: wp_def outcome_def final_def ecatch_def split: prod.splits sum.splits)

lemma wp_if [simp]: "wp (if c then m else n) Q s = (if c then wp m Q s else wp n Q s)"
  by simp

lemma wp_mono: "wp m Q s \<Longrightarrow> (\<And>r s'. Q r s' \<Longrightarrow> Q' r s') \<Longrightarrow> wp m Q' s"
  by (simp add: wp_def)

lemma wp_D: "wp m Q s \<Longrightarrow> m s = (r, s') \<Longrightarrow> Q r s'"
  by (simp add: wp_def outcome_def final_def)

lemma wp_final: "wp m (\<lambda>r. P) s \<longleftrightarrow> P (final m s)"
  by (simp add: wp_def)

end
