(* ===== verification/Run_Store.thy ===== *)
theory Run_Store
  imports Effects One_Shot
begin

text \<open>
  Model of \<open>QualificationRunStore\<close> (\<open>qualification/run_store.py\<close>): the state of one sandbox run,
  its fixtures and their cleanup, and whether its result may be published.

  The store object is a \<open>run_store\<close>: the record in memory, the content of \<open>state.json\<close>, the flag
  of a failed directory binding and the publication grant, which only lives in the process. What
  the operating system answers is the parameter \<open>run_env\<close>, indexed by a counter of the questions
  asked (\<open>rs_tick\<close>): whether the run directory is still the one that was opened, the clock, and
  the outcome of an attempt to write the state, which can fail before or after the file was
  renamed. The credential scanner of the models is three predicates of
  \<open>run_env\<close>.
\<close>

section \<open>Data\<close>

datatype cleanup_status = CleanupPending | Cleaned | CleanupFailed | CleanupUnknown

fun cleanup_value :: "cleanup_status \<Rightarrow> string" where
  "cleanup_value CleanupPending = ''pending''"
| "cleanup_value Cleaned = ''cleaned''"
| "cleanup_value CleanupFailed = ''failed''"
| "cleanup_value CleanupUnknown = ''outcome_unknown''"

definition cleanup_members :: "(string \<times> cleanup_status) list" where
  "cleanup_members = map (\<lambda>c. (cleanup_value c, c)) [CleanupPending, Cleaned, CleanupFailed, CleanupUnknown]"

datatype run_state = RunCompleted | RunQuarantined | RunFailed

record fixture_reference =
  fr_handle :: string
  fr_action_id :: string
  fr_version_id :: string
  fr_cleanup_action_id :: string
  fr_cleanup_version_id :: string
  fr_depends_on :: "string list"

record stored_fixture = fixture_reference +
  sf_registered_at :: datetime
  sf_cleanup_status :: cleanup_status
  sf_cleanup_updated_at :: "datetime option"

record run_record =
  rr_run_id :: string
  rr_state :: run_state
  rr_publication_allowed :: bool
  rr_quarantine_reason :: "string option"
  rr_created_at :: datetime
  rr_updated_at :: datetime
  rr_fixtures :: "stored_fixture list"

datatype disk_state = NoState | Unreadable string | StateFile run_record

datatype write_outcome = Written | NotWritten string | WrittenThenFailed string

record run_env =
  bound :: "nat \<Rightarrow> bool"
  clock :: "nat \<Rightarrow> datetime"
  persist :: "nat \<Rightarrow> write_outcome"
  safe_run :: "run_record \<Rightarrow> bool"
  safe_fixture :: "stored_fixture \<Rightarrow> bool"
  safe_reference :: "fixture_reference \<Rightarrow> bool"

record run_store =
  rs_run_id :: string
  rs_record :: run_record
  rs_disk :: disk_state
  rs_binding_failed :: bool
  rs_granted :: bool
  rs_tick :: nat

section \<open>Validators\<close>

text \<open>The Crockford alphabet of the opaque identifiers.\<close>

definition opaque_char :: "char \<Rightarrow> bool" where
  "opaque_char c \<longleftrightarrow> c \<in> set ''0123456789ABCDEFGHJKMNPQRSTVWXYZ''"

definition opaque_id :: "string \<Rightarrow> string \<Rightarrow> bool" where
  "opaque_id pre s \<longleftrightarrow>
     take (length pre) s = pre \<and> length s = length pre + 26 \<and>
     list_all opaque_char (drop (length pre) s)"

definition hex_id :: "string \<Rightarrow> nat \<Rightarrow> string \<Rightarrow> bool" where
  "hex_id pre n s \<longleftrightarrow>
     take (length pre) s = pre \<and> length s = length pre + n \<and>
     list_all hex_char (drop (length pre) s)"

definition validate_run_id :: "string \<Rightarrow> string result" where
  "validate_run_id v =
     (if opaque_id ''run_'' v then Inr v else Inl (ValueError ''qualification_run_id_invalid''))"

definition validate_fixture_handle :: "string \<Rightarrow> string result" where
  "validate_fixture_handle v =
     (if opaque_id ''fx_'' v then Inr v else Inl (ValueError ''fixture_handle_invalid''))"

definition validate_action_ref :: "string \<times> string \<Rightarrow> (string \<times> string) result" where
  "validate_action_ref v =
     (if hex_id ''act_'' 24 (fst v) \<and> hex_id ''av_'' 64 (snd v) then Inr v
      else Inl (ValueError ''fixture_action_reference_invalid''))"

definition validate_dependencies :: "('a fixture_reference_scheme) \<Rightarrow> unit result" where
  "validate_dependencies f =
     (if \<not> distinct (fr_depends_on f) then Inl (ValueError ''fixture_dependency_duplicate'')
      else ebind (emap validate_fixture_handle (fr_depends_on f)) (\<lambda>_. Inr ()))"

definition validate_reference :: "('a fixture_reference_scheme) \<Rightarrow> unit result" where
  "validate_reference f =
     (if opaque_id ''fx_'' (fr_handle f) \<and> hex_id ''act_'' 24 (fr_action_id f) \<and>
         hex_id ''av_'' 64 (fr_version_id f) \<and> hex_id ''act_'' 24 (fr_cleanup_action_id f) \<and>
         hex_id ''av_'' 64 (fr_cleanup_version_id f)
      then validate_dependencies f else Inl (ValueError ''string_pattern_mismatch''))"

definition require_utc_timestamp :: "datetime \<Rightarrow> instant result" where
  "require_utc_timestamp t = aware_instant (ValueError ''qualification_state_invalid'') t"

definition validate_stored_fixture :: "run_env \<Rightarrow> stored_fixture \<Rightarrow> unit result" where
  "validate_stored_fixture env f =
     ebind (raise_if (\<not> safe_fixture env f) (ValueError ''credential_like_value'')) (\<lambda>_.
     ebind (validate_reference f) (\<lambda>_.
     ebind (require_utc_timestamp (sf_registered_at f)) (\<lambda>_.
       if sf_cleanup_status f = CleanupPending then
         raise_if (sf_cleanup_updated_at f \<noteq> None) (ValueError ''qualification_state_invalid'')
       else (case sf_cleanup_updated_at f of
           None \<Rightarrow> Inl (ValueError ''qualification_state_invalid'')
         | Some t \<Rightarrow> ebind (require_utc_timestamp t) (\<lambda>_. Inr ())))))"

definition quarantine_reasons :: "string list" where
  "quarantine_reasons = [''cleanup_failed'', ''outcome_unknown'', ''process_lost'']"

definition validate_run_state :: "run_record \<Rightarrow> unit result" where
  "validate_run_state r =
     (let invalid = ValueError ''qualification_state_invalid'';
          handles = map fr_handle (rr_fixtures r) in
      ebind (require_utc_timestamp (rr_created_at r)) (\<lambda>created.
      ebind (require_utc_timestamp (rr_updated_at r)) (\<lambda>updated.
      ebind (raise_if (updated < created) invalid) (\<lambda>_.
      ebind (raise_if (handles \<noteq> sort handles \<or> \<not> distinct handles) invalid) (\<lambda>_.
      ebind (raise_if (list_ex (\<lambda>f. list_ex (\<lambda>d. d \<notin> set handles) (fr_depends_on f)) (rr_fixtures r)) invalid) (\<lambda>_.
      ebind (raise_if (if rr_state r = RunQuarantined then rr_quarantine_reason r = None
                       else rr_quarantine_reason r \<noteq> None) invalid) (\<lambda>_.
        raise_if (rr_state r = RunCompleted \<and>
                  list_ex (\<lambda>f. sf_cleanup_status f \<noteq> Cleaned) (rr_fixtures r)) invalid)))))))"

text \<open>\<open>_RunRecord.model_validate\<close>: the fields, then the validator of the whole.\<close>

definition validate_record :: "run_env \<Rightarrow> run_record \<Rightarrow> unit result" where
  "validate_record env r =
     ebind (raise_if (\<not> safe_run env r) (ValueError ''credential_like_value'')) (\<lambda>_.
     ebind (raise_if (\<not> opaque_id ''run_'' (rr_run_id r)) (ValueError ''string_pattern_mismatch'')) (\<lambda>_.
     ebind (raise_if (case rr_quarantine_reason r of None \<Rightarrow> False | Some q \<Rightarrow> q \<notin> set quarantine_reasons)
             (ValueError ''literal_error'')) (\<lambda>_.
     ebind (emap (validate_stored_fixture env) (rr_fixtures r)) (\<lambda>_.
       validate_run_state r))))"

definition validate_persisted :: "run_env \<Rightarrow> run_record \<Rightarrow> run_record result" where
  "validate_persisted env r =
     ebind (validate_record env r) (\<lambda>_.
     ebind (raise_if (rr_publication_allowed r) (ValueError ''qualification_state_invalid'')) (\<lambda>_. Inr r))"

definition validate_legacy :: "run_env \<Rightarrow> run_record \<Rightarrow> run_record result" where
  "validate_legacy env r =
     ebind (raise_if (\<not> rr_publication_allowed r) (ValueError ''qualification_state_invalid'')) (\<lambda>_.
     ebind (validate_record env r) (\<lambda>_.
     ebind (raise_if (rr_state r \<noteq> RunCompleted \<or> \<not> rr_publication_allowed r \<or>
                      rr_quarantine_reason r \<noteq> None \<or>
                      list_ex (\<lambda>f. sf_cleanup_status f \<noteq> Cleaned) (rr_fixtures r))
             (ValueError ''qualification_state_invalid'')) (\<lambda>_. Inr r)))"

text \<open>\<open>_read_state\<close>: the record and whether it is a legacy one that must be written again.\<close>

definition read_state :: "run_env \<Rightarrow> disk_state \<Rightarrow> (run_record option \<times> bool) result" where
  "read_state env d =
     (case d of
        NoState \<Rightarrow> Inr (None, False)
      | Unreadable code \<Rightarrow> Inl (ValueError code)
      | StateFile r \<Rightarrow>
          (case validate_persisted env r of
             Inr p \<Rightarrow> Inr (Some p, False)
           | Inl _ \<Rightarrow>
               (case ebind (validate_legacy env r) (\<lambda>legacy.
                       validate_persisted env (legacy\<lparr>rr_publication_allowed := False\<rparr>)) of
                  Inr p \<Rightarrow> Inr (Some p, True)
                | Inl _ \<Rightarrow> Inl (ValueError ''qualification_state_invalid''))))"

section \<open>Questions to the operating system\<close>

abbreviation next_tick :: "run_store \<Rightarrow> run_store" where
  "next_tick s \<equiv> s\<lparr>rs_tick := rs_tick s + 1\<rparr>"

definition validate_runtime_binding :: "run_env \<Rightarrow> (run_store, unit) eff" where
  "validate_runtime_binding env s =
     (if rs_binding_failed s then (Inl (ValueError ''qualification_state_path_unsafe''), s)
      else if bound env (rs_tick s) then (Inr (), next_tick s)
      else (Inl (ValueError ''qualification_state_path_unsafe''), (next_tick s)\<lparr>rs_binding_failed := True\<rparr>))"

definition read_clock :: "run_env \<Rightarrow> (run_store, datetime) eff" where
  "read_clock env s =
     (case clock env (rs_tick s) of
        Aware t \<Rightarrow> (Inr (Aware t), next_tick s)
      | Naive t \<Rightarrow> (Inl (ValueError ''qualification_clock_invalid''), next_tick s))"

text \<open>\<open>_write_state\<close> between the checks of the directory that surround it.\<close>

definition write_state :: "run_env \<Rightarrow> run_record \<Rightarrow> (run_store, unit) eff" where
  "write_state env r s =
     (case persist env (rs_tick s) of
        Written \<Rightarrow> (Inr (), (next_tick s)\<lparr>rs_disk := StateFile r\<rparr>)
      | NotWritten code \<Rightarrow> (Inl (ValueError code), next_tick s)
      | WrittenThenFailed code \<Rightarrow> (Inl (ValueError code), (next_tick s)\<lparr>rs_disk := StateFile r\<rparr>))"

definition get_state :: "run_env \<Rightarrow> (run_store, run_state) eff" where
  "get_state env = eseq (validate_runtime_binding env) (\<lambda>_. eget (rr_state \<circ> rs_record))"

definition publication_allowed :: "run_env \<Rightarrow> (run_store, bool) eff" where
  "publication_allowed env =
     eseq (validate_runtime_binding env) (\<lambda>_.
       eget (\<lambda>s. rr_state (rs_record s) = RunCompleted \<and> rs_granted s))"

definition quarantine_reason :: "run_env \<Rightarrow> (run_store, string option) eff" where
  "quarantine_reason env =
     eseq (validate_runtime_binding env) (\<lambda>_. eget (rr_quarantine_reason \<circ> rs_record))"

section \<open>Operations\<close>

text \<open>\<open>candidate < current\<close> on the two timestamps, which are aware.\<close>

fun regressed :: "datetime \<Rightarrow> datetime \<Rightarrow> bool" where
  "regressed (Aware a) (Aware b) = (a < b)"
| "regressed _ _ = False"

text \<open>The check after the write: the record in memory is put back when it fails.\<close>

definition settle_record :: "run_env \<Rightarrow> run_record \<Rightarrow> (run_store, unit) eff" where
  "settle_record env previous s =
     (case validate_runtime_binding env s of
        (Inr _, s') \<Rightarrow> (Inr (), s')
      | (Inl e, s') \<Rightarrow> (Inl e, s'\<lparr>rs_record := previous\<rparr>))"

definition replace_record ::
    "run_env \<Rightarrow> datetime option \<Rightarrow> (run_record \<Rightarrow> run_record) \<Rightarrow> (run_store, unit) eff" where
  "replace_record env transition_at updates =
     eseq (eput (\<lambda>s. s\<lparr>rs_granted := False\<rparr>)) (\<lambda>_.
     eseq (validate_runtime_binding env) (\<lambda>_.
     eseq (case transition_at of None \<Rightarrow> read_clock env | Some t \<Rightarrow> eret t) (\<lambda>timestamp.
     eseq (eget rs_record) (\<lambda>previous.
     eseq (eguard (regressed timestamp (rr_updated_at previous)) (ValueError ''qualification_clock_regressed'')) (\<lambda>_.
     eseq (elift (validate_persisted env ((updates previous)\<lparr>rr_updated_at := timestamp\<rparr>))) (\<lambda>candidate.
     eseq (write_state env candidate) (\<lambda>_.
     eseq (eput (\<lambda>s. s\<lparr>rs_record := candidate\<rparr>)) (\<lambda>_.
       settle_record env previous))))))))"

definition new_fixture :: "datetime \<Rightarrow> fixture_reference \<Rightarrow> stored_fixture" where
  "new_fixture now f =
     \<lparr>fr_handle = fr_handle f, fr_action_id = fr_action_id f, fr_version_id = fr_version_id f,
      fr_cleanup_action_id = fr_cleanup_action_id f, fr_cleanup_version_id = fr_cleanup_version_id f,
      fr_depends_on = fr_depends_on f, sf_registered_at = now,
      sf_cleanup_status = CleanupPending, sf_cleanup_updated_at = None\<rparr>"

text \<open>\<open>_fixture_reference\<close>\<close>

definition reference_of :: "stored_fixture \<Rightarrow> fixture_reference" where
  "reference_of f =
     \<lparr>fr_handle = fr_handle f, fr_action_id = fr_action_id f, fr_version_id = fr_version_id f,
      fr_cleanup_action_id = fr_cleanup_action_id f, fr_cleanup_version_id = fr_cleanup_version_id f,
      fr_depends_on = fr_depends_on f\<rparr>"

text \<open>
  The loop of \<open>record_fixtures\<close> over the dictionary of known fixtures. Of its exceptions only the
  mismatch keeps its code.
\<close>

fun merge_fixtures ::
    "run_env \<Rightarrow> datetime \<Rightarrow> fixture_reference list \<Rightarrow> stored_fixture list \<times> bool \<Rightarrow> (stored_fixture list \<times> bool) result" where
  "merge_fixtures env now [] acc = Inr acc"
| "merge_fixtures env now (f # fs) (existing, changed) =
     ebind (raise_if (\<not> safe_reference env f) (ValueError ''credential_like_value'')) (\<lambda>_.
     ebind (validate_reference f) (\<lambda>_.
       case find (\<lambda>g. fr_handle g = fr_handle f) existing of
         Some current \<Rightarrow>
           (if reference_of current \<noteq> f then Inl (ValueError ''qualification_fixture_mismatch'')
            else merge_fixtures env now fs (existing, changed))
       | None \<Rightarrow>
           ebind (validate_stored_fixture env (new_fixture now f)) (\<lambda>_.
             merge_fixtures env now fs (existing @ [new_fixture now f], True))))"

fun fixture_error :: "mercury_error \<Rightarrow> mercury_error" where
  "fixture_error (ValueError code) =
     (if code = ''qualification_fixture_mismatch'' then ValueError code
      else ValueError ''qualification_fixture_invalid'')"
| "fixture_error e = ValueError ''qualification_fixture_invalid''"

definition record_fixtures :: "run_env \<Rightarrow> fixture_reference list \<Rightarrow> (run_store, unit) eff" where
  "record_fixtures env fixtures =
     eseq (get_state env) (\<lambda>st.
     eseq (eguard (st = RunCompleted) (ValueError ''qualification_run_finalized'')) (\<lambda>_.
     eseq (get_state env) (\<lambda>st.
     eseq (eguard (st = RunQuarantined) (ValueError ''qualification_run_quarantined'')) (\<lambda>_.
     eseq (read_clock env) (\<lambda>now.
     eseq (eget (rr_fixtures \<circ> rs_record)) (\<lambda>existing.
     eseq (elift (case merge_fixtures env now fixtures (existing, False) of
                    Inl e \<Rightarrow> Inl (fixture_error e) | Inr m \<Rightarrow> Inr m)) (\<lambda>(merged, changed).
       if changed
       then replace_record env (Some now) (\<lambda>r. r\<lparr>rr_fixtures := sort_key fr_handle merged\<rparr>)
       else eret ())))))))"

definition get_cleanup_status :: "run_env \<Rightarrow> string \<Rightarrow> (run_store, cleanup_status) eff" where
  "get_cleanup_status env handle =
     eseq (validate_runtime_binding env) (\<lambda>_.
     eseq (elift (validate_fixture_handle handle)) (\<lambda>checked.
     eseq (eget (\<lambda>s. find (\<lambda>f. fr_handle f = checked) (rr_fixtures (rs_record s)))) (\<lambda>found.
       (case found of
          None \<Rightarrow> efail (ValueError ''qualification_fixture_missing'')
        | Some f \<Rightarrow> eret (sf_cleanup_status f)))))"

definition set_cleanup :: "cleanup_status \<Rightarrow> datetime \<Rightarrow> stored_fixture \<Rightarrow> stored_fixture" where
  "set_cleanup status now f = f\<lparr>sf_cleanup_status := status, sf_cleanup_updated_at := Some now\<rparr>"

text \<open>The loop of \<open>mark_cleanup\<close>; the last two components are \<open>found\<close> and \<open>changed\<close>.\<close>

fun mark_fixtures ::
    "run_env \<Rightarrow> string \<Rightarrow> datetime \<Rightarrow> stored_fixture list \<Rightarrow> (stored_fixture list \<times> bool \<times> bool) result" where
  "mark_fixtures env handle now [] = Inr ([], False, False)"
| "mark_fixtures env handle now (f # fs) =
     (if fr_handle f \<noteq> handle \<or> sf_cleanup_status f = Cleaned then
        ebind (mark_fixtures env handle now fs) (\<lambda>(updated, found, changed).
          Inr (f # updated, fr_handle f = handle \<or> found, changed))
      else if sf_cleanup_status f \<noteq> CleanupPending then
        Inl (ValueError ''qualification_cleanup_status_conflict'')
      else
        ebind (validate_stored_fixture env (set_cleanup Cleaned now f)) (\<lambda>_.
        ebind (mark_fixtures env handle now fs) (\<lambda>(updated, found, changed).
          Inr (set_cleanup Cleaned now f # updated, True, True))))"

definition mark_cleanup :: "run_env \<Rightarrow> string \<Rightarrow> string \<Rightarrow> (run_store, unit) eff" where
  "mark_cleanup env handle status =
     eseq (elift (validate_fixture_handle handle)) (\<lambda>checked.
     eseq (eguard (map_of cleanup_members status \<noteq> Some Cleaned)
            (ValueError ''qualification_cleanup_status_invalid'')) (\<lambda>_.
     eseq (read_clock env) (\<lambda>now.
     eseq (eget (rr_fixtures \<circ> rs_record)) (\<lambda>fixtures.
     eseq (elift (mark_fixtures env checked now fixtures)) (\<lambda>(updated, found, changed).
     eseq (eguard (\<not> found) (ValueError ''qualification_fixture_missing'')) (\<lambda>_.
       if changed then replace_record env (Some now) (\<lambda>r. r\<lparr>rr_fixtures := updated\<rparr>)
       else eret ()))))))"

definition cleanup_reason :: "cleanup_status option \<Rightarrow> string option" where
  "cleanup_reason status =
     (case status of
        Some CleanupFailed \<Rightarrow> Some ''cleanup_failed''
      | Some CleanupUnknown \<Rightarrow> Some ''outcome_unknown''
      | _ \<Rightarrow> None)"

definition quarantined :: "string \<Rightarrow> run_record \<Rightarrow> run_record" where
  "quarantined reason r =
     r\<lparr>rr_state := RunQuarantined, rr_publication_allowed := False, rr_quarantine_reason := Some reason\<rparr>"

definition update_fixture ::
    "run_env \<Rightarrow> string \<Rightarrow> cleanup_status \<Rightarrow> datetime \<Rightarrow> stored_fixture \<Rightarrow> stored_fixture result" where
  "update_fixture env handle status now f =
     (if fr_handle f = handle
      then ebind (validate_stored_fixture env (set_cleanup status now f)) (\<lambda>_. Inr (set_cleanup status now f))
      else Inr f)"

definition quarantine_cleanup :: "run_env \<Rightarrow> string \<Rightarrow> string \<Rightarrow> (run_store, unit) eff" where
  "quarantine_cleanup env handle status =
     eseq (elift (validate_fixture_handle handle)) (\<lambda>checked.
     (case (map_of cleanup_members status, cleanup_reason (map_of cleanup_members status)) of
        (Some checked_status, Some reason) \<Rightarrow>
          eseq (eget (\<lambda>s. find (\<lambda>f. fr_handle f = checked) (rr_fixtures (rs_record s)))) (\<lambda>found.
          (case found of
             None \<Rightarrow> efail (ValueError ''qualification_fixture_missing'')
           | Some target \<Rightarrow>
               eseq (get_state env) (\<lambda>st.
               eseq (eguard (st = RunCompleted) (ValueError ''qualification_run_finalized'')) (\<lambda>_.
               eseq (get_state env) (\<lambda>st.
               if st = RunQuarantined then
                 eseq (quarantine_reason env) (\<lambda>current.
                   eguard (\<not> (current = Some reason \<and> sf_cleanup_status target = checked_status))
                     (ValueError ''qualification_run_quarantined''))
               else
                 eseq (eguard (sf_cleanup_status target \<noteq> CleanupPending)
                        (ValueError ''qualification_cleanup_status_conflict'')) (\<lambda>_.
                 eseq (read_clock env) (\<lambda>now.
                 eseq (eget (rr_fixtures \<circ> rs_record)) (\<lambda>fixtures.
                 eseq (elift (emap (update_fixture env checked checked_status now) fixtures)) (\<lambda>updated.
                   replace_record env (Some now)
                     (\<lambda>r. quarantined reason (r\<lparr>rr_fixtures := updated\<rparr>)))))))))))
      | _ \<Rightarrow> efail (ValueError ''qualification_cleanup_status_invalid'')))"

definition quarantine :: "run_env \<Rightarrow> string \<Rightarrow> (run_store, unit) eff" where
  "quarantine env reason =
     eseq (eguard (reason \<notin> set quarantine_reasons) (ValueError ''qualification_quarantine_reason_invalid'')) (\<lambda>_.
     eseq (get_state env) (\<lambda>st.
       if st = RunQuarantined then eret () else replace_record env None (quarantined reason)))"

definition complete_run :: "run_env \<Rightarrow> (run_store, unit) eff" where
  "complete_run env =
     eseq (get_state env) (\<lambda>st.
     if st = RunCompleted then eret ()
     else
       eseq (get_state env) (\<lambda>st.
       eseq (eguard (st = RunQuarantined) (ValueError ''qualification_run_quarantined'')) (\<lambda>_.
       eseq (eget (rr_fixtures \<circ> rs_record)) (\<lambda>fixtures.
       eseq (eguard (list_ex (\<lambda>f. sf_cleanup_status f \<noteq> Cleaned) fixtures)
              (ValueError ''qualification_cleanup_incomplete'')) (\<lambda>_.
       eseq (replace_record env None
              (\<lambda>r. r\<lparr>rr_state := RunCompleted, rr_publication_allowed := False, rr_quarantine_reason := None\<rparr>)) (\<lambda>_.
         eput (\<lambda>s. s\<lparr>rs_granted := True\<rparr>)))))))"

section \<open>Opening a run\<close>

definition initial_record :: "string \<Rightarrow> datetime \<Rightarrow> run_record" where
  "initial_record run_id now =
     \<lparr>rr_run_id = run_id, rr_state = RunFailed, rr_publication_allowed = False,
      rr_quarantine_reason = None, rr_created_at = now, rr_updated_at = now, rr_fixtures = []\<rparr>"

text \<open>
  The constructor on the content of the run directory; the object does not exist if it raises. The
  checks of the root, the platform and the directory itself are not modelled.
\<close>

definition open_run :: "run_env \<Rightarrow> string \<Rightarrow> disk_state \<Rightarrow> (run_store, unit) eff" where
  "open_run env run_id disk =
     eseq (elift (validate_run_id run_id)) (\<lambda>checked.
     eseq (eput (\<lambda>s. s\<lparr>rs_run_id := checked, rs_disk := disk, rs_binding_failed := False,
                      rs_granted := False\<rparr>)) (\<lambda>_.
     eseq (elift (read_state env disk)) (\<lambda>(existing, migrate_legacy).
       (case existing of
          None \<Rightarrow>
            eseq (read_clock env) (\<lambda>now.
            eseq (elift (validate_persisted env (initial_record checked now))) (\<lambda>initial.
            eseq (write_state env initial) (\<lambda>_.
            eseq (eput (\<lambda>s. s\<lparr>rs_record := initial\<rparr>)) (\<lambda>_.
              validate_runtime_binding env))))
        | Some r \<Rightarrow>
            eseq (eguard (rr_run_id r \<noteq> checked) (ValueError ''qualification_state_invalid'')) (\<lambda>_.
            eseq (if migrate_legacy then write_state env r else eret ()) (\<lambda>_.
            eseq (eput (\<lambda>s. s\<lparr>rs_record := r\<rparr>)) (\<lambda>_.
            eseq (validate_runtime_binding env) (\<lambda>_.
            eseq (eget (rr_state \<circ> rs_record)) (\<lambda>st.
              if st = RunFailed then quarantine env ''process_lost'' else eret ())))))))))"

datatype run_op =
    RecordFixtures "fixture_reference list"
  | MarkCleanup string string
  | QuarantineCleanup string string
  | Quarantine string
  | Complete

fun run_method :: "run_env \<Rightarrow> run_op \<Rightarrow> (run_store, unit) eff" where
  "run_method env (RecordFixtures fs) = record_fixtures env fs"
| "run_method env (MarkCleanup handle status) = mark_cleanup env handle status"
| "run_method env (QuarantineCleanup handle status) = quarantine_cleanup env handle status"
| "run_method env (Quarantine reason) = quarantine env reason"
| "run_method env Complete = complete_run env"

definition run_step :: "run_env \<Rightarrow> run_op \<Rightarrow> run_store \<Rightarrow> run_store" where
  "run_step env op s = final (run_method env op) s"
section \<open>What a method does to the record\<close>

definition unchanged :: "run_store \<Rightarrow> run_store \<Rightarrow> bool" where
  "unchanged s s' \<longleftrightarrow> rs_record s' = rs_record s \<and> rs_granted s' = rs_granted s \<and> rs_disk s' = rs_disk s"

lemma unchanged_refl [simp]: "unchanged s s"
  by (simp add: unchanged_def)

lemma wp_binding [wp_rules]:
  assumes "\<And>s'. unchanged s s' \<Longrightarrow> Q (Inr ()) s'" and "\<And>e s'. unchanged s s' \<Longrightarrow> Q (Inl e) s'"
  shows "wp (validate_runtime_binding env) Q s"
  unfolding wp_def validate_runtime_binding_def outcome_def final_def
  by (auto intro!: assms simp: unchanged_def)

lemma wp_get_state [wp_rules]:
  assumes "\<And>s'. unchanged s s' \<Longrightarrow> Q (Inr (rr_state (rs_record s))) s'"
    and "\<And>e s'. unchanged s s' \<Longrightarrow> Q (Inl e) s'"
  shows "wp (get_state env) Q s"
  unfolding get_state_def wp_eseq using assms by (intro wp_binding) (auto simp: unchanged_def)

lemma wp_quarantine_reason [wp_rules]:
  assumes "\<And>s'. unchanged s s' \<Longrightarrow> Q (Inr (rr_quarantine_reason (rs_record s))) s'"
    and "\<And>e s'. unchanged s s' \<Longrightarrow> Q (Inl e) s'"
  shows "wp (quarantine_reason env) Q s"
  unfolding quarantine_reason_def wp_eseq using assms by (intro wp_binding) (auto simp: unchanged_def)

lemma wp_clock [wp_rules]:
  assumes "\<And>t s'. unchanged s s' \<Longrightarrow> Q (Inr (Aware t)) s'" and "\<And>e s'. unchanged s s' \<Longrightarrow> Q (Inl e) s'"
  shows "wp (read_clock env) Q s"
  unfolding wp_def read_clock_def outcome_def final_def
  by (auto intro!: assms simp: unchanged_def split: datetime.splits)

lemma wp_write [wp_rules]:
  assumes "\<And>s'. rs_record s' = rs_record s \<Longrightarrow> rs_granted s' = rs_granted s \<Longrightarrow> rs_disk s' = StateFile r \<Longrightarrow> Q (Inr ()) s'"
    and "\<And>e s'. rs_record s' = rs_record s \<Longrightarrow> rs_granted s' = rs_granted s \<Longrightarrow>
      rs_disk s' \<in> {rs_disk s, StateFile r} \<Longrightarrow> Q (Inl e) s'"
  shows "wp (write_state env r) Q s"
  unfolding wp_def write_state_def outcome_def final_def
  by (auto intro!: assms split: write_outcome.splits)

lemma wp_settle:
  assumes "\<And>s'. unchanged s s' \<Longrightarrow> Q (Inr ()) s'"
    and "\<And>e s'. rs_record s' = previous \<Longrightarrow> rs_granted s' = rs_granted s \<Longrightarrow> rs_disk s' = rs_disk s \<Longrightarrow> Q (Inl e) s'"
  shows "wp (settle_record env previous) Q s"
  unfolding wp_def settle_record_def outcome_def final_def validate_runtime_binding_def
  by (auto intro!: assms simp: unchanged_def)

lemma validate_persisted_Inr:
  "validate_persisted env r = Inr p \<Longrightarrow> p = r \<and> \<not> rr_publication_allowed r \<and> validate_record env r = Inr ()"
  by (auto simp: validate_persisted_def outcome_simps simp del: ebind_raise_if)

text \<open>
  A replacement fails and leaves the record, or installs the validated candidate; either way the
  grant is gone. The file holds the old state or the candidate.
\<close>

lemma wp_replace [wp_rules]:
  assumes "\<And>e s'. rs_record s' = rs_record s \<Longrightarrow> \<not> rs_granted s' \<Longrightarrow>
      (rs_disk s' = rs_disk s \<or> (\<exists>r. rs_disk s' = StateFile r \<and> validate_persisted env r = Inr r)) \<Longrightarrow> Q (Inl e) s'"
    and "\<And>t s'. rs_record s' = (updates (rs_record s))\<lparr>rr_updated_at := t\<rparr> \<Longrightarrow> \<not> rs_granted s' \<Longrightarrow>
      validate_persisted env (rs_record s') = Inr (rs_record s') \<Longrightarrow> rs_disk s' = StateFile (rs_record s') \<Longrightarrow>
      \<not> regressed t (rr_updated_at (rs_record s)) \<Longrightarrow> Q (Inr ()) s'"
  shows "wp (replace_record env transition_at updates) Q s"
proof -
  let ?s0 = "s\<lparr>rs_granted := False\<rparr>"
  define rest where "rest = (\<lambda>timestamp.
     eseq (eget rs_record) (\<lambda>previous.
     eseq (eguard (regressed timestamp (rr_updated_at previous)) (ValueError ''qualification_clock_regressed'')) (\<lambda>_.
     eseq (elift (validate_persisted env ((updates previous)\<lparr>rr_updated_at := timestamp\<rparr>))) (\<lambda>candidate.
     eseq (write_state env candidate) (\<lambda>_.
     eseq (eput (\<lambda>s. s\<lparr>rs_record := candidate\<rparr>)) (\<lambda>_. settle_record env previous))))))"
  have rest: "wp (rest t) Q s2" if s2: "unchanged ?s0 s2" for t s2
  proof -
    have q: "rs_record s2 = rs_record s" "\<not> rs_granted s2" "rs_disk s2 = rs_disk s"
      using s2 by (simp_all add: unchanged_def)
    show ?thesis
    proof (cases "validate_persisted env ((updates (rs_record s))\<lparr>rr_updated_at := t\<rparr>)")
      case (Inl e)
      then show ?thesis using q assms(1) by (simp add: rest_def)
    next
      case (Inr candidate)
      note c = validate_persisted_Inr[OF Inr]
      show ?thesis
        using q Inr c assms(1)
        apply (simp add: rest_def)
        apply (intro impI wp_write)
         apply simp_all
         apply (rule wp_settle)
          apply (rule assms(2))
              apply (simp_all add: unchanged_def)
        apply auto
        done
    qed
  qed
  have "replace_record env transition_at updates =
     eseq (eput (\<lambda>s. s\<lparr>rs_granted := False\<rparr>)) (\<lambda>_.
     eseq (validate_runtime_binding env) (\<lambda>_.
     eseq (case transition_at of None \<Rightarrow> read_clock env | Some t \<Rightarrow> eret t) rest))"
    by (simp add: replace_record_def rest_def)
  moreover have "wp (validate_runtime_binding env) (\<lambda>r s'. case r of Inl e \<Rightarrow> Q (Inl e) s' | Inr x \<Rightarrow>
      wp (eseq (case transition_at of None \<Rightarrow> read_clock env | Some t \<Rightarrow> eret t) rest) Q s') ?s0"
  proof (rule wp_binding)
    fix s1
    assume s1: "unchanged ?s0 s1"
    show "case (Inr ()) of Inl e \<Rightarrow> Q (Inl e) s1 | Inr x \<Rightarrow>
        wp (eseq (case transition_at of None \<Rightarrow> read_clock env | Some t \<Rightarrow> eret t) rest) Q s1"
    proof (cases transition_at)
      case None
      have "wp (read_clock env) (\<lambda>r s'. case r of Inl e \<Rightarrow> Q (Inl e) s' | Inr x \<Rightarrow> wp (rest x) Q s') s1"
        using s1 by (intro wp_clock) (auto intro!: rest assms(1) simp: unchanged_def)
      with None show ?thesis by simp
    next
      case (Some t)
      with rest[OF s1] show ?thesis by simp
    qed
  next
    fix e s1
    assume "unchanged ?s0 s1"
    then show "case Inl e of Inl e \<Rightarrow> Q (Inl e) s1 | Inr x \<Rightarrow>
        wp (eseq (case transition_at of None \<Rightarrow> read_clock env | Some t \<Rightarrow> eret t) rest) Q s1"
      using assms(1) by (simp add: unchanged_def)
  qed
  ultimately show ?thesis by simp
qed
section \<open>The history of a run\<close>

text \<open>A fixture is never lost, its reference never changes, and a settled cleanup stays as it is.\<close>

definition fixture_kept :: "stored_fixture \<Rightarrow> stored_fixture \<Rightarrow> bool" where
  "fixture_kept f f' \<longleftrightarrow>
     reference_of f' = reference_of f \<and> sf_registered_at f' = sf_registered_at f \<and>
     (sf_cleanup_status f \<noteq> CleanupPending \<longrightarrow> f' = f)"

definition fixtures_kept :: "stored_fixture list \<Rightarrow> stored_fixture list \<Rightarrow> bool" where
  "fixtures_kept fs fs' \<longleftrightarrow> list_all (\<lambda>f. list_ex (fixture_kept f) fs') fs"

definition run_valid :: "run_env \<Rightarrow> run_store \<Rightarrow> bool" where
  "run_valid env s \<longleftrightarrow>
     validate_persisted env (rs_record s) = Inr (rs_record s) \<and>
     (rs_granted s \<longrightarrow> rr_state (rs_record s) = RunCompleted)"

definition valid_file :: "run_env \<Rightarrow> disk_state \<Rightarrow> bool" where
  "valid_file env d \<longleftrightarrow> (case d of StateFile r \<Rightarrow> validate_persisted env r = Inr r | _ \<Rightarrow> False)"

definition run_evolves :: "run_env \<Rightarrow> run_store \<Rightarrow> run_store \<Rightarrow> bool" where
  "run_evolves env s s' \<longleftrightarrow>
     (rr_state (rs_record s) = RunQuarantined \<longrightarrow>
        rr_state (rs_record s') = RunQuarantined \<and>
        rr_quarantine_reason (rs_record s') = rr_quarantine_reason (rs_record s)) \<and>
     (rr_state (rs_record s) = RunCompleted \<longrightarrow> rr_state (rs_record s') \<noteq> RunFailed) \<and>
     fixtures_kept (rr_fixtures (rs_record s)) (rr_fixtures (rs_record s')) \<and>
     rr_run_id (rs_record s') = rr_run_id (rs_record s) \<and>
     rr_created_at (rs_record s') = rr_created_at (rs_record s) \<and>
     (rs_granted s' \<longrightarrow> rs_granted s \<or> rr_state (rs_record s) = RunFailed) \<and>
     (rs_disk s' = rs_disk s \<or> valid_file env (rs_disk s'))"

lemma fixture_kept_refl [simp]: "fixture_kept f f"
  by (simp add: fixture_kept_def)

lemma fixture_kept_trans: "fixture_kept f g \<Longrightarrow> fixture_kept g h \<Longrightarrow> fixture_kept f h"
  by (auto simp: fixture_kept_def)

lemma fixtures_keptI: "(\<And>f. f \<in> set fs \<Longrightarrow> \<exists>f'\<in>set fs'. fixture_kept f f') \<Longrightarrow> fixtures_kept fs fs'"
  by (auto simp: fixtures_kept_def list_all_iff list_ex_iff)

lemma fixtures_keptD: "fixtures_kept fs fs' \<Longrightarrow> f \<in> set fs \<Longrightarrow> \<exists>f'\<in>set fs'. fixture_kept f f'"
  by (auto simp: fixtures_kept_def list_all_iff list_ex_iff)

lemma fixtures_kept_refl [simp]: "fixtures_kept fs fs"
  by (rule fixtures_keptI) (blast intro: fixture_kept_refl)

lemma fixtures_kept_trans: "fixtures_kept fs gs \<Longrightarrow> fixtures_kept gs hs \<Longrightarrow> fixtures_kept fs hs"
  by (rule fixtures_keptI) (meson fixtures_keptD fixture_kept_trans)

lemma fixtures_kept_all2: "list_all2 fixture_kept fs gs \<Longrightarrow> fixtures_kept fs gs"
  by (rule fixtures_keptI) (metis list_all2_conv_all_nth in_set_conv_nth)

lemma merge_fixtures_kept:
  "merge_fixtures env now new (existing, changed) = Inr (merged, changed') \<Longrightarrow> set existing \<subseteq> set merged"
proof (induction new arbitrary: existing changed)
  case (Cons f fs)
  then show ?case
    by (fastforce simp: outcome_simps simp del: ebind_raise_if split: option.splits if_splits)
qed simp

lemma set_cleanup_kept: "sf_cleanup_status f = CleanupPending \<Longrightarrow> fixture_kept f (set_cleanup status now f)"
  by (simp add: fixture_kept_def set_cleanup_def reference_of_def)

lemma mark_fixtures_kept:
  "mark_fixtures env handle now fs = Inr (updated, found, changed) \<Longrightarrow> list_all2 fixture_kept fs updated"
proof (induction fs arbitrary: updated found changed)
  case (Cons f fs)
  then show ?case
    by (auto simp: outcome_simps set_cleanup_kept split: if_splits)
qed simp

lemma update_fixtures_kept:
  assumes "emap (update_fixture env handle status now) fs = Inr updated"
    and "find (\<lambda>f. fr_handle f = handle) fs = Some target" and "sf_cleanup_status target = CleanupPending"
    and "distinct (map fr_handle fs)"
  shows "list_all2 fixture_kept fs updated"
proof -
  from assms(2) have t: "target \<in> set fs" "fr_handle target = handle"
    by (auto simp: find_Some_iff)
  have "fixture_kept f g" if "f \<in> set fs" and "update_fixture env handle status now f = Inr g" for f g
  proof (cases "fr_handle f = handle")
    case True
    with that(1) t assms(4) have "f = target" by (metis length_filter_le1_iff_same)
    with True that(2) assms(3) show ?thesis
      by (auto simp: update_fixture_def outcome_simps set_cleanup_kept)
  next
    case False
    with that(2) show ?thesis by (simp add: update_fixture_def)
  qed
  with assms(1) show ?thesis
    unfolding emap_eq_Inr_iff by (auto simp: list_all2_conv_all_nth)
qed

lemma run_evolves_unchanged: "unchanged s s' \<Longrightarrow> run_evolves env s s'"
  by (simp add: run_evolves_def unchanged_def)

lemma run_valid_unchanged: "unchanged s s' \<Longrightarrow> run_valid env s \<Longrightarrow> run_valid env s'"
  by (simp add: run_valid_def unchanged_def)

lemma run_evolves_trans:
  assumes "run_evolves env s t" and "run_evolves env t u"
  shows "run_evolves env s u"
proof -
  have "fixtures_kept (rr_fixtures (rs_record s)) (rr_fixtures (rs_record u))"
    using assms fixtures_kept_trans unfolding run_evolves_def by blast
  moreover have "rs_disk u = rs_disk s \<or> valid_file env (rs_disk u)"
    using assms unfolding run_evolves_def by metis
  moreover have "rs_granted u \<longrightarrow> rs_granted s \<or> rr_state (rs_record s) = RunFailed"
    using assms unfolding run_evolves_def by (metis run_state.exhaust run_state.distinct(5))
  moreover have "rr_state (rs_record s) = RunCompleted \<longrightarrow> rr_state (rs_record u) \<noteq> RunFailed"
    using assms unfolding run_evolves_def by (cases "rr_state (rs_record t)") simp_all
  moreover have "rr_state (rs_record s) = RunQuarantined \<longrightarrow> rr_state (rs_record u) = RunQuarantined \<and>
      rr_quarantine_reason (rs_record u) = rr_quarantine_reason (rs_record s)"
    using assms unfolding run_evolves_def by simp
  moreover have "rr_run_id (rs_record u) = rr_run_id (rs_record s)"
      "rr_created_at (rs_record u) = rr_created_at (rs_record s)"
    using assms unfolding run_evolves_def by simp_all
  ultimately show ?thesis
    unfolding run_evolves_def by blast
qed

text \<open>One call keeps a run valid and takes it forward.\<close>

definition goes_on :: "run_env \<Rightarrow> run_store \<Rightarrow> run_store \<Rightarrow> bool" where
  "goes_on env s s' \<longleftrightarrow> run_valid env s' \<and> run_evolves env s s'"

lemma goes_on_unchanged: "run_valid env s \<Longrightarrow> unchanged s s' \<Longrightarrow> goes_on env s s'"
  by (simp add: goes_on_def run_evolves_unchanged run_valid_unchanged)

lemma goes_on_failed:
  "run_valid env s \<Longrightarrow> rs_record s' = rs_record s \<Longrightarrow> \<not> rs_granted s' \<Longrightarrow>
     (rs_disk s' = rs_disk s \<or> (\<exists>r. rs_disk s' = StateFile r \<and> validate_persisted env r = Inr r)) \<Longrightarrow>
     goes_on env s s'"
  by (auto simp: goes_on_def run_valid_def run_evolves_def valid_file_def)

lemma goes_on_replaced:
  assumes "rs_record s' = upd\<lparr>rr_updated_at := t\<rparr>" and "\<not> rs_granted s'"
    and "validate_persisted env (rs_record s') = Inr (rs_record s')" and "rs_disk s' = StateFile (rs_record s')"
    and "rr_state (rs_record s) = RunQuarantined \<longrightarrow>
        rr_state upd = RunQuarantined \<and> rr_quarantine_reason upd = rr_quarantine_reason (rs_record s)"
    and "rr_state (rs_record s) = RunCompleted \<longrightarrow> rr_state upd \<noteq> RunFailed"
    and "fixtures_kept (rr_fixtures (rs_record s)) (rr_fixtures upd)"
    and "rr_run_id upd = rr_run_id (rs_record s)" and "rr_created_at upd = rr_created_at (rs_record s)"
  shows "goes_on env s s'"
  using assms by (simp add: goes_on_def run_valid_def run_evolves_def valid_file_def)

lemma unchanged_record: "unchanged s s' \<Longrightarrow> rs_record s' = rs_record s"
  and unchanged_trans: "unchanged s t \<Longrightarrow> unchanged t u \<Longrightarrow> unchanged s u"
  and goes_on_after: "unchanged s t \<Longrightarrow> goes_on env t u \<Longrightarrow> goes_on env s u"
  by (auto simp: unchanged_def goes_on_def run_evolves_def)
lemma run_valid_handles: "run_valid env s \<Longrightarrow> distinct (map fr_handle (rr_fixtures (rs_record s)))"
  by (auto simp: run_valid_def validate_persisted_def validate_record_def validate_run_state_def
      outcome_simps Let_def simp del: ebind_raise_if)

lemma goes_on_same:
  "run_valid env s \<Longrightarrow> rs_record s' = rs_record s \<Longrightarrow> rs_granted s' = rs_granted s \<Longrightarrow>
     rs_disk s' = rs_disk s \<Longrightarrow> goes_on env s s'"
  by (rule goes_on_unchanged) (simp_all add: unchanged_def)

lemma goes_on_new:
  assumes "rs_granted s' \<longrightarrow> rr_state (rs_record s') = RunCompleted \<and> rr_state (rs_record s) = RunFailed"
    and "validate_persisted env (rs_record s') = Inr (rs_record s')" and "rs_disk s' = StateFile (rs_record s')"
    and "rr_state (rs_record s) = RunQuarantined \<longrightarrow> rr_state (rs_record s') = RunQuarantined \<and>
        rr_quarantine_reason (rs_record s') = rr_quarantine_reason (rs_record s)"
    and "rr_state (rs_record s) = RunCompleted \<longrightarrow> rr_state (rs_record s') \<noteq> RunFailed"
    and "fixtures_kept (rr_fixtures (rs_record s)) (rr_fixtures (rs_record s'))"
    and "rr_run_id (rs_record s') = rr_run_id (rs_record s)"
    and "rr_created_at (rs_record s') = rr_created_at (rs_record s)"
  shows "goes_on env s s'"
  using assms by (auto simp: goes_on_def run_valid_def run_evolves_def valid_file_def)

lemma quarantine_goes_on:
  assumes "run_valid env s"
  shows "wp (quarantine env reason) (\<lambda>r. goes_on env s) s"
  unfolding quarantine_def
  apply (simp add: assms goes_on_same)
  apply (intro impI wp_get_state; simp add: unchanged_def assms goes_on_same)
  apply (intro impI wp_replace)
   apply (rule goes_on_failed; simp add: assms)
  apply (rule goes_on_new; simp add: quarantined_def)
  done
lemma complete_run_goes_on:
  assumes "run_valid env s"
  shows "wp (complete_run env) (\<lambda>r. goes_on env s) s"
  unfolding complete_run_def
  apply simp
  apply (intro impI wp_get_state; simp add: unchanged_def assms goes_on_same)
  apply (intro impI wp_get_state; simp add: unchanged_def assms goes_on_same)
  apply (intro impI wp_replace)
   apply (simp, rule goes_on_failed; simp add: assms)
  apply (simp, rule goes_on_new; simp)
  apply (metis run_state.exhaust)
  done

lemma record_fixtures_goes_on:
  assumes "run_valid env s"
  shows "wp (record_fixtures env fixtures) (\<lambda>r. goes_on env s) s"
  unfolding record_fixtures_def
  apply simp
  apply (intro impI wp_get_state; simp add: unchanged_def assms goes_on_same)
  apply (intro impI wp_get_state; simp add: unchanged_def assms goes_on_same)
  apply (intro impI wp_clock; simp add: unchanged_def assms goes_on_same)
  apply (simp split: sum.split add: assms goes_on_same split_def)
  apply (intro allI impI conjI wp_replace)
    apply (rule goes_on_failed; simp add: assms)
   apply (rule goes_on_new; simp)
   apply (rule fixtures_keptI)
   apply (drule merge_fixtures_kept[OF trans, OF _ arg_cong[of _ _ Inr]])
    apply (simp add: prod_eq_iff)
   apply (auto intro: fixture_kept_refl simp: assms goes_on_same)
  done

lemma mark_cleanup_goes_on:
  assumes "run_valid env s"
  shows "wp (mark_cleanup env handle status) (\<lambda>r. goes_on env s) s"
  unfolding mark_cleanup_def
  apply (simp split: sum.split add: assms goes_on_same)
  apply (intro allI impI wp_clock; simp add: unchanged_def assms goes_on_same)
  apply (intro allI impI wp_replace)
   apply (rule goes_on_failed; simp add: assms)
  apply (rule goes_on_new; simp)
  apply (rule fixtures_kept_all2)
  apply (rule mark_fixtures_kept, assumption)
  done

lemma quarantine_cleanup_goes_on:
  assumes "run_valid env s"
  shows "wp (quarantine_cleanup env handle status) (\<lambda>r. goes_on env s) s"
  unfolding quarantine_cleanup_def
  apply (simp split: sum.split option.split add: assms goes_on_same)
  apply (intro allI impI conjI wp_get_state; simp add: unchanged_def assms goes_on_same)
  apply (intro allI impI conjI wp_quarantine_reason wp_clock; simp add: unchanged_def assms goes_on_same)+
  apply (rule wp_replace)
   apply (rule goes_on_failed; simp add: assms)
  apply (rule goes_on_new; simp add: quarantined_def)
  apply (rule fixtures_kept_all2)
  apply (rule update_fixtures_kept)
     apply (assumption | rule run_valid_handles[OF assms])+
  done

lemma run_method_goes_on: "run_valid env s \<Longrightarrow> wp (run_method env op) (\<lambda>r. goes_on env s) s"
  by (cases op)
    (simp_all add: record_fixtures_goes_on mark_cleanup_goes_on quarantine_cleanup_goes_on
      quarantine_goes_on complete_run_goes_on)

lemma run_step_goes_on: "run_valid env s \<Longrightarrow> goes_on env s (run_step env op s)"
  using run_method_goes_on[of env s op] by (simp add: wp_final run_step_def)


text \<open>Opening: a fresh run is failed and not granted; a recovered one is settled or quarantined.\<close>

lemma validate_initial:
  "validate_persisted env (initial_record run_id now) = Inr r \<Longrightarrow> r = initial_record run_id now"
  by (rule validate_persisted_Inr[THEN conjunct1])

lemma read_state_Some:
  "read_state env d = Inr (Some r, migrate) \<Longrightarrow> validate_persisted env r = Inr r"
  by (auto simp: read_state_def outcome_simps split: disk_state.splits sum.splits
      dest: validate_persisted_Inr)

lemma read_state_file:
  "read_state env d = Inr (Some r, False) \<Longrightarrow> valid_file env d"
  by (auto simp: read_state_def valid_file_def outcome_simps split: disk_state.splits sum.splits
      dest: validate_persisted_Inr)

lemma read_state_None: "read_state env d = Inr (None, migrate) \<Longrightarrow> d = NoState"
  by (auto simp: read_state_def split: disk_state.splits sum.splits)

lemma quarantine_closes:
  assumes "run_valid env s" and "\<not> rs_granted s" and "valid_file env (rs_disk s)"
  shows "wp (quarantine env reason) (\<lambda>r s'. r = Inr () \<longrightarrow>
    run_valid env s' \<and> \<not> rs_granted s' \<and> valid_file env (rs_disk s') \<and>
    rr_state (rs_record s') = RunQuarantined) s"
  unfolding quarantine_def
  apply simp
  apply (intro impI wp_get_state; simp add: unchanged_def assms)
   apply (intro impI conjI)
    using assms apply (simp add: run_valid_def)
  apply (intro impI wp_replace)
   apply simp
  apply (simp add: run_valid_def valid_file_def quarantined_def)
  done

definition opened :: "run_env \<Rightarrow> disk_state \<Rightarrow> run_store \<Rightarrow> bool" where
  "opened env d s \<longleftrightarrow>
     run_valid env s \<and> \<not> rs_granted s \<and> valid_file env (rs_disk s) \<and>
     (if d = NoState then rr_state (rs_record s) = RunFailed \<and> rr_fixtures (rs_record s) = []
      else rr_state (rs_record s) \<noteq> RunFailed)"

lemma open_run_ok: "wp (open_run env run_id d) (\<lambda>r s'. r = Inr () \<longrightarrow> opened env d s') s"
proof -
  have settle: "wp (validate_runtime_binding env) (\<lambda>r s'.
        (rr_state (rs_record s') = RunFailed \<longrightarrow> r = Inr () \<longrightarrow>
          wp (quarantine env ''process_lost'') (\<lambda>r s'. r = Inr () \<longrightarrow> opened env d s') s') \<and>
        (rr_state (rs_record s') \<noteq> RunFailed \<longrightarrow> r = Inr () \<longrightarrow> opened env d s')) s1"
    if r: "read_state env d = Inr (Some r, b)" "rs_record s1 = r" "\<not> rs_granted s1"
      "valid_file env (rs_disk s1)" for r b s1
  proof (rule wp_binding)
    fix s2
    assume s2: "unchanged s1 s2"
    have d: "d \<noteq> NoState" using r(1) by (auto simp: read_state_def)
    have v: "run_valid env s2" "\<not> rs_granted s2" "valid_file env (rs_disk s2)"
      using read_state_Some[OF r(1)] r s2 by (auto simp: run_valid_def unchanged_def)
    have "wp (quarantine env ''process_lost'') (\<lambda>r s'. r = Inr () \<longrightarrow> opened env d s') s2"
      by (rule wp_mono[OF quarantine_closes[OF v]]) (simp add: opened_def d)
    with v d show "(rr_state (rs_record s2) = RunFailed \<longrightarrow> Inr () = Inr () \<longrightarrow>
          wp (quarantine env ''process_lost'') (\<lambda>r s'. r = Inr () \<longrightarrow> opened env d s') s2) \<and>
        (rr_state (rs_record s2) \<noteq> RunFailed \<longrightarrow> Inr () = Inr () \<longrightarrow> opened env d s2)"
      by (simp add: opened_def)
  qed simp
  show ?thesis
  proof (cases "read_state env d")
    case (Inl e)
    then show ?thesis by (simp add: open_run_def split: sum.split)
  next
    case (Inr m)
    obtain existing migrate where m: "m = (existing, migrate)" by (cases m)
    show ?thesis
    proof (cases existing)
      case None
      with m Inr have rd: "read_state env d = Inr (None, migrate)" by simp
      from read_state_None[OF rd] have "d = NoState" .
      with rd show ?thesis
        unfolding open_run_def
        apply (simp split: sum.split)
        apply (intro allI impI wp_clock; simp add: unchanged_def split: sum.split)
        apply (intro allI impI wp_write; simp)
        apply (frule validate_initial)
        apply (intro wp_binding; simp add: unchanged_def opened_def run_valid_def valid_file_def initial_record_def)
        done
    next
      case (Some r)
      with m Inr have rd: "read_state env d = Inr (Some r, migrate)" by simp
      note st = settle[OF rd]
      have r: "validate_persisted env r = Inr r" by (rule read_state_Some[OF rd])
      have kept: "\<not> migrate \<Longrightarrow> valid_file env d" using read_state_file rd by simp
      show ?thesis
        unfolding open_run_def using rd
        apply (simp split: sum.split)
        apply (intro allI impI conjI)
         apply (intro wp_write; simp)
         apply (rule st; simp add: valid_file_def r)
        apply (rule st; simp add: kept)
        done
    qed
  qed
qed
section \<open>Publication\<close>

definition may_publish :: "run_store \<Rightarrow> bool" where
  "may_publish s \<longleftrightarrow> rr_state (rs_record s) = RunCompleted \<and> rs_granted s"

lemma publication_allowed_outcome:
  "outcome (publication_allowed env) s = Inr b \<Longrightarrow> b = may_publish s"
proof -
  have "wp (publication_allowed env) (\<lambda>r s'. r = Inr b \<longrightarrow> b = may_publish s) s"
    unfolding publication_allowed_def by simp (intro wp_binding; simp add: unchanged_def may_publish_def)
  then show "outcome (publication_allowed env) s = Inr b \<Longrightarrow> b = may_publish s" by (simp add: wp_def)
qed

lemma run_valid_completed:
  "run_valid env s \<Longrightarrow> rr_state (rs_record s) = RunCompleted \<Longrightarrow>
     list_all (\<lambda>f. sf_cleanup_status f = Cleaned) (rr_fixtures (rs_record s))"
  by (auto simp: run_valid_def validate_persisted_def validate_record_def validate_run_state_def
      outcome_simps Let_def list_all_iff list_ex_iff simp del: ebind_raise_if)

lemma run_all_goes_on:
  "run_valid env s \<Longrightarrow> goes_on env s (run_all (run_step env) ops s)"
proof (induction ops arbitrary: s)
  case Nil
  then show ?case by (simp add: run_all_def goes_on_same)
next
  case (Cons op ops)
  from run_step_goes_on[OF Cons.prems, of op]
  have 1: "goes_on env s (run_step env op s)" .
  from 1 Cons.IH[of "run_step env op s"] show ?case
    by (auto simp: run_all_def goes_on_def intro: run_evolves_trans)
qed

text \<open>The grant of a run is the one-shot resource: only a failed run can be completed.\<close>

definition grants :: "run_env \<Rightarrow> run_op \<Rightarrow> unit \<Rightarrow> run_store \<Rightarrow> bool" where
  "grants env op k s \<longleftrightarrow> \<not> rs_granted s \<and> rs_granted (run_step env op s)"

definition closed_run :: "run_store \<Rightarrow> unit \<Rightarrow> bool" where
  "closed_run s k \<longleftrightarrow> rr_state (rs_record s) \<noteq> RunFailed"

interpretation publication: one_shot "run_step env" "grants env" closed_run "run_valid env" for env
proof
  fix s op k
  assume "run_valid env s"
  then have g: "goes_on env s (run_step env op s)" by (rule run_step_goes_on)
  then show "run_valid env (run_step env op s)" by (simp add: goes_on_def)
  show "closed_run s k \<Longrightarrow> closed_run (run_step env op s) k"
    using g by (cases "rr_state (rs_record s)") (auto simp: goes_on_def run_evolves_def closed_run_def)
  show "grants env op k s \<Longrightarrow> \<not> closed_run s k \<and> closed_run (run_step env op s) k"
    using g by (auto simp: goes_on_def run_evolves_def run_valid_def closed_run_def grants_def)
qed

section \<open>Properties\<close>

text \<open>A run to look at: an environment where everything works, one fixture.\<close>

definition sample_env :: run_env where
  "sample_env = \<lparr>bound = (\<lambda>_. True), clock = (\<lambda>n. Aware (int n)), persist = (\<lambda>_. Written),
     safe_run = (\<lambda>_. True), safe_fixture = (\<lambda>_. True), safe_reference = (\<lambda>_. True)\<rparr>"

definition sample_handle :: string where
  "sample_handle = ''fx_00000000000000000000000000''"

definition sample_run_id :: string where
  "sample_run_id = ''run_00000000000000000000000000''"

definition sample_fixture :: fixture_reference where
  "sample_fixture = \<lparr>fr_handle = sample_handle, fr_action_id = ''act_'' @ replicate 24 (CHR ''0''),
     fr_version_id = ''av_'' @ replicate 64 (CHR ''0''),
     fr_cleanup_action_id = ''act_'' @ replicate 24 (CHR ''1''),
     fr_cleanup_version_id = ''av_'' @ replicate 64 (CHR ''1''), fr_depends_on = []\<rparr>"

definition blank_store :: run_store where
  "blank_store = \<lparr>rs_run_id = [], rs_record = initial_record [] (Naive 0), rs_disk = NoState,
     rs_binding_failed = False, rs_granted = False, rs_tick = 0\<rparr>"

definition fresh_store :: run_store where
  "fresh_store = final (open_run sample_env sample_run_id NoState) blank_store"

definition sample_ops :: "run_op list" where
  "sample_ops = [RecordFixtures [sample_fixture], MarkCleanup sample_handle ''cleaned'', Complete]"

text \<open>
  C19: A result may be published only while the run is completed, every recorded fixture is cleaned
  and no quarantine reason is set, whatever calls were made since the run was opened and whatever
  the clock, the directory and the writes did.
\<close>

theorem publication_requires_cleanup:
  assumes "open_run env run_id d s = (Inr (), s0)"
    and "outcome (publication_allowed env) (run_all (run_step env) ops s0) = Inr True"
  shows "rr_state (rs_record (run_all (run_step env) ops s0)) = RunCompleted \<and>
    list_all (\<lambda>f. sf_cleanup_status f = Cleaned) (rr_fixtures (rs_record (run_all (run_step env) ops s0))) \<and>
    rr_quarantine_reason (rs_record (run_all (run_step env) ops s0)) = None \<and>
    \<not> rr_publication_allowed (rs_record (run_all (run_step env) ops s0)) \<and> d = NoState"
proof -
  let ?s = "run_all (run_step env) ops s0"
  have o: "opened env d s0" using wp_D[OF open_run_ok assms(1)] by simp
  then have g: "goes_on env s0 ?s" by (simp add: opened_def run_all_goes_on)
  then have v: "run_valid env ?s" by (simp add: goes_on_def)
  from publication_allowed_outcome[OF assms(2)] have m: "may_publish ?s" by simp
  then have c: "rr_state (rs_record ?s) = RunCompleted" and gr: "rs_granted ?s" by (simp_all add: may_publish_def)
  have "rr_quarantine_reason (rs_record ?s) = None" "\<not> rr_publication_allowed (rs_record ?s)"
    using v c by (auto simp: run_valid_def validate_persisted_def validate_record_def validate_run_state_def
        outcome_simps Let_def simp del: ebind_raise_if)
  moreover have "d = NoState"
    using o g gr by (auto simp: opened_def goes_on_def run_evolves_def split: if_splits)
  ultimately show ?thesis using run_valid_completed[OF v c] c by simp
qed

lemma sample_published:
  "is_ok (outcome (open_run sample_env sample_run_id NoState) blank_store)"
  "outcome (publication_allowed sample_env) (run_all (run_step sample_env) sample_ops fresh_store) = Inr True"
  by code_simp+

lemma fresh_store_opened: "open_run sample_env sample_run_id NoState blank_store = (Inr (), fresh_store)"
  using sample_published(1) by (cases "open_run sample_env sample_run_id NoState blank_store")
    (auto simp: fresh_store_def final_def outcome_def is_ok_def split: sum.splits)

theorem publication_requires_cleanup_witness:
  "rr_state (rs_record (run_all (run_step sample_env) sample_ops fresh_store)) = RunCompleted"
  using publication_requires_cleanup[OF fresh_store_opened sample_published(2)] by simp

text \<open>
  C21: In any sequence of calls publication is granted at most once, and once a run has left its
  initial state it is never granted again.
\<close>

theorem publication_granted_at_most_once:
  assumes "open_run env run_id d s = (Inr (), s0)"
  shows "fire_count (run_step env) (grants env) () ops s0 \<le> 1 \<and>
    (d \<noteq> NoState \<longrightarrow> fire_count (run_step env) (grants env) () ops s0 = 0)"
proof -
  have o: "opened env d s0" using wp_D[OF open_run_ok assms] by simp
  then have v: "run_valid env s0" by (simp add: opened_def)
  have "fire_count (run_step env) (grants env) () ops s0 \<le> (if closed_run s0 () then 0 else 1)"
    by (rule publication.fire_count_bound[OF v])
  moreover have "d \<noteq> NoState \<Longrightarrow> closed_run s0 ()" using o by (simp add: opened_def closed_run_def)
  ultimately show ?thesis by (auto split: if_splits)
qed

theorem publication_granted_at_most_once_witness:
  "fire_count (run_step sample_env) (grants sample_env) () sample_ops fresh_store \<le> 1"
  using publication_granted_at_most_once[OF fresh_store_opened, of sample_ops] by simp

text \<open>
  C20: The history of a run. A quarantined run stays quarantined with its reason, a completed one
  never returns to the initial state, no fixture is lost or changes its reference, a settled
  cleanup status stays, and the state file holds a valid record, from the opening of the run on
  and whatever writes fail.
\<close>

theorem run_history:
  assumes "open_run env run_id d s = (Inr (), s0)"
  shows "run_valid env (run_all (run_step env) ops s0) \<and>
    run_evolves env s0 (run_all (run_step env) ops s0) \<and>
    valid_file env (rs_disk (run_all (run_step env) ops s0))"
proof -
  have v: "run_valid env s0" and f: "valid_file env (rs_disk s0)"
    using wp_D[OF open_run_ok assms] by (simp_all add: opened_def)
  from run_all_goes_on[OF v, of ops] have "goes_on env s0 (run_all (run_step env) ops s0)" .
  with f show ?thesis by (auto simp: goes_on_def run_evolves_def)
qed

theorem run_history_witness:
  "run_evolves sample_env fresh_store (run_all (run_step sample_env) sample_ops fresh_store) \<and>
   valid_file sample_env (rs_disk (run_all (run_step sample_env) sample_ops fresh_store))"
  using run_history[OF fresh_store_opened] by blast

end
