(* ===== verification/Topological_Order.thy ===== *)
theory Topological_Order
  imports Mercury_Prelude
begin

text \<open>
  The topological sort that \<open>qualification/planner.py\<close> (\<open>stable_topological_sort\<close>) and
  \<open>qualification/fixtures.py\<close> (\<open>FixtureRegistry.dependency_order\<close>) both write out: Kahn's algorithm
  with a heap of the nodes whose prerequisites are done. The dictionaries of successors and
  indegrees are functions on the nodes, the heap of \<open>heapq\<close>, of which only the least element is
  ever taken, is a sorted list.

  The loop is a \<open>partial_function\<close>: it returns \<open>None\<close> if it never ends. The lemmas: it always ends,
  with the greedy order that takes the least available node each time, which exists exactly if the
  dependencies are acyclic.
\<close>

section \<open>The algorithm\<close>

type_synonym 'a edge = "'a \<times> 'a"

fun add_edges :: "'a edge list \<Rightarrow> ('a \<Rightarrow> 'a list) \<Rightarrow> ('a \<Rightarrow> int) \<Rightarrow> ('a \<Rightarrow> 'a list) \<times> ('a \<Rightarrow> int)" where
  "add_edges [] successors indegree = (successors, indegree)"
| "add_edges ((prerequisite, dependent) # es) successors indegree =
     (if dependent \<in> set (successors prerequisite) then add_edges es successors indegree
      else add_edges es (successors(prerequisite := successors prerequisite @ [dependent]))
             (indegree(dependent := indegree dependent + 1)))"

text \<open>The inner loop over the dependents of a node.\<close>

fun release :: "'a::linorder list \<Rightarrow> ('a \<Rightarrow> int) \<Rightarrow> 'a list \<Rightarrow> ('a \<Rightarrow> int) \<times> 'a list" where
  "release [] indegree ready = (indegree, ready)"
| "release (d # ds) indegree ready =
     (let indegree = indegree(d := indegree d - 1) in
      release ds indegree (if indegree d = 0 then insort d ready else ready))"

partial_function (option) kahn_loop ::
    "('a::linorder \<Rightarrow> 'a list) \<Rightarrow> ('a \<Rightarrow> int) \<Rightarrow> 'a list \<Rightarrow> 'a list \<Rightarrow> 'a list option" where
  "kahn_loop successors indegree ready ordered =
     (case ready of
        [] \<Rightarrow> Some ordered
      | node # rest \<Rightarrow>
          (case release (sort (successors node)) indegree rest of
             (indegree, ready) \<Rightarrow> kahn_loop successors indegree ready (ordered @ [node])))"

declare kahn_loop.simps [code]

definition kahn :: "'a::linorder list \<Rightarrow> 'a edge list \<Rightarrow> 'a list option" where
  "kahn nodes edges =
     (let (successors, indegree) = add_edges edges (\<lambda>_. []) (\<lambda>_. 0)
      in kahn_loop successors indegree (sort (filter (\<lambda>n. indegree n = 0) nodes)) [])"

section \<open>The greedy order\<close>

definition available :: "'a edge set \<Rightarrow> 'a set \<Rightarrow> 'a set \<Rightarrow> 'a set" where
  "available E N done = {n \<in> N - done. \<forall>p. (p, n) \<in> E \<longrightarrow> p \<in> done}"

text \<open>Each node of the list is the least one available after those before it.\<close>

fun greedy :: "'a::linorder edge set \<Rightarrow> 'a set \<Rightarrow> 'a set \<Rightarrow> 'a list \<Rightarrow> bool" where
  "greedy E N done [] = True"
| "greedy E N done (x # xs) =
     (x \<in> available E N done \<and> (\<forall>y \<in> available E N done. x \<le> y) \<and> greedy E N (insert x done) xs)"

definition stable_order :: "'a::linorder edge set \<Rightarrow> 'a set \<Rightarrow> 'a list \<Rightarrow> bool" where
  "stable_order E N xs \<longleftrightarrow> greedy E N {} xs \<and> set xs = N"

lemma greedy_append:
  "greedy E N done (xs @ ys) \<longleftrightarrow> greedy E N done xs \<and> greedy E N (done \<union> set xs) ys"
  by (induction xs arbitrary: "done") auto

lemma greedy_distinct: "greedy E N done xs \<Longrightarrow> distinct xs \<and> set xs \<inter> done = {} \<and> set xs \<subseteq> N"
  by (induction xs arbitrary: "done") (auto simp: available_def)

lemma greedy_prerequisites:
  assumes "greedy E N done (xs @ y # ys)" and "(p, y) \<in> E"
  shows "p \<in> done \<union> set xs"
  using assms by (auto simp: greedy_append available_def)

text \<open>The order is determined by the sets of nodes and edges.\<close>

lemma greedy_unique:
  assumes "greedy E N done xs" and "greedy E N done ys" and "length xs = length ys"
  shows "xs = ys"
  using assms
proof (induction xs arbitrary: ys "done")
  case (Cons x xs)
  then obtain y zs where ys: "ys = y # zs" by (cases ys) auto
  with Cons.prems have "x = y" by (auto intro: antisym)
  with Cons ys show ?case by auto
qed simp

lemma stable_order_unique:
  assumes "stable_order E N xs" and "stable_order E N ys"
  shows "xs = ys"
proof -
  have "length xs = length ys"
    using assms greedy_distinct unfolding stable_order_def by (metis distinct_card)
  then show ?thesis using assms greedy_unique unfolding stable_order_def by blast
qed

text \<open>A node is available as long as some are left, if the edges are acyclic.\<close>

lemma available_nonempty:
  assumes "finite N" and "E \<subseteq> N \<times> N" and "acyclic E" and "done \<subset> N"
  shows "available E N done \<noteq> {}"
proof -
  have "finite E" using assms(1,2) by (meson finite_SigmaI finite_subset)
  then have "wf E" using assms(3) by (rule finite_acyclic_wf)
  moreover obtain m where "m \<in> N - done" using assms(4) by blast
  ultimately have "\<exists>z \<in> N - done. \<forall>y. (y, z) \<in> E \<longrightarrow> y \<notin> N - done"
    unfolding wf_eq_minimal by blast
  then obtain z where z: "z \<in> N - done" "\<And>y. (y, z) \<in> E \<Longrightarrow> y \<notin> N - done"
    by blast
  then have "z \<in> available E N done" using assms(2) by (auto simp: available_def)
  then show ?thesis by blast
qed

lemma greedy_complete_acyclic:
  assumes "greedy E N {} xs" and "set xs = N" and "E \<subseteq> N \<times> N"
  shows "acyclic E"
proof -
  define pos where "pos x = (THE i. i < length xs \<and> xs ! i = x)" for x
  have d: "distinct xs" using greedy_distinct[OF assms(1)] by simp
  have pos: "pos (xs ! i) = i" if "i < length xs" for i
    unfolding pos_def using d that by (intro the_equality) (auto simp: nth_eq_iff_index_eq)
  have "pos p < pos y" if "(p, y) \<in> E" for p y
  proof -
    from that assms(2,3) have "y \<in> set xs" by auto
    then obtain i where i: "i < length xs" "xs ! i = y" by (auto simp: in_set_conv_nth)
    then have "xs = take i xs @ y # drop (Suc i) xs" by (metis id_take_nth_drop)
    with assms(1) have "greedy E N {} (take i xs @ y # drop (Suc i) xs)" by simp
    from greedy_prerequisites[OF this that] have "p \<in> set (take i xs)" by simp
    then obtain j where "j < i" "xs ! j = p" using i by (auto simp: in_set_conv_nth)
    with i pos show ?thesis by force
  qed
  then have "E \<subseteq> measure pos" by auto
  then show ?thesis by (meson acyclic_subset wf_acyclic wf_measure)
qed

section \<open>The loop computes it\<close>

text \<open>After some edges: successors without duplicates, indegrees count prerequisites.\<close>

definition counts :: "'a edge set \<Rightarrow> ('a \<Rightarrow> 'a list) \<Rightarrow> ('a \<Rightarrow> int) \<Rightarrow> bool" where
  "counts E successors indegree \<longleftrightarrow>
     (\<forall>p. distinct (successors p) \<and> set (successors p) = {n. (p, n) \<in> E}) \<and>
     (\<forall>n. indegree n = int (card {p. (p, n) \<in> E}))"

lemma add_edges_counts:
  assumes "counts E s i" and "finite E" and "add_edges es s i = (s', i')"
  shows "counts (E \<union> set es) s' i'"
  using assms
proof (induction es arbitrary: E s i)
  case Nil
  then show ?case by simp
next
  case (Cons e es)
  obtain p d where e: "e = (p, d)" by (cases e)
  show ?case
  proof (cases "d \<in> set (s p)")
    case True
    with Cons.prems(1) have "(p, d) \<in> E" by (simp add: counts_def)
    then have "E \<union> set (e # es) = E \<union> set es" by (auto simp: e)
    with Cons True show ?thesis by (simp add: e)
  next
    case False
    with Cons.prems(1) have new: "(p, d) \<notin> E" by (simp add: counts_def)
    let ?s = "s(p := s p @ [d])" and ?i = "i(d := i d + 1)"
    have "{q. (q, d) \<in> insert (p, d) E} = insert p {q. (q, d) \<in> E}" by auto
    moreover have "finite {q. (q, d) \<in> E}"
      by (rule finite_subset[OF _ finite_imageI[OF Cons.prems(2), of fst]]) force
    moreover have "{q. (q, n) \<in> insert (p, d) E} = {q. (q, n) \<in> E}" if "n \<noteq> d" for n using that by auto
    moreover have "{n. (q, n) \<in> insert (p, d) E} = (if q = p then insert d {n. (q, n) \<in> E} else {n. (q, n) \<in> E})" for q
      by auto
    ultimately have "counts (insert (p, d) E) ?s ?i"
      using Cons.prems(1) new False by (simp add: counts_def card_insert_disjoint)
    moreover have "add_edges es ?s ?i = (s', i')" using Cons.prems(3) False by (simp add: e)
    ultimately have "counts (insert (p, d) E \<union> set es) s' i'"
      using Cons.IH Cons.prems(2) by blast
    then show ?thesis by (simp add: e insert_commute Un_commute)
  qed
qed

lemma release_result:
  assumes "release ds indegree ready = (indegree', ready')" and "distinct ds" and "sorted ready"
  shows "indegree' = (\<lambda>n. indegree n - (if n \<in> set ds then 1 else 0))"
    and "sorted ready'" and "set ready' = set ready \<union> {d \<in> set ds. indegree d = 1}"
    and "distinct ready \<Longrightarrow> set ds \<inter> set ready = {} \<Longrightarrow> distinct ready'"
proof -
  have "indegree' = (\<lambda>n. indegree n - (if n \<in> set ds then 1 else 0)) \<and> sorted ready' \<and>
     set ready' = set ready \<union> {d \<in> set ds. indegree d = 1} \<and>
     (distinct ready \<longrightarrow> set ds \<inter> set ready = {} \<longrightarrow> distinct ready')"
    using assms
  proof (induction ds arbitrary: indegree ready)
    case Nil
    then show ?case by simp
  next
    case (Cons d ds)
    let ?i = "indegree(d := indegree d - 1)"
    let ?r = "if ?i d = 0 then insort d ready else ready"
    have rel: "release ds ?i ?r = (indegree', ready')" using Cons.prems(1) by (simp add: Let_def)
    have srt: "sorted ?r" using Cons.prems(3) by (simp add: sorted_insort)
    have dd: "d \<notin> set ds" "distinct ds" using Cons.prems(2) by simp_all
    note ih = Cons.IH[OF rel dd(2) srt]
    have "indegree' = (\<lambda>n. indegree n - (if n \<in> set (d # ds) then 1 else 0))"
      using ih[THEN conjunct1] dd(1) by (simp add: fun_eq_iff)
    moreover have "set ready' = set ready \<union> {e \<in> set (d # ds). indegree e = 1}"
    proof -
      have "{e \<in> set ds. ?i e = 1} = {e \<in> set ds. indegree e = 1}" using dd(1) by auto
      with ih show ?thesis by (auto simp: set_insort_key)
    qed
    moreover have "distinct ready \<longrightarrow> set (d # ds) \<inter> set ready = {} \<longrightarrow> distinct ready'"
      using ih dd(1) by (auto simp: distinct_insort set_insort_key)
    ultimately show ?case using ih by blast
  qed
  then show "indegree' = (\<lambda>n. indegree n - (if n \<in> set ds then 1 else 0))"
    and "sorted ready'" and "set ready' = set ready \<union> {d \<in> set ds. indegree d = 1}"
    and "distinct ready \<Longrightarrow> set ds \<inter> set ready = {} \<Longrightarrow> distinct ready'" by blast+
qed

text \<open>The state of the loop: the heap holds the available nodes.\<close>

definition loop_state ::
    "'a::linorder edge set \<Rightarrow> 'a set \<Rightarrow> ('a \<Rightarrow> 'a list) \<Rightarrow> ('a \<Rightarrow> int) \<Rightarrow> 'a list \<Rightarrow> 'a list \<Rightarrow> bool" where
  "loop_state E N successors indegree ready ordered \<longleftrightarrow>
     (\<forall>p. distinct (successors p) \<and> set (successors p) = {n. (p, n) \<in> E}) \<and>
     (\<forall>n. indegree n = int (card {p. (p, n) \<in> E \<and> p \<notin> set ordered})) \<and>
     sorted ready \<and> distinct ready \<and> set ready = available E N (set ordered) \<and>
     greedy E N {} ordered"

lemma loop_state_step:
  assumes inv: "loop_state E N successors indegree (node # rest) ordered"
    and fin: "finite E" and sub: "E \<subseteq> N \<times> N"
    and rel: "release (sort (successors node)) indegree rest = (indegree', ready')"
  shows "loop_state E N successors indegree' ready' (ordered @ [node])"
proof -
  let ?done = "set ordered"
  have succ: "\<forall>p. distinct (successors p) \<and> set (successors p) = {n. (p, n) \<in> E}"
    and ind: "\<And>n. indegree n = int (card {p. (p, n) \<in> E \<and> p \<notin> ?done})"
    and srt: "sorted rest" and dis: "distinct rest" "node \<notin> set rest"
    and av: "insert node (set rest) = available E N ?done" and gr: "greedy E N {} ordered"
    and least: "\<forall>y \<in> available E N ?done. node \<le> y"
    using inv by (auto simp: loop_state_def)
  have node: "node \<in> available E N ?done" using av by blast
  then have new: "node \<notin> ?done" by (simp add: available_def)
  have finp: "finite {p. (p, n) \<in> E \<and> p \<notin> D}" for n D
    by (rule finite_subset[OF _ finite_imageI[OF fin, of fst]]) force
  have ds: "distinct (sort (successors node))" "set (sort (successors node)) = {n. (node, n) \<in> E}"
    using succ by simp_all
  have disj: "{n. (node, n) \<in> E} \<inter> set rest = {}"
  proof -
    have "node \<in> ?done" if "(node, n) \<in> E" "n \<in> set rest" for n
      using that av by (auto simp: available_def)
    with new show ?thesis by blast
  qed
  note r = release_result[OF rel ds(1) srt]
  have ind': "indegree' n = int (card {p. (p, n) \<in> E \<and> p \<notin> set (ordered @ [node])})" for n
  proof (cases "(node, n) \<in> E")
    case True
    then have "{p. (p, n) \<in> E \<and> p \<notin> ?done} = insert node {p. (p, n) \<in> E \<and> p \<notin> set (ordered @ [node])}"
      using new by auto
    then have "card {p. (p, n) \<in> E \<and> p \<notin> ?done} = Suc (card {p. (p, n) \<in> E \<and> p \<notin> set (ordered @ [node])})"
      using finp[of n "set (ordered @ [node])"] by simp
    with True succ show ?thesis by (simp add: r(1) ind)
  next
    case False
    then have "{p. (p, n) \<in> E \<and> p \<notin> ?done} = {p. (p, n) \<in> E \<and> p \<notin> set (ordered @ [node])}" by auto
    with False succ show ?thesis by (simp add: r(1) ind)
  qed
  have one: "indegree n = 1 \<longleftrightarrow> (\<forall>p. (p, n) \<in> E \<longrightarrow> p \<in> insert node ?done)" if "(node, n) \<in> E" for n
  proof -
    have "indegree n = 1 \<longleftrightarrow> indegree' n = 0" using that succ by (simp add: r(1))
    also have "\<dots> \<longleftrightarrow> {p. (p, n) \<in> E \<and> p \<notin> set (ordered @ [node])} = {}"
      unfolding ind' using finp[of n "set (ordered @ [node])"] by simp
    finally show ?thesis by auto
  qed
  have "set ready' = available E N (set (ordered @ [node]))"
  proof -
    have "n \<in> set rest \<or> (node, n) \<in> E \<and> indegree n = 1 \<longleftrightarrow> n \<in> available E N (insert node ?done)" for n
    proof (cases "(node, n) \<in> E")
      case True
      have "n \<notin> ?done"
      proof
        assume "n \<in> ?done"
        then obtain xs ys where "ordered = xs @ n # ys" by (meson split_list)
        with gr greedy_prerequisites[of E N "{}" xs n ys node] True new show False by auto
      qed
      moreover have "n \<noteq> node" using True node new by (auto simp: available_def)
      moreover have "n \<in> N" using True sub by auto
      ultimately show ?thesis using True disj one[OF True] by (auto simp: available_def)
    next
      case False
      then have "n \<in> available E N (insert node ?done) \<longleftrightarrow> n \<in> available E N ?done \<and> n \<noteq> node"
        by (auto simp: available_def)
      with False av dis(2) show ?thesis by auto
    qed
    then show ?thesis unfolding r(3) ds(2) by auto
  qed
  moreover have "distinct ready'" using r(4) dis(1) disj ds(2) by simp
  moreover have "greedy E N {} (ordered @ [node])"
    using gr node least by (simp add: greedy_append)
  ultimately show ?thesis
    unfolding loop_state_def using succ ind' r(2) by blast
qed

lemma kahn_loop_ends:
  assumes "loop_state E N successors indegree ready ordered" and "finite N" and "E \<subseteq> N \<times> N"
  shows "\<exists>xs. kahn_loop successors indegree ready ordered = Some xs \<and> greedy E N {} xs \<and>
    available E N (set xs) = {}"
  using assms
proof (induction "card (N - set ordered)" arbitrary: indegree ready ordered rule: less_induct)
  case less
  have finE: "finite E" using less.prems(2,3) by (meson finite_SigmaI finite_subset)
  show ?case
  proof (cases ready)
    case Nil
    with less.prems(1) show ?thesis by (simp add: kahn_loop.simps loop_state_def)
  next
    case (Cons node rest)
    obtain i r where rel: "release (sort (successors node)) indegree rest = (i, r)" by fastforce
    have inv: "loop_state E N successors i r (ordered @ [node])"
    proof (rule loop_state_step)
      show "loop_state E N successors indegree (node # rest) ordered" using less.prems(1) Cons by simp
    qed (fact finE less.prems(3) rel)+
    have "node \<in> available E N (set ordered)" using less.prems(1) Cons by (auto simp: loop_state_def)
    then have "N - set (ordered @ [node]) \<subset> N - set ordered" by (auto simp: available_def)
    then have "card (N - set (ordered @ [node])) < card (N - set ordered)"
      using less.prems(2) by (intro psubset_card_mono) auto
    from less.hyps[OF this inv less.prems(2,3)] show ?thesis
      by (subst kahn_loop.simps) (simp add: Cons rel)
  qed
qed

text \<open>The algorithm ends; its result is complete exactly for acyclic edges.\<close>

lemma kahn_result:
  assumes "set edges \<subseteq> set nodes \<times> set nodes" and "distinct nodes"
  shows "\<exists>xs. kahn nodes edges = Some xs \<and> greedy (set edges) (set nodes) {} xs \<and>
    (length xs = length nodes \<longleftrightarrow> acyclic (set edges))"
proof -
  let ?E = "set edges" and ?N = "set nodes"
  obtain s i where add: "add_edges edges (\<lambda>_. []) (\<lambda>_. 0) = (s, i)" by fastforce
  have "counts {} (\<lambda>_. []) (\<lambda>_. 0)" by (simp add: counts_def)
  from add_edges_counts[OF this _ add] have c: "counts ?E s i" by simp
  have finp: "finite {p. (p, n) \<in> ?E}" for n
    by (rule finite_subset[of _ "fst ` ?E"]) (force, simp)
  have "loop_state ?E ?N s i (sort (filter (\<lambda>n. i n = 0) nodes)) []"
    unfolding loop_state_def
  proof (intro conjI)
    show "set (sort (filter (\<lambda>n. i n = 0) nodes)) = available ?E ?N (set [])"
      using c finp by (auto simp: counts_def available_def card_eq_0_iff)
  qed (use c assms(2) in \<open>simp_all add: counts_def\<close>)
  from kahn_loop_ends[OF this _ assms(1)] obtain xs where
    xs: "kahn_loop s i (sort (filter (\<lambda>n. i n = 0) nodes)) [] = Some xs"
      "greedy ?E ?N {} xs" "available ?E ?N (set xs) = {}" by auto
  have d: "distinct xs" "set xs \<subseteq> ?N" using greedy_distinct[OF xs(2)] by simp_all
  have "length xs = length nodes \<longleftrightarrow> set xs = ?N"
    using d assms(2) by (metis card_subset_eq List.finite_set distinct_card)
  also have "\<dots> \<longleftrightarrow> acyclic ?E"
    using greedy_complete_acyclic[OF xs(2) _ assms(1)] available_nonempty[OF _ assms(1), of "set xs"] xs(3) d(2)
    by auto
  finally show ?thesis using xs(1,2) add by (simp add: kahn_def)
qed

end
