(* ===== verification/Fixture_Cleanup.thy ===== *)
theory Fixture_Cleanup
  imports Run_Store Topological_Order Path_Rendering
begin

text \<open>
  Model of \<open>qualification/fixtures.py\<close>: the registry of the fixtures a sandbox run created at the
  provider, and the coordinator that cleans them up in reverse dependency order over a
  \<open>QualificationRunStore\<close>. The adapter that cleans one fixture is a parameter, as is the random
  handle of a new fixture; \<open>co_calls\<close> records the handles the adapter was called for, in order.
  The coordinator awaits each call, so cleanups of one coordinator are sequential here.
\<close>

section \<open>The registry\<close>

datatype cleanup_outcome = OutcomeCleaned | OutcomeFailed | OutcomeUnclear

record cleanup_target =
  ct_handle :: string
  ct_provider_id :: string
  ct_action_ref :: "string \<times> string"
  ct_cleanup_action_ref :: "string \<times> string"
  ct_depends_on :: "string list"

record registry =
  rg_run_id :: string
  rg_fixtures :: "cleanup_target list"
  rg_claimed :: "string list"
  rg_halted :: bool

definition new_registry :: "string \<Rightarrow> registry result" where
  "new_registry run_id =
     ebind (validate_run_id run_id) (\<lambda>checked.
       Inr \<lparr>rg_run_id = checked, rg_fixtures = [], rg_claimed = [], rg_halted = False\<rparr>)"

definition public_reference :: "cleanup_target \<Rightarrow> fixture_reference" where
  "public_reference f =
     \<lparr>fr_handle = ct_handle f, fr_action_id = fst (ct_action_ref f),
      fr_version_id = snd (ct_action_ref f), fr_cleanup_action_id = fst (ct_cleanup_action_ref f),
      fr_cleanup_version_id = snd (ct_cleanup_action_ref f), fr_depends_on = ct_depends_on f\<rparr>"

definition references :: "registry \<Rightarrow> fixture_reference list" where
  "references rg = map public_reference (sort_key ct_handle (rg_fixtures rg))"

definition register_fixture ::
    "string \<Rightarrow> string \<Rightarrow> string \<times> string \<Rightarrow> string \<times> string \<Rightarrow> string list \<Rightarrow> string option
       \<Rightarrow> registry \<Rightarrow> (string \<times> registry) result" where
  "register_fixture fresh_handle provider_id action_ref cleanup_action_ref depends_on handle rg =
     ebind (validate_fixture_handle
              (case handle of None \<Rightarrow> fresh_handle | Some h \<Rightarrow> if h = [] then fresh_handle else h)) (\<lambda>checked_handle.
     ebind (raise_if (checked_handle \<in> set (map ct_handle (rg_fixtures rg)))
             (ValueError ''fixture_handle_duplicate'')) (\<lambda>_.
     ebind (raise_if (provider_id = [] \<or> 2048 < char_count provider_id \<or> CHR 0x00 \<in> set provider_id)
             (ValueError ''fixture_provider_id_invalid'')) (\<lambda>_.
     ebind (validate_action_ref action_ref) (\<lambda>checked_action.
     ebind (validate_action_ref cleanup_action_ref) (\<lambda>checked_cleanup_action.
     ebind (case emap validate_fixture_handle depends_on of
              Inl e \<Rightarrow> Inl (ValueError ''fixture_dependency_invalid'') | Inr ds \<Rightarrow> Inr ds) (\<lambda>checked_dependencies.
     ebind (raise_if (\<not> distinct checked_dependencies) (ValueError ''fixture_dependency_duplicate'')) (\<lambda>_.
       Inr (checked_handle,
         rg\<lparr>rg_fixtures := rg_fixtures rg @
              [\<lparr>ct_handle = checked_handle, ct_provider_id = provider_id,
                ct_action_ref = checked_action, ct_cleanup_action_ref = checked_cleanup_action,
                ct_depends_on = checked_dependencies\<rparr>]\<rparr>))))))))"

definition dependency_edges :: "registry \<Rightarrow> string edge list" where
  "dependency_edges rg =
     concat (map (\<lambda>f. map (\<lambda>d. (d, ct_handle f)) (ct_depends_on f)) (rg_fixtures rg))"

text \<open>The ordered handles; \<open>None\<close> of the sort, which never happens, is an endless loop.\<close>

definition dependency_order :: "registry \<Rightarrow> cleanup_target list result" where
  "dependency_order rg =
     (let handles = map ct_handle (rg_fixtures rg) in
      if list_ex (\<lambda>(d, _). d \<notin> set handles) (dependency_edges rg)
      then Inl (ValueError ''fixture_dependency_missing'')
      else (case kahn handles (dependency_edges rg) of
              None \<Rightarrow> Inl (UnexpectedError ''no result'')
            | Some ordered \<Rightarrow>
                if length ordered \<noteq> length handles then Inl (ValueError ''fixture_dependency_cycle'')
                else Inr (map (\<lambda>h. the (find (\<lambda>f. ct_handle f = h) (rg_fixtures rg))) ordered)))"

definition claim_cleanup :: "string \<Rightarrow> registry \<Rightarrow> (bool \<times> registry) result" where
  "claim_cleanup handle rg =
     ebind (validate_fixture_handle handle) (\<lambda>checked.
       if checked \<notin> set (map ct_handle (rg_fixtures rg)) then Inl (ValueError ''fixture_handle_missing'')
       else if checked \<in> set (rg_claimed rg) then Inr (False, rg)
       else Inr (True, rg\<lparr>rg_claimed := checked # rg_claimed rg\<rparr>))"

section \<open>The coordinator\<close>

record cleanup_report =
  cr_attempted :: "string list"
  cr_cleaned :: "string list"
  cr_failed :: "string list"
  cr_outcome_unknown :: "string list"
  cr_run_state :: run_state
  cr_publication_allowed :: bool

definition validate_report :: "cleanup_report \<Rightarrow> cleanup_report result" where
  "validate_report r =
     (let groups = [cr_attempted r, cr_cleaned r, cr_failed r, cr_outcome_unknown r];
          outcomes = set (cr_cleaned r) \<union> set (cr_failed r) \<union> set (cr_outcome_unknown r) in
      ebind (emap (\<lambda>handles. ebind (raise_if (\<not> distinct handles) (ValueError ''cleanup_report_handle_duplicate''))
               (\<lambda>_. emap validate_fixture_handle handles)) groups) (\<lambda>_.
      ebind (raise_if (\<not> outcomes \<subseteq> set (cr_attempted r)) (ValueError ''cleanup_report_handle_invalid'')) (\<lambda>_.
      ebind (raise_if (set (cr_cleaned r) \<inter> set (cr_failed r) \<noteq> {} \<or>
                       set (cr_cleaned r) \<inter> set (cr_outcome_unknown r) \<noteq> {} \<or>
                       set (cr_failed r) \<inter> set (cr_outcome_unknown r) \<noteq> {})
              (ValueError ''cleanup_report_handle_invalid'')) (\<lambda>_.
      ebind (raise_if (cr_publication_allowed r \<and> cr_run_state r \<noteq> RunCompleted)
              (ValueError ''cleanup_report_state_invalid'')) (\<lambda>_. Inr r)))))"

record coordinator =
  co_registry :: registry
  co_store :: run_store
  co_calls :: "string list"

text \<open>
  What the adapter answers to its n-th call for a fixture; \<open>None\<close> if it raises or answers with
  something that is no \<open>CleanupOutcome\<close>.
\<close>

type_synonym adapter = "nat \<Rightarrow> cleanup_target \<Rightarrow> cleanup_outcome option"

definition on_store :: "(run_store, 'a) eff \<Rightarrow> (coordinator, 'a) eff" where
  "on_store m c = (case m (co_store c) of (r, st) \<Rightarrow> (r, c\<lparr>co_store := st\<rparr>))"

definition on_registry :: "(registry \<Rightarrow> ('a \<times> registry) result) \<Rightarrow> (coordinator, 'a) eff" where
  "on_registry f c =
     (case f (co_registry c) of
        Inl e \<Rightarrow> (Inl e, c)
      | Inr (x, rg) \<Rightarrow> (Inr x, c\<lparr>co_registry := rg\<rparr>))"

definition halt_cleanup :: "(coordinator, unit) eff" where
  "halt_cleanup = eput (\<lambda>c. c\<lparr>co_registry := (co_registry c)\<lparr>rg_halted := True\<rparr>\<rparr>)"

text \<open>\<open>except Exception: halt_cleanup(); raise\<close>\<close>

definition or_halt :: "(coordinator, 'a) eff \<Rightarrow> (coordinator, 'a) eff" where
  "or_halt m c =
     (case m c of
        (Inl e, c') \<Rightarrow> (Inl e, final halt_cleanup c')
      | (Inr x, c') \<Rightarrow> (Inr x, c'))"

definition call_adapter :: "adapter \<Rightarrow> cleanup_target \<Rightarrow> (coordinator, cleanup_outcome) eff" where
  "call_adapter adapter f c =
     (Inr (case adapter (length (co_calls c)) f of Some oc \<Rightarrow> oc | None \<Rightarrow> OutcomeFailed),
      c\<lparr>co_calls := co_calls c @ [ct_handle f]\<rparr>)"

type_synonym progress = "string list \<times> string list \<times> string list \<times> string list"

fun cleanup_loop :: "run_env \<Rightarrow> adapter \<Rightarrow> cleanup_target list \<Rightarrow> progress \<Rightarrow> (coordinator, progress) eff" where
  "cleanup_loop env adapter [] p = eret p"
| "cleanup_loop env adapter (f # fs) (attempted, cleaned, failed, unknown) =
     eseq (on_store (get_cleanup_status env (ct_handle f))) (\<lambda>status.
     if status \<noteq> CleanupPending then cleanup_loop env adapter fs (attempted, cleaned, failed, unknown)
     else
       eseq (on_registry (claim_cleanup (ct_handle f))) (\<lambda>claimed.
       if \<not> claimed then cleanup_loop env adapter fs (attempted, cleaned, failed, unknown)
       else
         eseq (call_adapter adapter f) (\<lambda>oc.
         (case oc of
            OutcomeCleaned \<Rightarrow>
              eseq (or_halt (on_store (mark_cleanup env (ct_handle f) ''cleaned''))) (\<lambda>_.
                cleanup_loop env adapter fs (attempted @ [ct_handle f], cleaned @ [ct_handle f], failed, unknown))
          | OutcomeFailed \<Rightarrow>
              eseq halt_cleanup (\<lambda>_.
              eseq (or_halt (on_store (quarantine_cleanup env (ct_handle f) ''failed''))) (\<lambda>_.
                eret (attempted @ [ct_handle f], cleaned, failed @ [ct_handle f], unknown)))
          | OutcomeUnclear \<Rightarrow>
              eseq halt_cleanup (\<lambda>_.
              eseq (or_halt (on_store (quarantine_cleanup env (ct_handle f) ''outcome_unknown''))) (\<lambda>_.
                eret (attempted @ [ct_handle f], cleaned, failed, unknown @ [ct_handle f])))))))"

definition make_report :: "run_env \<Rightarrow> progress \<Rightarrow> (coordinator, cleanup_report) eff" where
  "make_report env p =
     (case p of (attempted, cleaned, failed, unknown) \<Rightarrow>
       eseq (on_store (get_state env)) (\<lambda>st.
       eseq (on_store (publication_allowed env)) (\<lambda>allowed.
         elift (validate_report
           \<lparr>cr_attempted = attempted, cr_cleaned = cleaned, cr_failed = failed,
            cr_outcome_unknown = unknown, cr_run_state = st, cr_publication_allowed = allowed\<rparr>))))"

definition no_progress :: progress where
  "no_progress = ([], [], [], [])"

definition finish_cleanup :: "run_env \<Rightarrow> progress \<Rightarrow> (coordinator, cleanup_report) eff" where
  "finish_cleanup env p =
     (case p of (attempted, cleaned, failed, unknown) \<Rightarrow>
       eseq (if failed = [] \<and> unknown = [] then or_halt (on_store (complete_run env)) else eret ()) (\<lambda>_.
         make_report env p))"

definition cleanup :: "run_env \<Rightarrow> adapter \<Rightarrow> (coordinator, cleanup_report) eff" where
  "cleanup env adapter =
     eseq (eget (rg_halted \<circ> co_registry)) (\<lambda>halted.
     if halted then make_report env no_progress
     else
       eseq (on_store (get_state env)) (\<lambda>st.
       if st = RunQuarantined then make_report env no_progress
       else
         eseq (eget (dependency_order \<circ> co_registry)) (\<lambda>ordered.
         eseq (elift ordered) (\<lambda>order.
         eseq (on_store (get_state env)) (\<lambda>st.
         eseq (if st = RunFailed
               then eseq (eget (references \<circ> co_registry)) (\<lambda>refs. on_store (record_fixtures env refs))
               else eret ()) (\<lambda>_.
         eseq (on_store (get_state env)) (\<lambda>st.
         if st = RunCompleted then make_report env no_progress
         else
           eseq (cleanup_loop env adapter (rev order) no_progress) (finish_cleanup env))))))))"

text \<open>The constructor's check that both are about the same run.\<close>

definition new_coordinator :: "registry \<Rightarrow> run_store \<Rightarrow> coordinator result" where
  "new_coordinator rg st =
     (if rg_run_id rg \<noteq> rs_run_id st then Inl (ValueError ''qualification_run_store_mismatch'')
      else Inr \<lparr>co_registry = rg, co_store = st, co_calls = []\<rparr>)"
section \<open>The dependency order\<close>

lemma set_dependency_edges:
  "(d, h) \<in> set (dependency_edges rg) \<longleftrightarrow> (\<exists>f \<in> set (rg_fixtures rg). h = ct_handle f \<and> d \<in> set (ct_depends_on f))"
  by (auto simp: dependency_edges_def)

lemma find_handle:
  "distinct (map ct_handle fs) \<Longrightarrow> f \<in> set fs \<Longrightarrow> find (\<lambda>g. ct_handle g = ct_handle f) fs = Some f"
  by (induction fs) force+

lemma map_find_handles:
  assumes "distinct (map ct_handle fs)" and "set hs \<subseteq> ct_handle ` set fs"
  shows "map ct_handle (map (\<lambda>h. the (find (\<lambda>f. ct_handle f = h) fs)) hs) = hs"
    and "set (map (\<lambda>h. the (find (\<lambda>f. ct_handle f = h) fs)) hs) \<subseteq> set fs"
  using assms by (induction hs) (auto simp: find_handle)

lemma dependency_order_cases:
  assumes "distinct (map ct_handle (rg_fixtures rg))"
  shows "case dependency_order rg of
      Inr order \<Rightarrow> set order = set (rg_fixtures rg) \<and>
        stable_order (set (dependency_edges rg)) (ct_handle ` set (rg_fixtures rg)) (map ct_handle order)
    | Inl e \<Rightarrow>
        e = ValueError ''fixture_dependency_missing'' \<and>
          \<not> set (dependency_edges rg) \<subseteq> (ct_handle ` set (rg_fixtures rg)) \<times> UNIV \<or>
        e = ValueError ''fixture_dependency_cycle'' \<and> \<not> acyclic (set (dependency_edges rg))"
proof -
  let ?hs = "map ct_handle (rg_fixtures rg)" and ?E = "set (dependency_edges rg)"
  show ?thesis
  proof (cases "list_ex (\<lambda>(d, _). d \<notin> set ?hs) (dependency_edges rg)")
    case True
    then show ?thesis by (fastforce simp: dependency_order_def list_ex_iff)
  next
    case False
    then have "?E \<subseteq> set ?hs \<times> set ?hs"
      by (auto simp: list_ex_iff set_dependency_edges)
    from kahn_result[OF this assms] obtain xs where
      k: "kahn ?hs (dependency_edges rg) = Some xs" and g: "greedy ?E (set ?hs) {} xs"
      and len: "length xs = length ?hs \<longleftrightarrow> acyclic ?E" by blast
    note d = greedy_distinct[OF g]
    show ?thesis
    proof (cases "acyclic ?E")
      case True
      with len d assms have all: "set xs = ct_handle ` set (rg_fixtures rg)"
        by (metis card_subset_eq List.finite_set distinct_card set_map)
      define order where "order = map (\<lambda>h. the (find (\<lambda>f. ct_handle f = h) (rg_fixtures rg))) xs"
      have m: "map ct_handle order = xs" "set order \<subseteq> set (rg_fixtures rg)"
        using map_find_handles[OF assms, of xs] all by (simp_all add: order_def)
      have "set (rg_fixtures rg) \<subseteq> set order"
      proof
        fix f assume f: "f \<in> set (rg_fixtures rg)"
        then have "ct_handle f \<in> set xs" using all by blast
        with find_handle[OF assms f] show "f \<in> set order" by (force simp: order_def)
      qed
      with m(2) have s: "set order = set (rg_fixtures rg)" by blast
      have st: "stable_order ?E (ct_handle ` set (rg_fixtures rg)) (map ct_handle order)"
        using g all by (simp add: stable_order_def m(1))
      have "dependency_order rg = Inr order"
        using False k len True by (simp add: dependency_order_def order_def)
      then show ?thesis using s st by simp
    next
      case cyc: False
      with False k len show ?thesis by (simp add: dependency_order_def)
    qed
  qed
qed


text \<open>
  C25: The cleanup order. The order of the registered fixtures takes, each time, the least handle
  whose dependencies are all taken, so it lists every fixture once and after everything it depends
  on; it fails exactly for an unknown dependency or a cycle, and the sort always ends.
\<close>

theorem dependency_order_exact:
  assumes "distinct (map ct_handle (rg_fixtures rg))"
  shows "case dependency_order rg of
      Inr order \<Rightarrow> set order = set (rg_fixtures rg) \<and>
        stable_order (set (dependency_edges rg)) (ct_handle ` set (rg_fixtures rg)) (map ct_handle order)
    | Inl e \<Rightarrow>
        e = ValueError ''fixture_dependency_missing'' \<and>
          \<not> set (dependency_edges rg) \<subseteq> (ct_handle ` set (rg_fixtures rg)) \<times> UNIV \<or>
        e = ValueError ''fixture_dependency_cycle'' \<and> \<not> acyclic (set (dependency_edges rg))"
  using assms by (rule dependency_order_cases)

text \<open>A registry to look at: two fixtures, the second one depends on the first.\<close>

definition second_handle :: string where
  "second_handle = ''fx_00000000000000000000000001''"

definition sample_target :: "string \<Rightarrow> string list \<Rightarrow> cleanup_target" where
  "sample_target handle deps = \<lparr>ct_handle = handle, ct_provider_id = ''p'',
     ct_action_ref = (fr_action_id sample_fixture, fr_version_id sample_fixture),
     ct_cleanup_action_ref = (fr_cleanup_action_id sample_fixture, fr_cleanup_version_id sample_fixture),
     ct_depends_on = deps\<rparr>"

definition sample_registry :: registry where
  "sample_registry = \<lparr>rg_run_id = sample_run_id,
     rg_fixtures = [sample_target second_handle [sample_handle], sample_target sample_handle []],
     rg_claimed = [], rg_halted = False\<rparr>"

definition ordered_handles :: "registry \<Rightarrow> string list" where
  "ordered_handles rg = (case dependency_order rg of Inr order \<Rightarrow> map ct_handle order | Inl e \<Rightarrow> [])"

theorem dependency_order_exact_witness:
  "stable_order {(sample_handle, second_handle)} {sample_handle, second_handle} (ordered_handles sample_registry)"
proof -
  have d: "distinct (map ct_handle (rg_fixtures sample_registry))" by code_simp
  have e: "set (dependency_edges sample_registry) = {(sample_handle, second_handle)}"
    "ct_handle ` set (rg_fixtures sample_registry) = {sample_handle, second_handle}"
    by (auto simp: dependency_edges_def sample_registry_def sample_target_def)
  have "ordered_handles sample_registry = [sample_handle, second_handle]" by code_simp
  then show ?thesis
    using dependency_order_exact[OF d] by (cases "dependency_order sample_registry") (simp_all add: ordered_handles_def e)
qed
section \<open>What the coordinator needs of the store\<close>

text \<open>A cleanup that is recorded as done, failed or unclear.\<close>

definition settled :: "run_store \<Rightarrow> string \<Rightarrow> bool" where
  "settled s h \<longleftrightarrow> list_ex (\<lambda>f. fr_handle f = h \<and> sf_cleanup_status f \<noteq> CleanupPending) (rr_fixtures (rs_record s))"

lemma wp_cleanup_status:
  assumes "\<And>st s'. unchanged s s' \<Longrightarrow> (st \<noteq> CleanupPending \<Longrightarrow> settled s h) \<Longrightarrow> Q (Inr st) s'"
    and "\<And>e s'. unchanged s s' \<Longrightarrow> Q (Inl e) s'"
  shows "wp (get_cleanup_status env h) Q s"
  unfolding get_cleanup_status_def
  apply simp
  apply (intro wp_binding; simp add: assms split: sum.split option.split)
  apply (intro allI impI)
  apply (rule assms(1), simp)
  apply (auto simp: settled_def list_ex_iff unchanged_def find_Some_iff validate_fixture_handle_def split: if_splits)
  done

lemma merge_fixtures_settled:
  "merge_fixtures env now new (existing, changed) = Inr (merged, changed') \<Longrightarrow> f \<in> set merged \<Longrightarrow>
     sf_cleanup_status f \<noteq> CleanupPending \<Longrightarrow> f \<in> set existing"
proof (induction new arbitrary: existing changed)
  case (Cons g gs)
  from Cons.prems(1) show ?case
  proof (cases "find (\<lambda>f. fr_handle f = fr_handle g) existing")
    case None
    with Cons.prems(1) have "merge_fixtures env now gs (existing @ [new_fixture now g], True) = Inr (merged, changed')"
      by (simp add: outcome_simps split: if_splits del: ebind_raise_if)
    from Cons.IH[OF this Cons.prems(2,3)] Cons.prems(3) show ?thesis
      by (auto simp: new_fixture_def)
  next
    case (Some current)
    with Cons.prems(1) have "merge_fixtures env now gs (existing, changed) = Inr (merged, changed')"
      by (simp add: outcome_simps split: if_splits del: ebind_raise_if)
    from Cons.IH[OF this Cons.prems(2,3)] show ?thesis .
  qed
qed simp

lemma merge_fixtures_recorded:
  "merge_fixtures env now new (existing, changed) = Inr (merged, changed') \<Longrightarrow> g \<in> set new \<Longrightarrow>
     fr_handle g \<in> fr_handle ` set merged"
proof (induction new arbitrary: existing changed)
  case (Cons f fs)
  show ?case
  proof (cases "find (\<lambda>h. fr_handle h = fr_handle f) existing")
    case None
    with Cons.prems(1) have r: "merge_fixtures env now fs (existing @ [new_fixture now f], True) = Inr (merged, changed')"
      by (simp add: outcome_simps split: if_splits del: ebind_raise_if)
    have "fr_handle f \<in> fr_handle ` set merged"
      using merge_fixtures_kept[OF r] by (force simp: new_fixture_def)
    with Cons.IH[OF r] Cons.prems(2) show ?thesis by auto
  next
    case (Some current)
    with Cons.prems(1) have r: "merge_fixtures env now fs (existing, changed) = Inr (merged, changed')"
      by (simp add: outcome_simps split: if_splits del: ebind_raise_if)
    have "fr_handle f \<in> fr_handle ` set merged"
      using merge_fixtures_kept[OF r] Some by (auto simp: find_Some_iff image_iff) (metis nth_mem subsetD)
    with Cons.IH[OF r] Cons.prems(2) show ?thesis by auto
  qed
qed simp

lemma merge_fixtures_unchanged:
  "merge_fixtures env now new (existing, changed) = Inr (merged, False) \<Longrightarrow> merged = existing \<and> \<not> changed"
proof (induction new arbitrary: existing changed)
  case (Cons f fs)
  then show ?case
    by (cases "find (\<lambda>h. fr_handle h = fr_handle f) existing")
      (force simp: outcome_simps split: if_splits simp del: ebind_raise_if)+
qed simp

lemma record_fixtures_effect:
  "wp (record_fixtures env new) (\<lambda>r s'. (\<forall>h. settled s' h \<longrightarrow> settled s h) \<and>
     (r = Inr () \<longrightarrow> (\<forall>g \<in> set new. fr_handle g \<in> fr_handle ` set (rr_fixtures (rs_record s'))))) s"
  unfolding record_fixtures_def
  apply simp
  apply (intro impI wp_get_state; simp add: unchanged_def settled_def)
  apply (intro impI wp_get_state; simp add: unchanged_def settled_def)
  apply (intro impI wp_clock; simp add: unchanged_def settled_def)
  apply (simp split: sum.split add: split_def)
  apply (intro allI impI conjI wp_replace)
       apply (simp_all add: settled_def list_ex_iff)
      subgoal by clarsimp (metis merge_fixtures_settled)
     subgoal by clarsimp (metis merge_fixtures_recorded)
  subgoal by clarsimp (metis merge_fixtures_unchanged merge_fixtures_recorded)
  done

lemma mark_fixtures_others:
  "mark_fixtures env handle now fs = Inr (updated, found, changed) \<Longrightarrow>
     list_all2 (\<lambda>f f'. f' = f \<or> fr_handle f' = handle) fs updated"
proof (induction fs arbitrary: updated found changed)
  case (Cons f fs)
  then show ?case
    by (auto simp: outcome_simps set_cleanup_def split: if_splits)
qed simp

lemma list_all2_source: "list_all2 P xs ys \<Longrightarrow> y \<in> set ys \<Longrightarrow> \<exists>x \<in> set xs. P x y"
  by (metis in_set_conv_nth list_all2_conv_all_nth)

lemma mark_cleanup_effect:
  "wp (mark_cleanup env handle status) (\<lambda>r s'. \<forall>h. settled s' h \<longrightarrow> settled s h \<or> h = handle) s"
  unfolding mark_cleanup_def
  apply (simp split: sum.split)
  apply (intro allI impI wp_clock; simp add: unchanged_def settled_def)
  apply (intro allI impI wp_replace; simp add: settled_def)
  apply (auto simp: list_ex_iff validate_fixture_handle_def split: if_splits
      dest!: mark_fixtures_others list_all2_source)
  done
section \<open>The cleanup loop\<close>

lemma wp_any: "(\<And>r s'. Q r s') \<Longrightarrow> wp m Q s"
  by (simp add: wp_def)

lemma wp_on_store [simp]:
  "wp (on_store m) Q c = wp m (\<lambda>r st. Q r (c\<lparr>co_store := st\<rparr>)) (co_store c)"
  by (simp add: wp_def outcome_def final_def on_store_def split: prod.splits)

lemma wp_on_registry [simp]:
  "wp (on_registry f) Q c =
     (case f (co_registry c) of Inl e \<Rightarrow> Q (Inl e) c | Inr (x, rg) \<Rightarrow> Q (Inr x) (c\<lparr>co_registry := rg\<rparr>))"
  by (simp add: wp_def outcome_def final_def on_registry_def split: prod.splits sum.splits)

lemma wp_halt [simp]:
  "wp halt_cleanup Q c = Q (Inr ()) (c\<lparr>co_registry := (co_registry c)\<lparr>rg_halted := True\<rparr>\<rparr>)"
  by (simp add: halt_cleanup_def)

lemma wp_or_halt [simp]:
  "wp (or_halt m) Q c =
     wp m (\<lambda>r c'. case r of Inl e \<Rightarrow> Q (Inl e) (c'\<lparr>co_registry := (co_registry c')\<lparr>rg_halted := True\<rparr>\<rparr>)
                          | Inr x \<Rightarrow> Q (Inr x) c') c"
  by (simp add: wp_def outcome_def final_def or_halt_def halt_cleanup_def eput_def split: prod.splits sum.splits)

lemma wp_call [simp]:
  "wp (call_adapter adapter f) Q c =
     Q (Inr (case adapter (length (co_calls c)) f of Some oc \<Rightarrow> oc | None \<Rightarrow> OutcomeFailed))
       (c\<lparr>co_calls := co_calls c @ [ct_handle f]\<rparr>)"
  by (simp add: wp_def outcome_def final_def call_adapter_def)

text \<open>\<open>new\<close> are handles of \<open>hs\<close> in order; those left out are skippable, or after the last of \<open>new\<close>.\<close>

fun covers :: "('a \<Rightarrow> bool) \<Rightarrow> 'a list \<Rightarrow> 'a list \<Rightarrow> bool" where
  "covers skip [] new \<longleftrightarrow> new = []"
| "covers skip (h # hs) new \<longleftrightarrow>
     new = [] \<or> skip h \<and> covers skip hs new \<or> (case new of [] \<Rightarrow> False | d # ds \<Rightarrow> d = h \<and> covers skip hs ds)"

lemma covers_Nil [simp]: "covers skip hs []"
  by (cases hs) simp_all

lemma covers_mono: "covers skip hs new \<Longrightarrow> (\<And>h. h \<in> set hs \<Longrightarrow> skip h \<Longrightarrow> skip' h) \<Longrightarrow> covers skip' hs new"
  by (induction hs arbitrary: new) (auto split: list.splits)

lemma covers_set: "covers skip hs new \<Longrightarrow> set new \<subseteq> set hs"
  by (induction hs arbitrary: new) (force split: list.splits)+

lemma covers_distinct: "covers skip hs new \<Longrightarrow> distinct hs \<Longrightarrow> distinct new"
proof (induction hs arbitrary: new)
  case (Cons h hs)
  from Cons.prems(1) consider "new = []" | "covers skip hs new" | ds where "new = h # ds" "covers skip hs ds"
    by (auto split: list.splits)
  then show ?case
  proof cases
    case 3
    with Cons.IH[OF 3(2)] covers_set[OF 3(2)] Cons.prems(2) show ?thesis by auto
  qed (use Cons in simp_all)
qed simp

text \<open>What stands before a called handle was called before it or could be skipped.\<close>

lemma covers_before:
  "covers skip (us @ d # vs) new \<Longrightarrow> distinct (us @ d # vs) \<Longrightarrow> new = xs @ d # ys \<Longrightarrow> u \<in> set us \<Longrightarrow>
     skip u \<or> u \<in> set xs"
proof (induction us arbitrary: new xs)
  case (Cons h us)
  from Cons.prems(1,3) consider "skip h" "covers skip (us @ d # vs) new"
    | ds where "new = h # ds" "covers skip (us @ d # vs) ds"
    by (auto split: list.splits)
  then show ?case
  proof cases
    case 1
    with Cons.IH[OF 1(2) _ Cons.prems(3)] Cons.prems(2,4) show ?thesis by auto
  next
    case 2
    with Cons.prems(2,3) obtain xs' where xs: "xs = h # xs'" "ds = xs' @ d # ys"
      by (cases xs) auto
    with Cons.IH[OF 2(2) _ xs(2)] Cons.prems(2,4) show ?thesis by auto
  qed
qed simp

definition skippable :: "coordinator \<Rightarrow> string \<Rightarrow> bool" where
  "skippable c h \<longleftrightarrow> settled (co_store c) h \<or> h \<in> set (rg_claimed (co_registry c))"

text \<open>The calls made between two states for a list of fixtures.\<close>

definition calls_made :: "string list \<Rightarrow> coordinator \<Rightarrow> coordinator \<Rightarrow> bool" where
  "calls_made hs c c' \<longleftrightarrow>
     (\<exists>new. co_calls c' = co_calls c @ new \<and> covers (skippable c) hs new \<and>
        set new \<inter> set (rg_claimed (co_registry c)) = {} \<and>
        set (rg_claimed (co_registry c')) = set (rg_claimed (co_registry c)) \<union> set new \<and>
        rg_fixtures (co_registry c') = rg_fixtures (co_registry c))"

lemma calls_made_none:
  "co_calls c' = co_calls c \<Longrightarrow> rg_claimed (co_registry c') = rg_claimed (co_registry c) \<Longrightarrow>
     rg_fixtures (co_registry c') = rg_fixtures (co_registry c) \<Longrightarrow> calls_made hs c c'"
  by (simp add: calls_made_def)

lemma calls_made_skip:
  assumes "calls_made hs c1 c'" and "skippable c h"
    and "co_calls c1 = co_calls c" and "co_registry c1 = co_registry c" and "rs_record (co_store c1) = rs_record (co_store c)"
  shows "calls_made (h # hs) c c'"
proof -
  have "skippable c1 = skippable c" using assms(4,5) by (simp add: skippable_def settled_def fun_eq_iff)
  then show ?thesis using assms by (auto simp: calls_made_def)
qed

lemma calls_made_call:
  assumes "calls_made hs c1 c'" and "h \<notin> set hs" and "h \<notin> set (rg_claimed (co_registry c))"
    and "co_calls c1 = co_calls c @ [h]" and "set (rg_claimed (co_registry c1)) = insert h (set (rg_claimed (co_registry c)))"
    and "rg_fixtures (co_registry c1) = rg_fixtures (co_registry c)"
    and "\<And>g. settled (co_store c1) g \<Longrightarrow> settled (co_store c) g \<or> g = h"
  shows "calls_made (h # hs) c c'"
proof -
  from assms(1) obtain new where new: "co_calls c' = co_calls c1 @ new" "covers (skippable c1) hs new"
    "set new \<inter> set (rg_claimed (co_registry c1)) = {}"
    "set (rg_claimed (co_registry c')) = set (rg_claimed (co_registry c1)) \<union> set new"
    "rg_fixtures (co_registry c') = rg_fixtures (co_registry c1)"
    unfolding calls_made_def by blast
  have "covers (skippable c) hs new"
    by (rule covers_mono[OF new(2)]) (use assms(2,5,7) in \<open>auto simp: skippable_def\<close>)
  then show ?thesis
    unfolding calls_made_def using new assms(3-6) by (intro exI[of _ "h # new"]) auto
qed

lemma claim_cleanup_cases:
  "claim_cleanup h rg = Inr (claimed, rg') \<Longrightarrow>
     (claimed \<longrightarrow> h \<notin> set (rg_claimed rg) \<and> rg' = rg\<lparr>rg_claimed := h # rg_claimed rg\<rparr>) \<and>
     (\<not> claimed \<longrightarrow> h \<in> set (rg_claimed rg) \<and> rg' = rg)"
  by (auto simp: claim_cleanup_def outcome_simps validate_fixture_handle_def split: if_splits)

lemma cleanup_loop_calls:
  "distinct (map ct_handle fs) \<Longrightarrow>
     wp (cleanup_loop env adapter fs p) (\<lambda>r. calls_made (map ct_handle fs) c) c"
proof (induction fs arbitrary: p c)
  case Nil
  then show ?case by (simp add: calls_made_none)
next
  case (Cons f fs)
  obtain attempted cleaned failed unknown where p: "p = (attempted, cleaned, failed, unknown)" by (cases p)
  have fresh: "ct_handle f \<notin> set (map ct_handle fs)" "distinct (map ct_handle fs)"
    using Cons.prems by auto
  have called: "calls_made (ct_handle f # map ct_handle fs) c c'"
    if "co_calls c' = co_calls c @ [ct_handle f]"
      and "ct_handle f \<notin> set (rg_claimed (co_registry c))"
      and "rg_claimed (co_registry c') = ct_handle f # rg_claimed (co_registry c)"
      and "rg_fixtures (co_registry c') = rg_fixtures (co_registry c)" for c'
    using that unfolding calls_made_def by (intro exI[of _ "[ct_handle f]"]) simp
  show ?case
    unfolding p
    apply simp
    apply (rule wp_cleanup_status)
     defer
     apply (simp add: calls_made_none)
    apply simp
    apply (intro conjI impI)
     apply (rule wp_mono[OF Cons.IH[OF fresh(2)]])
     apply (erule calls_made_skip; simp add: skippable_def unchanged_def)
    apply (simp split: sum.split)
    apply (intro conjI allI impI)
     apply (simp add: calls_made_none)
     apply (drule claim_cleanup_cases)
     apply (rule wp_mono[OF Cons.IH[OF fresh(2)]])
     apply (erule calls_made_skip; simp add: skippable_def unchanged_def)
    apply (drule claim_cleanup_cases)
    apply (split cleanup_outcome.split; intro conjI impI; simp)
      apply (rule wp_mono[OF mark_cleanup_effect])
      apply (simp split: sum.split)
      apply (intro conjI allI impI)
       apply (rule called; simp)
      apply (rule wp_mono[OF Cons.IH[OF fresh(2)]])
      apply (erule calls_made_call)
           apply (use fresh(1) in \<open>simp_all add: settled_def unchanged_def\<close>)
     apply (rule wp_any; simp split: sum.split; intro conjI impI allI; rule called; simp)+
    done
qed
section \<open>A whole cleanup\<close>

lemma calls_made_from:
  assumes "calls_made hs c1 c'" and "co_calls c1 = co_calls c" and "co_registry c1 = co_registry c"
    and "\<And>h. settled (co_store c1) h \<Longrightarrow> settled (co_store c) h"
  shows "calls_made hs c c'"
proof -
  have "skippable c1 h \<Longrightarrow> skippable c h" for h using assms(3,4) by (auto simp: skippable_def)
  then show ?thesis using assms(1-3) unfolding calls_made_def by (auto intro: covers_mono)
qed

lemma calls_made_store [simp]: "calls_made hs c0 (c\<lparr>co_store := st\<rparr>) = calls_made hs c0 c"
  by (simp add: calls_made_def)

lemma calls_made_halt [simp]:
  "calls_made hs c0 (c\<lparr>co_store := st, co_registry := (co_registry c)\<lparr>rg_halted := True\<rparr>\<rparr>) = calls_made hs c0 c"
  by (simp add: calls_made_def)

lemma make_report_calls: "calls_made hs c0 c \<Longrightarrow> wp (make_report env p) (\<lambda>r. calls_made hs c0) c"
  unfolding make_report_def
  apply (cases p; simp)
  apply (intro impI wp_any; simp split: sum.split)
  apply (intro allI impI wp_any; simp split: sum.split)
  done

lemma finish_cleanup_calls: "calls_made hs c0 c \<Longrightarrow> wp (finish_cleanup env p) (\<lambda>r. calls_made hs c0) c"
  unfolding finish_cleanup_def
  apply (cases p; simp add: make_report_calls)
  apply (intro impI wp_any; simp split: sum.split add: make_report_calls)
  done

definition cleanup_handles :: "coordinator \<Rightarrow> string list" where
  "cleanup_handles c =
     (case dependency_order (co_registry c) of Inr order \<Rightarrow> rev (map ct_handle order) | Inl e \<Rightarrow> [])"

lemma dependency_order_distinct:
  assumes "distinct (map ct_handle (rg_fixtures rg))" and "dependency_order rg = Inr order"
  shows "distinct (map ct_handle order)" and "set order = set (rg_fixtures rg)"
    and "stable_order (set (dependency_edges rg)) (ct_handle ` set (rg_fixtures rg)) (map ct_handle order)"
proof -
  have "set order = set (rg_fixtures rg) \<and>
    stable_order (set (dependency_edges rg)) (ct_handle ` set (rg_fixtures rg)) (map ct_handle order)"
    using dependency_order_cases[OF assms(1)] assms(2) by simp
  then show "set order = set (rg_fixtures rg)"
    and "stable_order (set (dependency_edges rg)) (ct_handle ` set (rg_fixtures rg)) (map ct_handle order)"
    by blast+
  then show "distinct (map ct_handle order)"
    using greedy_distinct unfolding stable_order_def by blast
qed

lemma cleanup_calls:
  assumes d: "distinct (map ct_handle (rg_fixtures (co_registry c)))"
  shows "wp (cleanup env adapter) (\<lambda>r. calls_made (cleanup_handles c) c) c"
proof (cases "dependency_order (co_registry c)")
  case (Inl e)
  then show ?thesis
    unfolding cleanup_def
    apply (simp add: make_report_calls calls_made_none)
    apply (intro impI wp_any)
    apply (simp split: sum.split add: make_report_calls calls_made_none)
    done
next
  case (Inr order)
  have dis: "distinct (map ct_handle (rev order))"
    using dependency_order_distinct(1)[OF d Inr] by (simp add: rev_map[symmetric])
  have hs: "cleanup_handles c = map ct_handle (rev order)"
    by (simp add: cleanup_handles_def Inr rev_map)
  have loop: "wp (cleanup_loop env adapter (rev order) p)
      (\<lambda>r c'. ((\<exists>x1. r = Inl x1) \<longrightarrow> calls_made (cleanup_handles c) c c') \<and>
        (\<forall>a1 a2 a3 a4. r = Inr (a1, a2, a3, a4) \<longrightarrow>
           wp (finish_cleanup env (a1, a2, a3, a4)) (\<lambda>r. calls_made (cleanup_handles c) c) c')) c1"
    if "co_calls c1 = co_calls c" "co_registry c1 = co_registry c"
      "\<And>h. settled (co_store c1) h \<Longrightarrow> settled (co_store c) h" for p c1
    apply (rule wp_mono[OF cleanup_loop_calls[OF dis]])
    apply (drule calls_made_from[OF _ that]; simp add: hs finish_cleanup_calls)
    done
  show ?thesis
    unfolding cleanup_def
    apply (simp add: make_report_calls calls_made_none)
    apply (intro impI wp_get_state; simp add: make_report_calls calls_made_none Inr)
    apply (intro impI wp_get_state; simp add: make_report_calls calls_made_none Inr)
    apply (intro impI conjI)
     apply (rule wp_mono[OF record_fixtures_effect])
     apply (simp split: sum.split add: calls_made_none)
     apply (intro impI wp_get_state; simp add: make_report_calls calls_made_none split: sum.split)
     apply (intro impI loop; simp add: settled_def unchanged_def)
    apply (intro impI wp_get_state; simp add: make_report_calls calls_made_none split: sum.split)
    apply (intro impI loop; simp add: settled_def unchanged_def)
    done
qed
section \<open>Properties of the coordinator\<close>

definition called_first :: "coordinator \<Rightarrow> string list \<Rightarrow> string \<Rightarrow> bool" where
  "called_first c before d \<longleftrightarrow>
     list_all (\<lambda>f. d \<in> set (ct_depends_on f) \<longrightarrow> ct_handle f \<in> set before \<or> skippable c (ct_handle f))
       (rg_fixtures (co_registry c))"

definition new_calls :: "coordinator \<Rightarrow> coordinator \<Rightarrow> string list" where
  "new_calls c c' = drop (length (co_calls c)) (co_calls c')"

text \<open>
  C22: Dependents first. In one cleanup the adapter is called at most once per fixture, only for
  fixtures that no earlier cleanup claimed, and before it is called for a fixture every registered
  fixture that depends on it was called, was already settled in the store, or was claimed by an
  earlier cleanup.
\<close>

theorem dependents_cleaned_first:
  assumes "distinct (map ct_handle (rg_fixtures (co_registry c)))"
    and "c' = final (cleanup env adapter) c"
  shows "co_calls c' = co_calls c @ new_calls c c' \<and> distinct (new_calls c c') \<and>
    set (new_calls c c') \<inter> set (rg_claimed (co_registry c)) = {} \<and>
    list_all (\<lambda>i. called_first c (take i (new_calls c c')) (new_calls c c' ! i)) [0..<length (new_calls c c')]"
proof -
  have "calls_made (cleanup_handles c) c c'"
    using cleanup_calls[OF assms(1), of env adapter] by (simp add: wp_final assms(2))
  then obtain new where new: "co_calls c' = co_calls c @ new" "covers (skippable c) (cleanup_handles c) new"
    "set new \<inter> set (rg_claimed (co_registry c)) = {}"
    unfolding calls_made_def by blast
  have nc: "new_calls c c' = new" by (simp add: new_calls_def new(1))
  have dis: "distinct (cleanup_handles c)"
    using dependency_order_distinct(1)[OF assms(1)] by (auto simp: cleanup_handles_def split: sum.split)
  have first: "called_first c (take i new) (new ! i)" if i: "i < length new" for i
    unfolding called_first_def list_all_iff
  proof (intro ballI impI)
    fix f assume f: "f \<in> set (rg_fixtures (co_registry c))" "new ! i \<in> set (ct_depends_on f)"
    have mem: "new ! i \<in> set (cleanup_handles c)" using covers_set[OF new(2)] i by auto
    then obtain order where o: "dependency_order (co_registry c) = Inr order"
      by (cases "dependency_order (co_registry c)") (auto simp: cleanup_handles_def)
    have hd: "cleanup_handles c = rev (map ct_handle order)" by (simp add: cleanup_handles_def o)
    note so = dependency_order_distinct(2,3)[OF assms(1) o]
    have "ct_handle f \<in> set (map ct_handle order)" using f(1) so(1) by simp
    then obtain xs ys where split: "map ct_handle order = xs @ ct_handle f # ys" by (meson split_list)
    have edge: "(new ! i, ct_handle f) \<in> set (dependency_edges (co_registry c))"
      using f by (auto simp: set_dependency_edges)
    have "greedy (set (dependency_edges (co_registry c))) (ct_handle ` set (rg_fixtures (co_registry c))) {}
        (xs @ ct_handle f # ys)"
      using so(2) split by (simp add: stable_order_def)
    from greedy_prerequisites[OF this edge] have "new ! i \<in> set xs" by simp
    then obtain us vs where xs: "xs = us @ new ! i # vs" by (meson split_list)
    have hs: "cleanup_handles c = (rev ys @ ct_handle f # rev vs) @ new ! i # rev us"
      by (simp add: hd split xs)
    show "ct_handle f \<in> set (take i new) \<or> skippable c (ct_handle f)"
      using covers_before[OF new(2)[unfolded hs] dis[unfolded hs] id_take_nth_drop[OF i], of "ct_handle f"]
      by auto
  qed
  have "list_all (\<lambda>i. called_first c (take i new) (new ! i)) [0..<length new]"
    using first by (simp add: list_all_iff)
  then show ?thesis using new(1,3) covers_distinct[OF new(2) dis] by (simp add: nc)
qed

definition sample_coordinator :: coordinator where
  "sample_coordinator = \<lparr>co_registry = sample_registry, co_store = fresh_store, co_calls = []\<rparr>"

definition clean_adapter :: adapter where
  "clean_adapter n f = Some OutcomeCleaned"

theorem dependents_cleaned_first_witness:
  "co_calls (final (cleanup sample_env clean_adapter) sample_coordinator) = [second_handle, sample_handle] \<and>
   called_first sample_coordinator [second_handle] sample_handle"
proof -
  let ?c' = "final (cleanup sample_env clean_adapter) sample_coordinator"
  have d: "distinct (map ct_handle (rg_fixtures (co_registry sample_coordinator)))" by code_simp
  have calls: "co_calls ?c' = [second_handle, sample_handle]" by code_simp
  have "new_calls sample_coordinator ?c' = [second_handle, sample_handle]"
    by (simp add: new_calls_def calls) (simp add: sample_coordinator_def)
  with dependents_cleaned_first[OF d refl, of sample_env clean_adapter] calls show ?thesis
    by (simp add: upt_rec)
qed

datatype coordinator_op =
    RegisterFixture string string "string \<times> string" "string \<times> string" "string list" "string option"
  | RunCleanup adapter

fun coordinator_step :: "run_env \<Rightarrow> coordinator_op \<Rightarrow> coordinator \<Rightarrow> coordinator" where
  "coordinator_step env (RegisterFixture fresh provider action cleanup_action deps handle) c =
     final (on_registry (register_fixture fresh provider action cleanup_action deps handle)) c"
| "coordinator_step env (RunCleanup adapter) c = final (cleanup env adapter) c"

definition calls_claimed :: "coordinator \<Rightarrow> bool" where
  "calls_claimed c \<longleftrightarrow>
     distinct (map ct_handle (rg_fixtures (co_registry c))) \<and>
     distinct (co_calls c) \<and> set (co_calls c) \<subseteq> set (rg_claimed (co_registry c))"

lemma register_fixture_kept:
  "register_fixture fresh provider action cleanup_action deps handle rg = Inr (h, rg') \<Longrightarrow>
     rg_claimed rg' = rg_claimed rg \<and>
     (distinct (map ct_handle (rg_fixtures rg)) \<longrightarrow> distinct (map ct_handle (rg_fixtures rg')))"
  by (auto simp: register_fixture_def outcome_simps simp del: ebind_raise_if)

lemma calls_claimed_step: "calls_claimed c \<Longrightarrow> calls_claimed (coordinator_step env op c)"
proof (induction op)
  case (RegisterFixture fresh provider action cleanup_action deps handle)
  then show ?case
    by (auto simp: calls_claimed_def final_def on_registry_def split: sum.split prod.split
        dest!: register_fixture_kept)
next
  case (RunCleanup adapter)
  then have d: "distinct (map ct_handle (rg_fixtures (co_registry c)))" by (simp add: calls_claimed_def)
  have "calls_made (cleanup_handles c) c (final (cleanup env adapter) c)"
    using cleanup_calls[OF d, of env adapter] by (simp add: wp_final)
  then obtain new where new: "co_calls (final (cleanup env adapter) c) = co_calls c @ new"
    "covers (skippable c) (cleanup_handles c) new"
    "set new \<inter> set (rg_claimed (co_registry c)) = {}"
    "set (rg_claimed (co_registry (final (cleanup env adapter) c))) = set (rg_claimed (co_registry c)) \<union> set new"
    "rg_fixtures (co_registry (final (cleanup env adapter) c)) = rg_fixtures (co_registry c)"
    unfolding calls_made_def by blast
  have "distinct (cleanup_handles c)"
    using dependency_order_distinct(1)[OF d] by (auto simp: cleanup_handles_def split: sum.split)
  from covers_distinct[OF new(2) this] show ?case
    using RunCleanup new by (auto simp: calls_claimed_def)
qed

text \<open>
  C24: Registering fixtures and running cleanups in any order, with any adapter answers and any
  failing writes, the adapter is called at most once for every fixture.
\<close>

theorem fixture_cleaned_at_most_once:
  assumes "new_registry run_id = Inr rg" and "new_coordinator rg st = Inr c"
  shows "distinct (co_calls (run_all (coordinator_step env) ops c))"
proof -
  have "calls_claimed c"
    using assms by (auto simp: new_registry_def new_coordinator_def calls_claimed_def outcome_simps split: if_splits)
  then have "calls_claimed (run_all (coordinator_step env) ops c)"
    by (induction ops arbitrary: c) (auto simp: run_all_def calls_claimed_step)
  then show ?thesis by (simp add: calls_claimed_def)
qed

definition empty_registry :: registry where
  "empty_registry = \<lparr>rg_run_id = sample_run_id, rg_fixtures = [], rg_claimed = [], rg_halted = False\<rparr>"

theorem fixture_cleaned_at_most_once_witness:
  "distinct (co_calls (run_all (coordinator_step sample_env) [RunCleanup clean_adapter, RunCleanup clean_adapter]
     \<lparr>co_registry = empty_registry, co_store = fresh_store, co_calls = []\<rparr>))"
proof (rule fixture_cleaned_at_most_once)
  have "validate_run_id sample_run_id = Inr sample_run_id" by code_simp
  then show "new_registry sample_run_id = Inr empty_registry" by (simp add: new_registry_def empty_registry_def)
  have "rs_run_id fresh_store = sample_run_id" by code_simp
  then show "new_coordinator empty_registry fresh_store =
      Inr \<lparr>co_registry = empty_registry, co_store = fresh_store, co_calls = []\<rparr>"
    by (simp add: new_coordinator_def empty_registry_def)
qed


text \<open>Everything registered is recorded as cleaned.\<close>

definition all_cleaned :: "coordinator \<Rightarrow> bool" where
  "all_cleaned c \<longleftrightarrow>
     list_all (\<lambda>f. list_ex (\<lambda>g. fr_handle g = ct_handle f \<and> sf_cleanup_status g = Cleaned)
                      (rr_fixtures (rs_record (co_store c)))) (rg_fixtures (co_registry c))"

text \<open>Everything registered is recorded, and the store goes on validly.\<close>

definition recorded_run :: "run_env \<Rightarrow> coordinator \<Rightarrow> bool" where
  "recorded_run env c \<longleftrightarrow> run_valid env (co_store c) \<and>
     list_all (\<lambda>f. list_ex (\<lambda>g. fr_handle g = ct_handle f) (rr_fixtures (rs_record (co_store c))))
       (rg_fixtures (co_registry c))"

lemma recorded_run_goes_on:
  assumes "recorded_run env c" and "goes_on env (co_store c) st"
    and "rg_fixtures (co_registry c') = rg_fixtures (co_registry c)" and "co_store c' = st"
  shows "recorded_run env c'"
proof -
  have k: "fixtures_kept (rr_fixtures (rs_record (co_store c))) (rr_fixtures (rs_record st))"
    using assms(2) by (simp add: goes_on_def run_evolves_def)
  have "\<exists>g' \<in> set (rr_fixtures (rs_record st)). fr_handle g' = fr_handle g"
    if "g \<in> set (rr_fixtures (rs_record (co_store c)))" for g
    using fixtures_keptD[OF k that] by (auto simp: fixture_kept_def reference_of_def)
  then show ?thesis
    using assms by (fastforce simp: recorded_run_def goes_on_def list_all_iff list_ex_iff)
qed

lemma recorded_run_method:
  assumes "\<And>s. run_valid env s \<Longrightarrow> wp m (\<lambda>r. goes_on env s) s" and "recorded_run env c"
    and "\<And>r st. recorded_run env (c\<lparr>co_store := st\<rparr>) \<Longrightarrow> Q r st"
  shows "wp m Q (co_store c)"
proof -
  have "run_valid env (co_store c)" using assms(2) by (simp add: recorded_run_def)
  then show ?thesis
    by (rule wp_mono[OF assms(1)]) (rule assms(3), rule recorded_run_goes_on[OF assms(2)], simp_all)
qed

lemma wp_cleanup_status_goes_on:
  "run_valid env s \<Longrightarrow> wp (get_cleanup_status env h) (\<lambda>r. goes_on env s) s"
  by (rule wp_cleanup_status) (simp_all add: goes_on_unchanged)

lemma recorded_run_halted [simp]:
  "recorded_run env (c\<lparr>co_registry := (co_registry c)\<lparr>rg_halted := b\<rparr>\<rparr>) = recorded_run env c"
  "recorded_run env (c\<lparr>co_registry := (co_registry c)\<lparr>rg_claimed := hs\<rparr>\<rparr>) = recorded_run env c"
  "recorded_run env (c\<lparr>co_calls := calls\<rparr>) = recorded_run env c"
  by (simp_all add: recorded_run_def)

lemma cleanup_loop_recorded:
  "recorded_run env c \<Longrightarrow> wp (cleanup_loop env adapter fs p) (\<lambda>r. recorded_run env) c"
proof (induction fs arbitrary: p c)
  case (Cons f fs)
  obtain attempted cleaned failed unknown where p: "p = (attempted, cleaned, failed, unknown)" by (cases p)
  have claim: "recorded_run env (c\<lparr>co_store := st, co_registry := rg\<rparr>)"
    if "recorded_run env (c\<lparr>co_store := st\<rparr>)" "claim_cleanup (ct_handle f) (co_registry c) = Inr (b, rg)" for b rg st
    using claim_cleanup_cases[OF that(2)] that(1) by (cases b) (auto simp: recorded_run_def)
  have store: "wp m Q st" if "\<And>s. run_valid env s \<Longrightarrow> wp m (\<lambda>r. goes_on env s) s"
      "recorded_run env (c\<lparr>co_store := st, co_registry := rg\<rparr>)"
      "\<And>r st. recorded_run env (c\<lparr>co_registry := rg, co_store := st\<rparr>) \<Longrightarrow> Q r st" for m Q st rg
    using recorded_run_method[of env m "c\<lparr>co_store := st, co_registry := rg\<rparr>" Q] that by simp
  show ?case
    unfolding p
    apply simp
    apply (rule recorded_run_method[OF wp_cleanup_status_goes_on Cons.prems], assumption)
    apply (simp split: sum.split add: Cons.IH)
    apply (intro conjI allI impI)
     apply (drule (1) claim, simp add: Cons.IH)
    apply (drule (1) claim)
    apply (split cleanup_outcome.split; intro conjI impI; simp)
      apply (rule store[OF mark_cleanup_goes_on], assumption, assumption)
      apply (simp split: sum.split)
      apply (intro conjI allI impI)
       apply (simp add: recorded_run_def)
      apply (rule Cons.IH, simp add: recorded_run_def)
     apply (rule store[OF quarantine_cleanup_goes_on], assumption, assumption;
        simp split: sum.split add: recorded_run_def)+
    done
qed simp
definition published :: "run_env \<Rightarrow> cleanup_report result \<Rightarrow> coordinator \<Rightarrow> bool" where
  "published env r c \<longleftrightarrow>
     (case r of Inl e \<Rightarrow> True
      | Inr report \<Rightarrow> cr_publication_allowed report \<longrightarrow> recorded_run env c \<and> may_publish (co_store c))"

lemma wp_publication_allowed:
  assumes "\<And>s'. unchanged s s' \<Longrightarrow> Q (Inr (may_publish s)) s'" and "\<And>e s'. unchanged s s' \<Longrightarrow> Q (Inl e) s'"
  shows "wp (Run_Store.publication_allowed env) Q s"
  unfolding Run_Store.publication_allowed_def
  by simp (intro wp_binding; use assms in \<open>simp add: may_publish_def unchanged_def\<close>)

lemma recorded_run_unchanged:
  "recorded_run env (c\<lparr>co_store := s\<rparr>) \<Longrightarrow> unchanged s st \<Longrightarrow> recorded_run env (c\<lparr>co_store := st\<rparr>)"
  by (simp add: recorded_run_def unchanged_def run_valid_def)

lemma validate_report_Inr: "validate_report r = Inr r' \<Longrightarrow> r' = r"
  by (auto simp: validate_report_def Let_def outcome_simps simp del: ebind_raise_if)

lemma published_Inl [simp]: "published env (Inl e) c"
  by (simp add: published_def)

lemma published_report:
  "(cr_publication_allowed report \<Longrightarrow> recorded_run env c \<and> may_publish (co_store c)) \<Longrightarrow>
     published env (validate_report report) c"
  by (cases "validate_report report") (auto simp: published_def dest: validate_report_Inr)

lemma make_report_published:
  assumes "may_publish (co_store c) \<Longrightarrow> recorded_run env c"
  shows "wp (make_report env p) (published env) c"
  unfolding make_report_def
  apply (cases p; simp)
  apply (rule wp_get_state; simp)
  apply (rule wp_publication_allowed; simp)
  apply (rule published_report)
  apply (use assms in \<open>auto simp: may_publish_def unchanged_def recorded_run_def run_valid_def\<close>)
  done

lemma finish_cleanup_published:
  assumes "recorded_run env c"
  shows "wp (finish_cleanup env p) (published env) c"
  unfolding finish_cleanup_def
  apply (cases p; simp)
  apply (intro conjI impI make_report_published assms)
  apply (rule recorded_run_method[OF complete_run_goes_on assms], assumption)
  apply (simp split: sum.split add: make_report_published)
  done

lemma references_recorded:
  assumes "run_valid env st"
    and "\<forall>g\<in>set (references (co_registry c)). fr_handle g \<in> fr_handle ` set (rr_fixtures (rs_record st))"
  shows "recorded_run env (c\<lparr>co_store := st\<rparr>)"
  using assms by (force simp: recorded_run_def references_def public_reference_def list_all_iff list_ex_iff)

lemma cleanup_published:
  assumes valid: "run_valid env (co_store c)" and failed: "rr_state (rs_record (co_store c)) = RunFailed"
  shows "wp (cleanup env adapter) (published env) c"
proof -
  have none: "\<not> may_publish st" if "unchanged (co_store c) st" for st
    using that failed by (simp add: may_publish_def unchanged_def)
  have loop: "wp (cleanup_loop env adapter fs p)
      (\<lambda>r c'. (\<forall>a1 a2 a3 a4. r = Inr (a1, a2, a3, a4) \<longrightarrow>
           wp (finish_cleanup env (a1, a2, a3, a4)) (published env) c')) c1"
    if "recorded_run env c1" for fs p c1
    by (rule wp_mono[OF cleanup_loop_recorded[OF that]]) (simp add: finish_cleanup_published)
  have rec: "wp (record_fixtures env (references (co_registry c)))
      (\<lambda>r st. run_valid env st \<and> (r = Inr () \<longrightarrow> recorded_run env (c\<lparr>co_store := st\<rparr>))) s"
    if "run_valid env s" for s
    using record_fixtures_effect[of env "references (co_registry c)" s]
      record_fixtures_goes_on[OF that, of "references (co_registry c)"]
    unfolding wp_def by (auto intro: references_recorded simp: goes_on_def)
  show ?thesis
    unfolding cleanup_def
    apply simp
    apply (intro conjI impI)
     apply (rule make_report_published, simp add: none)
    apply (rule wp_get_state; simp add: failed none)
    apply (simp split: sum.split)
    apply (intro allI impI wp_get_state; simp)
    apply (intro allI conjI impI)
     apply (rule wp_mono[OF rec])
      apply (use valid in \<open>simp add: run_valid_def unchanged_def\<close>)
     apply (intro impI wp_get_state; simp)
     apply (intro conjI impI make_report_published loop; auto intro: recorded_run_unchanged)
    apply (simp add: unchanged_def failed)
    done
qed

text \<open>
  C23: A cleanup that starts on a valid run in its initial state \<open>failed\<close> (every run that was opened
  is valid, whatever calls followed) and whose report allows publication has cleaned everything: the
  run is completed and every registered fixture is recorded in the store with its cleanup done.
\<close>

theorem published_cleanup_complete:
  assumes "run_valid env (co_store c)" and "rr_state (rs_record (co_store c)) = RunFailed"
    and "cleanup env adapter c = (Inr report, c')" and "cr_publication_allowed report"
  shows "rr_state (rs_record (co_store c')) = RunCompleted \<and> all_cleaned c'"
proof -
  have "published env (Inr report) c'"
    by (rule wp_D[OF cleanup_published[OF assms(1,2)] assms(3)])
  with assms(4) have r: "recorded_run env c'" and m: "may_publish (co_store c')" by (simp_all add: published_def)
  have fin: "rr_state (rs_record (co_store c')) = RunCompleted" using m by (simp add: may_publish_def)
  have "run_valid env (co_store c')" using r by (simp add: recorded_run_def)
  from run_valid_completed[OF this fin] r fin show ?thesis
    by (fastforce simp: recorded_run_def all_cleaned_def list_all_iff list_ex_iff)
qed

definition publishes :: "cleanup_report result \<Rightarrow> bool" where
  "publishes r = (case r of Inl e \<Rightarrow> False | Inr report \<Rightarrow> cr_publication_allowed report)"

theorem published_cleanup_complete_witness:
  "all_cleaned (final (cleanup sample_env clean_adapter) sample_coordinator)"
proof -
  let ?m = "cleanup sample_env clean_adapter sample_coordinator"
  have v: "run_valid sample_env (co_store sample_coordinator)"
    using wp_D[OF open_run_ok fresh_store_opened] by (simp add: opened_def sample_coordinator_def)
  have f: "rr_state (rs_record (co_store sample_coordinator)) = RunFailed"
    using wp_D[OF open_run_ok fresh_store_opened] by (simp add: opened_def sample_coordinator_def)
  have p: "publishes (fst ?m)" by code_simp
  obtain r c' where m: "?m = (r, c')" by (cases ?m)
  with p obtain report where "r = Inr report" "cr_publication_allowed report"
    by (cases r) (auto simp: publishes_def)
  with published_cleanup_complete[OF v f] m show ?thesis by (simp add: final_def)
qed

end
