(* ===== verification/Fixture_Planner.thy ===== *)
theory Fixture_Planner
  imports Topological_Order Run_Store
begin

text \<open>
  Model of the deterministic core of \<open>qualification/planner.py\<close>: the stable topological sort of
  action versions, the resolution of references to them and the order of a plan. An action identity
  is the pair of its action and version identifiers, compared lexicographically like a tuple.

  Of a reviewed policy and of a semantic contract the plan only uses the identities they belong to
  and the references they name; these are the arguments here. Their validation
  (\<open>qualification/manifest.py\<close>, \<open>qualification/models.py\<close>) is not modelled.
\<close>

type_synonym identity = "string \<times> string"

section \<open>The stable sort\<close>

definition node_identity :: "identity \<Rightarrow> identity result" where
  "node_identity v =
     (if fst v = [] \<or> snd v = [] then Inl (ValueError ''fixture_plan_node_missing'') else Inr v)"

fun check_edges :: "identity list \<Rightarrow> identity edge list \<Rightarrow> unit result" where
  "check_edges nodes [] = Inr ()"
| "check_edges nodes ((p, d) # es) =
     ebind (node_identity p) (\<lambda>prerequisite.
     ebind (node_identity d) (\<lambda>dependent.
       if prerequisite \<notin> set nodes \<or> dependent \<notin> set nodes
       then Inl (ValueError ''fixture_plan_node_missing'') else check_edges nodes es))"

definition stable_topological_sort :: "identity list \<Rightarrow> identity edge list \<Rightarrow> identity list result" where
  "stable_topological_sort nodes edges =
     ebind (emap node_identity nodes) (\<lambda>normalized_nodes.
     if \<not> distinct normalized_nodes then Inl (ValueError ''fixture_plan_node_duplicate'')
     else
       ebind (check_edges normalized_nodes edges) (\<lambda>_.
       case kahn normalized_nodes edges of
         None \<Rightarrow> Inl (UnexpectedError ''no result'')
       | Some ordered \<Rightarrow>
           if length ordered \<noteq> length normalized_nodes then Inl (ValueError ''fixture_plan_cycle'')
           else Inr ordered))"

section \<open>References and plans\<close>

text \<open>\<open>_versions_by_action\<close> and the lookup in it.\<close>

definition versions_of :: "identity list \<Rightarrow> string \<Rightarrow> identity list" where
  "versions_of identities action_id = sort (filter (\<lambda>i. fst i = action_id) identities)"

text \<open>\<open>str.partition("@")\<close>\<close>

definition partition_at :: "string \<Rightarrow> string \<times> bool \<times> string" where
  "partition_at v =
     (takeWhile (\<lambda>c. c \<noteq> CHR ''@'') v, CHR ''@'' \<in> set v, drop 1 (dropWhile (\<lambda>c. c \<noteq> CHR ''@'') v))"

definition resolve_reference :: "identity list \<Rightarrow> string \<Rightarrow> identity result" where
  "resolve_reference identities v =
     (let (action_id, separator, version_id) = partition_at v;
          candidates = versions_of identities action_id;
          missing = Inl (ValueError ''fixture_plan_node_missing'')
      in if separator then
           (if \<not> hex_id ''act_'' 24 action_id \<or> \<not> hex_id ''av_'' 64 version_id then missing
            else if (action_id, version_id) \<notin> set candidates then missing
            else Inr (action_id, version_id))
         else (case candidates of
                 [] \<Rightarrow> missing
               | [i] \<Rightarrow> Inr i
               | _ \<Rightarrow> Inl (ValueError ''fixture_plan_node_ambiguous'')))"

text \<open>The reviewed edges: for every policy an edge from each resolved prerequisite.\<close>

fun policy_edges :: "identity list \<Rightarrow> (identity \<times> string list) list \<Rightarrow> identity edge list result" where
  "policy_edges identities [] = Inr []"
| "policy_edges identities ((dependent, prerequisites) # ps) =
     ebind (emap (resolve_reference identities) prerequisites) (\<lambda>rs.
     ebind (policy_edges identities ps) (\<lambda>es. Inr (map (\<lambda>r. (r, dependent)) rs @ es)))"

text \<open>\<open>sorted(set)\<close>\<close>

definition sorted_set :: "'a::linorder list \<Rightarrow> 'a list" where
  "sorted_set xs = sort (remdups xs)"

text \<open>\<open>_semantic_recommendations\<close>: the edges to the next actions of every contract.\<close>

fun semantic_edges :: "identity list \<Rightarrow> (identity \<times> string list) list \<Rightarrow> identity edge list result" where
  "semantic_edges identities [] = Inr []"
| "semantic_edges identities ((prerequisite, next_actions) # cs) =
     ebind (emap (resolve_reference identities) next_actions) (\<lambda>rs.
     ebind (semantic_edges identities cs) (\<lambda>es. Inr (map (Pair prerequisite) rs @ es)))"

definition semantic_recommendations ::
    "identity list \<Rightarrow> (identity \<times> string list) list \<Rightarrow> identity edge list result" where
  "semantic_recommendations identities contracts =
     ebind (semantic_edges identities contracts) (\<lambda>es. Inr (sorted_set es))"

record fixture_plan =
  fp_execution_order :: "identity list"
  fp_reviewed_edges :: "identity edge list"
  fp_recommendations :: "identity edge list"
  fp_executable_actions :: "identity list"

text \<open>
  \<open>plan_fixture_dependencies\<close> after the validation of its arguments; \<open>executable\<close> tells for which
  actions the manifest's \<open>require_executable\<close> returns.
\<close>

definition plan_dependencies ::
    "identity list \<Rightarrow> (identity \<times> string list) list \<Rightarrow> (identity \<times> string list) list \<Rightarrow> (identity \<Rightarrow> bool)
       \<Rightarrow> fixture_plan result" where
  "plan_dependencies identities policies contracts executable =
     ebind (policy_edges identities policies) (\<lambda>reviewed.
     ebind (stable_topological_sort identities (sorted_set reviewed)) (\<lambda>execution_order.
     ebind (semantic_recommendations identities contracts) (\<lambda>recommendations.
       Inr \<lparr>fp_execution_order = execution_order,
            fp_reviewed_edges = sorted_set reviewed,
            fp_recommendations = recommendations,
            fp_executable_actions = filter executable (sort identities)\<rparr>)))"

section \<open>Lemmas\<close>

lemma emap_node_identity: "emap node_identity nodes = Inr ns \<longleftrightarrow> ns = nodes \<and> list_all (\<lambda>v. fst v \<noteq> [] \<and> snd v \<noteq> []) nodes"
  by (induction nodes arbitrary: ns) (auto simp: outcome_simps node_identity_def split: if_splits)

lemma emap_node_identity_error: "emap node_identity nodes = Inl e \<Longrightarrow> e = ValueError ''fixture_plan_node_missing''"
  by (induction nodes) (auto simp: outcome_simps node_identity_def split: if_splits)

definition plain_node :: "identity \<Rightarrow> bool" where
  "plain_node v \<longleftrightarrow> fst v \<noteq> [] \<and> snd v \<noteq> []"

lemma check_edges_Inr:
  "check_edges nodes es = Inr u \<longleftrightarrow>
     set es \<subseteq> set nodes \<times> set nodes \<and> list_all (\<lambda>(p, d). plain_node p \<and> plain_node d) es"
  by (induction es) (auto simp: outcome_simps node_identity_def plain_node_def split: if_splits)

lemma check_edges_error: "check_edges nodes es = Inl e \<Longrightarrow> e = ValueError ''fixture_plan_node_missing''"
  by (induction es) (auto simp: outcome_simps node_identity_def split: if_splits)

definition plain_input :: "identity list \<Rightarrow> identity edge list \<Rightarrow> bool" where
  "plain_input nodes edges \<longleftrightarrow> list_all plain_node nodes \<and> distinct nodes \<and> set edges \<subseteq> set nodes \<times> set nodes"

lemma stable_sort_cases:
  "case stable_topological_sort nodes edges of
     Inr xs \<Rightarrow> plain_input nodes edges \<and> stable_order (set edges) (set nodes) xs
   | Inl e \<Rightarrow> \<not> plain_input nodes edges \<or> \<not> acyclic (set edges) \<and> e = ValueError ''fixture_plan_cycle''"
proof (cases "plain_input nodes edges")
  case True
  then have n: "emap node_identity nodes = Inr nodes" and d: "distinct nodes"
    and sub: "set edges \<subseteq> set nodes \<times> set nodes" and pl: "list_all plain_node nodes"
    by (simp_all add: plain_input_def emap_node_identity plain_node_def list_all_iff)
  have c: "check_edges nodes edges = Inr ()"
    using sub pl by (auto simp: check_edges_Inr list_all_iff)
  from kahn_result[OF sub d] obtain xs where k: "kahn nodes edges = Some xs"
    "greedy (set edges) (set nodes) {} xs" "length xs = length nodes \<longleftrightarrow> acyclic (set edges)" by blast
  show ?thesis
  proof (cases "acyclic (set edges)")
    case ac: True
    with k d greedy_distinct[OF k(2)] have "set xs = set nodes"
      by (metis card_subset_eq List.finite_set distinct_card)
    with True ac k n c d show ?thesis by (simp add: stable_topological_sort_def stable_order_def)
  next
    case False
    with True k n c d show ?thesis by (simp add: stable_topological_sort_def)
  qed
next
  case False
  have "stable_topological_sort nodes edges \<noteq> Inr xs" for xs
  proof
    assume "stable_topological_sort nodes edges = Inr xs"
    then have "plain_input nodes edges"
      by (auto simp: stable_topological_sort_def outcome_simps emap_node_identity check_edges_Inr
          plain_input_def plain_node_def list_all_iff split: if_splits option.splits)
    with False show False by simp
  qed
  with False show ?thesis by (auto split: sum.split)
qed

lemma stable_order_acyclic:
  assumes "plain_input nodes edges" and "stable_order (set edges) (set nodes) xs"
  shows "acyclic (set edges)"
proof -
  have "set edges \<subseteq> set nodes \<times> set nodes" using assms(1) by (simp add: plain_input_def)
  then show ?thesis using greedy_complete_acyclic assms(2) unfolding stable_order_def by metis
qed

section \<open>Properties\<close>

text \<open>
  C26: The stable sort returns an order exactly for distinct, non-empty identities with edges
  between them that have no cycle; the order then lists every node once, and each is the least one
  whose prerequisites all stand before it. The loop always ends.
\<close>

theorem stable_topological_sort_exact:
  "(case stable_topological_sort nodes edges of
      Inr xs \<Rightarrow> plain_input nodes edges \<and> acyclic (set edges) \<and> stable_order (set edges) (set nodes) xs
    | Inl e \<Rightarrow> \<not> (plain_input nodes edges \<and> acyclic (set edges)))"
  using stable_sort_cases[of nodes edges] stable_order_acyclic[of nodes edges] by (auto split: sum.splits)

text \<open>
  The sort is stable: its result depends on the sets of nodes and edges only, not on the order
  or the repetition of the arguments.
\<close>

lemma stable_topological_sort_deterministic:
  assumes "stable_topological_sort nodes edges = Inr xs"
    and "distinct nodes'" and "set nodes' = set nodes" and "set edges' = set edges"
  shows "stable_topological_sort nodes' edges' = Inr xs"
proof -
  have 1: "plain_input nodes edges" "stable_order (set edges) (set nodes) xs"
    using stable_sort_cases[of nodes edges] assms(1) by simp_all
  then have p: "plain_input nodes' edges'" using assms(2-4) by (auto simp: plain_input_def list_all_iff)
  have ac: "acyclic (set edges')" using stable_order_acyclic[OF 1] assms(4) by simp
  show ?thesis
  proof (cases "stable_topological_sort nodes' edges'")
    case (Inl e)
    with stable_sort_cases[of nodes' edges'] p ac show ?thesis by simp
  next
    case (Inr ys)
    with stable_sort_cases[of nodes' edges'] have "stable_order (set edges') (set nodes') ys" by simp
    with 1(2) assms(3,4) stable_order_unique[of "set edges" "set nodes" xs ys] Inr show ?thesis by simp
  qed
qed

definition before_in :: "'a list \<Rightarrow> 'a \<Rightarrow> 'a \<Rightarrow> bool" where
  "before_in xs p d \<longleftrightarrow> p \<in> set (takeWhile (\<lambda>x. x \<noteq> d) xs) \<and> d \<in> set xs"

lemma stable_order_before:
  assumes "stable_order E N xs" and "(p, d) \<in> E" and "d \<in> N"
  shows "before_in xs p d"
proof -
  from assms have d: "d \<in> set xs" and g: "greedy E N {} xs" by (simp_all add: stable_order_def)
  from split_list_first[OF d] obtain us vs where xs: "xs = us @ d # vs" "d \<notin> set us" by blast
  from greedy_prerequisites[OF g[unfolded xs] assms(2)] have "p \<in> set us" by simp
  moreover have "takeWhile (\<lambda>x. x \<noteq> d) xs = us" using xs by (induction us arbitrary: xs) auto
  ultimately show ?thesis using d by (simp add: before_in_def)
qed

lemma policy_edges_set:
  "policy_edges identities ps = Inr es \<Longrightarrow> (d, prerequisites) \<in> set ps \<Longrightarrow> v \<in> set prerequisites \<Longrightarrow>
     resolve_reference identities v = Inr r \<Longrightarrow> (r, d) \<in> set es"
proof (induction ps arbitrary: es)
  case (Cons q ps)
  obtain d' prs where q: "q = (d', prs)" by (cases q)
  from Cons.prems(1) obtain rs es' where rs: "emap (resolve_reference identities) prs = Inr rs"
    and es': "policy_edges identities ps = Inr es'" and es: "es = map (\<lambda>r. (r, d')) rs @ es'"
    by (auto simp: q outcome_simps)
  show ?case
  proof (cases "(d, prerequisites) = q")
    case True
    with rs Cons.prems(3,4) q have "r \<in> set rs"
      by (auto simp: emap_eq_Inr_iff list_all2_conv_all_nth in_set_conv_nth)
    with True q es show ?thesis by auto
  next
    case False
    with Cons.IH[OF es'] Cons.prems(2-4) es show ?thesis by auto
  qed
qed simp

text \<open>
  The execution order of a plan has every identity once and puts each resolved prerequisite of a
  reviewed policy before the policy's action.
\<close>

lemma plan_respects_policies:
  assumes "plan_dependencies identities policies contracts executable = Inr plan"
    and "(d, prerequisites) \<in> set policies" and "v \<in> set prerequisites"
    and "resolve_reference identities v = Inr r"
  shows "set (fp_execution_order plan) = set identities \<and> distinct (fp_execution_order plan) \<and>
    before_in (fp_execution_order plan) r d"
proof -
  from assms(1) obtain reviewed order where
    rv: "policy_edges identities policies = Inr reviewed" and
    st: "stable_topological_sort identities (sorted_set reviewed) = Inr order" and
    o: "fp_execution_order plan = order"
    by (auto simp: plan_dependencies_def outcome_simps)
  have s: "plain_input identities (sorted_set reviewed)"
    "stable_order (set (sorted_set reviewed)) (set identities) order"
    using stable_sort_cases[of identities "sorted_set reviewed"] st by simp_all
  have e: "(r, d) \<in> set (sorted_set reviewed)"
    using policy_edges_set[OF rv assms(2-4)] by (simp add: sorted_set_def)
  have "d \<in> set identities" using s(1) e by (auto simp: plain_input_def)
  with stable_order_before[OF s(2) e] s(2) greedy_distinct show ?thesis
    unfolding o stable_order_def by blast
qed

end
