(* ===== verification/Input_Schema.thy ===== *)
theory Input_Schema
  imports Text_Tools
begin

text \<open>
  The input schema of a catalog action: the contract of \<open>catalog/schema_contract.py\<close> on its
  object properties and required names, and the checks of \<open>execution/request_builder.py\<close> that
  the values of a request fit the declarations. A schema is the JSON value of the action.

  \<open>build_lib\<close> extends \<open>request_lib\<close> with what the two modules call outside them:
  \<open>sanitize_document\<close> on a string, the integer a float equals (by the \<open>repr\<close> of the float),
  \<open>urlsplit\<close> and \<open>mimetypes.guess_type\<close>.
\<close>

record split_url =
  su_scheme :: string
  su_netloc :: string
  su_path :: string
  su_query :: string
  su_fragment :: string
  su_username :: "string option"
  su_password :: "string option"
  su_hostname :: "string option"
  su_port :: "int option"

text \<open>\<open>urlsplit\<close> is \<open>None\<close> where it, or reading the port of its result, raises \<open>ValueError\<close>.\<close>

record build_lib = request_lib +
  sanitize_text :: "string \<Rightarrow> string"
  float_int :: "string \<Rightarrow> int option"
  urlsplit :: "string \<Rightarrow> split_url option"
  guess_type :: "string \<Rightarrow> string option"

section \<open>Equality of Python values\<close>

text \<open>
  \<open>a == b\<close>: an integer, a truth value and a float are equal if their numbers are, dictionaries
  are compared without their order, and \<open>nan\<close> is equal to nothing.
\<close>

fun normal_value :: "(string \<Rightarrow> int option) \<Rightarrow> json \<Rightarrow> json" where
  "normal_value fl (JBool b) = JInt (if b then 1 else 0)"
| "normal_value fl (JFloat s) = (case fl s of Some i \<Rightarrow> JInt i | None \<Rightarrow> JFloat s)"
| "normal_value fl (JArr xs) = JArr (map (normal_value fl) xs)"
| "normal_value fl (JObj kvs) =
     JObj (sort_key fst (map (\<lambda>(k, v). (k, normal_value fl v)) kvs))"
| "normal_value fl v = v"

fun has_nan :: "json \<Rightarrow> bool" where
  "has_nan (JFloat s) = (s = ''nan'')"
| "has_nan (JArr xs) = list_ex has_nan xs"
| "has_nan (JObj kvs) = list_ex (\<lambda>(k, v). has_nan v) kvs"
| "has_nan v = False"

definition json_eq :: "'a build_lib_scheme \<Rightarrow> json \<Rightarrow> json \<Rightarrow> bool" where
  "json_eq lib a b \<longleftrightarrow> \<not> has_nan a \<and> normal_value (float_int lib) a = normal_value (float_int lib) b"

section \<open>The contract of a schema\<close>

definition canonical_schema_name :: "'a build_lib_scheme \<Rightarrow> json \<Rightarrow> bool" where
  "canonical_schema_name lib value =
     (case value of
        JStr s \<Rightarrow>
          length s \<le> 512 \<and> s \<noteq> [] \<and> s = py_strip s \<and> s \<notin> {''.'', ''..''} \<and>
          \<not> list_ex (\<lambda>c. c \<in> {CHR ''/'', CHR 0x5C, CHR ''='', CHR ''%''}) s \<and>
          \<not> contains ''://'' s \<and>
          \<not> list_ex (\<lambda>c. byte_in 0 31 c \<or> byte_in 127 127 c) s \<and>
          sanitize_text lib s = s \<and> redact_text lib s = s
      | _ \<Rightarrow> False)"

fun is_mapping :: "json \<Rightarrow> bool" where
  "is_mapping (JObj _) = True"
| "is_mapping _ = False"

text \<open>The checks of one node, whose violations raise one and the same error.\<close>

definition required_names_ok ::
    "'a build_lib_scheme \<Rightarrow> json_dict \<Rightarrow> json_dict \<Rightarrow> bool" where
  "required_names_ok lib schema properties =
     (case map_of schema ''required'' of
        None \<Rightarrow> True
      | Some (JArr required) \<Rightarrow>
          map_of schema ''type'' = Some (JStr ''object'') \<and>
          list_all (canonical_schema_name lib) required \<and> distinct required \<and>
          list_all (\<lambda>name. name \<in> JStr ` fst ` set properties) required
      | Some _ \<Rightarrow> False)"

lemma size_member: "(k, v) \<in> set kvs \<Longrightarrow> size v < size (JObj kvs)"
  by (induction kvs) auto

lemma size_lookup: "map_of kvs k = Some v \<Longrightarrow> size v < size (JObj kvs)"
  by (rule size_member) (rule map_of_SomeD)

function schema_node_ok :: "'a build_lib_scheme \<Rightarrow> bool \<Rightarrow> json \<Rightarrow> bool" where
  "schema_node_ok lib top_level node =
     (case node of
        JObj schema \<Rightarrow>
          (case map_of schema ''x-mercury-required'' of
             None \<Rightarrow> True
           | Some marker \<Rightarrow> top_level \<and> (case marker of JBool _ \<Rightarrow> True | _ \<Rightarrow> False)) \<and>
          (case map_of schema ''properties'' of
             None \<Rightarrow> required_names_ok lib schema []
           | Some (JObj properties) \<Rightarrow>
               list_all (\<lambda>(name, decl).
                 canonical_schema_name lib (JStr name) \<and> is_mapping decl) properties \<and>
               required_names_ok lib schema properties \<and>
               list_all (\<lambda>(name, decl). schema_node_ok lib False decl) properties
           | Some _ \<Rightarrow> False) \<and>
          (case map_of schema ''items'' of
             None \<Rightarrow> True
           | Some items \<Rightarrow> schema_node_ok lib False items)
      | _ \<Rightarrow> False)"
  by pat_completeness auto
termination
  by (relation "measure (\<lambda>(lib, lvl, node). size node)")
    (auto dest!: size_lookup dest: size_member)

declare schema_node_ok.simps [simp del]

definition validate_required_schema_contract ::
    "'a build_lib_scheme \<Rightarrow> json \<Rightarrow> unit result" where
  "validate_required_schema_contract lib schema =
     raise_if (\<not> schema_node_ok lib True schema) (ValueError ''schema_required_contract_invalid'')"

section \<open>Values against declarations\<close>

abbreviation build_error :: "string \<Rightarrow> 'a result" where
  "build_error code \<equiv> Inl (RequestBuildError code)"

definition type_valid :: "string \<Rightarrow> json \<Rightarrow> bool" where
  "type_valid expected value =
     (if expected = ''object'' then is_mapping value
      else if expected = ''array'' then (case value of JArr _ \<Rightarrow> True | _ \<Rightarrow> False)
      else if expected = ''string'' then (case value of JStr _ \<Rightarrow> True | _ \<Rightarrow> False)
      else if expected = ''integer'' then (case value of JInt _ \<Rightarrow> True | _ \<Rightarrow> False)
      else if expected = ''number''
        then (case value of JInt _ \<Rightarrow> True | JFloat s \<Rightarrow> \<not> non_finite value | _ \<Rightarrow> False)
      else if expected = ''boolean'' then (case value of JBool _ \<Rightarrow> True | _ \<Rightarrow> False)
      else if expected = ''null'' then value = JNull
      else True)"

definition validate_type ::
    "'a build_lib_scheme \<Rightarrow> string \<Rightarrow> json \<Rightarrow> json_dict \<Rightarrow> unit result" where
  "validate_type lib sect value schema =
     ebind (raise_if
         (case map_of schema ''type'' of
            Some (JStr expected) \<Rightarrow> \<not> type_valid expected value | _ \<Rightarrow> False)
         (RequestBuildError (''invalid_'' @ sect @ ''_value''))) (\<lambda>_.
     raise_if
       (case map_of schema ''enum'' of
          Some (JArr values) \<Rightarrow> \<not> list_ex (json_eq lib value) values | _ \<Rightarrow> False)
       (RequestBuildError (''invalid_'' @ sect @ ''_value'')))"

text \<open>The names a section of the schema requires.\<close>

fun required_names :: "json_dict \<Rightarrow> string list result" where
  "required_names [] = Inr []"
| "required_names ((name, decl) # rest) =
     (case decl of
        JObj kvs \<Rightarrow>
          (case jget kvs ''required'' (JBool False) of
             JBool marker \<Rightarrow>
               ebind (required_names rest) (\<lambda>names. Inr (if marker then name # names else names))
           | _ \<Rightarrow> build_error ''invalid_action_input_schema'')
      | _ \<Rightarrow> build_error ''invalid_action_input_schema'')"

definition missing_error :: "string \<Rightarrow> string" where
  "missing_error sect =
     (if sect = ''path'' then ''unresolved_path_parameter''
      else if sect = ''query'' then ''required_query_parameter_missing''
      else ''required_header_parameter_missing'')"

text \<open>\<open>set(xs) - set(ys)\<close> is not empty.\<close>

definition beyond :: "string list \<Rightarrow> string list \<Rightarrow> bool" where
  "beyond xs ys = list_ex (\<lambda>x. x \<notin> set ys) xs"

fun check_values :: "'a build_lib_scheme \<Rightarrow> string \<Rightarrow> json_dict \<Rightarrow> json_dict \<Rightarrow> unit result" where
  "check_values lib sect schema [] = Inr ()"
| "check_values lib sect schema ((name, value) # rest) =
     ebind (case map_of schema name of
              Some (JObj decl) \<Rightarrow> validate_type lib sect value decl
            | _ \<Rightarrow> Inr ())
       (\<lambda>_. check_values lib sect schema rest)"

definition validate_declared_mapping ::
    "'a build_lib_scheme \<Rightarrow> json_dict \<Rightarrow> json \<Rightarrow> string \<Rightarrow> unit result" where
  "validate_declared_mapping lib values schema sect =
     (case schema of
        JObj schema \<Rightarrow>
          ebind (raise_if (beyond (map fst values) (map fst schema))
            (RequestBuildError ''undeclared_request_input'')) (\<lambda>_.
          ebind (required_names schema) (\<lambda>required.
          ebind (raise_if (beyond required (map fst values))
            (RequestBuildError (missing_error sect))) (\<lambda>_.
          check_values lib sect schema values)))
      | _ \<Rightarrow> build_error ''invalid_action_input_schema'')"

text \<open>The names in a \<open>required\<close> that the contract has accepted.\<close>

definition required_list :: "json_dict \<Rightarrow> string list" where
  "required_list schema =
     (case map_of schema ''required'' of
        Some (JArr names) \<Rightarrow> concat (map (\<lambda>name. case name of JStr s \<Rightarrow> [s] | _ \<Rightarrow> []) names)
      | _ \<Rightarrow> [])"

definition validate_body_fields ::
    "'a build_lib_scheme \<Rightarrow> json \<Rightarrow> json_dict \<Rightarrow> unit result" where
  "validate_body_fields lib body schema =
     (case body of
        JObj kvs \<Rightarrow>
          ebind (raise_if (beyond (required_list schema) (map fst kvs))
            (RequestBuildError ''required_body_field_missing'')) (\<lambda>_.
          case map_of schema ''properties'' of
            Some (JObj properties) \<Rightarrow>
              ebind (raise_if (map_of schema ''additionalProperties'' = Some (JBool False) \<and>
                               beyond (map fst kvs) (map fst properties))
                (RequestBuildError ''undeclared_request_input'')) (\<lambda>_.
              check_values lib ''body'' properties kvs)
          | _ \<Rightarrow> Inr ())
      | _ \<Rightarrow> Inr ())"

definition validate_body ::
    "'a build_lib_scheme \<Rightarrow> json \<Rightarrow> json \<Rightarrow> bool \<Rightarrow> unit result" where
  "validate_body lib body schema present =
     (case schema of
        JObj kvs \<Rightarrow>
          ebind (raise_if (\<not> schema_node_ok lib True schema)
            (RequestBuildError ''invalid_action_input_schema'')) (\<lambda>_.
          ebind (raise_if (truthy (jget kvs ''x-mercury-required'' (JBool False)) \<and> \<not> present)
            (RequestBuildError ''required_body_missing'')) (\<lambda>_.
          if \<not> present then Inr ()
          else if kvs = [] then
            raise_if (body \<noteq> JObj [] \<and> body \<noteq> JNull) (RequestBuildError ''undeclared_request_input'')
          else ebind (validate_type lib ''body'' body kvs) (\<lambda>_.
            validate_body_fields lib body kvs)))
      | _ \<Rightarrow> build_error ''invalid_action_input_schema'')"

end
