(* ===== verification/Request_Template.thy ===== *)
theory Request_Template
  imports Input_Schema
begin

text \<open>
  Model of \<open>execution/request_builder.py\<close>: the construction of a request template from a catalog
  action and the inputs of the caller, the same construction from the inputs bound in a preview,
  the hash that binds the template to an approval, and the HTTP request it becomes.

  \<open>file_system\<close> holds the answers of the operating system at one moment; a path is whether it is
  absolute and its components. A file is read in chunks between two \<open>fstat\<close> calls.
\<close>

section \<open>Text of names and targets\<close>

definition input_sections :: "string list" where
  "input_sections = [''path'', ''query'', ''headers'', ''body'', ''files'']"

definition forbidden_headers :: "string list" where
  "forbidden_headers =
     [''authorization'', ''cookie'', ''host'', ''proxy-authorization'', ''set-cookie'']"

definition auth_words :: "string list" where
  "auth_words =
     [''api_key'', ''api-key'', ''apikey'', ''auth'', ''authorization'', ''credential'',
      ''password'', ''secret'', ''token'']"

text \<open>\<open>re.sub(r"([a-z0-9])([A-Z])", r"\1_\2", value)\<close>\<close>

fun split_camel :: "string \<Rightarrow> string" where
  "split_camel (a # b # s) =
     (if (lower_char a \<or> digit_char a) \<and> upper_char b then a # CHR ''_'' # split_camel (b # s)
      else a # split_camel (b # s))"
| "split_camel s = s"

text \<open>
  The search for a word of \<open>_AUTH_TOKEN\<close> between boundaries. Under \<open>re.IGNORECASE\<close> the dotless i
  (the bytes C4 B1) matches the letter i; \<open>$\<close> matches before a final line feed, too.
\<close>

fun plain_i :: "string \<Rightarrow> string" where
  "plain_i (a # b # s) =
     (if byte_in 0xC4 0xC4 a \<and> byte_in 0xB1 0xB1 b then CHR ''i'' # plain_i s
      else a # plain_i (b # s))"
| "plain_i s = s"

definition word_boundary :: "string \<Rightarrow> bool" where
  "word_boundary rest \<longleftrightarrow>
     rest = [] \<or> rest = [CHR 0x0A] \<or> (case rest of c # _ \<Rightarrow> c \<in> set ''_-.'' | [] \<Rightarrow> False)"

definition auth_word_at :: "string \<Rightarrow> bool" where
  "auth_word_at s =
     list_ex (\<lambda>word. has_prefix word s \<and> word_boundary (drop (length word) s)) auth_words"

fun auth_search :: "string \<Rightarrow> bool" where
  "auth_search [] = False"
| "auth_search (c # s) = (c \<in> set ''_-.'' \<and> auth_word_at s \<or> auth_search s)"

definition looks_like_auth_key :: "'a build_lib_scheme \<Rightarrow> string \<Rightarrow> bool" where
  "looks_like_auth_key lib value =
     (let normalized = plain_i (casefold lib (split_camel value))
      in auth_word_at normalized \<or> auth_search normalized)"

definition media_type :: "'a build_lib_scheme \<Rightarrow> string \<Rightarrow> string" where
  "media_type lib value = casefold lib (py_strip (takeWhile (\<lambda>c. c \<noteq> CHR '';'') value))"

definition rstrip_char :: "char \<Rightarrow> string \<Rightarrow> string" where
  "rstrip_char c s = rev (dropWhile (\<lambda>x. x = c) (rev s))"

text \<open>\<open>_reject_base_path\<close>\<close>

fun base_segment_loop :: "nat \<Rightarrow> string \<Rightarrow> unit result" where
  "base_segment_loop 0 decoded = build_error ''path_traversal''"
| "base_segment_loop (Suc n) decoded =
     (if decoded = ''.'' \<or> decoded = ''..'' \<or> CHR ''/'' \<in> set decoded \<or>
         CHR 0x5C \<in> set decoded \<or> has_control decoded
      then build_error ''path_traversal''
      else ebind (unquote decoded) (\<lambda>next_value.
        if next_value = decoded then Inr () else base_segment_loop n next_value))"

definition reject_base_path :: "string \<Rightarrow> unit result" where
  "reject_base_path path =
     (if contains ''//'' path then build_error ''path_traversal''
      else ebind (emap (\<lambda>encoded. base_segment_loop (char_count encoded + 2) encoded)
             (split_at (CHR ''/'') path)) (\<lambda>_. Inr ()))"

definition base_url_refused :: "'a build_lib_scheme \<Rightarrow> string \<Rightarrow> split_url \<Rightarrow> bool" where
  "base_url_refused lib value parsed \<longleftrightarrow>
     casefold lib (su_scheme parsed) \<notin> {''http'', ''https''} \<or>
     su_hostname parsed \<in> {None, Some []} \<or> su_username parsed \<noteq> None \<or>
     su_password parsed \<noteq> None \<or> su_query parsed \<noteq> [] \<or> su_fragment parsed \<noteq> [] \<or>
     CHR ''?'' \<in> set value \<or> CHR ''#'' \<in> set value \<or> CHR 0x5C \<in> set value"

definition normalize_base_url :: "'a build_lib_scheme \<Rightarrow> string \<Rightarrow> string result" where
  "normalize_base_url lib value =
     (if value = [] then build_error ''invalid_base_url''
      else case urlsplit lib value of
        None \<Rightarrow> build_error ''invalid_base_url''
      | Some parsed \<Rightarrow>
          ebind (raise_if (base_url_refused lib value parsed)
            (RequestBuildError ''invalid_base_url'')) (\<lambda>_.
          ebind (raise_if (case su_port parsed of None \<Rightarrow> False | Some p \<Rightarrow> p < 1 \<or> 65535 < p)
            (RequestBuildError ''invalid_base_url'')) (\<lambda>_.
          ebind (raise_if (su_netloc parsed \<noteq> [] \<and> last (su_netloc parsed) = CHR '':'')
            (RequestBuildError ''invalid_base_url'')) (\<lambda>_.
          let path = rstrip_char (CHR ''/'') (su_path parsed) in
          ebind (reject_base_path path) (\<lambda>_.
          let host = casefold lib (rstrip_char (CHR ''.'')
                (case su_hostname parsed of None \<Rightarrow> [] | Some h \<Rightarrow> h));
              scheme = casefold lib (su_scheme parsed);
              default_port = (if scheme = ''https'' then 443 else 80);
              port = (case su_port parsed of None \<Rightarrow> []
                      | Some p \<Rightarrow> if p = default_port then [] else CHR '':'' # show_int p);
              rendered_host = (if CHR '':'' \<in> set host then ''['' @ host @ '']'' else host)
          in Inr (scheme @ ''://'' @ rendered_host @ port @ path))))))"

section \<open>Files\<close>

type_synonym path = "bool \<times> string list"

record file_stat =
  fst_regular :: bool
  fst_links :: nat
  fst_size :: nat
  fst_identity :: "int list"

text \<open>
  \<open>fst_identity\<close> holds the device, the inode and the two timestamps. \<open>fd_failed\<close>: reading or
  the second \<open>fstat\<close> raises \<open>OSError\<close>.
\<close>

record file_read =
  fd_before :: file_stat
  fd_chunks :: "string list"
  fd_failed :: bool
  fd_after :: file_stat

text \<open>A call that raises is \<open>None\<close>.\<close>

record file_system =
  fs_expanduser :: "path \<Rightarrow> path option"
  fs_resolve :: "path \<Rightarrow> path option"
  fs_is_symlink :: "path \<Rightarrow> bool"
  fs_is_dir :: "path \<Rightarrow> bool"
  fs_is_file :: "path \<Rightarrow> bool"
  fs_open :: "path \<Rightarrow> file_read option"

definition parse_path :: "string \<Rightarrow> path" where
  "parse_path s =
     (has_prefix ''/'' s, filter (\<lambda>p. p \<noteq> [] \<and> p \<noteq> ''.'') (split_at (CHR ''/'') s))"

text \<open>\<open>as_posix()\<close> of a relative path, and \<open>path.name\<close>\<close>

definition posix_text :: "string list \<Rightarrow> string" where
  "posix_text parts = (if parts = [] then ''.'' else join ''/'' parts)"

definition path_name :: "path \<Rightarrow> string" where
  "path_name p = (if snd p = [] then [] else last (snd p))"

definition MAX_FILE_BYTES :: nat where
  "MAX_FILE_BYTES = 25 * 1024 * 1024"

record bound_file =
  bf_field_name :: string
  bf_path :: path
  bf_root_index :: nat
  bf_relative_path :: string
  bf_sha256 :: string
  bf_filename :: string
  bf_content_type :: string
  bf_size :: nat

definition read_file_snapshot ::
    "'a build_lib_scheme \<Rightarrow> file_system \<Rightarrow> path \<Rightarrow> (string \<times> string \<times> nat) result" where
  "read_file_snapshot lib fs path =
     (case fs_open fs path of
        None \<Rightarrow> build_error ''invalid_file_input''
      | Some r \<Rightarrow>
          let content = concat (takeWhile (\<lambda>chunk. chunk \<noteq> []) (fd_chunks r)); size = length content in
          ebind (raise_if (\<not> fst_regular (fd_before r) \<or> fst_links (fd_before r) < 1)
            (RequestBuildError ''invalid_file_input'')) (\<lambda>_.
          ebind (raise_if (MAX_FILE_BYTES < size) (RequestBuildError ''file_too_large'')) (\<lambda>_.
          ebind (raise_if (fd_failed r) (RequestBuildError ''invalid_file_input'')) (\<lambda>_.
          ebind (raise_if (fst_identity (fd_before r) \<noteq> fst_identity (fd_after r) \<or>
                           fst_size (fd_before r) \<noteq> fst_size (fd_after r) \<or>
                           size \<noteq> fst_size (fd_after r))
            (RequestBuildError ''bound_file_changed'')) (\<lambda>_.
          Inr (content, sha256_hexdigest lib content, size))))))"

definition read_bound_file ::
    "'a build_lib_scheme \<Rightarrow> file_system \<Rightarrow> bound_file \<Rightarrow> string result" where
  "read_bound_file lib fs item =
     ebind (read_file_snapshot lib fs (bf_path item)) (\<lambda>(content, digest, size).
     ebind (raise_if (digest \<noteq> bf_sha256 item \<or> size \<noteq> bf_size item)
       (RequestBuildError ''bound_file_changed'')) (\<lambda>_. Inr content))"

definition file_record ::
    "'a build_lib_scheme \<Rightarrow> file_system \<Rightarrow> string \<Rightarrow> path \<Rightarrow> nat \<Rightarrow> string \<Rightarrow> bound_file result" where
  "file_record lib fs field_name path root_index relative_path =
     ebind (read_file_snapshot lib fs path) (\<lambda>(_, digest, size).
     Inr \<lparr>bf_field_name = field_name, bf_path = path, bf_root_index = root_index,
          bf_relative_path = relative_path, bf_sha256 = digest, bf_filename = path_name path,
          bf_content_type = (case guess_type lib (path_name path) of
              None \<Rightarrow> ''application/octet-stream''
            | Some t \<Rightarrow> if t = [] then ''application/octet-stream'' else t),
          bf_size = size\<rparr>)"

text \<open>\<open>path.is_relative_to(root)\<close>, and the components of \<open>path.relative_to(root)\<close>\<close>

definition relative_to :: "path \<Rightarrow> path \<Rightarrow> string list option" where
  "relative_to p root =
     (if fst p = fst root \<and> prefix (snd root) (snd p) then Some (drop (length (snd root)) (snd p))
      else None)"

fun containing_root :: "path \<Rightarrow> path list \<Rightarrow> nat \<Rightarrow> (nat \<times> string list) option" where
  "containing_root p [] i = None"
| "containing_root p (root # roots) i =
     (case relative_to p root of
        Some parts \<Rightarrow> Some (i, parts)
      | None \<Rightarrow> containing_root p roots (Suc i))"

definition bind_file ::
    "'a build_lib_scheme \<Rightarrow> file_system \<Rightarrow> path list \<Rightarrow> string \<Rightarrow> json \<Rightarrow> bound_file result" where
  "bind_file lib fs roots field_name value =
     (case value of
        JStr text \<Rightarrow>
          (case fs_expanduser fs (parse_path text) of
             None \<Rightarrow> build_error ''invalid_file_input''
           | Some candidate \<Rightarrow>
               if fs_is_symlink fs candidate then build_error ''file_symlink_forbidden''
               else case fs_resolve fs candidate of
                 None \<Rightarrow> build_error ''invalid_file_input''
               | Some path \<Rightarrow>
                   if \<not> fs_is_file fs path then build_error ''invalid_file_input''
                   else case containing_root path roots 0 of
                     None \<Rightarrow> build_error ''file_outside_roots''
                   | Some (index, parts) \<Rightarrow>
                       file_record lib fs field_name path index (posix_text parts))
      | _ \<Rightarrow> build_error ''invalid_file_input'')"

definition file_payload :: "bound_file \<Rightarrow> json" where
  "file_payload item = JObj
     [(''root_index'', JInt (int (bf_root_index item))),
      (''relative_path'', JStr (bf_relative_path item)),
      (''sha256'', JStr (bf_sha256 item)),
      (''filename'', JStr (bf_filename item)),
      (''content_type'', JStr (bf_content_type item)),
      (''size'', JInt (int (bf_size item)))]"

definition file_fields :: "string list" where
  "file_fields =
     [''root_index'', ''relative_path'', ''sha256'', ''filename'', ''content_type'', ''size'']"

text \<open>The file that a bound position names, read again.\<close>

definition reread_file ::
    "'a build_lib_scheme \<Rightarrow> file_system \<Rightarrow> path list \<Rightarrow> string \<Rightarrow> nat \<Rightarrow> string \<Rightarrow> bound_file result" where
  "reread_file lib fs roots field_name root_index relative_path =
     (let relative = parse_path relative_path in
      if fst relative \<or> ''..'' \<in> set (snd relative) then build_error ''path_traversal''
      else
        let root = roots ! root_index; candidate = (fst root, snd root @ snd relative) in
        if fs_is_symlink fs candidate then build_error ''file_symlink_forbidden''
        else case fs_resolve fs candidate of
          None \<Rightarrow> build_error ''bound_file_changed''
        | Some path \<Rightarrow>
            if \<not> fs_is_file fs path \<or> relative_to path root = None
            then build_error ''bound_file_changed''
            else file_record lib fs field_name path root_index (posix_text (snd relative)))"

definition restore_bound_file ::
    "'a build_lib_scheme \<Rightarrow> file_system \<Rightarrow> path list \<Rightarrow> string \<Rightarrow> json \<Rightarrow> bound_file result" where
  "restore_bound_file lib fs roots field_name value =
     (case value of
        JObj kvs \<Rightarrow>
          (if set (map fst kvs) \<noteq> set file_fields then build_error ''invalid_bound_file''
           else case (map_of kvs ''root_index'', map_of kvs ''relative_path'') of
             (Some (JInt root_index), Some (JStr relative_path)) \<Rightarrow>
               (if root_index < 0 \<or> int (length roots) \<le> root_index
                then build_error ''invalid_bound_file''
                else ebind (reread_file lib fs roots field_name (nat root_index) relative_path)
                  (\<lambda>current.
                  if \<not> json_eq lib (JObj kvs) (file_payload current)
                  then build_error ''bound_file_changed'' else Inr current))
           | _ \<Rightarrow> build_error ''invalid_bound_file'')
      | _ \<Rightarrow> build_error ''invalid_bound_file'')"

definition resolve_roots :: "file_system \<Rightarrow> path list \<Rightarrow> path list result" where
  "resolve_roots fs =
     emap (\<lambda>root.
       case fs_expanduser fs root of
         None \<Rightarrow> build_error ''invalid_mcp_root''
       | Some expanded \<Rightarrow>
           (case fs_resolve fs expanded of
              None \<Rightarrow> build_error ''invalid_mcp_root''
            | Some path \<Rightarrow>
                if fs_is_dir fs path then Inr path else build_error ''invalid_mcp_root''))"

definition bound_files ::
    "'a build_lib_scheme \<Rightarrow> file_system \<Rightarrow> json_dict \<Rightarrow> json \<Rightarrow> path list \<Rightarrow> bool
       \<Rightarrow> bound_file list result" where
  "bound_files lib fs values schema roots already_bound =
     (case schema of
        JObj schema \<Rightarrow>
          ebind (raise_if (beyond (map fst values) (map fst schema))
            (RequestBuildError ''undeclared_request_input'')) (\<lambda>_.
          ebind (required_names schema) (\<lambda>required.
          ebind (raise_if (beyond required (map fst values))
            (RequestBuildError ''required_file_missing'')) (\<lambda>_.
          emap (\<lambda>(field_name, value).
              if already_bound then restore_bound_file lib fs roots field_name value
              else bind_file lib fs roots field_name value)
            (sort_key fst values))))
      | _ \<Rightarrow> build_error ''invalid_action_input_schema'')"
section \<open>Idempotency\<close>

text \<open>\<open>_json_copy\<close>: the value written with sorted keys and read back.\<close>

definition json_copy :: "json \<Rightarrow> json result" where
  "json_copy value =
     (if non_finite value then build_error ''request_input_not_json'' else Inr (sort_keys value))"

definition copy_dict :: "json_dict \<Rightarrow> json_dict result" where
  "copy_dict d =
     ebind (json_copy (JObj d)) (\<lambda>copied. case copied of JObj kvs \<Rightarrow> Inr kvs | _ \<Rightarrow> Inr [])"

definition header_name_pattern :: "string \<Rightarrow> bool" where
  "header_name_pattern =
     head_tail_pattern alpha_char (\<lambda>c. alpha_char c \<or> digit_char c \<or> c = CHR ''-'') 63"

text \<open>The header and the source of an idempotency binding, if the action has one.\<close>

definition idempotency_binding ::
    "'a build_lib_scheme \<Rightarrow> catalog_action \<Rightarrow> (string \<times> string) option result" where
  "idempotency_binding lib action =
     (let header = jget (ca_idempotency action) ''header_name'' JNull;
          source = jget (ca_idempotency action) ''source'' JNull in
      if header = JNull \<and> source = JNull then Inr None
      else case (header, source) of
        (JStr header, JStr source) \<Rightarrow>
          (if \<not> header_name_pattern header \<or> casefold lib header \<in> set forbidden_headers \<or>
              looks_like_auth_key lib header \<or> source = []
           then build_error ''invalid_idempotency_binding'' else Inr (Some (header, source)))
      | _ \<Rightarrow> build_error ''invalid_idempotency_binding'')"

fun walk_json :: "string list \<Rightarrow> json \<Rightarrow> json result" where
  "walk_json [] current = Inr current"
| "walk_json (part # parts) current =
     (case current of
        JObj kvs \<Rightarrow>
          (case map_of kvs part of
             None \<Rightarrow> build_error ''idempotency_binding_missing''
           | Some v \<Rightarrow> walk_json parts v)
      | _ \<Rightarrow> build_error ''idempotency_binding_missing'')"

definition idempotency_text :: "json \<Rightarrow> string result" where
  "idempotency_text current =
     (case current of
        JStr s \<Rightarrow>
          if s = [] \<or> 256 < length s then build_error ''invalid_idempotency_binding'' else Inr s
      | JInt i \<Rightarrow>
          if 256 < length (show_int i) then build_error ''invalid_idempotency_binding''
          else Inr (show_int i)
      | _ \<Rightarrow> build_error ''invalid_idempotency_binding'')"

definition idempotency_value ::
    "string \<Rightarrow> json_dict \<Rightarrow> json_dict \<Rightarrow> json \<Rightarrow> string result" where
  "idempotency_value source path query body =
     (let root_name = takeWhile (\<lambda>c. c \<noteq> CHR ''.'') source;
          remainder = drop (Suc (length root_name)) source in
      ebind (raise_if (CHR ''.'' \<notin> set source \<or> root_name \<notin> {''path'', ''query'', ''body''})
        (RequestBuildError ''invalid_idempotency_binding'')) (\<lambda>_.
      ebind (walk_json (split_at (CHR ''.'') remainder)
          (if root_name = ''path'' then JObj path else if root_name = ''query'' then JObj query
           else body))
        idempotency_text))"

text \<open>The headers after \<open>_apply_idempotency\<close>, which changes them in place.\<close>

definition apply_idempotency ::
    "'a build_lib_scheme \<Rightarrow> catalog_action \<Rightarrow> json_dict \<Rightarrow> json_dict \<Rightarrow> json_dict \<Rightarrow> json \<Rightarrow> bool
       \<Rightarrow> json_dict result" where
  "apply_idempotency lib action path query headers body already_bound =
     ebind (idempotency_binding lib action) (\<lambda>binding.
     case binding of
       None \<Rightarrow> Inr headers
     | Some (header, source) \<Rightarrow>
         ebind (idempotency_value source path query body) (\<lambda>expected.
         let existing_names =
               filter (\<lambda>name. casefold lib name = casefold lib header) (map fst headers) in
         if already_bound then
           (case existing_names of
              [name] \<Rightarrow>
                (if map_of headers name \<noteq> Some (JStr expected)
                 then build_error ''bound_idempotency_changed''
                 else if name \<noteq> header
                   then Inr (dict_put header (JStr expected)
                               (filter (\<lambda>(k, v). k \<noteq> name) headers))
                 else Inr headers)
            | _ \<Rightarrow> build_error ''bound_idempotency_changed'')
         else if existing_names \<noteq> [] then build_error ''idempotency_override_forbidden''
         else Inr (dict_put header (JStr expected) headers)))"

section \<open>Building a template\<close>

definition header_refused :: "'a build_lib_scheme \<Rightarrow> string \<Rightarrow> json \<Rightarrow> bool" where
  "header_refused lib name value \<longleftrightarrow>
     casefold lib name \<in> set forbidden_headers \<or> looks_like_auth_key lib name \<or>
     (case value of
        JStr s \<Rightarrow> list_ex (\<lambda>c. c \<in> {CHR 0x0D, CHR 0x0A}) (name @ s)
      | _ \<Rightarrow> True)"

fun check_request_headers ::
    "'a build_lib_scheme \<Rightarrow> string \<Rightarrow> json_dict \<Rightarrow> unit result" where
  "check_request_headers lib content_type [] = Inr ()"
| "check_request_headers lib content_type ((name, value) # rest) =
     ebind (raise_if (header_refused lib name value)
       (RequestBuildError ''authentication_override_forbidden'')) (\<lambda>_.
     ebind (raise_if
         (casefold lib name = ''content-type'' \<and>
          (media_type lib content_type = ''multipart/form-data'' \<or>
           (case value of JStr s \<Rightarrow> media_type lib s \<noteq> media_type lib content_type | _ \<Rightarrow> True)))
         (RequestBuildError ''content_type_override_forbidden'')) (\<lambda>_.
     check_request_headers lib content_type rest))"

definition reject_auth_overrides ::
    "'a build_lib_scheme \<Rightarrow> json_dict \<Rightarrow> json_dict \<Rightarrow> string \<Rightarrow> unit result" where
  "reject_auth_overrides lib query headers content_type =
     ebind (check_request_headers lib content_type headers) (\<lambda>_.
     raise_if (list_ex (\<lambda>(name, value). looks_like_auth_key lib name) query)
       (RequestBuildError ''authentication_override_forbidden''))"

text \<open>\<open>_PATH_VARIABLE.findall(template)\<close>\<close>

definition name_char :: "char \<Rightarrow> bool" where
  "name_char c \<longleftrightarrow> alpha_char c \<or> digit_char c \<or> c = CHR ''_''"

fun path_variables :: "string \<Rightarrow> string list" where
  "path_variables [] = []"
| "path_variables (c # s) =
     (let name = takeWhile name_char s; rest = drop (length name) s in
      if c = CHR ''{'' \<and> (case name of [] \<Rightarrow> False | d # _ \<Rightarrow> alpha_char d) \<and>
         (case rest of d # _ \<Rightarrow> d = CHR ''}'' | [] \<Rightarrow> False)
      then name # path_variables s
      else path_variables s)"

definition section_mapping :: "json_dict \<Rightarrow> string \<Rightarrow> json_dict result" where
  "section_mapping supplied sect =
     (case jget supplied sect (JObj []) of
        JObj kvs \<Rightarrow> Inr kvs
      | _ \<Rightarrow> build_error (''invalid_'' @ sect @ ''_inputs''))"

text \<open>The sections of the inputs, and whether a body is present.\<close>

record request_parts =
  rp_path :: json_dict
  rp_query :: json_dict
  rp_headers :: json_dict
  rp_files :: json_dict
  rp_body_present :: bool
  rp_body :: json

definition split_inputs :: "json_dict \<Rightarrow> request_parts result" where
  "split_inputs supplied =
     ebind (section_mapping supplied ''path'') (\<lambda>path.
     ebind (section_mapping supplied ''query'') (\<lambda>query.
     ebind (section_mapping supplied ''headers'') (\<lambda>headers.
     ebind (section_mapping supplied ''files'') (\<lambda>files.
     let body = jget supplied ''body'' JNull; present = (body \<noteq> JNull) in
     ebind (json_copy (if present then body else JObj [])) (\<lambda>copied.
     Inr \<lparr>rp_path = path, rp_query = query, rp_headers = headers, rp_files = files,
          rp_body_present = present, rp_body = copied\<rparr>)))))"

definition validate_bound_target :: "json_dict \<Rightarrow> string \<Rightarrow> unit result" where
  "validate_bound_target supplied base_url =
     (case map_of supplied ''_target'' of
        Some (JObj target) \<Rightarrow>
          (if set (map fst target) \<noteq> {''base_url''} then build_error ''bound_target_missing''
           else if map_of target ''base_url'' \<noteq> Some (JStr base_url)
             then build_error ''bound_target_changed''
           else Inr ())
      | _ \<Rightarrow> build_error ''bound_target_missing'')"

definition accept_inputs :: "json \<Rightarrow> string \<Rightarrow> bool \<Rightarrow> json_dict result" where
  "accept_inputs inputs normalized_base bound_inputs =
     (case inputs of
        JObj supplied \<Rightarrow>
          ebind (if bound_inputs then validate_bound_target supplied normalized_base
                 else raise_if (list_ex (\<lambda>(k, v). k = ''_target'' \<or> k = ''_risk'') supplied)
                        (RequestBuildError ''reserved_request_input'')) (\<lambda>_.
          ebind (raise_if (beyond (map fst supplied)
              (input_sections @ (if bound_inputs then [''_target'', ''_risk''] else [])))
            (RequestBuildError ''undeclared_request_input'')) (\<lambda>_. Inr supplied))
      | _ \<Rightarrow> build_error ''invalid_request_inputs'')"

definition schema_sections :: "catalog_action \<Rightarrow> json_dict result" where
  "schema_sections action =
     (case ca_input_schema action of
        JObj schema \<Rightarrow>
          (if set (map fst schema) \<noteq> set input_sections
           then build_error ''invalid_action_input_schema'' else Inr schema)
      | _ \<Rightarrow> build_error ''invalid_action_input_schema'')"

text \<open>The checks of the values, up to the final headers.\<close>

definition check_parts ::
    "'a build_lib_scheme \<Rightarrow> catalog_action \<Rightarrow> json_dict \<Rightarrow> request_parts \<Rightarrow> bool
       \<Rightarrow> json_dict result" where
  "check_parts lib action schema parts bound_inputs =
     ebind (reject_auth_overrides lib (rp_query parts) (rp_headers parts) (ca_content_type action))
       (\<lambda>_.
     ebind (validate_declared_mapping lib (rp_path parts) (jget schema ''path'' JNull) ''path'')
       (\<lambda>_.
     ebind (validate_declared_mapping lib (rp_query parts) (jget schema ''query'' JNull) ''query'')
       (\<lambda>_.
     ebind (idempotency_binding lib action) (\<lambda>binding.
     let headers_for_schema =
       (case binding of
          None \<Rightarrow> rp_headers parts
        | Some (header, _) \<Rightarrow>
            filter (\<lambda>(name, value). casefold lib name \<noteq> casefold lib header) (rp_headers parts)) in
     ebind (raise_if (binding \<noteq> None \<and> \<not> bound_inputs \<and>
                      length headers_for_schema \<noteq> length (rp_headers parts))
       (RequestBuildError ''idempotency_override_forbidden'')) (\<lambda>_.
     ebind (validate_declared_mapping lib headers_for_schema (jget schema ''headers'' JNull)
         ''headers'') (\<lambda>_.
     ebind (validate_body lib (rp_body parts) (jget schema ''body'' JNull) (rp_body_present parts))
       (\<lambda>_.
     apply_idempotency lib action (rp_path parts) (rp_query parts) (rp_headers parts)
       (rp_body parts) bound_inputs)))))))"

definition template_path :: "catalog_action \<Rightarrow> json_dict \<Rightarrow> string result" where
  "template_path action path =
     (let placeholders = path_variables (ca_path_template action) in
      if set (map fst path) \<noteq> set placeholders
      then (if beyond placeholders (map fst path) then build_error ''unresolved_path_parameter''
            else build_error ''undeclared_request_input'')
      else case render_action_path (ca_path_template action) (JObj path) of
        Inl _ \<Rightarrow> build_error ''path_traversal''
      | Inr p \<Rightarrow> Inr p)"

definition risk_binding :: "catalog_action \<Rightarrow> json_dict result" where
  "risk_binding action =
     (if ca_method action = GET then Inr [(''tier'', JInt (tier_int (ca_risk_tier action)))]
      else ebind (effective_risk action) (\<lambda>risk.
        Inr [(''tier'', JInt (tier_int (rd_tier risk))),
             (''approval_level'', JStr (approval_value (rd_approval_level risk))),
             (''mutation_class'', JStr (mutation_value (rd_mutation_class risk)))]))"

record request_template =
  rt_action_id :: string
  rt_version_id :: string
  rt_connector_id :: string
  rt_method :: string
  rt_path_template :: string
  rt_final_path :: string
  rt_base_url :: string
  rt_repository_id :: "string option"
  rt_environment :: "string option"
  rt_request_inputs :: json_dict
  rt_body_present :: bool
  rt_content_type :: string
  rt_files :: "bound_file list"

definition normalized_inputs ::
    "request_parts \<Rightarrow> json_dict \<Rightarrow> bound_file list \<Rightarrow> string \<Rightarrow> json_dict \<Rightarrow> json_dict result" where
  "normalized_inputs parts headers files base_url risk =
     ebind (json_copy (JObj (rp_path parts))) (\<lambda>path.
     ebind (json_copy (JObj (rp_query parts))) (\<lambda>query.
     ebind (json_copy (JObj headers)) (\<lambda>headers.
     ebind (json_copy (rp_body parts)) (\<lambda>body.
     Inr [(''path'', path), (''query'', query), (''headers'', headers), (''body'', body),
          (''files'', JObj (map (\<lambda>item. (bf_field_name item, file_payload item)) files)),
          (''_target'', JObj [(''base_url'', JStr base_url)]), (''_risk'', JObj risk)]))))"

definition build_template ::
    "'a build_lib_scheme \<Rightarrow> (catalog_action \<Rightarrow> bool) \<Rightarrow> file_system \<Rightarrow> catalog_action \<Rightarrow> string \<Rightarrow> json
       \<Rightarrow> path list \<Rightarrow> string option \<Rightarrow> string option \<Rightarrow> bool \<Rightarrow> request_template result" where
  "build_template lib safe fs action base_url inputs roots repository_id environment
       bound_inputs =
     (case revalidate_catalog_action (pylib.truncate lib) safe action of
        Inl _ \<Rightarrow> build_error ''invalid_catalog_action''
      | Inr action \<Rightarrow>
     ebind (raise_if (case environment of None \<Rightarrow> False | Some e \<Rightarrow> e \<notin> set (ca_environments action))
       (RequestBuildError ''action_environment_not_supported'')) (\<lambda>_.
     ebind (normalize_base_url lib base_url) (\<lambda>normalized_base.
     ebind (accept_inputs inputs normalized_base bound_inputs) (\<lambda>supplied.
     ebind (schema_sections action) (\<lambda>schema.
     ebind (split_inputs supplied) (\<lambda>parts.
     ebind (check_parts lib action schema parts bound_inputs) (\<lambda>headers.
     ebind (template_path action (rp_path parts)) (\<lambda>final_path.
     ebind (resolve_roots fs roots) (\<lambda>resolved_roots.
     ebind (bound_files lib fs (rp_files parts) (jget schema ''files'' JNull) resolved_roots
         bound_inputs) (\<lambda>files.
     ebind (risk_binding action) (\<lambda>risk.
     ebind (normalized_inputs parts headers files normalized_base risk) (\<lambda>request_inputs.
     Inr \<lparr>rt_action_id = ca_action_id action, rt_version_id = ca_version_id action,
          rt_connector_id = ca_connector_id action, rt_method = method_value (ca_method action),
          rt_path_template = ca_path_template action, rt_final_path = final_path,
          rt_base_url = normalized_base, rt_repository_id = repository_id,
          rt_environment = environment, rt_request_inputs = request_inputs,
          rt_body_present = rp_body_present parts, rt_content_type = ca_content_type action,
          rt_files = files\<rparr>))))))))))))"

definition build_request ::
    "'a build_lib_scheme \<Rightarrow> (catalog_action \<Rightarrow> bool) \<Rightarrow> file_system \<Rightarrow> catalog_action \<Rightarrow> string \<Rightarrow> json
       \<Rightarrow> path list \<Rightarrow> string \<Rightarrow> string \<Rightarrow> request_template result" where
  "build_request lib safe fs action base_url inputs roots repository_id environment =
     build_template lib safe fs action base_url inputs roots (Some repository_id)
       (Some environment) False"

definition rebuild_bound_request ::
    "'a build_lib_scheme \<Rightarrow> (catalog_action \<Rightarrow> bool) \<Rightarrow> file_system \<Rightarrow> catalog_action \<Rightarrow> string \<Rightarrow> json
       \<Rightarrow> path list \<Rightarrow> string \<Rightarrow> string \<Rightarrow> request_template result" where
  "rebuild_bound_request lib safe fs action base_url inputs roots repository_id environment =
     build_template lib safe fs action base_url inputs roots (Some repository_id)
       (Some environment) True"

section \<open>The template\<close>

definition template_section :: "request_template \<Rightarrow> string \<Rightarrow> json_dict" where
  "template_section t sect =
     (case jget (rt_request_inputs t) sect JNull of JObj kvs \<Rightarrow> kvs | _ \<Rightarrow> [])"

definition body_summary :: "json \<Rightarrow> bool \<Rightarrow> json" where
  "body_summary value present = JObj
     [(''has_body'', JBool present),
      (''count'', JInt (case value of JObj kvs \<Rightarrow> int (length kvs) | JArr xs \<Rightarrow> int (length xs)
                        | _ \<Rightarrow> 0))]"

definition template_summary :: "request_template \<Rightarrow> json" where
  "template_summary t = JObj
     [(''operation'', JStr (rt_action_id t)),
      (''path'', JStr (rt_path_template t)),
      (''query'', JObj [(''count'', JInt (int (length (template_section t ''query''))))]),
      (''headers'', JObj [(''count'', JInt (int (length (template_section t ''headers''))))]),
      (''body'', body_summary (jget (rt_request_inputs t) ''body'' JNull) (rt_body_present t)),
      (''files'', JObj [(''count'', JInt (int (length (rt_files t))))])]"

definition template_inputs :: "request_template \<Rightarrow> json_dict result" where
  "template_inputs t = copy_dict (rt_request_inputs t)"

definition risk_field :: "request_template \<Rightarrow> string \<Rightarrow> json result" where
  "risk_field t key =
     (case map_of (template_section t ''_risk'') key of
        None \<Rightarrow> Inl (LookupErr key)
      | Some v \<Rightarrow> Inr v)"

definition template_binding_payload :: "request_template \<Rightarrow> json_dict result" where
  "template_binding_payload t =
     (case (rt_repository_id t, rt_environment t) of
        (Some repository_id, Some environment) \<Rightarrow>
          (if repository_id = [] \<or> environment = []
           then build_error ''request_binding_context_required''
           else ebind (template_inputs t) (\<lambda>inputs.
             ebind (risk_field t ''tier'') (\<lambda>tier.
             ebind (if rt_method t = ''GET'' then Inr []
                    else ebind (risk_field t ''approval_level'') (\<lambda>level.
                         ebind (risk_field t ''mutation_class'') (\<lambda>class_value.
                         Inr [(''approval_level'', level), (''mutation_class'', class_value)])))
               (\<lambda>approval.
             Inr ([(''repository_id'', JStr repository_id),
                   (''connector_id'', JStr (rt_connector_id t)),
                   (''environment'', JStr environment),
                   (''action_id'', JStr (rt_action_id t)),
                   (''version_id'', JStr (rt_version_id t)),
                   (''method'', JStr (rt_method t)),
                   (''final_path'', JStr (rt_final_path t)),
                   (''request_inputs'', JObj inputs),
                   (''risk_tier'', tier)] @ approval)))))
      | _ \<Rightarrow> build_error ''request_binding_context_required'')"

definition template_payload_hash :: "'a build_lib_scheme \<Rightarrow> request_template \<Rightarrow> string result" where
  "template_payload_hash lib t =
     ebind (template_binding_payload t) (\<lambda>payload.
     canonical_payload_hash (sha256_hexdigest lib) (JObj payload))"

definition approval_binding_payload ::
    "request_template \<Rightarrow> string \<Rightarrow> preflight_binding list \<Rightarrow> json_dict result" where
  "approval_binding_payload t credential_revision preflight_actions =
     (if rt_method t = ''GET'' then build_error ''read_action_has_no_approval_binding''
      else ebind (template_binding_payload t) (\<lambda>payload.
        Inr (payload @ [(''credential_revision'', JStr credential_revision),
                        (''preflight_actions'', JArr (map preflight_payload preflight_actions))])))"

definition approval_payload_hash ::
    "'a build_lib_scheme \<Rightarrow> request_template \<Rightarrow> string \<Rightarrow> preflight_binding list \<Rightarrow> string result" where
  "approval_payload_hash lib t credential_revision preflight_actions =
     ebind (approval_binding_payload t credential_revision preflight_actions) (\<lambda>payload.
     canonical_payload_hash (sha256_hexdigest lib) (JObj payload))"

section \<open>The HTTP request\<close>

text \<open>The arguments of the constructor \<open>httpx.Request\<close>.\<close>

datatype form_part = FieldPart string string | FilePart string string string string

datatype wire_body =
    NoBody
  | FormBody json_dict
  | TextBody string
  | JsonBody json
  | MultipartBody "form_part list"

record wire_request =
  wr_method :: string
  wr_url :: string
  wr_params :: json_dict
  wr_headers :: json_dict
  wr_body :: wire_body

definition multipart_field_value :: "json \<Rightarrow> string result" where
  "multipart_field_value value =
     (case value of
        JStr s \<Rightarrow> Inr s
      | _ \<Rightarrow> if non_finite value then build_error ''invalid_body_value'' else Inr (print_json value))"

definition multipart_parts ::
    "'a build_lib_scheme \<Rightarrow> file_system \<Rightarrow> request_template \<Rightarrow> json \<Rightarrow> form_part list result" where
  "multipart_parts lib fs t body =
     ebind (if \<not> rt_body_present t then Inr []
            else case body of
              JObj kvs \<Rightarrow>
                emap (\<lambda>(name, value).
                  ebind (multipart_field_value value) (\<lambda>text. Inr (FieldPart name text))) kvs
            | _ \<Rightarrow> build_error ''invalid_body_value'') (\<lambda>fields.
     ebind (emap (\<lambda>item.
         ebind (read_bound_file lib fs item) (\<lambda>content.
         Inr (FilePart (bf_field_name item) (bf_filename item) content (bf_content_type item))))
       (rt_files t)) (\<lambda>files. Inr (fields @ files)))"

definition string_values :: "(string \<times> string) list \<Rightarrow> json_dict" where
  "string_values kvs = map (\<lambda>(k, v). (k, JStr v)) kvs"

definition template_http_request ::
    "'a build_lib_scheme \<Rightarrow> file_system \<Rightarrow> request_template \<Rightarrow> auth_context \<Rightarrow> wire_request result" where
  "template_http_request lib fs t auth =
     (let query = template_section t ''query''; headers = template_section t ''headers'' in
      ebind (raise_if
          (list_ex (\<lambda>(name, _). casefold lib name \<in> casefold lib ` fst ` set (auth_headers auth))
             headers)
        (RequestBuildError ''authentication_override_forbidden'')) (\<lambda>_.
      ebind (raise_if (list_ex (\<lambda>(name, _). name \<in> fst ` set (auth_query auth)) query)
        (RequestBuildError ''authentication_override_forbidden'')) (\<lambda>_.
      let headers = filter (\<lambda>(name, _). casefold lib name \<noteq> ''content-type'')
            (dict_update headers (string_values (auth_headers auth)));
          query = dict_update query (string_values (auth_query auth));
          request = \<lparr>wr_method = rt_method t,
                     wr_url = rstrip_char (CHR ''/'') (rt_base_url t) @ rt_final_path t,
                     wr_params = query, wr_headers = headers, wr_body = NoBody\<rparr>;
          media = media_type lib (rt_content_type t) in
      ebind (json_copy (jget (rt_request_inputs t) ''body'' JNull)) (\<lambda>body.
      if media = ''multipart/form-data'' then
        ebind (multipart_parts lib fs t body) (\<lambda>parts.
        Inr (if parts = [] then request else request\<lparr>wr_body := MultipartBody parts\<rparr>))
      else if \<not> rt_body_present t then Inr request
      else
        let request = request\<lparr>wr_headers :=
              dict_put ''Content-Type'' (JStr (rt_content_type t)) headers\<rparr> in
        case body of
          JObj kvs \<Rightarrow>
            if media = ''application/x-www-form-urlencoded'' then Inr (request\<lparr>wr_body := FormBody kvs\<rparr>)
            else if media \<noteq> ''application/json'' \<and> \<not> suffix ''+json'' media
              then build_error ''invalid_body_value''
            else Inr (request\<lparr>wr_body := JsonBody body\<rparr>)
        | JStr text \<Rightarrow>
            if media \<noteq> ''application/json'' \<and> \<not> suffix ''+json'' media
              then Inr (request\<lparr>wr_body := TextBody text\<rparr>)
            else Inr (request\<lparr>wr_body := JsonBody body\<rparr>)
        | _ \<Rightarrow>
            if media \<noteq> ''application/json'' \<and> \<not> suffix ''+json'' media
              then build_error ''invalid_body_value''
            else Inr (request\<lparr>wr_body := JsonBody body\<rparr>)))))"

end
