(* ===== verification/Bound_Requests.thy ===== *)
theory Bound_Requests
  imports Request_Template "HOL-Library.Multiset" "HOL-Library.Code_Target_Nat"
begin

text \<open>
  What the binding of a request template guarantees. The lemmas show that the canonical copy of a
  value (its keys sorted) is idempotent and invisible to every check of the request builder. The
  properties: the hash of a template is the hash that \<open>PreparedRequest\<close> computes for the same
  request; building a request again from the inputs bound in its preview gives the same template as
  long as its files read the same; and a request that was previewed without a body is rebuilt with
  one.
\<close>

section \<open>The canonical copy\<close>

lemma insort_key_map: "(\<And>x. fst (g x) = fst x) \<Longrightarrow>
    insort_key fst (g x) (map g xs) = map g (insort_key fst x xs)"
  by (induction xs) auto

lemma sort_key_map: "(\<And>x. fst (g x) = fst x) \<Longrightarrow> sort_key fst (map g xs) = map g (sort_key fst xs)"
  by (induction xs) (simp_all add: insort_key_map)

lemma sort_key_twice [simp]: "sort_key fst (sort_key fst xs) = sort_key fst xs"
  by (rule sort_key_id_if_sorted) simp

lemma sort_key_map_values:
  "sort_key fst (map (\<lambda>(k, v). (k, f v)) xs) = map (\<lambda>(k, v). (k, f v)) (sort_key fst xs)"
  by (rule sort_key_map) (simp add: case_prod_beta)

lemma sort_keys_obj: "sort_keys (JObj kvs) = JObj (map (\<lambda>(k, v). (k, sort_keys v)) (sort_key fst kvs))"
  by (simp add: sort_key_map_values)

lemma sort_values_twice:
  assumes "\<And>k v. (k, v) \<in> set kvs \<Longrightarrow> f (g v) = h v"
  shows "sort_key fst (map (\<lambda>(k, v). (k, f v)) (sort_key fst (map (\<lambda>(k, v). (k, g v)) kvs))) =
    sort_key fst (map (\<lambda>(k, v). (k, h v)) kvs)"
proof -
  have "map (\<lambda>(k, v). (k, f v)) (map (\<lambda>(k, v). (k, g v)) (sort_key fst kvs)) =
      map (\<lambda>(k, v). (k, h v)) (sort_key fst kvs)"
    using assms by auto
  then show ?thesis by (simp only: sort_key_map_values sort_key_twice)
qed

lemma any_value_sorted:
  assumes "\<And>k v. (k, v) \<in> set kvs \<Longrightarrow> P (f v) = P v"
  shows "list_ex (\<lambda>(k, v). P v) (sort_key fst (map (\<lambda>(k, v). (k, f v)) kvs)) =
    list_ex (\<lambda>(k, v). P v) kvs"
  using assms by (force simp: list_ex_iff)

lemma sort_keys_twice [simp]: "sort_keys (sort_keys v) = sort_keys v"
proof (induction v)
  case (JObj kvs)
  have "sort_keys (sort_keys v) = sort_keys v" if "(k, v) \<in> set kvs" for k v
    using JObj[of "(k, v)" v] that by simp
  then show ?case by (simp only: sort_keys.simps sort_values_twice)
qed (simp_all cong: map_cong)

lemma non_finite_sort_keys [simp]: "non_finite (sort_keys v) = non_finite v"
proof (induction v)
  case (JObj kvs)
  have "non_finite (sort_keys v) = non_finite v" if "(k, v) \<in> set kvs" for k v
    using JObj[of "(k, v)" v] that by simp
  then show ?case by (simp only: sort_keys.simps non_finite.simps any_value_sorted)
qed (auto simp: list_ex_iff)

lemma has_nan_sort_keys [simp]: "has_nan (sort_keys v) = has_nan v"
proof (induction v)
  case (JObj kvs)
  have "has_nan (sort_keys v) = has_nan v" if "(k, v) \<in> set kvs" for k v
    using JObj[of "(k, v)" v] that by simp
  then show ?case by (simp only: sort_keys.simps has_nan.simps any_value_sorted)
qed (auto simp: list_ex_iff)

lemma normal_value_sort_keys [simp]: "normal_value fl (sort_keys v) = normal_value fl v"
proof (induction v)
  case (JObj kvs)
  have "normal_value fl (sort_keys v) = normal_value fl v" if "(k, v) \<in> set kvs" for k v
    using JObj[of "(k, v)" v] that by simp
  then show ?case by (simp only: sort_keys.simps normal_value.simps sort_values_twice)
qed (simp_all cong: map_cong)

lemma json_eq_sort_keys [simp]: "json_eq lib (sort_keys v) w = json_eq lib v w"
  by (simp add: json_eq_def)

lemma is_mapping_sort_keys [simp]: "is_mapping (sort_keys v) = is_mapping v"
  by (cases v) simp_all

lemma type_valid_sort_keys [simp]: "type_valid expected (sort_keys v) = type_valid expected v"
  by (cases v) (simp_all add: type_valid_def)

lemma validate_type_sort_keys [simp]:
  "validate_type lib sect (sort_keys v) schema = validate_type lib sect v schema"
proof -
  have "json_eq lib (sort_keys v) = json_eq lib v" by (rule ext) simp
  then show ?thesis by (simp only: validate_type_def type_valid_sort_keys)
qed

lemma segment_text_sort_keys [simp]: "segment_text (sort_keys v) = segment_text v"
  by (cases v) simp_all

text \<open>The sorting is stable, so it keeps the value that a key has.\<close>

lemma map_of_filter: "map_of xs k = map_option snd (find (\<lambda>_. True) (filter (\<lambda>y. fst y = k) xs))"
  by (induction xs) auto

lemma map_of_sorted [simp]: "map_of (sort_key fst xs) = map_of xs"
proof
  fix k
  have "filter (\<lambda>y. fst y = k) (sort_key fst xs) = filter (\<lambda>y. fst y = k) xs"
    by (rule sort_key_stable)
  then show "map_of (sort_key fst xs) k = map_of xs k" by (simp add: map_of_filter)
qed

text \<open>The copy of a dictionary.\<close>

definition copied :: "json_dict \<Rightarrow> json_dict" where
  "copied d = map (\<lambda>(k, v). (k, sort_keys v)) (sort_key fst d)"

lemma sort_keys_dict: "sort_keys (JObj d) = JObj (copied d)"
  by (simp add: copied_def sort_key_map_values)

lemma map_of_copied: "map_of (copied d) k = map_option sort_keys (map_of d k)"
  by (simp add: copied_def map_of_map comp_def)

lemma fst_copied [simp]: "set (map fst (copied d)) = set (map fst d)"
  by (force simp: copied_def)

lemma copied_twice [simp]: "copied (copied d) = copied d"
  using sort_keys_twice[of "JObj d"] by (simp only: sort_keys_dict json.inject)

lemma set_copied: "set (copied d) = (\<lambda>(k, v). (k, sort_keys v)) ` set d"
  by (simp add: copied_def)

lemma jget_copied: "jget (copied d) k (sort_keys v) = sort_keys (jget d k v)"
  by (simp add: jget_def map_of_copied split: option.splits)

lemma json_copy_Inr [outcome_simps]: "json_copy v = Inr w \<longleftrightarrow> \<not> non_finite v \<and> w = sort_keys v"
  by (auto simp: json_copy_def)

lemma beyond_copied [simp]: "beyond (map fst (copied d)) ys = beyond (map fst d) ys"
  "beyond ys (map fst (copied d)) = beyond ys (map fst d)"
proof -
  show "beyond (map fst (copied d)) ys = beyond (map fst d) ys"
    using fst_copied[of d] by (simp only: beyond_def list_ex_iff)
  show "beyond ys (map fst (copied d)) = beyond ys (map fst d)"
    by (simp only: beyond_def fst_copied)
qed

section \<open>Checks of a copy\<close>

lemma check_values_Inr:
  "check_values lib sect schema d = Inr () \<longleftrightarrow>
     (\<forall>(name, value) \<in> set d. (case map_of schema name of
        Some (JObj decl) \<Rightarrow> validate_type lib sect value decl | _ \<Rightarrow> Inr ()) = Inr ())"
  by (induction d) (auto simp: ebind_eq_Inr)

lemma validate_declared_Inr:
  "validate_declared_mapping lib d schema sect = Inr () \<longleftrightarrow>
     (\<exists>s names. schema = JObj s \<and> \<not> beyond (map fst d) (map fst s) \<and>
        required_names s = Inr names \<and> \<not> beyond names (map fst d) \<and>
        check_values lib sect s d = Inr ())"
  by (auto simp: validate_declared_mapping_def outcome_simps simp del: ebind_raise_if
      split: json.splits)

lemma check_values_copied: "check_values lib sect s (copied d) = Inr () \<longleftrightarrow> check_values lib sect s d = Inr ()"
  unfolding check_values_Inr set_copied by (force split: option.splits json.splits)

lemma check_values_set:
  "check_values lib sect s d = Inr () \<Longrightarrow> set d = set d' \<Longrightarrow> check_values lib sect s d' = Inr ()"
  unfolding check_values_Inr by simp

lemma validate_declared_copied [simp]:
  "validate_declared_mapping lib (copied d) schema sect = Inr () \<longleftrightarrow>
   validate_declared_mapping lib d schema sect = Inr ()"
  unfolding validate_declared_Inr check_values_copied by simp

lemma beyond_set: "set xs = set xs' \<Longrightarrow> beyond xs ys = beyond xs' ys"
  "set xs = set xs' \<Longrightarrow> beyond ys xs = beyond ys xs'"
  by (simp_all add: beyond_def list_ex_iff)

lemma validate_declared_set:
  assumes "validate_declared_mapping lib d schema sect = Inr ()" and "set d = set d'"
  shows "validate_declared_mapping lib d' schema sect = Inr ()"
proof -
  have "set (map fst d) = set (map fst d')" using assms(2) by simp
  from beyond_set[OF this] show ?thesis
    using assms(1) check_values_set[OF _ assms(2)] unfolding validate_declared_Inr by metis
qed

lemma fill_segments_cong:
  "(\<And>n. map_option segment_text (map_of params n) = map_option segment_text (map_of params' n)) \<Longrightarrow>
   fill_segments ph params rs = fill_segments ph params' rs"
proof (induction ph arbitrary: rs)
  case Nil
  then show ?case by simp
next
  case (Cons p ph)
  obtain n i where p: "p = (n, i)" by force
  show ?case using Cons.prems[of n] Cons.IH[OF Cons.prems]
    by (cases "map_of params n"; cases "map_of params' n") (simp_all add: p)
qed

lemma template_path_copied [simp]: "template_path action (copied path) = template_path action path"
proof -
  have "map_option segment_text (map_of (copied path) n) = map_option segment_text (map_of path n)" for n
    by (cases "map_of path n") (simp_all add: map_of_copied)
  note fill = fill_segments_cong[of "copied path" path, OF this]
  have "render_action_path (ca_path_template action) (JObj (copied path)) =
      render_action_path (ca_path_template action) (JObj path)"
    using fst_copied[of path] by (simp add: render_action_path_def fill del: set_map cong: if_cong)
  then show ?thesis using fst_copied[of path]
    by (simp add: template_path_def Let_def del: set_map cong: if_cong)
qed

lemma walk_json_copied: "walk_json parts v = Inr x \<Longrightarrow> walk_json parts (sort_keys v) = Inr (sort_keys x)"
proof (induction parts arbitrary: v)
  case Nil
  then show ?case by simp
next
  case (Cons p parts)
  then show ?case
    by (cases v) (auto simp: sort_keys_dict map_of_copied simp del: sort_keys.simps(2) split: option.splits)
qed

lemma idempotency_text_copied [simp]: "idempotency_text (sort_keys v) = idempotency_text v"
  by (cases v) (simp_all add: idempotency_text_def)

lemma idempotency_value_copied:
  assumes "idempotency_value source path query body = Inr e"
  shows "idempotency_value source (copied path) (copied query) (sort_keys body) = Inr e"
proof -
  have "ebind (walk_json parts (sort_keys v)) idempotency_text = Inr e"
    if "ebind (walk_json parts v) idempotency_text = Inr e" for parts v
    using that walk_json_copied[of parts v] by (auto simp: outcome_simps)
  then show ?thesis using assms
    by (auto simp: idempotency_value_def Let_def sort_keys_dict[symmetric] simp del: sort_keys.simps
        split: if_splits)
qed
section \<open>The idempotency header\<close>

lemma dict_put_new: "k \<notin> fst ` set d \<Longrightarrow> dict_put k v d = d @ [(k, v)]"
  by (induction k v d rule: dict_put.induct) auto

lemma mset_fst_copied: "mset (map fst (copied d)) = mset (map fst d)"
proof -
  have "map fst (copied d) = map fst (sort_key fst d)" by (simp add: copied_def case_prod_beta)
  then show ?thesis by simp
qed

lemma filter_names_copied:
  assumes "filter P (map fst d) = [x]"
  shows "filter P (map fst (copied d)) = [x]"
proof -
  have "mset (filter P (map fst (copied d))) = mset (filter P (map fst d))"
    by (simp only: mset_filter mset_fst_copied)
  also have "\<dots> = {#x#}" by (simp add: assms)
  finally show ?thesis by (simp only: mset_single_iff)
qed

text \<open>The headers of a template whose idempotency header was added to those of the caller.\<close>

lemma apply_idempotency_fresh:
  assumes "apply_idempotency lib action path query headers body False = Inr hs"
    and "idempotency_binding lib action = Inr binding"
  obtains "binding = None" "hs = headers"
  | header source e where "binding = Some (header, source)"
      "idempotency_value source path query body = Inr e" "hs = headers @ [(header, JStr e)]"
      "filter (\<lambda>name. casefold lib name = casefold lib header) (map fst headers) = []"
proof (cases binding)
  case None
  then show thesis using assms that(1) by (simp add: apply_idempotency_def)
next
  case (Some b)
  obtain header source where b: "b = (header, source)" by force
  from assms obtain e where e: "idempotency_value source path query body = Inr e"
    and none: "filter (\<lambda>name. casefold lib name = casefold lib header) (map fst headers) = []"
    and hs: "hs = dict_put header (JStr e) headers"
    by (auto simp: apply_idempotency_def Some b outcome_simps Let_def split: if_splits)
  have "header \<notin> fst ` set headers" using none by (auto simp: filter_empty_conv)
  with hs have "hs = headers @ [(header, JStr e)]" by (simp add: dict_put_new)
  with that(2) Some b e none show thesis by blast
qed

lemma apply_idempotency_again:
  assumes "apply_idempotency lib action path query headers body False = Inr hs"
  shows "apply_idempotency lib action (copied path) (copied query) (copied hs) (sort_keys body) True =
    Inr (copied hs)"
proof -
  obtain binding where b: "idempotency_binding lib action = Inr binding"
    using assms by (auto simp: apply_idempotency_def outcome_simps)
  show ?thesis
  proof (rule apply_idempotency_fresh[OF assms b])
    assume "binding = None" then show ?thesis by (simp add: apply_idempotency_def b)
  next
    fix header source e
    assume s: "binding = Some (header, source)" "idempotency_value source path query body = Inr e"
      and hs: "hs = headers @ [(header, JStr e)]"
      and none: "filter (\<lambda>name. casefold lib name = casefold lib header) (map fst headers) = []"
    have "filter (\<lambda>name. casefold lib name = casefold lib header) (map fst hs) = [header]"
      using none by (simp add: hs)
    note one = filter_names_copied[OF this]
    have "header \<notin> fst ` set headers" using none by (auto simp: filter_empty_conv)
    then have "map_of headers header = None" by (simp add: map_of_eq_None_iff)
    then have "map_of (copied hs) header = Some (JStr e)" by (simp add: map_of_copied hs map_add_Some_iff)
    then show ?thesis
      using one idempotency_value_copied[OF s(2)] by (simp add: apply_idempotency_def b s(1) Let_def)
  qed
qed

section \<open>Files\<close>

lemma containing_root_bound: "containing_root p roots i = Some (j, parts) \<Longrightarrow> i \<le> j \<and> j < i + length roots"
  by (induction p roots i rule: containing_root.induct) (auto split: option.splits)

lemma file_record_Inr:
  "file_record lib fs name path i rel = Inr item \<Longrightarrow>
     bf_field_name item = name \<and> bf_root_index item = i \<and> bf_relative_path item = rel"
  by (auto simp: file_record_def outcome_simps)

lemma bind_file_Inr:
  assumes "bind_file lib fs roots name value = Inr item"
  shows "bf_field_name item = name \<and> bf_root_index item < length roots"
  using assms containing_root_bound[of _ roots 0]
  by (auto simp: bind_file_def split: json.splits option.splits if_splits dest!: file_record_Inr)

lemma has_nan_payload [simp]: "\<not> has_nan (file_payload item)"
  by (simp add: file_payload_def)

lemma restore_copied:
  assumes "reread_file lib fs roots name (bf_root_index item) (bf_relative_path item) = Inr item"
    and "bf_root_index item < length roots"
  shows "restore_bound_file lib fs roots name (sort_keys (file_payload item)) = Inr item"
proof -
  obtain kvs where kvs: "file_payload item = JObj kvs" "map fst kvs = file_fields"
      "map_of kvs ''root_index'' = Some (JInt (int (bf_root_index item)))"
      "map_of kvs ''relative_path'' = Some (JStr (bf_relative_path item))"
    by (simp add: file_payload_def file_fields_def)
  have "json_eq lib (JObj (copied kvs)) (file_payload item)"
    unfolding sort_keys_dict[symmetric] kvs(1)[symmetric] by (simp add: json_eq_def)
  moreover have "set (map fst (copied kvs)) = set file_fields" by (simp only: fst_copied kvs(2))
  ultimately show ?thesis
    using assms by (simp add: restore_bound_file_def kvs(1) sort_keys_dict map_of_copied kvs(3,4)
        del: sort_keys.simps(2) set_map)
qed

definition files_dict :: "bound_file list \<Rightarrow> json_dict" where
  "files_dict files = map (\<lambda>item. (bf_field_name item, file_payload item)) files"

text \<open>The files of a template, read again from the positions bound in it.\<close>

lemma bound_files_again:
  assumes "bound_files lib fs values schema roots False = Inr files"
    and "list_all (\<lambda>item. reread_file lib fs' roots' (bf_field_name item) (bf_root_index item)
           (bf_relative_path item) = Inr item) files"
    and "length roots' = length roots"
  shows "bound_files lib fs' (copied (files_dict files)) schema roots' True = Inr files"
proof -
  obtain s names where s: "schema = JObj s" "\<not> beyond (map fst values) (map fst s)"
      "required_names s = Inr names" "\<not> beyond names (map fst values)"
    and files: "emap (\<lambda>(name, value). bind_file lib fs roots name value) (sort_key fst values) = Inr files"
    using assms(1) by (auto simp: bound_files_def outcome_simps simp del: ebind_raise_if split: json.splits)
  have all2: "list_all2 (\<lambda>(name, value) item. bf_field_name item = name \<and>
      bf_root_index item < length roots) (sort_key fst values) files"
    using files unfolding emap_eq_Inr_iff by (rule list_all2_mono) (auto dest: bind_file_Inr)
  then have names: "map fst (files_dict files) = map fst (sort_key fst values)"
    by (induction rule: list_all2_induct) (auto simp: files_dict_def)
  have bounds: "list_all (\<lambda>item. bf_root_index item < length roots) files"
    using all2 by (induction rule: list_all2_induct) auto
  have "sort_key fst (files_dict files) = files_dict files"
    by (rule sort_key_id_if_sorted) (simp only: names sorted_sort_key)
  then have sorted: "copied (files_dict files) =
      map (\<lambda>item. (bf_field_name item, sort_keys (file_payload item))) files"
    by (simp add: copied_def files_dict_def)
  have again: "sort_key fst (copied (files_dict files)) = copied (files_dict files)"
  proof (rule sort_key_id_if_sorted)
    have "map fst (copied (files_dict files)) = map fst (sort_key fst values)"
      by (simp only: sorted names[symmetric]) (simp add: files_dict_def)
    then show "sorted (map fst (copied (files_dict files)))" by (simp only: sorted_sort_key)
  qed
  have "emap (\<lambda>(name, value). restore_bound_file lib fs' roots' name value)
      (copied (files_dict files)) = Inr files"
    unfolding sorted emap_eq_Inr_iff list_all2_map1 using assms(2,3) bounds
    by (simp add: list_all2_same list_all_iff restore_copied)
  moreover have "set (map fst (files_dict files)) = set (map fst values)"
    by (simp only: names) simp
  ultimately show ?thesis
    using s beyond_set[of "map fst (files_dict files)" "map fst values"]
    by (simp add: bound_files_def again del: set_map)
qed
section \<open>The construction\<close>

lemma build_template_Inr:
  assumes "build_template lib safe fs action base_url inputs roots repository environment bound = Inr t"
  obtains nb supplied schema parts headers final_path rroots files risk request_inputs where
    "revalidate_catalog_action (pylib.truncate lib) safe action = Inr action"
    "\<not> (case environment of None \<Rightarrow> False | Some e \<Rightarrow> e \<notin> set (ca_environments action))"
    "normalize_base_url lib base_url = Inr nb" "accept_inputs inputs nb bound = Inr supplied"
    "schema_sections action = Inr schema" "split_inputs supplied = Inr parts"
    "check_parts lib action schema parts bound = Inr headers"
    "template_path action (rp_path parts) = Inr final_path"
    "resolve_roots fs roots = Inr rroots"
    "bound_files lib fs (rp_files parts) (jget schema ''files'' JNull) rroots bound = Inr files"
    "risk_binding action = Inr risk"
    "normalized_inputs parts headers files nb risk = Inr request_inputs"
    "t = \<lparr>rt_action_id = ca_action_id action, rt_version_id = ca_version_id action,
          rt_connector_id = ca_connector_id action, rt_method = method_value (ca_method action),
          rt_path_template = ca_path_template action, rt_final_path = final_path,
          rt_base_url = nb, rt_repository_id = repository,
          rt_environment = environment, rt_request_inputs = request_inputs,
          rt_body_present = rp_body_present parts, rt_content_type = ca_content_type action,
          rt_files = files\<rparr>"
proof -
  obtain b where b: "revalidate_catalog_action (pylib.truncate lib) safe action = Inr b"
    using assms by (auto simp: build_template_def split: sum.splits)
  then have "b = action" using revalidate_catalog_action_Inr by blast
  with b have v: "revalidate_catalog_action (pylib.truncate lib) safe action = Inr action" by simp
  show thesis
    using assms unfolding build_template_def v sum.case
    by (simp only: ebind_eq_Inr raise_if_eq_Inr sum.inject)
      (elim exE conjE, rule that[OF v]; (assumption | (rule sym, assumption)))
qed

lemma normalized_inputs_Inr:
  "normalized_inputs parts headers files nb risk = Inr r \<Longrightarrow>
     \<not> non_finite (JObj (rp_path parts)) \<and> \<not> non_finite (JObj (rp_query parts)) \<and>
     \<not> non_finite (JObj headers) \<and> \<not> non_finite (rp_body parts) \<and>
     r = [(''path'', JObj (copied (rp_path parts))), (''query'', JObj (copied (rp_query parts))),
          (''headers'', JObj (copied headers)), (''body'', sort_keys (rp_body parts)),
          (''files'', JObj (files_dict files)),
          (''_target'', JObj [(''base_url'', JStr nb)]), (''_risk'', JObj risk)]"
  by (auto simp: normalized_inputs_def ebind_eq_Inr json_copy_Inr sort_keys_dict files_dict_def
      simp del: sort_keys.simps(2) non_finite.simps)

lemma sort_keys_null [simp]: "sort_keys v = JNull \<longleftrightarrow> v = JNull"
  by (cases v) simp_all

lemma split_inputs_Inr:
  assumes "split_inputs supplied = Inr parts"
  shows "sort_keys (rp_body parts) = rp_body parts" and "rp_body parts \<noteq> JNull"
    and "\<not> rp_body_present parts \<Longrightarrow> rp_body parts = JObj []"
proof -
  obtain body where "rp_body_present parts = (body \<noteq> JNull)"
    and "rp_body parts = sort_keys (if body \<noteq> JNull then body else JObj [])"
    using assms by (auto simp: split_inputs_def ebind_eq_Inr json_copy_Inr Let_def)
  then show "sort_keys (rp_body parts) = rp_body parts" "rp_body parts \<noteq> JNull"
    "\<not> rp_body_present parts \<Longrightarrow> rp_body parts = JObj []"
    by auto
qed
text \<open>The roots resolve and the files of a template still read as they are bound in it.\<close>

definition files_unchanged ::
    "'a build_lib_scheme \<Rightarrow> file_system \<Rightarrow> path list \<Rightarrow> request_template \<Rightarrow> bool" where
  "files_unchanged lib fs roots t =
     (case resolve_roots fs roots of
        Inl _ \<Rightarrow> False
      | Inr resolved \<Rightarrow>
          list_all (\<lambda>item. reread_file lib fs resolved (bf_field_name item) (bf_root_index item)
                      (bf_relative_path item) = Inr item) (rt_files t))"

text \<open>The headers of a template pass the check of a caller's headers.\<close>

definition headers_accepted :: "'a build_lib_scheme \<Rightarrow> request_template \<Rightarrow> bool" where
  "headers_accepted lib t \<longleftrightarrow>
     reject_auth_overrides lib (template_section t ''query'') (template_section t ''headers'')
       (rt_content_type t) = Inr ()"

text \<open>The body of a template fits its schema when it counts as present.\<close>

definition body_fits :: "'a build_lib_scheme \<Rightarrow> catalog_action \<Rightarrow> request_template \<Rightarrow> bool" where
  "body_fits lib action t =
     (case schema_sections action of
        Inl _ \<Rightarrow> False
      | Inr schema \<Rightarrow>
          validate_body lib (jget (rt_request_inputs t) ''body'' JNull) (jget schema ''body'' JNull)
            True = Inr ())"

lemma check_parts_Inr:
  assumes "check_parts lib action schema parts bound = Inr hs"
  obtains binding where
    "reject_auth_overrides lib (rp_query parts) (rp_headers parts) (ca_content_type action) = Inr ()"
    "validate_declared_mapping lib (rp_path parts) (jget schema ''path'' JNull) ''path'' = Inr ()"
    "validate_declared_mapping lib (rp_query parts) (jget schema ''query'' JNull) ''query'' = Inr ()"
    "idempotency_binding lib action = Inr binding"
    "\<not> (binding \<noteq> None \<and> \<not> bound \<and>
        length (case binding of None \<Rightarrow> rp_headers parts
          | Some (header, _) \<Rightarrow> filter (\<lambda>(name, value). casefold lib name \<noteq> casefold lib header)
              (rp_headers parts)) \<noteq> length (rp_headers parts))"
    "validate_declared_mapping lib (case binding of None \<Rightarrow> rp_headers parts
       | Some (header, _) \<Rightarrow> filter (\<lambda>(name, value). casefold lib name \<noteq> casefold lib header)
           (rp_headers parts)) (jget schema ''headers'' JNull) ''headers'' = Inr ()"
    "validate_body lib (rp_body parts) (jget schema ''body'' JNull) (rp_body_present parts) = Inr ()"
    "apply_idempotency lib action (rp_path parts) (rp_query parts) (rp_headers parts)
       (rp_body parts) bound = Inr hs"
  using assms unfolding check_parts_def Let_def
  by (simp only: ebind_eq_Inr raise_if_eq_Inr) (elim exE conjE, rule that; (assumption | simp))

lemma filter_copied:
  "(\<And>k v. P (k, sort_keys v) = P (k, v)) \<Longrightarrow> set (filter P (copied d)) = set (copied (filter P d))"
  by (force simp: copied_def)

lemma check_parts_again:
  assumes fresh: "check_parts lib action schema parts False = Inr hs"
    and heads: "reject_auth_overrides lib (copied (rp_query parts)) (copied hs)
      (ca_content_type action) = Inr ()"
    and body: "validate_body lib (rp_body parts) (jget schema ''body'' JNull) True = Inr ()"
    and sorted: "sort_keys (rp_body parts) = rp_body parts"
  shows "check_parts lib action schema
    \<lparr>rp_path = copied (rp_path parts), rp_query = copied (rp_query parts), rp_headers = copied hs,
     rp_files = files, rp_body_present = True, rp_body = rp_body parts\<rparr> True = Inr (copied hs)"
proof -
  obtain binding where
    declared: "validate_declared_mapping lib (rp_path parts) (jget schema ''path'' JNull) ''path'' = Inr ()"
      "validate_declared_mapping lib (rp_query parts) (jget schema ''query'' JNull) ''query'' = Inr ()"
    and b: "idempotency_binding lib action = Inr binding"
    and hdrs: "validate_declared_mapping lib (case binding of None \<Rightarrow> rp_headers parts
       | Some (header, _) \<Rightarrow> filter (\<lambda>(name, value). casefold lib name \<noteq> casefold lib header)
           (rp_headers parts)) (jget schema ''headers'' JNull) ''headers'' = Inr ()"
    and app: "apply_idempotency lib action (rp_path parts) (rp_query parts) (rp_headers parts)
       (rp_body parts) False = Inr hs"
    using fresh by (rule check_parts_Inr)
  have hdrs': "validate_declared_mapping lib (case binding of None \<Rightarrow> copied hs
       | Some (header, _) \<Rightarrow> filter (\<lambda>(name, value). casefold lib name \<noteq> casefold lib header)
           (copied hs)) (jget schema ''headers'' JNull) ''headers'' = Inr ()"
  proof (rule apply_idempotency_fresh[OF app b])
    assume "binding = None" "hs = rp_headers parts"
    then show ?thesis using hdrs by simp
  next
    fix header source e
    assume s: "binding = Some (header, source)" "hs = rp_headers parts @ [(header, JStr e)]"
    let ?P = "\<lambda>(name, value). casefold lib name \<noteq> casefold lib header"
    have "validate_declared_mapping lib (copied (filter ?P hs)) (jget schema ''headers'' JNull)
        ''headers'' = Inr ()"
      using hdrs by (simp add: s)
    moreover have "set (copied (filter ?P hs)) = set (filter ?P (copied hs))"
      by (rule filter_copied[symmetric]) simp
    ultimately have "validate_declared_mapping lib (filter ?P (copied hs)) (jget schema ''headers'' JNull)
        ''headers'' = Inr ()"
      by (rule validate_declared_set)
    then show ?thesis by (simp add: s(1))
  qed
  note copies = declared[THEN validate_declared_copied[THEN iffD2]]
  show ?thesis
    using heads copies hdrs' body apply_idempotency_again[OF app] sorted
    by (cases binding) (auto simp: check_parts_def b simp del: validate_declared_copied)
qed
lemma resolve_roots_length: "resolve_roots fs roots = Inr ps \<Longrightarrow> length ps = length roots"
  unfolding resolve_roots_def by (rule emap_eq_Inr_length)

lemma rebuild_template:
  assumes built: "build_template lib safe fs action base_url inputs roots repository environment False = Inr t"
    and bound: "template_inputs t = Inr kvs"
    and heads: "headers_accepted lib t" and files: "files_unchanged lib fs' roots t"
    and fits: "body_fits lib action t"
  shows "build_template lib safe fs' action base_url (JObj kvs) roots repository environment True =
    Inr (t\<lparr>rt_body_present := True\<rparr>)"
proof -
  obtain nb supplied schema parts headers final_path rroots items risk request_inputs where
    valid: "revalidate_catalog_action (pylib.truncate lib) safe action = Inr action"
    and env: "\<not> (case environment of None \<Rightarrow> False | Some e \<Rightarrow> e \<notin> set (ca_environments action))"
    and nb: "normalize_base_url lib base_url = Inr nb"
    and schema: "schema_sections action = Inr schema" and parts: "split_inputs supplied = Inr parts"
    and checked: "check_parts lib action schema parts False = Inr headers"
    and path: "template_path action (rp_path parts) = Inr final_path"
    and rroots: "resolve_roots fs roots = Inr rroots"
    and items: "bound_files lib fs (rp_files parts) (jget schema ''files'' JNull) rroots False = Inr items"
    and risk: "risk_binding action = Inr risk"
    and ni: "normalized_inputs parts headers items nb risk = Inr request_inputs"
    and t: "t = \<lparr>rt_action_id = ca_action_id action, rt_version_id = ca_version_id action,
          rt_connector_id = ca_connector_id action, rt_method = method_value (ca_method action),
          rt_path_template = ca_path_template action, rt_final_path = final_path,
          rt_base_url = nb, rt_repository_id = repository,
          rt_environment = environment, rt_request_inputs = request_inputs,
          rt_body_present = rp_body_present parts, rt_content_type = ca_content_type action,
          rt_files = items\<rparr>"
    using built by (rule build_template_Inr)
  note r = normalized_inputs_Inr[OF ni] and body = split_inputs_Inr[OF parts]
  obtain rroots' where rr: "resolve_roots fs' roots = Inr rroots'"
    and reread: "list_all (\<lambda>item. reread_file lib fs' rroots' (bf_field_name item) (bf_root_index item)
           (bf_relative_path item) = Inr item) items"
    using files by (auto simp: files_unchanged_def t split: sum.splits)
  have len: "length rroots' = length rroots"
    using resolve_roots_length[OF rr] resolve_roots_length[OF rroots] by simp
  have kvs: "kvs = copied request_inputs"
    using bound by (auto simp: template_inputs_def copy_dict_def t outcome_simps sort_keys_dict
        simp del: sort_keys.simps(2))
  have keys: "set (map fst kvs) = set (input_sections @ [''_target'', ''_risk''])"
    using r by (simp only: kvs fst_copied) (auto simp: input_sections_def)
  have look: "map_of kvs k = map_option sort_keys (map_of request_inputs k)" for k
    by (simp only: kvs map_of_copied)
  have accept: "accept_inputs (JObj kvs) nb True = Inr kvs"
  proof -
    have "\<not> beyond (map fst kvs) (input_sections @ [''_target'', ''_risk''])"
      using keys by (simp only: beyond_def list_ex_iff) blast
    then show ?thesis using r by (simp add: accept_inputs_def validate_bound_target_def look)
  qed
  let ?parts = "\<lparr>rp_path = copied (rp_path parts), rp_query = copied (rp_query parts),
    rp_headers = copied headers, rp_files = copied (files_dict items), rp_body_present = True,
    rp_body = rp_body parts\<rparr>"
  have split: "split_inputs kvs = Inr ?parts"
    using r body(1,2)
    by (simp add: split_inputs_def section_mapping_def jget_def look sort_keys_dict json_copy_def
        del: sort_keys.simps(2))
  have heads': "reject_auth_overrides lib (copied (rp_query parts)) (copied headers)
      (ca_content_type action) = Inr ()"
    using heads r by (simp add: headers_accepted_def t template_section_def jget_def)
  have fits': "validate_body lib (rp_body parts) (jget schema ''body'' JNull) True = Inr ()"
    using fits r body(1) by (simp add: body_fits_def schema t jget_def)
  have check: "check_parts lib action schema ?parts True = Inr (copied headers)"
    by (rule check_parts_again[OF checked heads' fits' body(1)])
  have files': "bound_files lib fs' (copied (files_dict items)) (jget schema ''files'' JNull) rroots' True
      = Inr items"
    by (rule bound_files_again[OF items reread len])
  have ni': "normalized_inputs ?parts (copied headers) items nb risk = Inr request_inputs"
  proof -
    have fin: "\<not> non_finite (JObj (copied d))" if "\<not> non_finite (JObj d)" for d
      using that by (simp only: sort_keys_dict[symmetric] non_finite_sort_keys) simp
    show ?thesis
      using r fin body(1)
      by (simp add: normalized_inputs_def json_copy_def sort_keys_dict files_dict_def
          del: sort_keys.simps(2) non_finite.simps)
  qed
  show ?thesis
    unfolding build_template_def valid sum.case
    using env path
    by (simp add: nb accept schema split check rr files' risk ni' t)
qed
section \<open>Properties\<close>

lemma body_fits_present:
  assumes "build_template lib safe fs action base_url inputs roots repository environment False = Inr t"
    and "rt_body_present t"
  shows "body_fits lib action t"
proof -
  obtain nb supplied schema parts headers risk items request_inputs where
    schema: "schema_sections action = Inr schema" and parts: "split_inputs supplied = Inr parts"
    and checked: "check_parts lib action schema parts False = Inr headers"
    and ni: "normalized_inputs parts headers items nb risk = Inr request_inputs"
    and t: "rt_request_inputs t = request_inputs" "rt_body_present t = rp_body_present parts"
    using assms(1) by (rule build_template_Inr) simp
  have "validate_body lib (rp_body parts) (jget schema ''body'' JNull) (rp_body_present parts) = Inr ()"
    using checked by (rule check_parts_Inr)
  then show ?thesis
    using assms(2) split_inputs_Inr(1)[OF parts] normalized_inputs_Inr[OF ni]
    by (simp add: body_fits_def schema t jget_def)
qed

text \<open>C27: what was previewed is what is built again for the dispatch. Take a template that was built
  from the inputs of a caller with a body present. Building it again from the inputs bound in it
  gives the same template, with every identifier, path, header, body and file, and so the same
  approval hash, as long as its roots and files read the same and its headers (the idempotency
  header is new among them) pass the check of a caller's headers. \<close>
theorem rebuilt_request_same:
  assumes "build_request lib safe fs action base_url inputs roots repository environment = Inr t"
    and "template_inputs t = Inr kvs" and "rt_body_present t"
    and "headers_accepted lib t" and "files_unchanged lib fs' roots t"
  shows "rebuild_bound_request lib safe fs' action base_url (JObj kvs) roots repository environment = Inr t"
proof -
  have "t\<lparr>rt_body_present := True\<rparr> = t" using assms(3) by simp
  then show ?thesis
    using rebuild_template[OF assms(1)[unfolded build_request_def] assms(2,4,5)
        body_fits_present[OF assms(1)[unfolded build_request_def] assms(3)]]
    by (simp add: rebuild_bound_request_def)
qed

definition build_sample_lib :: build_lib where
  "build_sample_lib = request_lib.extend sample_lib
     \<lparr>sanitize_text = (\<lambda>s. s), float_int = (\<lambda>_. None),
      urlsplit = (\<lambda>_. Some \<lparr>su_scheme = ''https'', su_netloc = ''api.example.com'', su_path = ''/v1/'',
         su_query = [], su_fragment = [], su_username = None, su_password = None,
         su_hostname = Some ''api.example.com'', su_port = None\<rparr>),
      guess_type = (\<lambda>_. None)\<rparr>"

definition sample_files :: file_system where
  "sample_files =
     \<lparr>fs_expanduser = Some, fs_resolve = Some, fs_is_symlink = (\<lambda>_. False),
      fs_is_dir = (\<lambda>_. True), fs_is_file = (\<lambda>_. True),
      fs_open = (\<lambda>_. Some
        \<lparr>fd_before = \<lparr>fst_regular = True, fst_links = 1, fst_size = 2, fst_identity = []\<rparr>,
         fd_chunks = [''ab''], fd_failed = False,
         fd_after = \<lparr>fst_regular = True, fst_links = 1, fst_size = 2, fst_identity = []\<rparr>\<rparr>)\<rparr>"

definition upload_action :: "json_dict \<Rightarrow> catalog_action" where
  "upload_action body = sample_action\<lparr>ca_input_schema := JObj
     [(''path'', JObj [(''id'', JObj [(''type'', JStr ''integer''), (''required'', JBool True)])]),
      (''query'', JObj [(''page'', JObj [])]), (''headers'', JObj []), (''body'', JObj body),
      (''files'', JObj [(''scan'', JObj [(''required'', JBool True)])])],
     ca_idempotency := [(''header_name'', JStr ''X-Request-Key''), (''source'', JStr ''path.id'')]\<rparr>"

definition upload_inputs :: "(string \<times> json) list" where
  "upload_inputs =
     [(''query'', JObj [(''page'', JInt 2)]), (''path'', JObj [(''id'', JInt 7)]),
      (''files'', JObj [(''scan'', JStr ''/data/in/a.csv'')])]"

definition upload_template :: "json_dict \<Rightarrow> json_dict \<Rightarrow> request_template result" where
  "upload_template body inputs =
     build_request build_sample_lib (\<lambda>_. True) sample_files (upload_action body)
       ''https://api.example.com/v1/'' (JObj (inputs @ upload_inputs)) [(True, [''data''])]
       ''repo'' ''sandbox''"

theorem rebuilt_request_same_witness:
  "case upload_template [(''type'', JStr ''object'')] [(''body'', JObj [(''total'', JInt 5)])] of
     Inl _ \<Rightarrow> False
   | Inr t \<Rightarrow>
       (case template_inputs t of
          Inl _ \<Rightarrow> False
        | Inr kvs \<Rightarrow>
            rebuild_bound_request build_sample_lib (\<lambda>_. True) sample_files
              (upload_action [(''type'', JStr ''object'')]) ''https://api.example.com/v1/''
              (JObj kvs) [(True, [''data''])] ''repo'' ''sandbox'' = Inr t)"
proof -
  let ?t = "upload_template [(''type'', JStr ''object'')] [(''body'', JObj [(''total'', JInt 5)])]"
  have ok: "case ?t of Inl _ \<Rightarrow> False | Inr t \<Rightarrow> is_ok (template_inputs t) \<and> rt_body_present t \<and>
      headers_accepted build_sample_lib t \<and>
      files_unchanged build_sample_lib sample_files [(True, [''data''])] t"
    by code_simp
  then obtain t kvs where t: "?t = Inr t" "template_inputs t = Inr kvs" "rt_body_present t"
      "headers_accepted build_sample_lib t"
      "files_unchanged build_sample_lib sample_files [(True, [''data''])] t"
    by (auto simp: is_ok_def split: sum.splits)
  note same = rebuilt_request_same[OF t(1)[unfolded upload_template_def] t(2-5)]
  show ?thesis by (simp add: t(1,2) same)
qed
lemma build_template_fields:
  assumes "build_template lib safe fs action base_url inputs roots repository environment bound = Inr t"
  shows "rt_action_id t = ca_action_id action" and "rt_version_id t = ca_version_id action"
    and "rt_connector_id t = ca_connector_id action" and "rt_method t = method_value (ca_method action)"
    and "rt_content_type t = ca_content_type action"
    and "rt_repository_id t = repository" and "rt_environment t = environment"
    and "ca_method action \<noteq> GET \<Longrightarrow> effective_risk action = Inr risk \<Longrightarrow>
      template_section t ''_risk'' =
        [(''tier'', JInt (tier_int (rd_tier risk))),
         (''approval_level'', JStr (approval_value (rd_approval_level risk))),
         (''mutation_class'', JStr (mutation_value (rd_mutation_class risk)))]"
    and "\<exists>kvs. template_inputs t = Inr kvs"
proof -
  obtain nb schema parts headers final_path files r request_inputs where
    risk: "risk_binding action = Inr r"
    and ni: "normalized_inputs parts headers files nb r = Inr request_inputs"
    and t: "t = \<lparr>rt_action_id = ca_action_id action, rt_version_id = ca_version_id action,
          rt_connector_id = ca_connector_id action, rt_method = method_value (ca_method action),
          rt_path_template = ca_path_template action, rt_final_path = final_path,
          rt_base_url = nb, rt_repository_id = repository,
          rt_environment = environment, rt_request_inputs = request_inputs,
          rt_body_present = rp_body_present parts, rt_content_type = ca_content_type action,
          rt_files = files\<rparr>"
    using assms by (rule build_template_Inr)
  note n = normalized_inputs_Inr[OF ni]
  show "rt_action_id t = ca_action_id action" "rt_version_id t = ca_version_id action"
    "rt_connector_id t = ca_connector_id action" "rt_method t = method_value (ca_method action)"
    "rt_content_type t = ca_content_type action"
    "rt_repository_id t = repository" "rt_environment t = environment"
    by (simp_all add: t)
  show "ca_method action \<noteq> GET \<Longrightarrow> effective_risk action = Inr risk \<Longrightarrow>
      template_section t ''_risk'' =
        [(''tier'', JInt (tier_int (rd_tier risk))),
         (''approval_level'', JStr (approval_value (rd_approval_level risk))),
         (''mutation_class'', JStr (mutation_value (rd_mutation_class risk)))]"
    using risk n by (auto simp: risk_binding_def t template_section_def jget_def)
  have fin: "\<not> non_finite (JObj (copied d))" if "\<not> non_finite (JObj d)" for d
    using that by (simp only: sort_keys_dict[symmetric] non_finite_sort_keys) simp
  have "\<not> non_finite (JObj (files_dict files))"
    by (auto simp: files_dict_def file_payload_def list_ex_iff)
  moreover have "\<not> non_finite (JObj r)"
    using risk by (auto simp: risk_binding_def ebind_eq_Inr split: if_splits)
  ultimately have "\<not> non_finite (JObj request_inputs)"
    using n fin by (simp del: non_finite.simps add: non_finite.simps(3)) simp
  then show "\<exists>kvs. template_inputs t = Inr kvs"
    by (simp add: template_inputs_def copy_dict_def json_copy_def t sort_keys_dict
        del: sort_keys.simps(2) non_finite.simps)
qed

text \<open>C28: the two modules bind the same thing. The hash that a template of a mutation computes for an
  approval (\<open>RequestTemplate.approval_payload_hash\<close>) is the hash that \<open>PreparedRequest\<close> computes
  (\<open>_binding_payload\<close> of \<open>execution/models.py\<close>) over the repository, the connector, the
  environment, the identity of the action, its rendered path, the canonical copy of the inputs and
  the risk of the action, with the same credential revision and preflights: a preview made from a
  template is never refused for its hash. \<close>
theorem template_hash_is_request_hash:
  assumes "build_request lib safe fs action base_url inputs roots repository environment = Inr t"
    and "effective_risk action = Inr risk" and "repository \<noteq> []" and "environment \<noteq> []"
    and "template_inputs t = Inr kvs"
  shows "approval_payload_hash lib t revision preflights =
    canonical_payload_hash (sha256_hexdigest lib)
      (binding_payload repository (ca_connector_id action) environment (ca_action_id action)
        (ca_version_id action) (ca_method action) (rt_final_path t) kvs (rd_tier risk)
        (rd_approval_level risk) (rd_mutation_class risk) revision preflights)"
proof -
  note f = build_template_fields[OF assms(1)[unfolded build_request_def]]
  have m: "ca_method action \<noteq> GET" using assms(2) by (auto simp: effective_risk_def)
  then have "rt_method t \<noteq> ''GET''" using method_value_inj[of "ca_method action" GET] by (simp add: f(4))
  then show ?thesis
    using assms(3,4)
    by (simp add: approval_payload_hash_def approval_binding_payload_def template_binding_payload_def
        f(1-7) f(8)[OF m assms(2)] assms(5) risk_field_def binding_payload_def)
qed

theorem template_hash_is_request_hash_witness:
  "case upload_template [] [(''body'', JObj [])] of
     Inl _ \<Rightarrow> False
   | Inr t \<Rightarrow>
       (case template_inputs t of
          Inl _ \<Rightarrow> False
        | Inr kvs \<Rightarrow>
            approval_payload_hash build_sample_lib t ''r'' [] =
              canonical_payload_hash (sha256_hexdigest build_sample_lib)
                (binding_payload ''repo'' ''flowaccount'' ''sandbox'' (ca_action_id sample_action)
                  (ca_version_id sample_action) POST (rt_final_path t) kvs HighRisk Elevated Sensitive
                  ''r'' []))"
proof -
  have ok: "case upload_template [] [(''body'', JObj [])] of Inl _ \<Rightarrow> False
      | Inr t \<Rightarrow> is_ok (template_inputs t)"
    by code_simp
  then obtain t kvs where t: "upload_template [] [(''body'', JObj [])] = Inr t"
      "template_inputs t = Inr kvs"
    by (auto simp: is_ok_def split: sum.splits)
  have risk: "effective_risk (upload_action []) =
      Inr \<lparr>rd_tier = HighRisk, rd_approval_level = Elevated, rd_mutation_class = Sensitive,
           rd_reasons = [''sensitive_side_effect'']\<rparr>"
    by code_simp
  show ?thesis
    using template_hash_is_request_hash[OF t(1)[unfolded upload_template_def] risk _ _ t(2)]
    by (simp add: t upload_action_def sample_action_def)
qed

text \<open>C29: a mutation that was previewed and approved without a body is dispatched with one, when its
  action declares a body without any constraint (the empty schema) and a JSON content type, its
  headers pass the check of a caller's headers and its roots and files read the same. Building it
  again from its bound inputs, in which the absent body is the empty object, marks the body as
  present: the approval hash is unchanged, but the HTTP request now has the body \<open>{}\<close> and a
  content type, where the previewed template (whose summary said \<open>has_body: false\<close>) has none. \<close>
theorem bodyless_request_gains_body:
  assumes "build_request lib safe fs action base_url inputs roots repository environment = Inr t"
    and "template_inputs t = Inr kvs" and "\<not> rt_body_present t"
    and "headers_accepted lib t" and "files_unchanged lib fs' roots t"
    and "ca_input_schema action = JObj schema" and "map_of schema ''body'' = Some (JObj [])"
    and "media_type lib (ca_content_type action) = ''application/json''"
    and "template_http_request lib fs'' t auth = Inr sent"
  shows "case rebuild_bound_request lib safe fs' action base_url (JObj kvs) roots repository
                environment of
      Inl _ \<Rightarrow> False
    | Inr t' \<Rightarrow>
        approval_payload_hash lib t' revision preflights =
          approval_payload_hash lib t revision preflights \<and>
        wr_body sent = NoBody \<and>
        template_http_request lib fs'' t' auth =
          Inr (sent\<lparr>wr_headers := dict_put ''Content-Type'' (JStr (ca_content_type action))
                                    (wr_headers sent),
                    wr_body := JsonBody (JObj [])\<rparr>)"
proof -
  note built = assms(1)[unfolded build_request_def]
  obtain nb supplied s parts headers risk items request_inputs where
    s: "schema_sections action = Inr s" and parts: "split_inputs supplied = Inr parts"
    and ni: "normalized_inputs parts headers items nb risk = Inr request_inputs"
    and t: "rt_request_inputs t = request_inputs" "rt_body_present t = rp_body_present parts"
    using built by (rule build_template_Inr) simp
  have "s = schema" using s assms(6) by (auto simp: schema_sections_def split: if_splits)
  then have sb: "jget s ''body'' JNull = JObj []" using assms(7) by (simp add: jget_def)
  have body: "jget (rt_request_inputs t) ''body'' JNull = JObj []"
    using normalized_inputs_Inr[OF ni] split_inputs_Inr(3)[OF parts] assms(3) by (simp add: t jget_def)
  have "schema_node_ok lib True (JObj [])" by (simp add: schema_node_ok.simps required_names_ok_def)
  then have fits: "body_fits lib action t"
    by (simp add: body_fits_def s sb body validate_body_def)
  note again = rebuild_template[OF built assms(2,4,5) fits]
  have hash: "approval_payload_hash lib (t\<lparr>rt_body_present := True\<rparr>) revision preflights =
      approval_payload_hash lib t revision preflights"
    by (cases "rt_repository_id t"; cases "rt_environment t")
      (simp_all add: approval_payload_hash_def approval_binding_payload_def
        template_binding_payload_def template_inputs_def risk_field_def template_section_def
        cong: if_cong)
  have sent: "wr_body sent = NoBody"
    "template_http_request lib fs'' (t\<lparr>rt_body_present := True\<rparr>) auth =
       Inr (sent\<lparr>wr_headers := dict_put ''Content-Type'' (JStr (ca_content_type action)) (wr_headers sent),
                 wr_body := JsonBody (JObj [])\<rparr>)"
    using assms(3,9)
    by (auto simp: template_http_request_def assms(8) body json_copy_def Let_def template_section_def
        build_template_fields(5)[OF built] split: if_splits)
  show ?thesis using hash sent by (simp add: rebuild_bound_request_def again)
qed

theorem bodyless_request_gains_body_witness:
  "case upload_template [] [] of
     Inl _ \<Rightarrow> False
   | Inr t \<Rightarrow>
       (case template_inputs t of
          Inl _ \<Rightarrow> False
        | Inr kvs \<Rightarrow>
            (case rebuild_bound_request build_sample_lib (\<lambda>_. True) sample_files (upload_action [])
                    ''https://api.example.com/v1/'' (JObj kvs) [(True, [''data''])] ''repo'' ''sandbox'' of
               Inl _ \<Rightarrow> False
             | Inr t' \<Rightarrow>
                 approval_payload_hash build_sample_lib t' ''r'' [] =
                   approval_payload_hash build_sample_lib t ''r'' []))"
proof -
  let ?auth = "\<lparr>auth_headers = [(''Authorization'', ''x'')], auth_query = []\<rparr>"
  have ok: "case upload_template [] [] of Inl _ \<Rightarrow> False
      | Inr t \<Rightarrow> is_ok (template_inputs t) \<and> \<not> rt_body_present t \<and>
          headers_accepted build_sample_lib t \<and>
          files_unchanged build_sample_lib sample_files [(True, [''data''])] t \<and>
          is_ok (template_http_request build_sample_lib sample_files t ?auth)"
    by code_simp
  then obtain t kvs sent where t: "upload_template [] [] = Inr t" "template_inputs t = Inr kvs"
      "\<not> rt_body_present t" "headers_accepted build_sample_lib t"
      "files_unchanged build_sample_lib sample_files [(True, [''data''])] t"
      "template_http_request build_sample_lib sample_files t ?auth = Inr sent"
    by (auto simp: is_ok_def split: sum.splits)
  obtain schema where schema: "ca_input_schema (upload_action []) = JObj schema"
      "map_of schema ''body'' = Some (JObj [])"
    by (simp add: upload_action_def)
  have media: "media_type build_sample_lib (ca_content_type (upload_action [])) = ''application/json''"
    by code_simp
  have "case rebuild_bound_request build_sample_lib (\<lambda>_. True) sample_files (upload_action [])
      ''https://api.example.com/v1/'' (JObj kvs) [(True, [''data''])] ''repo'' ''sandbox'' of
      Inl _ \<Rightarrow> False | Inr t' \<Rightarrow> approval_payload_hash build_sample_lib t' ''r'' [] =
        approval_payload_hash build_sample_lib t ''r'' []"
    using bodyless_request_gains_body[OF t(1)[unfolded upload_template_def] t(2-5) schema media t(6)]
    by (auto split: sum.splits)
  then show ?thesis by (simp add: t(1,2))
qed

end
