(* ===== verification/Executor.thy ===== *)
theory Executor
  imports Request_Store Bound_Requests Effects
begin

text \<open>
  Model of \<open>ERPExecutor\<close> (\<open>execution/executor.py\<close>): policy, confirmation, authentication,
  preflights, dispatch and audit around the calls to an ERP. A method is an effect on
  \<open>exec_state\<close>: the table of the request store, the log of what the executor did to the outside
  (the requests it sent, the audit rows it wrote) and a counter of the questions it asked.

  What the executor asks other parts is the record \<open>exec_world\<close>; an answer may depend on the
  counter, so it may be different each time. Before every call of the store \<open>ew_others\<close> runs the
  store calls that other tasks and processes made since: the methods are interleaved with them in
  every possible way.
\<close>

section \<open>The world of the executor\<close>

record repository_context =
  rc_repository_id :: string
  rc_root :: path
  rc_mercury_dir :: path
  rc_config_path :: path
  rc_credentials_path :: path
  rc_catalog_dir :: path
  rc_cache_dir :: path
  rc_audit_dir :: path

record http_response =
  hs_status :: int
  hs_headers :: "(string \<times> string) list"
  hs_content :: string

text \<open>\<open>ConnectorResult\<close> of \<open>drivers/models.py\<close>\<close>

record connector_result =
  cr_status :: string
  cr_http_status :: int
  cr_data :: json
  cr_summary :: string
  cr_dispatched :: bool

text \<open>
  What \<open>client.send\<close> ends with: a response; an error before the connection
  (\<open>ConnectError\<close>, \<open>ConnectTimeout\<close>, \<open>PoolTimeout\<close>); an error of the network policy, before or
  after a response was received; another \<open>TransportError\<close>; any other exception.
\<close>

datatype send_outcome =
    Responded http_response
  | ConnectFailed
  | PolicyRefused bool
  | TransportLost
  | SendRaised mercury_error

record exec_world =
  ew_lib :: build_lib
  ew_safe :: "catalog_action \<Rightarrow> bool"
  ew_context :: repository_context
  ew_roots :: "path list"
  ew_session_id :: string
  ew_allow_private :: "string \<Rightarrow> string \<Rightarrow> bool"
  ew_trusted_hosts :: "string \<Rightarrow> string \<Rightarrow> string list"
  ew_clock :: "nat \<Rightarrow> nat \<Rightarrow> instant"
  ew_others :: "nat \<Rightarrow> ((nat \<Rightarrow> instant) \<times> store_op) list"
  ew_token :: "nat \<Rightarrow> string"
  ew_elapsed_ms :: "nat \<Rightarrow> int"
  ew_files :: "nat \<Rightarrow> file_system"
  ew_require :: "nat \<Rightarrow> string \<Rightarrow> catalog_action result"
  ew_require_version :: "nat \<Rightarrow> string \<Rightarrow> string \<Rightarrow> catalog_action result"
  ew_driver :: "nat \<Rightarrow> string \<Rightarrow> string result"
  ew_base_url :: "nat \<Rightarrow> string \<Rightarrow> string \<Rightarrow> string result"
  ew_fields :: "nat \<Rightarrow> string \<Rightarrow> string \<Rightarrow> unit result"
  ew_credentials :: "nat \<Rightarrow> string \<Rightarrow> string \<Rightarrow> unit result"
  ew_revision :: "nat \<Rightarrow> string \<Rightarrow> string \<Rightarrow> string result"
  ew_snapshot :: "nat \<Rightarrow> string \<Rightarrow> string \<Rightarrow> string result"
  ew_prepare_auth :: "nat \<Rightarrow> string \<Rightarrow> auth_context result"
  ew_interpret :: "nat \<Rightarrow> catalog_action \<Rightarrow> http_response \<Rightarrow> connector_result result"
  ew_validate_base_url :: "nat \<Rightarrow> string \<Rightarrow> bool \<Rightarrow> unit result"
  ew_send :: "nat \<Rightarrow> string list \<Rightarrow> bool \<Rightarrow> wire_request \<Rightarrow> send_outcome"
  ew_audit :: "nat \<Rightarrow> json \<Rightarrow> unit result"

text \<open>
  The log. \<open>WriteSent\<close> holds the request that \<open>require_ready\<close> returned, the one that
  \<open>start_execution\<close> returned, the template and the HTTP request that was sent for them.
\<close>

datatype exec_event =
    ReadSent wire_request
  | WriteSent prepared_request prepared_request request_template wire_request
  | AuditRow json

record exec_state =
  es_db :: request_db
  es_log :: "exec_event list"
  es_tick :: nat

type_synonym 'a exec = "(exec_state, 'a) eff"

definition world_store :: "exec_world \<Rightarrow> store_context" where
  "world_store w =
     \<lparr>sc_lib = request_lib.truncate (ew_lib w), sc_safe = ew_safe w,
      sc_repository_id = rc_repository_id (ew_context w)\<rparr>"

definition ask :: "(nat \<Rightarrow> 'a) \<Rightarrow> 'a exec" where
  "ask f = (\<lambda>s. (Inr (f (es_tick s)), s\<lparr>es_tick := Suc (es_tick s)\<rparr>))"

definition query :: "(nat \<Rightarrow> 'a result) \<Rightarrow> 'a exec" where
  "query f = eseq (ask f) elift"

definition emit :: "exec_event \<Rightarrow> unit exec" where
  "emit e = eput (\<lambda>s. s\<lparr>es_log := es_log s @ [e]\<rparr>)"

text \<open>The calls of the store that return a request.\<close>

fun op_result ::
    "store_context \<Rightarrow> (nat \<Rightarrow> instant) \<Rightarrow> store_op \<Rightarrow> request_db
       \<Rightarrow> prepared_request result \<times> request_db" where
  "op_result ctx clock (CreatePreview prepared action) db = create_preview ctx prepared action db"
| "op_result ctx clock (GetRequest rid) db = get_request (sc_lib ctx) (clock 0) rid db"
| "op_result ctx clock (ApproveRequest rid h class) db =
     approve (sc_lib ctx) (clock 0) rid h class db"
| "op_result ctx clock (InvalidateRequest rid reason) db =
     invalidate_request (sc_lib ctx) (clock 0) rid reason db"
| "op_result ctx clock (RequireReady rid) db = require_ready (sc_lib ctx) (clock 0) rid db"
| "op_result ctx clock (FailBeforeDispatch rid reason response) db =
     fail_before_dispatch (sc_lib ctx) (clock 0) rid reason response db"
| "op_result ctx clock (StartExecution rid) db = start_execution (sc_lib ctx) (clock 0) rid db"
| "op_result ctx clock (CompleteRequest rid result response) db =
     complete_request (sc_lib ctx) rid result response db"
| "op_result ctx clock (ResolveOutcome rid result response) db =
     resolve_outcome_unknown (sc_lib ctx) rid result response db"
| "op_result ctx clock op db = (Inl (UnexpectedError ''NotCalled''), apply_op ctx clock op db)"

definition store_call :: "exec_world \<Rightarrow> store_op \<Rightarrow> prepared_request exec" where
  "store_call w op = (\<lambda>s.
     case op_result (world_store w) (ew_clock w (es_tick s)) op
            (run_ops (world_store w) (ew_others w (es_tick s)) (es_db s)) of
       (r, db) \<Rightarrow> (r, s\<lparr>es_db := db, es_tick := Suc (es_tick s)\<rparr>))"

abbreviation policy_error :: "string \<Rightarrow> mercury_error" where
  "policy_error \<equiv> ExecutionPolicyError"

section \<open>Results and audit rows\<close>

definition failed_result :: "bool \<Rightarrow> connector_result" where
  "failed_result dispatched =
     \<lparr>cr_status = ''failed'', cr_http_status = 0, cr_data = JNull, cr_summary = ''request_failed'',
      cr_dispatched = dispatched\<rparr>"

definition manual_reconciliation_result :: connector_result where
  "manual_reconciliation_result =
     \<lparr>cr_status = ''manual_reconciliation_required'', cr_http_status = 0, cr_data = JNull,
      cr_summary = ''status_action_required'', cr_dispatched = False\<rparr>"

definition result_summary :: "connector_result \<Rightarrow> json_dict" where
  "result_summary result =
     [(''status'', JStr (if cr_status result = ''succeeded'' then ''success'' else ''failed'')),
      (''success'', JBool (cr_status result = ''succeeded'')),
      (''outcome'',
         JStr (if cr_status result \<in> {''succeeded'', ''failed'', ''outcome_unknown''}
               then cr_status result else ''unknown''))] @
     (if cr_http_status result \<noteq> 0
      then [(''http_status'', JInt (cr_http_status result)),
            (''status_class'', JStr (show_int (cr_http_status result div 100) @ ''xx''))]
      else [])"

definition latency_ms :: "exec_world \<Rightarrow> int exec" where
  "latency_ms w = ask (\<lambda>n. max 0 (min (ew_elapsed_ms w n) 86400000))"

definition request_row_json :: "exec_world \<Rightarrow> prepared_request \<Rightarrow> string \<Rightarrow> json_dict \<Rightarrow> json" where
  "request_row_json w request event response_summary = JObj
     ([(''event'', JStr event),
       (''local_session_id'', JStr (ew_session_id w)),
       (''repository_id'', JStr (pr_repository_id request)),
       (''connector_id'', JStr (pr_connector_id request)),
       (''environment'', JStr (pr_environment request)),
       (''action_id'', JStr (pr_action_id request)),
       (''version_id'', JStr (pr_version_id request)),
       (''request_id'', JStr (pr_request_id request)),
       (''method'', JStr (method_value (pr_method request))),
       (''payload_hash'', JStr (pr_payload_hash request)),
       (''risk_tier'', JInt (tier_int (pr_risk_tier request))),
       (''approval_level'', JStr (approval_value (pr_approval_level request))),
       (''mutation_class'', JStr (mutation_value (pr_mutation_class request))),
       (''approval_count'', JInt (pr_approval_count request)),
       (''state'', JStr (state_value (pr_state request)))] @
      (if response_summary = [] then [] else [(''response_summary'', JObj response_summary)]))"

definition record_row :: "exec_world \<Rightarrow> json \<Rightarrow> unit exec" where
  "record_row w row = eseq (query (\<lambda>n. ew_audit w n row)) (\<lambda>_. emit (AuditRow row))"

definition audit_request ::
    "exec_world \<Rightarrow> prepared_request \<Rightarrow> string \<Rightarrow> json_dict \<Rightarrow> unit exec" where
  "audit_request w request event response_summary =
     record_row w (request_row_json w request event response_summary)"

definition audit_result ::
    "exec_world \<Rightarrow> catalog_action \<Rightarrow> string \<Rightarrow> string \<Rightarrow> string \<Rightarrow> connector_result \<Rightarrow> int
       \<Rightarrow> unit exec" where
  "audit_result w action environment event state result latency =
     eseq (if ca_method action = GET then eret [(''risk_tier'', JInt (tier_int (ca_risk_tier action)))]
           else eseq (elift (effective_risk action)) (\<lambda>risk.
             eret [(''risk_tier'', JInt (tier_int (rd_tier risk))),
                   (''approval_level'', JStr (approval_value (rd_approval_level risk))),
                   (''mutation_class'', JStr (mutation_value (rd_mutation_class risk)))]))
       (\<lambda>risk_fields.
     record_row w (JObj
       ([(''event'', JStr event),
         (''local_session_id'', JStr (ew_session_id w)),
         (''repository_id'', JStr (rc_repository_id (ew_context w))),
         (''connector_id'', JStr (ca_connector_id action)),
         (''environment'', JStr environment),
         (''action_id'', JStr (ca_action_id action)),
         (''version_id'', JStr (ca_version_id action)),
         (''method'', JStr (method_value (ca_method action)))] @ risk_fields @
        [(''state'', JStr (if state \<in> {''succeeded'', ''failed''} then state else ''failed'')),
         (''latency_ms'', JInt latency),
         (''response_summary'', JObj (result_summary result @ [(''latency_ms'', JInt latency)]))])))"

text \<open>A digest of the credentials, 32 bytes, as its hexadecimal text.\<close>

definition credential_generation_token :: "string \<Rightarrow> string result" where
  "credential_generation_token generation =
     (if length generation \<noteq> 32 then Inl (policy_error ''credential_revision_unavailable'')
      else Inr (concat (map (\<lambda>c. let n = (of_char c :: nat)
                                  in [hex_digit (n div 16), hex_digit (n mod 16)]) generation)))"

fun result_at :: "string list \<Rightarrow> json \<Rightarrow> json option" where
  "result_at [] current = Some current"
| "result_at (part # parts) current =
     (case current of
        JObj kvs \<Rightarrow> (case map_of kvs part of None \<Rightarrow> None | Some v \<Rightarrow> result_at parts v)
      | _ \<Rightarrow> None)"

definition listed :: "'a build_lib_scheme \<Rightarrow> json \<Rightarrow> json \<Rightarrow> bool" where
  "listed lib values current =
     (case values of JArr xs \<Rightarrow> list_ex (json_eq lib current) xs | _ \<Rightarrow> False)"

definition status_outcome :: "'a build_lib_scheme \<Rightarrow> json_dict \<Rightarrow> json \<Rightarrow> string option" where
  "status_outcome lib metadata data =
     (case jget metadata ''status_result_path'' (JStr ''status'') of
        JStr path \<Rightarrow>
          (if path = [] then None
           else case result_at (split_at (CHR ''.'') path) data of
             None \<Rightarrow> None
           | Some current \<Rightarrow>
               if listed lib (jget metadata ''success_values''
                    (jstrings [''completed'', ''posted'', ''succeeded'', ''success''])) current
                 then Some ''succeeded''
               else if listed lib (jget metadata ''failure_values''
                    (jstrings [''failed'', ''rejected'', ''voided''])) current
                 then Some ''failed''
               else None)
      | _ \<Rightarrow> None)"

definition truthy_provider_data :: "json \<Rightarrow> bool" where
  "truthy_provider_data value =
     (case value of
        JObj kvs \<Rightarrow>
          (case filter (\<lambda>key. key \<in> fst ` set kvs) [''items'', ''data'', ''records'', ''results''] of
             key # _ \<Rightarrow> truthy (jget kvs key JNull)
           | [] \<Rightarrow> truthy value)
      | _ \<Rightarrow> truthy value)"
section \<open>Catalog, credentials and targets\<close>

definition lookup_action :: "exec_world \<Rightarrow> string \<Rightarrow> catalog_action exec" where
  "lookup_action w action_id =
     eseq (query (\<lambda>n. ew_require w n action_id))
       (\<lambda>action. elift (revalidate_catalog_action (pylib.truncate (ew_lib w)) (ew_safe w) action))"

definition lookup_version :: "exec_world \<Rightarrow> string \<Rightarrow> string \<Rightarrow> catalog_action exec" where
  "lookup_version w action_id version_id =
     eseq (query (\<lambda>n. ew_require_version w n action_id version_id))
       (\<lambda>action. elift (revalidate_catalog_action (pylib.truncate (ew_lib w)) (ew_safe w) action))"

definition require_active_action :: "exec_world \<Rightarrow> catalog_action \<Rightarrow> catalog_action exec" where
  "require_active_action w action =
     eseq (ecatch
        (eseq (elift (revalidate_catalog_action (pylib.truncate (ew_lib w)) (ew_safe w) action))
          (\<lambda>action. eseq (lookup_action w (ca_action_id action)) (\<lambda>active. eret (action, active))))
        caught_lookup (\<lambda>e. efail (policy_error ''catalog_action_not_active'')))
       (\<lambda>(action, active).
     eseq (eguard (ca_version_id active \<noteq> ca_version_id action)
         (policy_error ''catalog_action_not_active'')) (\<lambda>_. eret active))"

text \<open>Marking the preview as failed for a reason, and raising it.\<close>

definition invalidated :: "exec_world \<Rightarrow> prepared_request \<Rightarrow> string \<Rightarrow> 'a exec" where
  "invalidated w prepared reason =
     eseq (store_call w (InvalidateRequest (pr_request_id prepared) reason))
       (\<lambda>_. efail (RequestStateError reason))"

definition not_active :: "exec_world \<Rightarrow> prepared_request \<Rightarrow> bool \<Rightarrow> 'a exec" where
  "not_active w prepared invalidate =
     (if invalidate then invalidated w prepared ''preview_invalidated_action_version''
      else efail (RequestStateError ''preview_invalidated_action_version''))"

definition active_for_prepared ::
    "exec_world \<Rightarrow> prepared_request \<Rightarrow> bool \<Rightarrow> catalog_action exec" where
  "active_for_prepared w prepared invalidate =
     eseq (ecatch (lookup_action w (pr_action_id prepared)) caught_lookup
         (\<lambda>e. not_active w prepared invalidate)) (\<lambda>active.
     if ca_version_id active \<noteq> pr_version_id prepared then not_active w prepared invalidate
     else ecatch (lookup_version w (pr_action_id prepared) (pr_version_id prepared)) caught_lookup
         (\<lambda>e. not_active w prepared invalidate))"

definition binding_of :: "exec_world \<Rightarrow> catalog_action \<Rightarrow> preflight_binding exec" where
  "binding_of w action =
     elift (preflight_from_action (pylib.truncate (ew_lib w)) (ew_safe w) action)"

fun capture_bindings ::
    "exec_world \<Rightarrow> catalog_action \<Rightarrow> string \<Rightarrow> string list \<Rightarrow> preflight_binding list exec" where
  "capture_bindings w action environment [] = eret []"
| "capture_bindings w action environment (action_id # rest) =
     eseq (ecatch
        (eseq (lookup_action w action_id) (\<lambda>active.
         eseq (lookup_version w action_id (ca_version_id active)) (\<lambda>version.
         eseq (binding_of w active) (\<lambda>binding. eret (active, version, binding)))))
        caught_lookup (\<lambda>e. efail (policy_error ''preflight_action_not_active'')))
       (\<lambda>(active, version, binding).
     eseq (eguard (version \<noteq> active \<or> ca_connector_id active \<noteq> ca_connector_id action \<or>
                   environment \<notin> set (ca_environments active))
       (policy_error ''preflight_action_not_active'')) (\<lambda>_.
     eseq (capture_bindings w action environment rest) (\<lambda>bindings. eret (binding # bindings))))"

definition capture_preflight_actions ::
    "exec_world \<Rightarrow> catalog_action \<Rightarrow> string \<Rightarrow> preflight_binding list exec" where
  "capture_preflight_actions w action environment =
     (if \<not> distinct (ca_preflight_action_ids action)
      then efail (policy_error ''preflight_action_not_active'')
      else capture_bindings w action environment (ca_preflight_action_ids action))"

definition preflight_stale :: "exec_world \<Rightarrow> prepared_request \<Rightarrow> 'a exec" where
  "preflight_stale w prepared = invalidated w prepared ''preview_invalidated_preflight_version''"

fun active_bindings ::
    "exec_world \<Rightarrow> prepared_request \<Rightarrow> preflight_binding list \<Rightarrow> catalog_action list exec" where
  "active_bindings w prepared [] = eret []"
| "active_bindings w prepared (binding # rest) =
     eseq (ecatch
        (eseq (lookup_action w (pb_action_id binding)) (\<lambda>active.
         eseq (lookup_version w (pb_action_id binding) (pb_version_id binding)) (\<lambda>version.
         eseq (binding_of w active) (\<lambda>active_binding.
         eseq (binding_of w version) (\<lambda>version_binding.
         eret (active, version, active_binding, version_binding))))))
        caught_lookup (\<lambda>e. preflight_stale w prepared))
       (\<lambda>(active, version, active_binding, version_binding).
     if active_binding \<noteq> binding \<or> version_binding \<noteq> binding \<or>
        ca_connector_id active \<noteq> pr_connector_id prepared \<or>
        pr_environment prepared \<notin> set (ca_environments active)
     then preflight_stale w prepared
     else eseq (active_bindings w prepared rest) (\<lambda>actions. eret (version # actions)))"

definition active_preflight_actions ::
    "exec_world \<Rightarrow> prepared_request \<Rightarrow> catalog_action list exec" where
  "active_preflight_actions w prepared = active_bindings w prepared (pr_preflight_actions prepared)"

definition credential_revision :: "exec_world \<Rightarrow> string \<Rightarrow> string \<Rightarrow> string exec" where
  "credential_revision w connector_id environment =
     eseq (ecatch (query (\<lambda>n. ew_revision w n connector_id environment)) (\<lambda>_. True)
         (\<lambda>e. efail (policy_error ''credential_revision_unavailable'')))
       (\<lambda>generation. elift (credential_generation_token generation))"

definition stale_credentials :: "exec_world \<Rightarrow> prepared_request \<Rightarrow> 'a exec" where
  "stale_credentials w prepared = invalidated w prepared ''preview_invalidated_credentials''"

definition match_revision :: "exec_world \<Rightarrow> prepared_request \<Rightarrow> string \<Rightarrow> unit exec" where
  "match_revision w prepared revision =
     eseq (elift (compare_digest revision (pr_credential_revision prepared)))
       (\<lambda>same. if same then eret () else stale_credentials w prepared)"

definition credential_snapshot :: "exec_world \<Rightarrow> prepared_request \<Rightarrow> unit exec" where
  "credential_snapshot w prepared =
     eseq (ecatch
        (eseq (query (\<lambda>n. ew_snapshot w n (pr_connector_id prepared) (pr_environment prepared)))
          (\<lambda>generation. elift (credential_generation_token generation)))
        (\<lambda>_. True) (\<lambda>e. stale_credentials w prepared))
       (match_revision w prepared)"

definition is_policy_error :: "mercury_error \<Rightarrow> bool" where
  "is_policy_error e \<longleftrightarrow> (case e of ExecutionPolicyError _ \<Rightarrow> True | _ \<Rightarrow> False)"

definition require_credential_revision :: "exec_world \<Rightarrow> prepared_request \<Rightarrow> unit exec" where
  "require_credential_revision w prepared =
     eseq (ecatch (credential_revision w (pr_connector_id prepared) (pr_environment prepared))
         is_policy_error (\<lambda>e. stale_credentials w prepared))
       (match_revision w prepared)"

definition allow_private :: "exec_world \<Rightarrow> string \<Rightarrow> string \<Rightarrow> bool exec" where
  "allow_private w connector_id environment =
     (let allowed = ew_allow_private w connector_id environment in
      eseq (eguard (allowed \<and> environment \<notin> {''local'', ''gateway''})
        (policy_error ''private_network_environment_invalid'')) (\<lambda>_. eret allowed))"

definition allowed_hosts :: "exec_world \<Rightarrow> string \<Rightarrow> string \<Rightarrow> string \<Rightarrow> string list exec" where
  "allowed_hosts w connector_id environment base_url =
     (let canonical = (\<lambda>host. casefold (ew_lib w) (rstrip_char (CHR ''.'') host)) in
      case urlsplit (ew_lib w) base_url of
        None \<Rightarrow> efail (ValueError ''urlsplit'')
      | Some parsed \<Rightarrow>
          (case su_hostname parsed of
             None \<Rightarrow> efail (policy_error ''invalid_connector_target'')
           | Some hostname \<Rightarrow>
               if hostname = [] then efail (policy_error ''invalid_connector_target'')
               else eret (canonical hostname #
                          map canonical (ew_trusted_hosts w connector_id environment))))"

text \<open>The driver, the template and the network rules of a call; the driver is its connector.\<close>

definition prepare_template ::
    "exec_world \<Rightarrow> repository_context \<Rightarrow> catalog_action \<Rightarrow> string \<Rightarrow> json
       \<Rightarrow> (string \<times> request_template \<times> bool \<times> string list) exec" where
  "prepare_template w repository action environment inputs =
     eseq (eguard (repository \<noteq> ew_context w) (policy_error ''repository_mismatch'')) (\<lambda>_.
     eseq (query (\<lambda>n. ew_driver w n (ca_connector_id action))) (\<lambda>driver.
     eseq (query (\<lambda>n. ew_base_url w n driver environment)) (\<lambda>base_url.
     eseq (allow_private w (ca_connector_id action) environment) (\<lambda>private.
     eseq (query (\<lambda>n. build_request (ew_lib w) (ew_safe w) (ew_files w n) action base_url inputs
         (ew_roots w) (rc_repository_id repository) environment)) (\<lambda>template.
     eseq (query (\<lambda>n. ew_validate_base_url w n base_url private)) (\<lambda>_.
     eseq (allowed_hosts w (ca_connector_id action) environment base_url) (\<lambda>hosts.
     eret (driver, template, private, hosts))))))))"
section \<open>Sending\<close>

text \<open>The exceptions of a driver, the network policy or the transport.\<close>

definition is_send_error :: "mercury_error \<Rightarrow> bool" where
  "is_send_error e \<longleftrightarrow>
     (case e of NetworkPolicyError _ \<Rightarrow> True | TransportError _ \<Rightarrow> True | _ \<Rightarrow> False)"

definition is_auth_error :: "mercury_error \<Rightarrow> bool" where
  "is_auth_error e \<longleftrightarrow> is_send_error e \<or> (case e of ConnectorAuthError _ \<Rightarrow> True | _ \<Rightarrow> False)"

definition is_build_error :: "mercury_error \<Rightarrow> bool" where
  "is_build_error e \<longleftrightarrow> (case e of RequestBuildError _ \<Rightarrow> True | _ \<Rightarrow> False)"

definition is_network_error :: "mercury_error \<Rightarrow> bool" where
  "is_network_error e \<longleftrightarrow> (case e of NetworkPolicyError _ \<Rightarrow> True | _ \<Rightarrow> False)"

definition is_transport_error :: "mercury_error \<Rightarrow> bool" where
  "is_transport_error e \<longleftrightarrow> (case e of TransportError _ \<Rightarrow> True | _ \<Rightarrow> False)"

fun received :: "send_outcome \<Rightarrow> http_response result" where
  "received (Responded response) = Inr response"
| "received ConnectFailed = Inl (TransportError ''connect'')"
| "received (PolicyRefused after_response) = Inl (NetworkPolicyError ''refused'')"
| "received TransportLost = Inl (TransportError ''transport'')"
| "received (SendRaised e) = Inl e"

definition send_request ::
    "exec_world \<Rightarrow> exec_event \<Rightarrow> string list \<Rightarrow> bool \<Rightarrow> wire_request \<Rightarrow> send_outcome exec" where
  "send_request w event hosts private request =
     eseq (emit event) (\<lambda>_. ask (\<lambda>n. ew_send w n hosts private request))"

definition send_read ::
    "exec_world \<Rightarrow> string list \<Rightarrow> bool \<Rightarrow> wire_request \<Rightarrow> http_response exec" where
  "send_read w hosts private request =
     eseq (send_request w (ReadSent request) hosts private request) (\<lambda>sent. elift (received sent))"

definition wire :: "exec_world \<Rightarrow> request_template \<Rightarrow> auth_context \<Rightarrow> wire_request exec" where
  "wire w template auth = query (\<lambda>n. template_http_request (ew_lib w) (ew_files w n) template auth)"

definition interpret_with ::
    "exec_world \<Rightarrow> catalog_action \<Rightarrow> http_response \<Rightarrow> connector_result exec" where
  "interpret_with w action response = query (\<lambda>n. ew_interpret w n action response)"

definition authenticate :: "exec_world \<Rightarrow> string \<Rightarrow> auth_context exec" where
  "authenticate w environment = query (\<lambda>n. ew_prepare_auth w n environment)"

section \<open>Reads and previews\<close>

definition run_read ::
    "exec_world \<Rightarrow> repository_context \<Rightarrow> catalog_action \<Rightarrow> string \<Rightarrow> json
       \<Rightarrow> connector_result exec" where
  "run_read w repository action environment inputs =
     eseq (require_active_action w action) (\<lambda>action.
     eseq (eguard (ca_method action \<noteq> GET) (policy_error ''write_action_requires_preview'')) (\<lambda>_.
     eseq (prepare_template w repository action environment inputs)
       (\<lambda>(driver, template, private, hosts).
     eseq (query (\<lambda>n. ew_fields w n driver environment)) (\<lambda>_.
     eseq (query (\<lambda>n. ew_credentials w n (ca_connector_id action) environment)) (\<lambda>_.
     eseq (ecatch
        (eseq (authenticate w environment) (\<lambda>auth.
         eseq (wire w template auth) (\<lambda>request.
         eseq (send_read w hosts private request) (\<lambda>response.
         interpret_with w action response))))
        (\<lambda>_. True) (\<lambda>e. eret (failed_result (\<not> is_auth_error e)))) (\<lambda>result.
     eseq (latency_ms w) (\<lambda>latency.
     eseq (audit_result w action environment ''completed'' (cr_status result) result latency)
       (\<lambda>_. eret result))))))))"

definition template_source :: "request_template \<Rightarrow> json_dict \<Rightarrow> request_source" where
  "template_source template inputs =
     \<lparr>rs_method = Some (rt_method template), rs_final_path = Some (rt_final_path template),
      rs_path = None, rs_sanitized_summary = Some (template_summary template),
      rs_request_inputs = Some (JObj inputs)\<rparr>"

text \<open>The exception of an audit makes the preview or the approval fail.\<close>

definition audited ::
    "exec_world \<Rightarrow> prepared_request \<Rightarrow> string \<Rightarrow> prepared_request exec" where
  "audited w request event =
     eseq (ecatch (audit_request w request event []) (\<lambda>_. True)
        (\<lambda>e. eseq (store_call w (InvalidateRequest (pr_request_id request) ''audit_failed''))
                (\<lambda>_. efail e)))
       (\<lambda>_. eret request)"

definition assert_replay :: "exec_world \<Rightarrow> string \<Rightarrow> unit exec" where
  "assert_replay w payload_hash = (\<lambda>s.
     let db = run_ops (world_store w) (ew_others w (es_tick s)) (es_db s)
     in (assert_replay_allowed payload_hash db, s\<lparr>es_db := db, es_tick := Suc (es_tick s)\<rparr>))"

definition preview_write ::
    "exec_world \<Rightarrow> repository_context \<Rightarrow> catalog_action \<Rightarrow> string \<Rightarrow> json
       \<Rightarrow> prepared_request exec" where
  "preview_write w repository action environment inputs =
     eseq (require_active_action w action) (\<lambda>action.
     eseq (eguard (ca_method action = GET) (policy_error ''read_action_cannot_be_previewed''))
       (\<lambda>_.
     eseq (prepare_template w repository action environment inputs)
       (\<lambda>(driver, template, private, hosts).
     eseq (elift (effective_risk action)) (\<lambda>risk.
     eseq (capture_preflight_actions w action environment) (\<lambda>preflights.
     eseq (query (\<lambda>n. ew_fields w n driver environment)) (\<lambda>_.
     eseq (credential_revision w (ca_connector_id action) environment) (\<lambda>revision.
     eseq (elift (approval_payload_hash (ew_lib w) template revision preflights)) (\<lambda>payload_hash.
     eseq (assert_replay w payload_hash) (\<lambda>_.
     eseq (elift (template_inputs template)) (\<lambda>bound.
     eseq (query (\<lambda>n. from_template (sc_lib (world_store w)) (ew_safe w) (ew_clock w n 0)
         (ew_token w n) (rc_repository_id repository) action environment
         (template_source template bound) risk payload_hash revision preflights)) (\<lambda>prepared.
     eseq (store_call w (CreatePreview prepared action)) (\<lambda>created.
     audited w created ''preview_created''))))))))))))"

definition record_approval ::
    "exec_world \<Rightarrow> string \<Rightarrow> string \<Rightarrow> mutation_class \<Rightarrow> string \<Rightarrow> prepared_request exec" where
  "record_approval w request_id payload_hash expected_class event =
     eseq (store_call w (ApproveRequest request_id payload_hash expected_class))
       (\<lambda>approved. audited w approved event)"

definition confirm_write :: "exec_world \<Rightarrow> string \<Rightarrow> string \<Rightarrow> prepared_request exec" where
  "confirm_write w request_id payload_hash =
     eseq (store_call w (GetRequest request_id)) (\<lambda>pending.
     record_approval w request_id payload_hash (pr_mutation_class pending)
       ''confirmation_recorded'')"

section \<open>Executing an approved write\<close>

definition error_summary :: "string \<Rightarrow> json_dict" where
  "error_summary error_code = [(''status'', JStr ''failed''), (''error_code'', JStr error_code)]"

definition failed_before_dispatch ::
    "exec_world \<Rightarrow> prepared_request \<Rightarrow> catalog_action \<Rightarrow> string \<Rightarrow> connector_result exec" where
  "failed_before_dispatch w prepared action error_code =
     eseq (store_call w (FailBeforeDispatch (pr_request_id prepared) ''pre_dispatch_failed''
        (error_summary error_code))) (\<lambda>failed.
     let result =
       (if error_code = ''duplicate_blocked''
        then \<lparr>cr_status = ''duplicate_blocked'', cr_http_status = 0, cr_data = JNull,
              cr_summary = ''duplicate_blocked'', cr_dispatched = False\<rparr>
        else failed_result False) in
     eseq (audit_request w failed ''pre_dispatch_failed'' (error_summary error_code)) (\<lambda>_.
     eseq (latency_ms w) (\<lambda>latency.
     eseq (audit_result w action (pr_environment prepared) ''completed'' ''failed'' result latency)
       (\<lambda>_. eret result))))"

text \<open>Completing an execution: the outcome is stored, then audited.\<close>

definition completed ::
    "exec_world \<Rightarrow> prepared_request \<Rightarrow> string \<Rightarrow> json_dict \<Rightarrow> connector_result
       \<Rightarrow> connector_result exec" where
  "completed w executing outcome_name summary result =
     eseq (store_call w (CompleteRequest (pr_request_id executing) outcome_name summary))
       (\<lambda>done_request.
     eseq (audit_request w done_request ''execution_completed'' summary) (\<lambda>_. eret result))"

definition complete_failed ::
    "exec_world \<Rightarrow> prepared_request \<Rightarrow> bool \<Rightarrow> string \<Rightarrow> connector_result exec" where
  "complete_failed w executing dispatched error_code =
     completed w executing ''failed'' (error_summary error_code) (failed_result dispatched)"

definition complete_unknown ::
    "exec_world \<Rightarrow> prepared_request \<Rightarrow> int \<Rightarrow> connector_result exec" where
  "complete_unknown w executing http_status =
     completed w executing ''outcome_unknown''
       ([(''status'', JStr ''unknown''), (''outcome'', JStr ''outcome_unknown''),
         (''status_class'', JStr (if 500 \<le> http_status then ''5xx'' else ''timeout''))] @
        (if http_status \<noteq> 0 then [(''http_status'', JInt http_status)] else []))
       \<lparr>cr_status = ''outcome_unknown'', cr_http_status = http_status, cr_data = JNull,
        cr_summary = ''manual_reconciliation_required'', cr_dispatched = True\<rparr>"

definition complete_result ::
    "exec_world \<Rightarrow> prepared_request \<Rightarrow> connector_result \<Rightarrow> connector_result exec" where
  "complete_result w executing result =
     completed w executing
       (if cr_status result = ''outcome_unknown'' then ''outcome_unknown''
        else if cr_status result = ''succeeded'' then ''succeeded'' else ''failed'')
       (result_summary result) result"

text \<open>What is done with the end of \<open>client.send\<close>.\<close>

definition settle ::
    "exec_world \<Rightarrow> prepared_request \<Rightarrow> catalog_action \<Rightarrow> send_outcome \<Rightarrow> connector_result exec" where
  "settle w executing action sent =
     (case sent of
        ConnectFailed \<Rightarrow> complete_failed w executing False ''network_error''
      | PolicyRefused after_response \<Rightarrow>
          if after_response then complete_unknown w executing 0
          else complete_failed w executing False ''network_error''
      | TransportLost \<Rightarrow> complete_unknown w executing 0
      | SendRaised e \<Rightarrow> efail e
      | Responded response \<Rightarrow>
          if 500 \<le> hs_status response then complete_unknown w executing (hs_status response)
          else eseq (eattempt (interpret_with w action response) (\<lambda>_. True)) (\<lambda>interpreted.
            case interpreted of
              Inl e \<Rightarrow> complete_unknown w executing (hs_status response)
            | Inr result \<Rightarrow> complete_result w executing result))"

text \<open>From the start of the execution on.\<close>

definition dispatch ::
    "exec_world \<Rightarrow> prepared_request \<Rightarrow> catalog_action \<Rightarrow> request_template \<Rightarrow> string list \<Rightarrow> bool
       \<Rightarrow> wire_request \<Rightarrow> connector_result exec" where
  "dispatch w prepared action template hosts private request =
     eseq (store_call w (StartExecution (pr_request_id prepared))) (\<lambda>executing.
     eseq (eattempt (audit_request w executing ''dispatch_started'' []) (\<lambda>_. True)) (\<lambda>audit.
     case audit of
       Inl e \<Rightarrow>
         eseq (store_call w (CompleteRequest (pr_request_id executing) ''failed''
            (error_summary ''validation_failed''))) (\<lambda>_. eret (failed_result False))
     | Inr _ \<Rightarrow>
         eseq (send_request w (WriteSent prepared executing template request) hosts private request)
           (settle w executing action)))"
section \<open>Preflights\<close>

definition audit_preflight ::
    "exec_world \<Rightarrow> prepared_request \<Rightarrow> catalog_action \<Rightarrow> string \<Rightarrow> connector_result \<Rightarrow> unit exec" where
  "audit_preflight w prepared preflight state result =
     audit_result w preflight (pr_environment prepared) ''preflight_completed'' state result 0"

definition approved_target :: "prepared_request \<Rightarrow> json result" where
  "approved_target prepared =
     (case jget (pr_request_inputs prepared) ''_target'' (JObj []) of
        JObj target \<Rightarrow> Inr (jget target ''base_url'' JNull)
      | _ \<Rightarrow> Inl (UnexpectedError ''AttributeError''))"

text \<open>One preflight request, up to its interpreted response.\<close>

definition preflight_response ::
    "exec_world \<Rightarrow> prepared_request \<Rightarrow> catalog_action \<Rightarrow> string \<Rightarrow> json \<Rightarrow> auth_context
       \<Rightarrow> string list \<Rightarrow> bool \<Rightarrow> connector_result exec" where
  "preflight_response w prepared preflight base_url values auth hosts private =
     eseq (query (\<lambda>n. ew_validate_base_url w n base_url private)) (\<lambda>_.
     eseq (query (\<lambda>n. build_request (ew_lib w) (ew_safe w) (ew_files w n) preflight base_url values
         (ew_roots w) (pr_repository_id prepared) (pr_environment prepared))) (\<lambda>template.
     eseq (elift (approved_target prepared)) (\<lambda>target.
     eseq (if JStr (rt_base_url template) \<noteq> target
           then invalidated w prepared ''preview_invalidated_target'' else eret ()) (\<lambda>_.
     eseq (require_credential_revision w prepared) (\<lambda>_.
     eseq (wire w template auth) (\<lambda>request.
     eseq (send_read w hosts private request) (\<lambda>response.
     interpret_with w preflight response)))))))"

definition preflight_caught :: "mercury_error \<Rightarrow> bool" where
  "preflight_caught e \<longleftrightarrow> is_build_error e \<or> is_send_error e"

definition run_preflight ::
    "exec_world \<Rightarrow> prepared_request \<Rightarrow> string \<Rightarrow> json_dict \<Rightarrow> json \<Rightarrow> auth_context
       \<Rightarrow> string list \<Rightarrow> bool \<Rightarrow> preflight_binding \<Rightarrow> string option exec" where
  "run_preflight w prepared driver configured duplicate_action auth hosts private binding =
     eseq (active_preflight_actions w prepared) (\<lambda>actions.
     case find (\<lambda>item. ca_action_id item = pb_action_id binding) (rev actions) of
       None \<Rightarrow> efail (LookupErr (pb_action_id binding))
     | Some preflight \<Rightarrow>
     let values = jget configured (pb_action_id binding) (JObj []) in
     if \<not> is_mapping values then eret (Some ''validation_failed'')
     else
       eseq (query (\<lambda>n. ew_driver w n (ca_connector_id preflight))) (\<lambda>preflight_driver.
       if preflight_driver \<noteq> driver then eret (Some ''validation_failed'')
       else
         eseq (query (\<lambda>n. ew_base_url w n preflight_driver (pr_environment prepared))) (\<lambda>base_url.
         eseq (eattempt
             (preflight_response w prepared preflight base_url values auth hosts private)
             preflight_caught) (\<lambda>answer.
         case answer of
           Inl e \<Rightarrow>
             eseq (audit_preflight w prepared preflight ''failed''
                     (failed_result (is_transport_error e))) (\<lambda>_. eret (Some ''request_failed''))
         | Inr result \<Rightarrow>
             if cr_status result \<noteq> ''succeeded'' then
               eseq (audit_preflight w prepared preflight ''failed'' result)
                 (\<lambda>_. eret (Some ''request_failed''))
             else
               eseq (audit_preflight w prepared preflight ''succeeded'' result) (\<lambda>_.
               eret (if duplicate_action = JStr (pb_action_id binding) \<and>
                        truthy_provider_data (cr_data result)
                     then Some ''duplicate_blocked'' else None))))))"

fun preflight_loop ::
    "(preflight_binding \<Rightarrow> string option exec) \<Rightarrow> preflight_binding list \<Rightarrow> string option exec" where
  "preflight_loop run [] = eret None"
| "preflight_loop run (binding # rest) =
     eseq (run binding) (\<lambda>failure.
     case failure of Some code \<Rightarrow> eret (Some code) | None \<Rightarrow> preflight_loop run rest)"

definition run_preflights ::
    "exec_world \<Rightarrow> catalog_action \<Rightarrow> prepared_request \<Rightarrow> string \<Rightarrow> auth_context \<Rightarrow> string list \<Rightarrow> bool
       \<Rightarrow> string option exec" where
  "run_preflights w action prepared driver auth hosts private =
     (if pr_preflight_actions prepared = [] then eret None
      else case jget (ca_idempotency action) ''preflight_inputs'' (JObj []) of
        JObj configured \<Rightarrow>
          preflight_loop
            (run_preflight w prepared driver configured
              (jget (ca_idempotency action) ''duplicate_action_id'' JNull) auth hosts private)
            (pr_preflight_actions prepared)
      | _ \<Rightarrow> eret (Some ''validation_failed''))"

section \<open>The whole write\<close>

text \<open>The template that the approval bound, built again; its refusal marks the preview as failed.\<close>

definition rebuild_prepared ::
    "exec_world \<Rightarrow> prepared_request \<Rightarrow> catalog_action \<Rightarrow> string \<Rightarrow> bool \<Rightarrow> request_template exec" where
  "rebuild_prepared w prepared action base_url private =
     ecatch
       (eseq (query (\<lambda>n. ew_validate_base_url w n base_url private)) (\<lambda>_.
        query (\<lambda>n. rebuild_bound_request (ew_lib w) (ew_safe w) (ew_files w n) action base_url
           (JObj (pr_request_inputs prepared)) (ew_roots w) (pr_repository_id prepared)
           (pr_environment prepared))))
       (\<lambda>e. is_build_error e \<or> is_network_error e)
       (\<lambda>e. invalidated w prepared
          (if is_network_error e \<or> e = RequestBuildError ''bound_target_changed''
           then ''preview_invalidated_target'' else ''preview_binding_changed''))"

definition bound_template ::
    "exec_world \<Rightarrow> prepared_request \<Rightarrow> catalog_action \<Rightarrow> string \<Rightarrow> bool \<Rightarrow> request_template exec" where
  "bound_template w prepared action base_url private =
     eseq (rebuild_prepared w prepared action base_url private) (\<lambda>template.
     eseq (elift (approval_payload_hash (ew_lib w) template (pr_credential_revision prepared)
         (pr_preflight_actions prepared))) (\<lambda>payload_hash.
     eseq (elift (compare_digest payload_hash (pr_payload_hash prepared))) (\<lambda>same.
     if same then eret template else invalidated w prepared ''preview_binding_changed'')))"

text \<open>The checks that are repeated right before the execution starts.\<close>

definition recheck ::
    "exec_world \<Rightarrow> prepared_request \<Rightarrow> string \<Rightarrow> string \<Rightarrow> unit exec" where
  "recheck w prepared driver base_url =
     eseq (active_for_prepared w prepared True) (\<lambda>_.
     eseq (active_preflight_actions w prepared) (\<lambda>_.
     eseq (require_credential_revision w prepared) (\<lambda>_.
     eseq (query (\<lambda>n. ew_base_url w n driver (pr_environment prepared))) (\<lambda>current.
     if current \<noteq> base_url then invalidated w prepared ''preview_invalidated_target''
     else eret ()))))"

text \<open>From the authentication on, with the network client open.\<close>

definition execute_prepared ::
    "exec_world \<Rightarrow> prepared_request \<Rightarrow> catalog_action \<Rightarrow> string \<Rightarrow> string \<Rightarrow> request_template
       \<Rightarrow> string list \<Rightarrow> bool \<Rightarrow> connector_result exec" where
  "execute_prepared w prepared action driver base_url template hosts private =
     eseq (eattempt (authenticate w (pr_environment prepared)) is_auth_error) (\<lambda>authenticated.
     case authenticated of
       Inl e \<Rightarrow> failed_before_dispatch w prepared action ''authentication_failed''
     | Inr auth \<Rightarrow>
     eseq (run_preflights w action prepared driver auth hosts private) (\<lambda>preflight.
     case preflight of
       Some code \<Rightarrow> failed_before_dispatch w prepared action code
     | None \<Rightarrow>
     eseq (eattempt (wire w template auth) is_build_error) (\<lambda>built.
     case built of
       Inl e \<Rightarrow> failed_before_dispatch w prepared action ''validation_failed''
     | Inr request \<Rightarrow>
     eseq (recheck w prepared driver base_url) (\<lambda>_.
     dispatch w prepared action template hosts private request))))"

definition execute_write :: "exec_world \<Rightarrow> string \<Rightarrow> connector_result exec" where
  "execute_write w request_id =
     eseq (store_call w (RequireReady request_id)) (\<lambda>prepared.
     eseq (active_for_prepared w prepared True) (\<lambda>action.
     eseq (query (\<lambda>n. ew_driver w n (pr_connector_id prepared))) (\<lambda>driver.
     eseq (active_preflight_actions w prepared) (\<lambda>_.
     eseq (query (\<lambda>n. ew_base_url w n driver (pr_environment prepared))) (\<lambda>base_url.
     eseq (allow_private w (pr_connector_id prepared) (pr_environment prepared)) (\<lambda>private.
     eseq (bound_template w prepared action base_url private) (\<lambda>template.
     eseq (query (\<lambda>n. ew_fields w n driver (pr_environment prepared))) (\<lambda>_.
     eseq (credential_snapshot w prepared) (\<lambda>_.
     eseq (allowed_hosts w (pr_connector_id prepared) (pr_environment prepared) base_url) (\<lambda>hosts.
     execute_prepared w prepared action driver base_url template hosts private))))))))))"

definition approve_and_execute ::
    "exec_world \<Rightarrow> string \<Rightarrow> string \<Rightarrow> mutation_class \<Rightarrow> connector_result exec" where
  "approve_and_execute w request_id payload_hash expected_class =
     eseq (record_approval w request_id payload_hash expected_class ''approval_recorded'')
       (\<lambda>approved. execute_write w (pr_request_id approved))"

section \<open>Status\<close>

definition get_request_status :: "exec_world \<Rightarrow> string \<Rightarrow> json_dict exec" where
  "get_request_status w request_id =
     eseq (store_call w (GetRequest request_id)) (\<lambda>request. eret (public_dict request))"

definition is_lookup_or_value_error :: "mercury_error \<Rightarrow> bool" where
  "is_lookup_or_value_error e \<longleftrightarrow>
     is_value_error e \<or> (case e of LookupErr _ \<Rightarrow> True | _ \<Rightarrow> False)"

text \<open>The status read of an unknown outcome, \<open>None\<close> where it must be reconciled by hand.\<close>

definition status_read ::
    "exec_world \<Rightarrow> prepared_request \<Rightarrow> catalog_action \<Rightarrow> (string \<times> connector_result) option exec" where
  "status_read w prepared action =
     (case jget (ca_idempotency action) ''status_action_id'' JNull of
        JStr status_action_id \<Rightarrow>
          if status_action_id = [] then eret None
          else
            eseq (eattempt (query (\<lambda>n. ew_require w n status_action_id)) is_lookup_or_value_error)
              (\<lambda>found.
            case found of
              Inl e \<Rightarrow> eret None
            | Inr status_action \<Rightarrow>
                let inputs = jget (ca_idempotency action) ''status_inputs'' (JObj []) in
                if ca_method status_action \<noteq> GET \<or> \<not> is_mapping inputs then eret None
                else
                  eseq (run_read w (ew_context w) status_action (pr_environment prepared) inputs)
                    (\<lambda>result.
                  if cr_status result \<noteq> ''succeeded'' then eret None
                  else eret (map_option (\<lambda>outcome_name. (outcome_name, result))
                         (status_outcome (ew_lib w) (ca_idempotency action) (cr_data result)))))
      | _ \<Rightarrow> eret None)"

definition resolve_unknown_with_status :: "exec_world \<Rightarrow> string \<Rightarrow> connector_result exec" where
  "resolve_unknown_with_status w request_id =
     eseq (store_call w (GetRequest request_id)) (\<lambda>prepared.
     eseq (eguard (pr_state prepared \<noteq> OutcomeUnknown)
       (RequestStateError ''request_not_outcome_unknown'')) (\<lambda>_.
     eseq (active_for_prepared w prepared False) (\<lambda>action.
     eseq (status_read w prepared action) (\<lambda>status.
     case status of
       None \<Rightarrow> eret manual_reconciliation_result
     | Some (outcome_name, result) \<Rightarrow>
         eseq (store_call w (ResolveOutcome request_id outcome_name (result_summary result)))
           (\<lambda>resolved.
         let answer =
           \<lparr>cr_status = outcome_name, cr_http_status = cr_http_status result,
            cr_data = cr_data result, cr_summary = ''status_action_resolved'',
            cr_dispatched = False\<rparr> in
         eseq (audit_request w resolved ''execution_completed'' (result_summary answer))
           (\<lambda>_. eret answer))))))"

text \<open>The public methods.\<close>

datatype exec_call =
    RunRead repository_context catalog_action string json
  | PreviewWrite repository_context catalog_action string json
  | ConfirmWrite string string
  | ApproveAndExecute string string mutation_class
  | ExecuteWrite string
  | GetStatus string
  | ResolveUnknown string

fun run_call :: "exec_world \<Rightarrow> exec_call \<Rightarrow> exec_state \<Rightarrow> exec_state" where
  "run_call w (RunRead repository action environment inputs) =
     final (run_read w repository action environment inputs)"
| "run_call w (PreviewWrite repository action environment inputs) =
     final (preview_write w repository action environment inputs)"
| "run_call w (ConfirmWrite rid h) = final (confirm_write w rid h)"
| "run_call w (ApproveAndExecute rid h class) = final (approve_and_execute w rid h class)"
| "run_call w (ExecuteWrite rid) = final (execute_write w rid)"
| "run_call w (GetStatus rid) = final (get_request_status w rid)"
| "run_call w (ResolveUnknown rid) = final (resolve_unknown_with_status w rid)"

end
