(* ===== verification/Execution_Safety.thy ===== *)
theory Execution_Safety
  imports Executor
begin

text \<open>
  What the executor guarantees whatever its world answers and whatever other tasks do with the
  store in between. A method is \<open>quiet\<close> if it sends no write and only takes steps of the store;
  only \<open>dispatch\<close> sends a write, after it started the execution. The properties: a write is sent at
  most once per request, only for an approved one and only as it was approved.
\<close>

section \<open>Quiet methods\<close>

fun is_write :: "exec_event \<Rightarrow> bool" where
  "is_write (WriteSent p q t r) = True"
| "is_write _ = False"

definition sent_writes :: "exec_state \<Rightarrow> exec_event list" where
  "sent_writes s = filter is_write (es_log s)"

definition exec_ok :: "exec_world \<Rightarrow> exec_state \<Rightarrow> bool" where
  "exec_ok w s \<longleftrightarrow> store_ok (sc_lib (world_store w)) (es_db s)"

definition reaches :: "exec_world \<Rightarrow> exec_state \<Rightarrow> exec_state \<Rightarrow> bool" where
  "reaches w s s' \<longleftrightarrow> (\<exists>es. db_steps (sc_lib (world_store w)) es (es_db s) (es_db s'))"

lemma reaches_refl [simp]: "reaches w s s"
  unfolding reaches_def using db_steps.stop by blast

lemma reaches_trans: "reaches w s s' \<Longrightarrow> reaches w s' s'' \<Longrightarrow> reaches w s s''"
  unfolding reaches_def using db_steps_append by blast

lemma reaches_ok: "reaches w s s' \<Longrightarrow> exec_ok w s \<Longrightarrow> exec_ok w s'"
  unfolding reaches_def exec_ok_def using db_steps_ok by blast

lemma reaches_started:
  "reaches w s s' \<Longrightarrow> has_started (es_db s) rid \<Longrightarrow> has_started (es_db s') rid"
  unfolding reaches_def using db_steps_started by blast

lemma reaches_same_db: "es_db s' = es_db s \<Longrightarrow> reaches w s s'"
  unfolding reaches_def using db_steps.stop by metis

text \<open>
  \<open>sends w E m\<close>: the method takes steps of the store and sends at most one write, one of \<open>E\<close>.
\<close>

definition sent_at_most_one :: "exec_event set \<Rightarrow> exec_state \<Rightarrow> exec_state \<Rightarrow> bool" where
  "sent_at_most_one E s s' \<longleftrightarrow>
     (\<exists>es. sent_writes s' = sent_writes s @ es \<and> length es \<le> 1 \<and> set es \<subseteq> E)"

definition sends :: "exec_world \<Rightarrow> exec_event set \<Rightarrow> 'a exec \<Rightarrow> bool" where
  "sends w E m \<longleftrightarrow>
     (\<forall>s. exec_ok w s \<longrightarrow> reaches w s (final m s) \<and> sent_at_most_one E s (final m s))"

abbreviation quiet :: "exec_world \<Rightarrow> 'a exec \<Rightarrow> bool" where
  "quiet w \<equiv> sends w {}"

lemma sent_at_most_one_empty [simp]: "sent_at_most_one {} s s' \<longleftrightarrow> sent_writes s' = sent_writes s"
  by (auto simp: sent_at_most_one_def)

lemma sent_at_most_one_refl [simp]: "sent_at_most_one E s s"
  by (auto simp: sent_at_most_one_def)

named_theorems quiet_rules \<open>rules for methods that send no write\<close>

lemma final_eseq:
  "final (eseq m k) s = (case outcome m s of Inl e \<Rightarrow> final m s | Inr x \<Rightarrow> final (k x) (final m s))"
  by (simp add: final_def outcome_def eseq_def split: prod.splits sum.splits)

lemma final_ecatch:
  "final (ecatch m p h) s =
     (case outcome m s of Inl e \<Rightarrow> if p e then final (h e) (final m s) else final m s
                        | Inr x \<Rightarrow> final m s)"
  by (simp add: final_def outcome_def ecatch_def split: prod.splits sum.splits)

lemma sendsD:
  "sends w E m \<Longrightarrow> exec_ok w s \<Longrightarrow>
     reaches w s (final m s) \<and> exec_ok w (final m s) \<and> sent_at_most_one E s (final m s)"
  unfolding sends_def using reaches_ok by blast

lemma quietD:
  "quiet w m \<Longrightarrow> exec_ok w s \<Longrightarrow>
     reaches w s (final m s) \<and> exec_ok w (final m s) \<and> sent_writes (final m s) = sent_writes s"
  using sendsD[of w "{}" m s] by simp

lemma sendsI:
  "(\<And>s. exec_ok w s \<Longrightarrow> reaches w s (final m s) \<and> sent_at_most_one E s (final m s)) \<Longrightarrow> sends w E m"
  by (simp add: sends_def)

lemma quiet_sends: "quiet w m \<Longrightarrow> sends w E m"
  by (auto simp: sends_def sent_at_most_one_def)

lemma quiet_same:
  "(\<And>s. es_db (final m s) = es_db s \<and> sent_writes (final m s) = sent_writes s) \<Longrightarrow> quiet w m"
  by (simp add: sends_def reaches_same_db)

lemma sends_eseq:
  assumes m: "quiet w m" and k: "\<And>x. sends w E (k x)"
  shows "sends w E (eseq m k)"
proof (rule sendsI)
  fix s assume ok: "exec_ok w s"
  note q = quietD[OF m ok]
  show "reaches w s (final (eseq m k) s) \<and> sent_at_most_one E s (final (eseq m k) s)"
  proof (cases "outcome m s")
    case (Inl e)
    then show ?thesis using q by (auto simp: final_eseq sent_at_most_one_def)
  next
    case (Inr x)
    then show ?thesis
      using q sendsD[OF k[of x], of "final m s"] reaches_trans
      by (auto simp: final_eseq sent_at_most_one_def)
  qed
qed

lemma sends_last:
  assumes m: "sends w E m" and k: "\<And>x. quiet w (k x)"
  shows "sends w E (eseq m k)"
proof (rule sendsI)
  fix s assume ok: "exec_ok w s"
  note q = sendsD[OF m ok]
  show "reaches w s (final (eseq m k) s) \<and> sent_at_most_one E s (final (eseq m k) s)"
  proof (cases "outcome m s")
    case (Inl e)
    then show ?thesis using q by (simp add: final_eseq)
  next
    case (Inr x)
    then show ?thesis
      using q quietD[OF k[of x], of "final m s"] reaches_trans
      by (auto simp: final_eseq sent_at_most_one_def)
  qed
qed

lemma quiet_ecatch [quiet_rules]:
  assumes m: "quiet w m" and h: "\<And>e. quiet w (h e)"
  shows "quiet w (ecatch m p h)"
proof (rule sendsI)
  fix s assume ok: "exec_ok w s"
  note q = quietD[OF m ok]
  then show "reaches w s (final (ecatch m p h) s) \<and> sent_at_most_one {} s (final (ecatch m p h) s)"
    using quietD[OF h, of "final m s"] reaches_trans
    by (auto simp: final_ecatch split: sum.splits)
qed

lemma quiet_eseq [quiet_rules]: "quiet w m \<Longrightarrow> (\<And>x. quiet w (k x)) \<Longrightarrow> quiet w (eseq m k)"
  by (rule sends_eseq)

lemma quiet_basic [quiet_rules]:
  "quiet w (eret x)" "quiet w (efail e)" "quiet w (elift r)" "quiet w (eguard c e)"
  by (rule quiet_same; simp add: final_def)+

lemma quiet_eattempt [quiet_rules]: "quiet w m \<Longrightarrow> quiet w (eattempt m p)"
  unfolding eattempt_def by (intro quiet_rules)

lemma quiet_ask [quiet_rules]: "quiet w (ask f)"
  by (rule quiet_same) (simp add: final_def ask_def sent_writes_def)

lemma quiet_query [quiet_rules]: "quiet w (query f)"
  unfolding query_def by (intro quiet_rules)

lemma quiet_emit [quiet_rules]: "\<not> is_write e \<Longrightarrow> quiet w (emit e)"
  by (rule quiet_same) (simp add: final_def emit_def sent_writes_def)

lemma sends_emit: "sends w {WriteSent p q t r} (emit (WriteSent p q t r))"
  by (rule sendsI)
    (simp add: final_def emit_def sent_writes_def reaches_same_db sent_at_most_one_def)

lemma op_result_apply: "snd (op_result ctx clock op db) = apply_op ctx clock op db"
  by (cases op) simp_all

lemma run_ops_reach:
  "store_ok (sc_lib ctx) db \<Longrightarrow> \<exists>es. db_steps (sc_lib ctx) es db (run_ops ctx ops db)"
proof (induction ctx ops db rule: run_ops.induct)
  case (1 ctx db)
  then show ?case by (auto intro: db_steps.stop)
next
  case (2 ctx clock op ops db)
  then show ?case
    using apply_op_steps[OF store_ok_distinct[OF 2(2)], of ctx clock op] apply_op_ok[OF 2(2), of clock op]
    by (auto intro: db_steps_append)
qed

lemma reaches_others:
  assumes "exec_ok w s"
  shows "reaches w s (s\<lparr>es_db := run_ops (world_store w) ops (es_db s)\<rparr>)"
  using run_ops_reach assms by (simp add: reaches_def exec_ok_def)

lemma quiet_store_call [quiet_rules]: "quiet w (store_call w op)"
proof (rule sendsI)
  fix s assume ok: "exec_ok w s"
  let ?db = "run_ops (world_store w) (ew_others w (es_tick s)) (es_db s)"
  let ?s1 = "s\<lparr>es_db := ?db\<rparr>"
  have r1: "reaches w s ?s1" by (rule reaches_others[OF ok])
  then have "exec_ok w ?s1" using ok by (rule reaches_ok)
  then have dist: "distinct (map rw_request_id ?db)" by (simp add: exec_ok_def store_ok_distinct)
  have "reaches w ?s1 (final (store_call w op) s)"
    using apply_op_steps[OF dist, of "world_store w" "ew_clock w (es_tick s)" op]
      op_result_apply[of "world_store w" "ew_clock w (es_tick s)" op ?db]
    by (auto simp: reaches_def final_def store_call_def split: prod.splits)
  then show "reaches w s (final (store_call w op) s) \<and>
      sent_at_most_one {} s (final (store_call w op) s)"
    using reaches_trans[OF r1] by (auto simp: final_def store_call_def sent_writes_def split: prod.splits)
qed

lemma quiet_assert_replay [quiet_rules]: "quiet w (assert_replay w h)"
  using reaches_others
  by (auto simp: sends_def assert_replay_def final_def sent_writes_def Let_def reaches_def)

lemma quiet_case_option [quiet_rules]:
  "quiet w a \<Longrightarrow> (\<And>x. quiet w (b x)) \<Longrightarrow> quiet w (case r of None \<Rightarrow> a | Some x \<Rightarrow> b x)"
  by (cases r) simp_all

lemma quiet_case_sum [quiet_rules]:
  "(\<And>x. quiet w (a x)) \<Longrightarrow> (\<And>x. quiet w (b x)) \<Longrightarrow> quiet w (case r of Inl x \<Rightarrow> a x | Inr x \<Rightarrow> b x)"
  by (cases r) simp_all

lemma quiet_case_prod [quiet_rules]:
  "(\<And>x y. quiet w (a x y)) \<Longrightarrow> quiet w (case r of (x, y) \<Rightarrow> a x y)"
  by (cases r) simp_all

lemma quiet_if [quiet_rules]: "quiet w a \<Longrightarrow> quiet w b \<Longrightarrow> quiet w (if c then a else b)"
  by simp
section \<open>Every method but the dispatch is quiet\<close>

lemma quiet_case_json [quiet_rules]:
  "(\<And>kvs. quiet w (f kvs)) \<Longrightarrow> quiet w g \<Longrightarrow>
   quiet w (case v of JObj kvs \<Rightarrow> f kvs | _ \<Rightarrow> g)"
  by (cases v) simp_all

lemma quiet_Pair [quiet_rules]: "quiet w (Pair r)"
  by (rule quiet_same) (simp add: final_def)

lemma quiet_record_row [quiet_rules]: "quiet w (record_row w row)"
  unfolding record_row_def by (intro quiet_rules) simp

lemma quiet_audits [quiet_rules]:
  "quiet w (audit_request w request event summary)"
  "quiet w (audit_result w action environment event state result latency)"
  "quiet w (latency_ms w)"
  unfolding audit_request_def audit_result_def latency_ms_def by (intro quiet_rules)+

lemma quiet_lookups [quiet_rules]:
  "quiet w (lookup_action w action_id)" "quiet w (lookup_version w action_id version_id)"
  "quiet w (invalidated w prepared reason)" "quiet w (binding_of w action)"
  unfolding lookup_action_def lookup_version_def invalidated_def binding_of_def by (intro quiet_rules)+

lemma quiet_active [quiet_rules]:
  "quiet w (require_active_action w action)" "quiet w (active_for_prepared w prepared invalidate)"
  "quiet w (preflight_stale w prepared)" "quiet w (stale_credentials w prepared)"
  unfolding require_active_action_def active_for_prepared_def not_active_def preflight_stale_def
    stale_credentials_def by (intro quiet_rules)+

lemma quiet_capture [quiet_rules]: "quiet w (capture_bindings w action environment ids)"
  by (induction ids) (auto intro!: quiet_rules)

lemma quiet_active_bindings [quiet_rules]: "quiet w (active_bindings w prepared bindings)"
  by (induction bindings) (auto intro!: quiet_rules)

lemma quiet_credentials [quiet_rules]:
  "quiet w (capture_preflight_actions w action environment)"
  "quiet w (active_preflight_actions w prepared)"
  "quiet w (credential_revision w connector_id environment)"
  "quiet w (match_revision w prepared revision)"
  unfolding capture_preflight_actions_def active_preflight_actions_def credential_revision_def
    match_revision_def by (intro quiet_rules)+

lemma quiet_snapshot [quiet_rules]:
  "quiet w (credential_snapshot w prepared)" "quiet w (require_credential_revision w prepared)"
  unfolding credential_snapshot_def require_credential_revision_def by (intro quiet_rules)+

lemma quiet_targets [quiet_rules]:
  "quiet w (allow_private w connector_id environment)"
  "quiet w (allowed_hosts w connector_id environment base_url)"
  unfolding allow_private_def allowed_hosts_def Let_def by (intro quiet_rules)+

lemma quiet_prepare_template [quiet_rules]:
  "quiet w (prepare_template w repository action environment inputs)"
  unfolding prepare_template_def by (intro quiet_rules)

lemma quiet_network [quiet_rules]:
  "quiet w (send_read w hosts private request)" "quiet w (wire w template auth)"
  "quiet w (interpret_with w action response)" "quiet w (authenticate w environment)"
  unfolding send_read_def send_request_def wire_def interpret_with_def authenticate_def
  by (intro quiet_rules; simp)+

lemma quiet_run_read [quiet_rules]: "quiet w (run_read w repository action environment inputs)"
  unfolding run_read_def by (intro quiet_rules)

lemma quiet_audited [quiet_rules]: "quiet w (audited w request event)"
  unfolding audited_def by (intro quiet_rules)

lemma quiet_preview_write [quiet_rules]: "quiet w (preview_write w repository action environment inputs)"
  unfolding preview_write_def by (intro quiet_rules)

lemma quiet_approvals [quiet_rules]:
  "quiet w (record_approval w rid h cls event)" "quiet w (confirm_write w rid h)"
  unfolding record_approval_def confirm_write_def by (intro quiet_rules)+

lemma quiet_failed_before_dispatch [quiet_rules]:
  "quiet w (failed_before_dispatch w prepared action code)"
  unfolding failed_before_dispatch_def Let_def by (intro quiet_rules)

lemma quiet_completed [quiet_rules]: "quiet w (completed w executing outcome_name summary result)"
  unfolding completed_def by (intro quiet_rules)

lemma quiet_settle [quiet_rules]: "quiet w (settle w executing action sent)"
  unfolding settle_def complete_failed_def complete_unknown_def complete_result_def
  by (cases sent) (auto intro!: quiet_rules)

lemma quiet_preflight_response [quiet_rules]:
  "quiet w (preflight_response w prepared preflight base_url values auth hosts private)"
  unfolding preflight_response_def by (intro quiet_rules)

lemma quiet_run_preflight [quiet_rules]:
  "quiet w (run_preflight w prepared driver configured duplicate auth hosts private binding)"
  unfolding run_preflight_def audit_preflight_def Let_def by (intro quiet_rules)

lemma quiet_preflight_loop [quiet_rules]:
  "(\<And>b. quiet w (run b)) \<Longrightarrow> quiet w (preflight_loop run bindings)"
  by (induction bindings) (auto intro!: quiet_rules)

lemma quiet_run_preflights [quiet_rules]:
  "quiet w (run_preflights w action prepared driver auth hosts private)"
  unfolding run_preflights_def by (intro quiet_rules)

lemma quiet_rebuild [quiet_rules]:
  "quiet w (rebuild_prepared w prepared action base_url private)"
  "quiet w (bound_template w prepared action base_url private)"
  "quiet w (recheck w prepared driver base_url)"
  unfolding bound_template_def rebuild_prepared_def recheck_def by (intro quiet_rules)+

lemma quiet_status [quiet_rules]:
  "quiet w (get_request_status w rid)" "quiet w (resolve_unknown_with_status w rid)"
proof -
  show "quiet w (get_request_status w rid)"
    unfolding get_request_status_def by (intro quiet_rules)
  have "quiet w (status_read w prepared action)" for prepared action
    unfolding status_read_def Let_def by (auto intro!: quiet_rules split: json.splits)
  then show "quiet w (resolve_unknown_with_status w rid)"
    unfolding resolve_unknown_with_status_def Let_def by (auto intro!: quiet_rules)
qed

section \<open>The dispatch\<close>

text \<open>
  What a write that was sent must be: the request that the store moved to \<open>executing\<close> is the
  approved one (it differs in its state and summaries only), the template has the approved hash
  and the HTTP request is made from the template.
\<close>

definition authorised ::
    "exec_world \<Rightarrow> prepared_request \<Rightarrow> prepared_request \<Rightarrow> request_template \<Rightarrow> wire_request \<Rightarrow> bool" where
  "authorised w prepared executing template request \<longleftrightarrow>
     frozen prepared executing \<and> pr_state executing = Executing \<and>
     pr_approval_count executing = 1 \<and>
     approval_payload_hash (ew_lib w) template (pr_credential_revision executing)
       (pr_preflight_actions executing) = Inr (pr_payload_hash executing) \<and>
     (\<exists>fs auth. template_http_request (ew_lib w) fs template auth = Inr request)"

definition write_fine :: "exec_world \<Rightarrow> exec_state \<Rightarrow> exec_state \<Rightarrow> exec_event \<Rightarrow> bool" where
  "write_fine w s s' e \<longleftrightarrow>
     (\<exists>p q t r. e = WriteSent p q t r \<and> authorised w p q t r \<and>
        \<not> has_started (es_db s) (pr_request_id q) \<and> has_started (es_db s') (pr_request_id q))"

definition good_run :: "exec_world \<Rightarrow> exec_state \<Rightarrow> exec_state \<Rightarrow> bool" where
  "good_run w s s' \<longleftrightarrow> reaches w s s' \<and>
     (\<exists>es. sent_writes s' = sent_writes s @ es \<and> length es \<le> 1 \<and> list_all (write_fine w s s') es)"

lemma good_runI:
  "reaches w s s' \<Longrightarrow> sent_writes s' = sent_writes s @ es \<Longrightarrow> length es \<le> 1 \<Longrightarrow>
   list_all (write_fine w s s') es \<Longrightarrow> good_run w s s'"
  by (auto simp: good_run_def)

lemma good_run_after:
  assumes "reaches w s s1" and "sent_writes s1 = sent_writes s" and "good_run w s1 s'"
  shows "good_run w s s'"
proof -
  obtain es where es: "sent_writes s' = sent_writes s1 @ es" "length es \<le> 1"
      "list_all (write_fine w s1 s') es" and r: "reaches w s1 s'"
    using assms(3) by (auto simp: good_run_def)
  have "list_all (write_fine w s s') es"
    using es(3) reaches_started[OF assms(1)] by (fastforce simp: list_all_iff write_fine_def)
  then show ?thesis
    using es assms(2) reaches_trans[OF assms(1) r] by (intro good_runI[of w s s' es]) simp_all
qed

text \<open>\<open>P\<close> is what the method knows of the state; the steps of the store keep it.\<close>

definition executes :: "exec_world \<Rightarrow> (exec_state \<Rightarrow> bool) \<Rightarrow> 'a exec \<Rightarrow> bool" where
  "executes w P m \<longleftrightarrow> (\<forall>s. exec_ok w s \<longrightarrow> P s \<longrightarrow> good_run w s (final m s))"

lemma quiet_executes: "quiet w m \<Longrightarrow> executes w P m"
  using quietD[of w m] by (auto simp: executes_def intro!: good_runI[where es = "[]"])

lemma executes_eseq:
  assumes m: "quiet w m" and P: "\<And>s s'. reaches w s s' \<Longrightarrow> P s \<Longrightarrow> P s'"
    and k: "\<And>x s. outcome m s = Inr x \<Longrightarrow> executes w P (k x)"
  shows "executes w P (eseq m k)"
  unfolding executes_def
proof (intro allI impI)
  fix s assume ok: "exec_ok w s" and ps: "P s"
  note q = quietD[OF m ok]
  show "good_run w s (final (eseq m k) s)"
  proof (cases "outcome m s")
    case (Inl e)
    then show ?thesis using q by (auto simp: final_eseq intro!: good_runI[where es = "[]"])
  next
    case (Inr x)
    have "good_run w (final m s) (final (k x) (final m s))"
      using k[OF Inr] q P[OF _ ps] by (auto simp: executes_def)
    then show ?thesis using q Inr by (auto simp: final_eseq intro: good_run_after)
  qed
qed

text \<open>The stored request is the prepared one, but for its state and summaries.\<close>

definition tracks :: "prepared_request \<Rightarrow> exec_state \<Rightarrow> bool" where
  "tracks p s \<longleftrightarrow> (\<exists>q. request_of (es_db s) (pr_request_id p) = Some q \<and> frozen p q)"

lemma frozen_sym: "frozen p q \<Longrightarrow> frozen q p"
  by (cases p; cases q) (simp add: frozen_def)

lemma frozen_more:
  "frozen p q \<Longrightarrow> pr_credential_revision q = pr_credential_revision p"
  "frozen p q \<Longrightarrow> pr_preflight_actions q = pr_preflight_actions p"
  by (cases p; cases q; simp add: frozen_def)+

lemma db_steps_tracks:
  "db_steps lib es db db' \<Longrightarrow> request_of db rid = Some q \<Longrightarrow> frozen p q \<Longrightarrow>
     \<exists>q'. request_of db' rid = Some q' \<and> frozen p q'"
proof (induction rule: db_steps.induct)
  case (stop db)
  then show ?case by blast
next
  case (step es db db1 e db2)
  then obtain q1 where q1: "request_of db1 rid = Some q1" "frozen p q1" by blast
  obtain x event where e: "e = (x, event)" by (cases e)
  from db_step_request_of[OF step(2)[unfolded e]] q1 show ?case
    by (cases "rid = x") (auto intro: frozen_trans)
qed

lemma tracks_stable: "reaches w s s' \<Longrightarrow> tracks p s \<Longrightarrow> tracks p s'"
  unfolding tracks_def reaches_def using db_steps_tracks by blast

lemma outcome_eseq_Inr:
  "outcome (eseq m k) s = Inr y \<longleftrightarrow> (\<exists>x. outcome m s = Inr x \<and> outcome (k x) (final m s) = Inr y)"
  by (auto simp: outcome_def final_def eseq_def split: prod.splits sum.splits)

lemma outcome_basic [simp]:
  "outcome (eret x) s = Inr x" "outcome (efail e) s = Inl e" "outcome (elift r) s = r"
  "outcome (Pair r) s = r"
  by (simp_all add: outcome_def)

lemma invalidated_fails [simp]: "outcome (invalidated w p reason) s \<noteq> Inr x"
  by (auto simp: invalidated_def outcome_eseq_Inr)

lemma bound_template_hash:
  assumes "outcome (bound_template w prepared action base_url private) s = Inr t"
  shows "approval_payload_hash (ew_lib w) t (pr_credential_revision prepared)
    (pr_preflight_actions prepared) = Inr (pr_payload_hash prepared)"
  using assms by (auto simp: bound_template_def outcome_eseq_Inr compare_digest_Inr split: if_splits)

lemma wire_built:
  assumes "outcome (eattempt (wire w t auth) p) s = Inr (Inr request)"
  shows "\<exists>fs. template_http_request (ew_lib w) fs t auth = Inr request"
  using assms
  by (auto simp: eattempt_def ecatch_def wire_def query_def ask_def eseq_def elift_def eret_def
      outcome_def split: sum.splits prod.splits if_splits)
lemma executes_tracks:
  assumes "quiet w m" and "\<And>x s. outcome m s = Inr x \<Longrightarrow> executes w (tracks p) (k x)"
  shows "executes w (tracks p) (eseq m k)"
  by (rule executes_eseq[OF assms(1) tracks_stable assms(2)])

lemma start_call:
  assumes ok: "exec_ok w s" and tracked: "tracks p s"
    and started: "outcome (store_call w (StartExecution (pr_request_id p))) s = Inr q"
  shows "frozen p q" and "pr_state q = Executing" and "pr_approval_count q = 1"
    and "\<not> has_started (es_db s) (pr_request_id q)"
    and "has_started (es_db (final (store_call w (StartExecution (pr_request_id p))) s)) (pr_request_id q)"
proof -
  let ?lib = "sc_lib (world_store w)" and ?now = "ew_clock w (es_tick s) 0"
  let ?db = "run_ops (world_store w) (ew_others w (es_tick s)) (es_db s)"
  let ?s1 = "s\<lparr>es_db := ?db\<rparr>"
  obtain db' where run: "start_execution ?lib ?now (pr_request_id p) ?db = (Inr q, db')"
    and db': "es_db (final (store_call w (StartExecution (pr_request_id p))) s) = db'"
    using started by (auto simp: store_call_def outcome_def final_def split: prod.splits)
  have r1: "reaches w s ?s1" by (rule reaches_others[OF ok])
  obtain r where r: "fetch ?lib ?db (pr_request_id p) = Inr r" "validated ?lib q" "frozen r q"
      "move_ok Started r q"
    using start_execution_moves[of ?lib "pr_request_id p" ?db ?now] run by (auto simp: one_move_def)
  obtain q0 where q0: "request_of ?db (pr_request_id p) = Some q0" "frozen q0 r"
    using request_of_fetch[OF r(1)] by blast
  have "frozen p q0" using tracks_stable[OF r1 tracked] q0(1) by (simp add: tracks_def)
  then show fr: "frozen p q" using q0(2) r(3) frozen_trans by blast
  show st: "pr_state q = Executing" using r(4) by simp
  then show "pr_approval_count q = 1" using validated_state_fields(1)[OF r(2)] by simp
  have id: "pr_request_id q = pr_request_id p" using frozen_fields(1)[OF fr] .
  note once = start_execution_started[OF run]
  show "\<not> has_started (es_db s) (pr_request_id q)"
    using once reaches_started[OF r1, of "pr_request_id p"] id by auto
  show "has_started (es_db (final (store_call w (StartExecution (pr_request_id p))) s)) (pr_request_id q)"
    using once id db' by simp
qed

lemma after_start_sends:
  "sends w {WriteSent p q t r}
     (eseq (eattempt (audit_request w q ''dispatch_started'' []) (\<lambda>_. True)) (\<lambda>audit.
      case audit of
        Inl e \<Rightarrow>
          eseq (store_call w (CompleteRequest (pr_request_id q) ''failed''
             (error_summary ''validation_failed''))) (\<lambda>_. eret (failed_result False))
      | Inr _ \<Rightarrow>
          eseq (send_request w (WriteSent p q t r) hosts priv r) (settle w q action)))"
proof -
  have send: "sends w {WriteSent p q t r} (send_request w (WriteSent p q t r) hosts priv r)"
    unfolding send_request_def by (rule sends_last[OF sends_emit]) (rule quiet_rules)
  have "sends w {WriteSent p q t r} (case audit of
        Inl e \<Rightarrow>
          eseq (store_call w (CompleteRequest (pr_request_id q) ''failed''
             (error_summary ''validation_failed''))) (\<lambda>_. eret (failed_result False))
      | Inr _ \<Rightarrow>
          eseq (send_request w (WriteSent p q t r) hosts priv r) (settle w q action))" for audit :: "unit result"
  proof (cases audit)
    case (Inl e)
    have "quiet w (eseq (store_call w (CompleteRequest (pr_request_id q) ''failed''
        (error_summary ''validation_failed''))) (\<lambda>_. eret (failed_result False)))"
      by (intro quiet_rules)
    from quiet_sends[OF this] show ?thesis unfolding Inl sum.case .
  next
    case (Inr u)
    show ?thesis unfolding Inr sum.case by (rule sends_last[OF send]) (rule quiet_rules)
  qed
  then show ?thesis by (intro sends_eseq quiet_rules)
qed

lemma dispatch_executes:
  assumes hash: "approval_payload_hash (ew_lib w) t (pr_credential_revision p)
      (pr_preflight_actions p) = Inr (pr_payload_hash p)"
    and request: "\<exists>fs. template_http_request (ew_lib w) fs t auth = Inr r"
  shows "executes w (tracks p) (dispatch w p action t hosts priv r)"
  unfolding executes_def
proof (intro allI impI)
  fix s assume ok: "exec_ok w s" and tracked: "tracks p s"
  let ?start = "store_call w (StartExecution (pr_request_id p))"
  note q = quietD[OF quiet_store_call ok, of "StartExecution (pr_request_id p)"]
  show "good_run w s (final (dispatch w p action t hosts priv r) s)"
  proof (cases "outcome ?start s")
    case (Inl e)
    then show ?thesis using q
      by (auto simp: dispatch_def final_eseq intro!: good_runI[where es = "[]"])
  next
    case (Inr x)
    note st = start_call[OF ok tracked Inr]
    have auth: "authorised w p x t r"
      using st(1-3) hash request frozen_more[OF st(1)] frozen_fields(2)[OF st(1)]
      by (auto simp: authorised_def)
    let ?s' = "final (dispatch w p action t hosts priv r) s"
    have after: "reaches w (final ?start s) ?s' \<and>
        sent_at_most_one {WriteSent p x t r} (final ?start s) ?s'"
      using sendsD[OF after_start_sends[where w = w and p = p and q = x and t = t and r = r and hosts = hosts
            and priv = priv and action = action], of "final ?start s"] q
      by (simp add: dispatch_def final_eseq Inr)
    then obtain es where es: "sent_writes ?s' = sent_writes (final ?start s) @ es" "length es \<le> 1"
        "set es \<subseteq> {WriteSent p x t r}"
      by (auto simp: sent_at_most_one_def)
    have "list_all (write_fine w s ?s') es"
      using es(3) auth st(4) reaches_started[OF conjunct1[OF after] st(5)]
      by (auto simp: list_all_iff write_fine_def)
    then show ?thesis
      using es q after reaches_trans by (intro good_runI[of w s ?s' es]) auto
  qed
qed

lemma execute_prepared_executes:
  assumes hash: "approval_payload_hash (ew_lib w) t (pr_credential_revision p)
      (pr_preflight_actions p) = Inr (pr_payload_hash p)"
  shows "executes w (tracks p) (execute_prepared w p action driver base_url t hosts priv)"
  unfolding execute_prepared_def
proof (rule executes_tracks)
  show "quiet w (eattempt (authenticate w (pr_environment p)) is_auth_error)" by (intro quiet_rules)
next
  fix authenticated
  let ?f = "failed_before_dispatch w p action"
  show "executes w (tracks p) (case authenticated of Inl e \<Rightarrow> ?f ''authentication_failed''
    | Inr auth \<Rightarrow>
     eseq (run_preflights w action p driver auth hosts priv) (\<lambda>preflight.
     case preflight of
       Some code \<Rightarrow> ?f code
     | None \<Rightarrow>
     eseq (eattempt (wire w t auth) is_build_error) (\<lambda>built.
     case built of
       Inl e \<Rightarrow> ?f ''validation_failed''
     | Inr request \<Rightarrow>
     eseq (recheck w p driver base_url) (\<lambda>_.
     dispatch w p action t hosts priv request))))"
  proof (cases authenticated)
    case (Inl e)
    then show ?thesis by (simp add: quiet_executes quiet_failed_before_dispatch)
  next
    case (Inr auth)
    have built: "executes w (tracks p) (case b of Inl e \<Rightarrow> ?f ''validation_failed''
        | Inr request \<Rightarrow> eseq (recheck w p driver base_url) (\<lambda>_. dispatch w p action t hosts priv request))"
      if "outcome (eattempt (wire w t auth) is_build_error) s = Inr b" for b s
    proof (cases b)
      case (Inl e)
      then show ?thesis by (simp add: quiet_executes quiet_failed_before_dispatch)
    next
      case (Inr request)
      from wire_built[OF that[unfolded Inr]] show ?thesis unfolding Inr sum.case
        by (intro executes_tracks dispatch_executes[OF hash] quiet_rules)
    qed
    show ?thesis unfolding Inr sum.case
    proof (rule executes_tracks)
      show "quiet w (run_preflights w action p driver auth hosts priv)" by (rule quiet_rules)
    next
      fix preflight
      show "executes w (tracks p) (case preflight of Some code \<Rightarrow> ?f code
        | None \<Rightarrow> eseq (eattempt (wire w t auth) is_build_error) (\<lambda>built.
            case built of Inl e \<Rightarrow> ?f ''validation_failed''
            | Inr request \<Rightarrow> eseq (recheck w p driver base_url) (\<lambda>_.
                dispatch w p action t hosts priv request)))"
      proof (cases preflight)
        case None
        show ?thesis unfolding None option.case
        proof (rule executes_tracks)
          show "quiet w (eattempt (wire w t auth) is_build_error)" by (intro quiet_rules)
        qed (rule built)
      next
        case (Some code)
        then show ?thesis by (simp add: quiet_executes quiet_failed_before_dispatch)
      qed
    qed
  qed
qed
lemma ready_call:
  assumes "outcome (store_call w (RequireReady rid)) s = Inr p"
  shows "tracks p (final (store_call w (RequireReady rid)) s)"
proof -
  let ?lib = "sc_lib (world_store w)"
  let ?db = "run_ops (world_store w) (ew_others w (es_tick s)) (es_db s)"
  obtain db' where run: "require_ready ?lib (ew_clock w (es_tick s) 0) rid ?db = (Inr p, db')"
    and db': "es_db (final (store_call w (RequireReady rid)) s) = db'"
    using assms by (auto simp: store_call_def outcome_def final_def split: prod.splits)
  have same: "db' = ?db" using require_ready_unchanged[OF run] .
  have fetched: "fetch ?lib ?db rid = Inr p"
    using run by (auto simp: require_ready_def transaction_eq outcome_simps expire_if_needed_def
        require_state_def simp del: ebind_raise_if split: if_splits dest: updated_Inr(3))
  obtain q where "request_of ?db rid = Some q" "frozen q p"
    using request_of_fetch[OF fetched] by blast
  then show ?thesis
    using frozen_sym fetched_valid(4)[OF fetched] by (auto simp: tracks_def db' same)
qed

lemma execute_write_good:
  assumes ok: "exec_ok w s"
  shows "good_run w s (final (execute_write w rid) s)"
proof -
  let ?ready = "store_call w (RequireReady rid)"
  note q = quietD[OF quiet_store_call ok, of "RequireReady rid"]
  have rest: "executes w (tracks p)
     (eseq (active_for_prepared w p True) (\<lambda>action.
      eseq (query (\<lambda>n. ew_driver w n (pr_connector_id p))) (\<lambda>driver.
      eseq (active_preflight_actions w p) (\<lambda>_.
      eseq (query (\<lambda>n. ew_base_url w n driver (pr_environment p))) (\<lambda>base_url.
      eseq (allow_private w (pr_connector_id p) (pr_environment p)) (\<lambda>priv.
      eseq (bound_template w p action base_url priv) (\<lambda>template.
      eseq (query (\<lambda>n. ew_fields w n driver (pr_environment p))) (\<lambda>_.
      eseq (credential_snapshot w p) (\<lambda>_.
      eseq (allowed_hosts w (pr_connector_id p) (pr_environment p) base_url) (\<lambda>hosts.
      execute_prepared w p action driver base_url template hosts priv))))))))))" for p
    by (rule executes_tracks, rule quiet_rules)+ (rule execute_prepared_executes[OF bound_template_hash])
  show ?thesis
  proof (cases "outcome ?ready s")
    case (Inl e)
    then show ?thesis using q
      by (auto simp: execute_write_def final_eseq intro!: good_runI[where es = "[]"])
  next
    case (Inr p)
    have "good_run w (final ?ready s) (final (execute_write w rid) s)"
      using rest[of p] q ready_call[OF Inr]
      by (simp add: executes_def execute_write_def final_eseq[of ?ready] Inr)
    then show ?thesis using q by (auto intro: good_run_after)
  qed
qed

lemma quiet_good: "exec_ok w s \<Longrightarrow> quiet w m \<Longrightarrow> good_run w s (final m s)"
  using quietD[of w m s] by (auto intro!: good_runI[where es = "[]"])

lemma run_call_good:
  assumes ok: "exec_ok w s"
  shows "good_run w s (run_call w call s)"
proof (cases call)
  case (ExecuteWrite rid)
  then show ?thesis using execute_write_good[OF ok] by simp
next
    case (ApproveAndExecute rid h cls)
    let ?m = "record_approval w rid h cls ''approval_recorded''"
    have "quiet w ?m" by (rule quiet_rules)
    note q = quietD[OF this ok]
    show ?thesis
    proof (cases "outcome ?m s")
      case (Inl e)
      then show ?thesis using q unfolding ApproveAndExecute
        by (auto simp: approve_and_execute_def final_eseq intro!: good_runI[where es = "[]"])
    next
      case (Inr p)
      then show ?thesis using q execute_write_good[of w "final ?m s" "pr_request_id p"]
        unfolding ApproveAndExecute
        by (auto simp: approve_and_execute_def final_eseq intro: good_run_after)
    qed
qed (simp, rule quiet_good[OF ok], rule quiet_rules)+

section \<open>Any sequence of calls\<close>

fun sent_id :: "exec_event \<Rightarrow> string" where
  "sent_id (WriteSent p q t r) = pr_request_id q"
| "sent_id _ = []"

definition write_authorised :: "exec_world \<Rightarrow> exec_event \<Rightarrow> bool" where
  "write_authorised w e = (case e of WriteSent p q t r \<Rightarrow> authorised w p q t r | _ \<Rightarrow> True)"

definition exec_inv :: "exec_world \<Rightarrow> exec_state \<Rightarrow> bool" where
  "exec_inv w s \<longleftrightarrow> exec_ok w s \<and> distinct (map sent_id (sent_writes s)) \<and>
     list_all (\<lambda>e. write_authorised w e \<and> has_started (es_db s) (sent_id e)) (sent_writes s)"

lemma good_run_inv:
  assumes inv: "exec_inv w s" and good: "good_run w s s'"
  shows "exec_inv w s'"
proof -
  obtain es where es: "sent_writes s' = sent_writes s @ es" "length es \<le> 1"
      "list_all (write_fine w s s') es" and r: "reaches w s s'"
    using good by (auto simp: good_run_def)
  have ok: "exec_ok w s'" using reaches_ok[OF r] inv by (simp add: exec_inv_def)
  have old: "list_all (\<lambda>e. write_authorised w e \<and> has_started (es_db s') (sent_id e)) (sent_writes s)"
    using inv reaches_started[OF r] by (auto simp: exec_inv_def list_all_iff)
  consider "es = []" | e where "es = [e]" using es(2) by (cases es) auto
  then show ?thesis
  proof cases
    case 1
    then show ?thesis using ok old inv es(1) by (simp add: exec_inv_def)
  next
    case 2
    then have new: "write_authorised w e" "\<not> has_started (es_db s) (sent_id e)"
        "has_started (es_db s') (sent_id e)"
      using es(3) by (auto simp: write_fine_def write_authorised_def)
    have "sent_id e \<notin> set (map sent_id (sent_writes s))"
      using inv new(2) by (auto simp: exec_inv_def list_all_iff)
    then show ?thesis using ok old inv new es(1) 2 by (simp add: exec_inv_def)
  qed
qed

definition idle_executor :: exec_state where
  "idle_executor = \<lparr>es_db = [], es_log = [], es_tick = 0\<rparr>"

lemma calls_inv: "exec_inv w (fold (run_call w) calls idle_executor)"
proof (induction calls rule: rev_induct)
  case Nil
  show ?case by (simp add: exec_inv_def exec_ok_def idle_executor_def sent_writes_def)
next
  case (snoc call calls)
  let ?s = "fold (run_call w) calls idle_executor"
  have "exec_ok w ?s" using snoc.IH by (simp add: exec_inv_def)
  from good_run_inv[OF snoc.IH run_call_good[OF this]] show ?case by simp
qed

text \<open>The state that the end of a send must leave the request in.\<close>

definition settled_state ::
    "(http_response \<Rightarrow> connector_result result) \<Rightarrow> send_outcome \<Rightarrow> request_state" where
  "settled_state interpret sent =
     (case sent of
        ConnectFailed \<Rightarrow> RequestFailed
      | PolicyRefused after_response \<Rightarrow> if after_response then OutcomeUnknown else RequestFailed
      | TransportLost \<Rightarrow> OutcomeUnknown
      | SendRaised e \<Rightarrow> Executing
      | Responded response \<Rightarrow>
          if 500 \<le> hs_status response then OutcomeUnknown
          else case interpret response of
            Inl e \<Rightarrow> OutcomeUnknown
          | Inr result \<Rightarrow>
              if cr_status result = ''succeeded'' then Succeeded
              else if cr_status result = ''outcome_unknown'' then OutcomeUnknown
              else RequestFailed)"

lemma complete_total:
  assumes ok: "store_ok lib db" and r: "fetch lib db rid = Inr r" and ex: "pr_state r = Executing"
    and name: "map_of complete_outcomes name = Some st"
  obtains q db' where "complete_request lib rid name summary db = (Inr q, db')" "pr_state q = st"
    "request_of db' rid = Some q"
proof -
  define reason where "reason = (if st = RequestFailed then Some ''execution_failed''
    else if st = OutcomeUnknown then Some ''outcome_unknown'' else None)"
  let ?q = "r\<lparr>pr_state := st, pr_failure_reason := reason, pr_response_summary := summary\<rparr>"
  have st: "st \<in> {Succeeded, RequestFailed, OutcomeUnknown}"
    using name by (auto simp: complete_outcomes_def split: if_splits)
  have count: "pr_approval_count r = 1"
    using fetched_valid(1)[OF r] ex by (simp add: valid_state_fields_def)
  have reasons: "is_reason ''execution_failed''" "is_reason ''outcome_unknown''" by code_simp+
  obtain q where q: "updated lib ?q = Inr q" "pr_state q = st" "frozen r q"
  proof (rule updated_total[OF r])
    show "frozen r ?q" by simp
    show "valid_state_fields (pr_state ?q) (pr_approval_count ?q) (pr_failure_reason ?q)"
      using st count by (auto simp: valid_state_fields_def)
    show "case pr_failure_reason ?q of None \<Rightarrow> True | Some reason \<Rightarrow> is_reason reason"
      using reasons by (simp add: reason_def)
  qed simp
  obtain row :: request_row where row: "row \<in> set db" "rw_request_id row = rid"
      "rw_state row = state_value (pr_state r)" "rw_payload_hash row = pr_payload_hash r"
    by (rule fetch_Inr[OF r])
  have blocking: "replay_blocking (pr_payload_hash r) row"
    using row ex by (simp add: replay_blocking_def replay_blocking_states_def)
  have ids: "pr_request_id q = rid" "pr_payload_hash q = pr_payload_hash r"
    using frozen_fields(1,2)[OF q(3)] fetched_valid(4)[OF r] by simp_all
  have "rw_request_id x = rid" if "x \<in> set db" "replay_blocking (pr_payload_hash r) x" for x
    using ok that row(1) blocking row(2) unfolding store_ok_def by metis
  then have "store_request db q =
      Inr (map (\<lambda>row. if rw_request_id row = pr_request_id q then row_of q else row) db)"
    by (auto simp: store_request_def list_ex_iff ids)
  then obtain db' where db': "store_request db q = Inr db'" by blast
  show thesis
  proof (rule that)
    show "complete_request lib rid name summary db = (Inr q, db')"
      using r ex q(1) db'
      by (simp add: complete_request_def name immediate_transaction_def require_state_def
          update_and_store_def reason_def[symmetric] sqlite_error_def)
    show "pr_state q = st" by (rule q(2))
    have "fetch lib db (pr_request_id q) = Inr r" using r ids(1) by simp
    from find_store[OF db' this, of rid] show "request_of db' rid = Some q" by (simp add: ids)
  qed
qed

lemma audit_request_db [simp]: "es_db (final (audit_request w q event summary) s) = es_db s"
  by (auto simp: audit_request_def record_row_def query_def ask_def emit_def final_def eseq_def
      split: sum.splits prod.splits)

lemma final_eret: "final (eret x) s = s" "final (Pair r) s = s"
  by (simp_all add: final_def)

lemma completed_state:
  assumes ok: "exec_ok w s" and alone: "ew_others w = (\<lambda>_. [])"
    and r: "fetch (sc_lib (world_store w)) (es_db s) (pr_request_id q) = Inr r" "pr_state r = Executing"
    and name: "map_of complete_outcomes name = Some st"
  shows "map_option pr_state (request_of (es_db (final (completed w q name summary result) s))
    (pr_request_id q)) = Some st"
proof -
  obtain p db' where run: "complete_request (sc_lib (world_store w)) (pr_request_id q) name summary
      (es_db s) = (Inr p, db')" "pr_state p = st" "request_of db' (pr_request_id q) = Some p"
    using complete_total[OF _ r name] ok unfolding exec_ok_def by metis
  let ?call = "store_call w (CompleteRequest (pr_request_id q) name summary)"
  have call: "outcome ?call s = Inr p" "es_db (final ?call s) = db'"
    by (simp_all add: store_call_def outcome_def final_def alone run(1))
  have "es_db (final (completed w q name summary result) s) = db'"
    using call by (simp add: completed_def final_eseq final_eret split: sum.splits)
  then show ?thesis by (simp add: run)
qed

definition sample_repository :: repository_context where
  "sample_repository =
     \<lparr>rc_repository_id = ''repo'', rc_root = (True, []), rc_mercury_dir = (True, []),
      rc_config_path = (True, []), rc_credentials_path = (True, []), rc_catalog_dir = (True, []),
      rc_cache_dir = (True, []), rc_audit_dir = (True, [])\<rparr>"

definition sample_world :: exec_world where
  "sample_world =
     \<lparr>ew_lib = build_sample_lib, ew_safe = (\<lambda>_. True), ew_context = sample_repository,
      ew_roots = [], ew_session_id = ''session_00000000'', ew_allow_private = (\<lambda>_ _. False),
      ew_trusted_hosts = (\<lambda>_ _. []), ew_clock = (\<lambda>_ _. 5), ew_others = (\<lambda>_. []),
      ew_token = (\<lambda>_. replicate 32 (CHR ''0'')), ew_elapsed_ms = (\<lambda>_. 1),
      ew_files = (\<lambda>_. sample_files), ew_require = (\<lambda>_ _. Inr sample_action),
      ew_require_version = (\<lambda>_ _ _. Inr sample_action), ew_driver = (\<lambda>_. Inr),
      ew_base_url = (\<lambda>_ _ _. Inr ''https://api.example.com/v1/''), ew_fields = (\<lambda>_ _ _. Inr ()),
      ew_credentials = (\<lambda>_ _ _. Inr ()),
      ew_revision = (\<lambda>_ _ _. Inr (replicate 32 (CHR 0xAA))),
      ew_snapshot = (\<lambda>_ _ _. Inr (replicate 32 (CHR 0xAA))),
      ew_prepare_auth = (\<lambda>_ _. Inr \<lparr>auth_headers = [], auth_query = []\<rparr>),
      ew_interpret = (\<lambda>_ _ response. Inr \<lparr>cr_status = ''succeeded'',
         cr_http_status = hs_status response, cr_data = JNull, cr_summary = [],
         cr_dispatched = True\<rparr>),
      ew_validate_base_url = (\<lambda>_ _ _. Inr ()),
      ew_send = (\<lambda>_ _ _ _. TransportLost), ew_audit = (\<lambda>_ _. Inr ())\<rparr>"

definition sample_executing :: exec_state where
  "sample_executing =
     \<lparr>es_db = run_ops sample_context
        (sample_ops @ [(\<lambda>_. 5, StartExecution ''req_00000000'')]) [],
      es_log = [], es_tick = 0\<rparr>"

lemma sample_world_store: "world_store sample_world = sample_context"
  by (simp add: world_store_def sample_world_def sample_context_def sample_repository_def
      build_sample_lib_def request_lib.defs)

text \<open>C30: a write is sent at most once. In any sequence of calls of the executor, whatever the
  catalog, the drivers, the network, the audit and the clock answer each time and whatever calls
  other tasks and processes make on the store before every one of its own, no two writes that
  were sent belong to the same request. \<close>
theorem write_sent_at_most_once:
  "distinct (map sent_id (sent_writes (fold (run_call w) calls idle_executor)))"
  using calls_inv by (simp add: exec_inv_def)

text \<open>C31: only approved writes are sent, and as they were approved. Whenever the executor sends a
  write, the store has just moved its request from ready to executing with its one approval, the
  request differs from the approved one in its state and summaries only, the template that was
  built again has the approved payload hash, under the approved credential revision and
  preflights, and the HTTP request is made from that template. \<close>
theorem sent_writes_authorised:
  "list_all (write_authorised w) (es_log (fold (run_call w) calls idle_executor))"
proof -
  have "write_authorised w e" if "\<not> is_write e" for e
    using that by (cases e) (simp_all add: write_authorised_def)
  then show ?thesis
    using calls_inv[of w calls] by (auto simp: exec_inv_def sent_writes_def list_all_iff)
qed

section \<open>Recording what the network said\<close>

text \<open>C32: what the network said is recorded as it is known. Of an executing request whose
  write was just sent, when no other task uses the store meanwhile, the stored state afterwards is
  \<open>failed\<close> only if the request never left or the driver understood a refusal, \<open>succeeded\<close> only if
  the driver understood a success below 500, and \<open>outcome_unknown\<close> for a lost connection, an unverified peer after a
  response, a server error and a response that the driver cannot interpret; whatever the audit does.
  Only an exception of the client outside its own error classes leaves it executing. \<close>
theorem settle_records_outcome:
  assumes "exec_ok w s" and "ew_others w = (\<lambda>_. [])"
    and "fetch (sc_lib (world_store w)) (es_db s) (pr_request_id q) = Inr r" and "pr_state r = Executing"
  shows "map_option pr_state (request_of (es_db (final (settle w q action sent) s)) (pr_request_id q)) =
    Some (settled_state (ew_interpret w (es_tick s) action) sent)"
proof -
  have names: "map_of complete_outcomes ''succeeded'' = Some Succeeded"
    "map_of complete_outcomes ''failed'' = Some RequestFailed"
    "map_of complete_outcomes ''outcome_unknown'' = Some OutcomeUnknown"
    by (simp_all add: complete_outcomes_def)
  note state = completed_state[OF _ assms(2)]
  show ?thesis
  proof (cases sent)
    case (SendRaised e)
    then show ?thesis using request_of_fetch[OF assms(3)] assms(4)
      by (auto simp: settle_def settled_state_def final_def)
  next
    case (Responded response)
    let ?s = "s\<lparr>es_tick := Suc (es_tick s)\<rparr>"
    have ok: "exec_ok w ?s" using assms(1) by (simp add: exec_ok_def)
    have fetched: "fetch (sc_lib (world_store w)) (es_db ?s) (pr_request_id q) = Inr r"
      using assms(3) by simp
    have ask: "final (eattempt (interpret_with w action response) (\<lambda>_. True)) s = ?s"
      "outcome (eattempt (interpret_with w action response) (\<lambda>_. True)) s =
         Inr (ew_interpret w (es_tick s) action response)"
      by (cases "ew_interpret w (es_tick s) action response";
          simp add: eattempt_def ecatch_def interpret_with_def query_def ask_def eseq_def
            final_def outcome_def)+
    show ?thesis
      using state[OF assms(1,3,4) names(3)] state[OF ok fetched assms(4) names(1)]
        state[OF ok fetched assms(4) names(2)] state[OF ok fetched assms(4) names(3)]
      by (auto simp: settle_def settled_state_def Responded final_eseq ask complete_unknown_def
          complete_result_def split: sum.splits)
  qed (use state[OF assms(1,3,4) names(2)] state[OF assms(1,3,4) names(3)] in
      \<open>auto simp: settle_def settled_state_def complete_failed_def complete_unknown_def\<close>)
qed

section \<open>A concrete world\<close>

theorem settle_records_outcome_witness:
  "map_option pr_state (request_of (es_db (final (settle sample_world
      (sample_request sample_inputs) sample_action TransportLost) sample_executing))
    ''req_00000000'') = Some OutcomeUnknown"
proof -
  have ok: "exec_ok sample_world sample_executing"
    by (simp add: exec_ok_def sample_world_store sample_executing_def run_ops_ok)
  have id: "pr_request_id (sample_request sample_inputs) = ''req_00000000''"
    by (simp add: sample_request_def)
  have "case fetch (sc_lib sample_context) (es_db sample_executing) ''req_00000000'' of
      Inl _ \<Rightarrow> False | Inr r \<Rightarrow> pr_state r = Executing" by code_simp
  then obtain r where r: "fetch (sc_lib (world_store sample_world)) (es_db sample_executing)
      (pr_request_id (sample_request sample_inputs)) = Inr r" "pr_state r = Executing"
    by (auto simp: sample_world_store id split: sum.splits)
  have alone: "ew_others sample_world = (\<lambda>_. [])" by (simp add: sample_world_def)
  show ?thesis
    using settle_records_outcome[OF ok alone r, of sample_action TransportLost]
    by (simp add: id settled_state_def)
qed

end
