(* ===== verification/Flow_Network.thy ===== *)
theory Flow_Network
  imports Mercury_Prelude
begin

text \<open>
  The flow network of \<open>reconciliation/matcher.py\<close>: the residual graph that \<open>_add_flow_edge\<close>
  builds and the main loop of \<open>_optimal_one_to_one_match\<close>, which finds cheapest augmenting paths
  with node potentials until the sink is out of reach.

  The graph is the list of adjacency lists of the code. The code keeps references to its edge
  objects; here an edge is named by its address, the node and the position in the node's list,
  which never change. The heap of \<open>heapq\<close>, of which only the least pair is ever taken, is a sorted
  list. Both loops and the walk back along the found path are \<open>partial_function\<close>s: \<open>None\<close> means
  that they never end. The lemmas show that with costs of at least zero they always end, and that
  the flow they leave is maximal and, among the maximal ones, cheapest.
\<close>

section \<open>The residual graph\<close>

record flow_edge =
  fe_to :: nat
  fe_reverse :: nat
  fe_capacity :: int
  fe_cost :: int

type_synonym flow_graph = "flow_edge list list"
type_synonym edge_address = "nat \<times> nat"

definition add_flow_edge ::
    "flow_graph \<Rightarrow> nat \<Rightarrow> nat \<Rightarrow> int \<Rightarrow> int \<Rightarrow> flow_graph \<times> edge_address" where
  "add_flow_edge graph source destination capacity cost =
     (let forward = \<lparr>fe_to = destination, fe_reverse = length (graph ! destination),
                     fe_capacity = capacity, fe_cost = cost\<rparr>;
          reverse = \<lparr>fe_to = source, fe_reverse = length (graph ! source),
                     fe_capacity = 0, fe_cost = - cost\<rparr>;
          address = (source, length (graph ! source));
          graph = graph[source := graph ! source @ [forward]];
          graph = graph[destination := graph ! destination @ [reverse]]
      in (graph, address))"

definition edge_at :: "flow_graph \<Rightarrow> edge_address \<Rightarrow> flow_edge" where
  "edge_at graph a = graph ! fst a ! snd a"

text \<open>\<open>graph[node][index].capacity += amount\<close>\<close>

definition add_capacity :: "flow_graph \<Rightarrow> nat \<Rightarrow> nat \<Rightarrow> int \<Rightarrow> flow_graph" where
  "add_capacity graph node index amount =
     graph[node := (graph ! node)[index :=
       (graph ! node ! index)\<lparr>fe_capacity := fe_capacity (graph ! node ! index) + amount\<rparr>]]"

section \<open>The search\<close>

record search =
  sr_distances :: "int option list"
  sr_previous :: "edge_address option list"
  sr_queue :: "(int \<times> nat) list"

definition start_search :: "flow_graph \<Rightarrow> nat \<Rightarrow> search" where
  "start_search graph source =
     \<lparr>sr_distances = (replicate (length graph) None)[source := Some 0],
      sr_previous = replicate (length graph) None, sr_queue = [(0, source)]\<rparr>"

text \<open>One turn of the inner loop over \<open>graph[node]\<close>.\<close>

definition scan_edge :: "int list \<Rightarrow> int \<Rightarrow> nat \<Rightarrow> nat \<Rightarrow> flow_edge \<Rightarrow> search \<Rightarrow> search" where
  "scan_edge potentials distance node edge_index edge s =
     (if fe_capacity edge = 0 then s
      else
        let next_distance = distance + fe_cost edge + potentials ! node - potentials ! fe_to edge
        in if (case sr_distances s ! fe_to edge of None \<Rightarrow> False | Some d \<Rightarrow> d \<le> next_distance)
           then s
           else s\<lparr>sr_distances := (sr_distances s)[fe_to edge := Some next_distance],
                  sr_previous := (sr_previous s)[fe_to edge := Some (node, edge_index)],
                  sr_queue := insort (next_distance, fe_to edge) (sr_queue s)\<rparr>)"

fun scan_edges :: "int list \<Rightarrow> int \<Rightarrow> nat \<Rightarrow> nat \<Rightarrow> flow_edge list \<Rightarrow> search \<Rightarrow> search" where
  "scan_edges potentials distance node edge_index [] s = s"
| "scan_edges potentials distance node edge_index (edge # edges) s =
     scan_edges potentials distance node (Suc edge_index) edges
       (scan_edge potentials distance node edge_index edge s)"

partial_function (option) search_loop :: "flow_graph \<Rightarrow> int list \<Rightarrow> search \<Rightarrow> search option" where
  "search_loop graph potentials s =
     (case sr_queue s of
        [] \<Rightarrow> Some s
      | (distance, node) # queue \<Rightarrow>
          (let s = s\<lparr>sr_queue := queue\<rparr>
           in if sr_distances s ! node \<noteq> Some distance then search_loop graph potentials s
              else search_loop graph potentials
                     (scan_edges potentials distance node 0 (graph ! node) s)))"

declare search_loop.simps [code]

section \<open>The augmentation\<close>

text \<open>The walk from the sink back to the source.\<close>

partial_function (option) augment ::
    "nat \<Rightarrow> edge_address option list \<Rightarrow> flow_graph \<Rightarrow> nat \<Rightarrow> flow_graph result option" where
  "augment source previous graph node =
     (if node = source then Some (Inr graph)
      else case previous ! node of
          None \<Rightarrow> Some (Inl (UnexpectedError ''reconciliation_assignment_path_invalid''))
        | Some (previous_node, edge_index) \<Rightarrow>
            (let reverse = fe_reverse (graph ! previous_node ! edge_index);
                 graph = add_capacity graph previous_node edge_index (- 1);
                 graph = add_capacity graph node reverse 1
             in augment source previous graph previous_node))"

declare augment.simps [code]

definition raise_potentials :: "int option list \<Rightarrow> int list \<Rightarrow> int list" where
  "raise_potentials distances potentials =
     map2 (\<lambda>d p. case d of None \<Rightarrow> p | Some d \<Rightarrow> p + d) distances potentials"

partial_function (option) flow_loop ::
    "nat \<Rightarrow> nat \<Rightarrow> int list \<Rightarrow> flow_graph \<Rightarrow> flow_graph result option" where
  "flow_loop source sink potentials graph =
     Option.bind (search_loop graph potentials (start_search graph source)) (\<lambda>s.
     if sr_distances s ! sink = None then Some (Inr graph)
     else Option.bind (augment source (sr_previous s) graph sink) (\<lambda>r.
       case r of
         Inl e \<Rightarrow> Some (Inl e)
       | Inr graph \<Rightarrow>
           flow_loop source sink (raise_potentials (sr_distances s) potentials) graph))"

declare flow_loop.simps [code]

section \<open>Correctness of the search\<close>

definition targets_ok :: "flow_graph \<Rightarrow> bool" where
  "targets_ok g \<longleftrightarrow> (\<forall>u<length g. \<forall>i<length (g ! u). fe_to (g ! u ! i) < length g)"

text \<open>An edge of the residual graph with capacity left.\<close>

definition live :: "flow_graph \<Rightarrow> nat \<Rightarrow> nat \<Rightarrow> bool" where
  "live g u i \<longleftrightarrow> u < length g \<and> i < length (g ! u) \<and> fe_capacity (g ! u ! i) \<noteq> 0"

definition reduced :: "flow_graph \<Rightarrow> (nat \<Rightarrow> int) \<Rightarrow> nat \<Rightarrow> nat \<Rightarrow> int" where
  "reduced g p u i = fe_cost (g ! u ! i) + p u - p (fe_to (g ! u ! i))"

text \<open>
  A set of nodes with the source that no live edge leaves and within which the reduced costs are
  not negative.
\<close>

definition search_region :: "flow_graph \<Rightarrow> (nat \<Rightarrow> int) \<Rightarrow> nat \<Rightarrow> nat set \<Rightarrow> bool" where
  "search_region g p source R \<longleftrightarrow> targets_ok g \<and> source \<in> R \<and> R \<subseteq> {..<length g} \<and>
     (\<forall>u\<in>R. \<forall>i. live g u i \<longrightarrow> fe_to (g ! u ! i) \<in> R \<and> 0 \<le> reduced g p u i)"

text \<open>The links of \<open>previous\<close>, from a node to those reached from it.\<close>

definition links :: "search \<Rightarrow> (nat \<times> nat) set" where
  "links s = {(u, v). v < length (sr_previous s) \<and> (\<exists>i. sr_previous s ! v = Some (u, i))}"

definition link_ok :: "flow_graph \<Rightarrow> (nat \<Rightarrow> int) \<Rightarrow> int option list \<Rightarrow> nat \<Rightarrow> nat \<times> nat \<Rightarrow> bool" where
  "link_ok g p D v = (\<lambda>(u, i). live g u i \<and> fe_to (g ! u ! i) = v \<and>
     (\<exists>du dv. D ! u = Some du \<and> D ! v = Some dv \<and> du + reduced g p u i \<le> dv))"

definition search_ok :: "flow_graph \<Rightarrow> (nat \<Rightarrow> int) \<Rightarrow> nat \<Rightarrow> nat set \<Rightarrow> search \<Rightarrow> bool" where
  "search_ok g p source R s \<longleftrightarrow>
     length (sr_distances s) = length g \<and> length (sr_previous s) = length g \<and>
     sr_distances s ! source = Some 0 \<and> sr_previous s ! source = None \<and>
     (\<forall>v<length g. \<forall>d. sr_distances s ! v = Some d \<longrightarrow> 0 \<le> d \<and> v \<in> R) \<and>
     (\<forall>v<length g. v \<noteq> source \<longrightarrow> sr_distances s ! v \<noteq> None \<longrightarrow> sr_previous s ! v \<noteq> None) \<and>
     (\<forall>v<length g. \<forall>a. sr_previous s ! v = Some a \<longrightarrow> link_ok g p (sr_distances s) v a) \<and>
     (\<forall>x\<in>set (sr_queue s). snd x < length g) \<and> acyclic (links s)"

definition settled :: "flow_graph \<Rightarrow> (nat \<Rightarrow> int) \<Rightarrow> int option list \<Rightarrow> nat \<Rightarrow> nat \<Rightarrow> bool" where
  "settled g p D u k \<longleftrightarrow> (\<forall>i<k. live g u i \<longrightarrow>
     (\<exists>d d'. D ! u = Some d \<and> D ! fe_to (g ! u ! i) = Some d' \<and> d' \<le> d + reduced g p u i))"

text \<open>Every reached node is settled or waits in the heap, except the one being scanned.\<close>

definition frontier_ok :: "flow_graph \<Rightarrow> (nat \<Rightarrow> int) \<Rightarrow> search \<Rightarrow> nat set \<Rightarrow> bool" where
  "frontier_ok g p s X \<longleftrightarrow> (\<forall>u<length g. \<forall>d. u \<notin> X \<longrightarrow> sr_distances s ! u = Some d \<longrightarrow>
     (d, u) \<in> set (sr_queue s) \<or> settled g p (sr_distances s) u (length (g ! u)))"

lemma search_ok_link:
  "search_ok g p source R s \<Longrightarrow> v < length g \<Longrightarrow> sr_previous s ! v = Some a \<Longrightarrow>
     link_ok g p (sr_distances s) v a"
  unfolding search_ok_def by blast

lemma links_decrease:
  assumes "search_region g p source R" and ok: "search_ok g p source R s"
    and "(v, u) \<in> (links s)\<^sup>*" and "sr_distances s ! u = Some du"
  shows "\<exists>dv. sr_distances s ! v = Some dv \<and> dv \<le> du"
  using assms(3,4)
proof (induction arbitrary: rule: converse_rtrancl_induct)
  case (step y z)
  from step.IH step.prems obtain dz where dz: "sr_distances s ! z = Some dz" "dz \<le> du" by blast
  from step.hyps(1) ok obtain i where "z < length g" "sr_previous s ! z = Some (y, i)"
    by (auto simp: links_def search_ok_def)
  with ok have "link_ok g p (sr_distances s) z (y, i)" by (auto simp: search_ok_def)
  then obtain dy where dy: "live g y i" "sr_distances s ! y = Some dy" "dy + reduced g p y i \<le> dz"
    using dz by (auto simp: link_ok_def)
  then have "y \<in> R" using ok by (auto simp: search_ok_def live_def)
  then have "0 \<le> reduced g p y i" using assms(1) dy(1) by (auto simp: search_region_def)
  then show ?case using dy dz by auto
qed auto

lemma settled_mono:
  assumes "settled g p D u k" and "D' ! u = D ! u"
    and "\<And>v d. D ! v = Some d \<Longrightarrow> \<exists>d'. D' ! v = Some d' \<and> d' \<le> d"
  shows "settled g p D' u k"
  unfolding settled_def
proof (intro allI impI)
  fix i assume "i < k" "live g u i"
  with assms(1) obtain d dv where d: "D ! u = Some d" "D ! fe_to (g ! u ! i) = Some dv"
    "dv \<le> d + reduced g p u i" unfolding settled_def by blast
  with assms(3) obtain dv' where "D' ! fe_to (g ! u ! i) = Some dv'" "dv' \<le> dv" by blast
  with d assms(2) show "\<exists>d d'. D' ! u = Some d \<and> D' ! fe_to (g ! u ! i) = Some d' \<and>
      d' \<le> d + reduced g p u i" by auto
qed

lemma scan_edge_ok:
  fixes pot :: "int list"
  assumes region: "search_region g (\<lambda>v. pot ! v) source R" and ok: "search_ok g (\<lambda>v. pot ! v) source R s"
    and frontier: "frontier_ok g (\<lambda>v. pot ! v) s {u}" and d: "sr_distances s ! u = Some d"
    and i: "u < length g" "i < length (g ! u)"
    and settled: "settled g (\<lambda>v. pot ! v) (sr_distances s) u i"
    and s': "s' = scan_edge pot d u i (g ! u ! i) s"
  shows "search_ok g (\<lambda>v. pot ! v) source R s' \<and> frontier_ok g (\<lambda>v. pot ! v) s' {u} \<and>
     sr_distances s' ! u = Some d \<and> settled g (\<lambda>v. pot ! v) (sr_distances s') u (Suc i)"
proof -
  let ?p = "\<lambda>v. pot ! v"
  let ?e = "g ! u ! i"
  let ?v = "fe_to ?e"
  let ?D = "sr_distances s"
  let ?next = "d + reduced g ?p u i"
  have len: "length ?D = length g" "length (sr_previous s) = length g"
    using ok by (auto simp: search_ok_def)
  have uR: "u \<in> R" "0 \<le> d" using ok d i by (auto simp: search_ok_def)
  have v: "?v < length g" using region i by (auto simp: search_region_def targets_ok_def)
  have next_eq: "d + fe_cost ?e + pot ! u - pot ! ?v = ?next" by (simp add: reduced_def)
  show ?thesis
  proof (cases "fe_capacity ?e = 0")
    case True
    then have "s' = s" by (simp add: s' scan_edge_def)
    moreover have "\<not> live g u i" using True by (simp add: live_def)
    ultimately show ?thesis using ok frontier d settled by (auto simp: settled_def less_Suc_eq)
  next
    case False
    then have live: "live g u i" using i by (simp add: live_def)
    then have vR: "?v \<in> R" "0 \<le> reduced g ?p u i" using region uR by (auto simp: search_region_def)
    show ?thesis
    proof (cases "\<exists>dv. ?D ! ?v = Some dv \<and> dv \<le> ?next")
      case True
      then have "s' = s" by (auto simp: s' scan_edge_def Let_def next_eq)
      then show ?thesis using ok frontier d settled True by (auto simp: settled_def less_Suc_eq)
    next
      case improved: False
      let ?D' = "?D[?v := Some ?next]"
      let ?P' = "(sr_previous s)[?v := Some (u, i)]"
      have s'_eq: "s' = s\<lparr>sr_distances := ?D', sr_previous := ?P',
          sr_queue := insort (?next, ?v) (sr_queue s)\<rparr>"
        using improved False unfolding s' scan_edge_def Let_def next_eq
        by (auto split: option.splits)
      have uv: "?v \<noteq> u" using improved d vR by auto
      have src: "?v \<noteq> source" using improved ok uR vR by (auto simp: search_ok_def)
      have lower: "\<exists>d'. ?D' ! w = Some d' \<and> d' \<le> dw" if "?D ! w = Some dw" for w dw
        using that improved v len by (cases "w = ?v") (auto simp: not_le)
      have no_cycle: "(?v, u) \<notin> (links s)\<^sup>*"
        using links_decrease[OF region ok _ d, of ?v] improved vR by force
      have "links s' \<subseteq> insert (u, ?v) (links s)"
        using v len by (auto simp: links_def s'_eq nth_list_update split: if_splits)
      moreover have "acyclic (insert (u, ?v) (links s))"
        using ok no_cycle by (simp add: search_ok_def)
      ultimately have acyclic: "acyclic (links s')" by (rule acyclic_subset[rotated])
      have link: "link_ok g ?p ?D' w a" if w: "w < length g" and a: "?P' ! w = Some a" for w a
      proof (cases "w = ?v")
        case True
        then have "a = (u, i)" using a v len by simp
        then show ?thesis using True live uv d v len by (simp add: link_ok_def)
      next
        case other: False
        then have old: "link_ok g ?p ?D w a" using search_ok_link[OF ok w] a by simp
        obtain x j where a_eq: "a = (x, j)" by (cases a)
        from old obtain dx dw where x: "live g x j" "fe_to (g ! x ! j) = w" "?D ! x = Some dx"
          "?D ! w = Some dw" "dx + reduced g ?p x j \<le> dw" by (auto simp: a_eq link_ok_def)
        from lower[OF x(3)] obtain dx' where "?D' ! x = Some dx'" "dx' \<le> dx" by blast
        then show ?thesis using x other by (auto simp: a_eq link_ok_def)
      qed
      have sok: "search_ok g ?p source R s'"
        using ok src v len vR uR link acyclic
        by (auto simp: search_ok_def s'_eq nth_list_update set_insort_key)
      have front: "frontier_ok g ?p s' {u}"
        unfolding frontier_ok_def
      proof (intro allI impI)
        fix w dw assume w: "w < length g" "w \<notin> {u}" "sr_distances s' ! w = Some dw"
        show "(dw, w) \<in> set (sr_queue s') \<or> settled g ?p (sr_distances s') w (length (g ! w))"
        proof (cases "w = ?v")
          case True
          then show ?thesis using w(3) v len by (simp add: s'_eq set_insort_key)
        next
          case other: False
          then have "?D ! w = Some dw" using w(3) by (simp add: s'_eq)
          with frontier w have "(dw, w) \<in> set (sr_queue s) \<or> settled g ?p ?D w (length (g ! w))"
            by (auto simp: frontier_ok_def)
          then show ?thesis using settled_mono[of g ?p ?D w _ ?D'] other lower
            by (auto simp: s'_eq set_insort_key)
        qed
      qed
      have "settled g ?p ?D' u i" using settled_mono[OF settled, of ?D'] uv lower by simp
      then have "settled g ?p ?D' u (Suc i)" using uv d v len by (auto simp: settled_def less_Suc_eq)
      then show ?thesis using sok front uv d by (simp add: s'_eq)
    qed
  qed
qed

text \<open>
  Termination: every change discovers a node or makes its distance, which stays at least zero,
  smaller.
\<close>

definition undiscovered :: "search \<Rightarrow> nat" where
  "undiscovered s = sum_list (map (\<lambda>x. if x = None then 1 else 0) (sr_distances s))"

definition total_distance :: "search \<Rightarrow> nat" where
  "total_distance s = sum_list (map (\<lambda>x. case x of None \<Rightarrow> 0 | Some d \<Rightarrow> nat d) (sr_distances s))"

definition improves :: "search \<Rightarrow> search \<Rightarrow> bool" where
  "improves s' s \<longleftrightarrow> s' = s \<or> undiscovered s' < undiscovered s \<or>
     undiscovered s' = undiscovered s \<and> total_distance s' < total_distance s"

lemma improves_trans: "improves s'' s' \<Longrightarrow> improves s' s \<Longrightarrow> improves s'' s"
  unfolding improves_def by auto

lemma scan_edge_improves:
  fixes pot :: "int list"
  assumes region: "search_region g (\<lambda>v. pot ! v) source R" and ok: "search_ok g (\<lambda>v. pot ! v) source R s"
    and d: "sr_distances s ! u = Some d" and i: "u < length g" "i < length (g ! u)"
  shows "improves (scan_edge pot d u i (g ! u ! i) s) s"
proof (cases "fe_capacity (g ! u ! i) = 0")
  case False
  let ?v = "fe_to (g ! u ! i)"
  let ?D = "sr_distances s"
  let ?next = "d + reduced g (\<lambda>v. pot ! v) u i"
  have "u \<in> R" "0 \<le> d" using ok d i by (auto simp: search_ok_def)
  moreover have "live g u i" using False i by (simp add: live_def)
  ultimately have next_ge: "0 \<le> ?next" using region by (auto simp: search_region_def)
  have v: "?v < length ?D" using region i ok by (auto simp: search_region_def targets_ok_def search_ok_def)
  have next_eq: "d + fe_cost (g ! u ! i) + pot ! u - pot ! ?v = ?next" by (simp add: reduced_def)
  show ?thesis
  proof (cases "?D ! ?v")
    case None
    have "(1::nat) \<le> undiscovered s"
      using elem_le_sum_list[of ?v "map (\<lambda>x. if x = None then 1 else 0 :: nat) ?D"] v None
      by (simp add: undiscovered_def)
    then show ?thesis using v None False
      by (simp add: scan_edge_def Let_def improves_def undiscovered_def map_update sum_list_update)
  next
    case (Some dv)
    show ?thesis
    proof (cases "dv \<le> ?next")
      case True
      then show ?thesis using Some by (simp add: scan_edge_def improves_def Let_def next_eq)
    next
      case less: False
      then have "nat dv \<le> total_distance s" "nat ?next < nat dv"
        using elem_le_sum_list[of ?v "map (\<lambda>x. case x of None \<Rightarrow> 0 | Some d \<Rightarrow> nat d) ?D"] v Some next_ge
        by (simp_all add: total_distance_def)
      moreover have "undiscovered (scan_edge pot d u i (g ! u ! i) s) = undiscovered s"
        "total_distance (scan_edge pot d u i (g ! u ! i) s) = total_distance s + nat ?next - nat dv"
        using v Some False less
        by (simp_all add: scan_edge_def Let_def next_eq undiscovered_def total_distance_def
            map_update sum_list_update)
      ultimately show ?thesis unfolding improves_def by linarith
    qed
  qed
qed (simp add: scan_edge_def improves_def)

lemma scan_edges_ok:
  fixes pot :: "int list"
  assumes region: "search_region g (\<lambda>v. pot ! v) source R"
  shows "search_ok g (\<lambda>v. pot ! v) source R s \<Longrightarrow> frontier_ok g (\<lambda>v. pot ! v) s {u} \<Longrightarrow>
    sr_distances s ! u = Some d \<Longrightarrow> u < length g \<Longrightarrow> es = drop i (g ! u) \<Longrightarrow>
    settled g (\<lambda>v. pot ! v) (sr_distances s) u i \<Longrightarrow>
    search_ok g (\<lambda>v. pot ! v) source R (scan_edges pot d u i es s) \<and>
    frontier_ok g (\<lambda>v. pot ! v) (scan_edges pot d u i es s) {} \<and>
    improves (scan_edges pot d u i es s) s"
proof (induction es arbitrary: i s)
  case Nil
  then have "settled g (\<lambda>v. pot ! v) (sr_distances s) u (length (g ! u))"
    by (auto simp: settled_def live_def)
  then show ?case using Nil by (auto simp: frontier_ok_def improves_def)
next
  case (Cons e es)
  have i: "i < length (g ! u)" using Cons.prems(5) by (metis drop_eq_Nil leI list.distinct(1))
  have e: "g ! u ! i = e" "es = drop (Suc i) (g ! u)"
    using Cons.prems(5) Cons_nth_drop_Suc[OF i] by (metis list.inject)+
  let ?s = "scan_edge pot d u i e s"
  have "search_ok g (\<lambda>v. pot ! v) source R ?s \<and> frontier_ok g (\<lambda>v. pot ! v) ?s {u} \<and>
     sr_distances ?s ! u = Some d \<and> settled g (\<lambda>v. pot ! v) (sr_distances ?s) u (Suc i)"
    by (rule scan_edge_ok[OF region Cons.prems(1,2,3,4) i Cons.prems(6)]) (simp add: e)
  moreover have "improves ?s s"
    using scan_edge_improves[OF region Cons.prems(1,3,4) i] e by simp
  ultimately show ?case
    using Cons.IH[of ?s "Suc i"] Cons.prems(4) e(2) improves_trans[of _ ?s s] by simp
qed

definition search_measure :: "(search \<times> search) set" where
  "search_measure = inv_image (less_than <*lex*> less_than <*lex*> less_than)
     (\<lambda>s. (undiscovered s, total_distance s, length (sr_queue s)))"

lemma wf_search_measure: "wf search_measure"
  unfolding search_measure_def by (intro wf_inv_image wf_lex_prod wf_less_than)

lemma search_loop_ok:
  fixes pot :: "int list"
  assumes region: "search_region g (\<lambda>v. pot ! v) source R"
  shows "search_ok g (\<lambda>v. pot ! v) source R s \<Longrightarrow> frontier_ok g (\<lambda>v. pot ! v) s {} \<Longrightarrow>
    \<exists>t. search_loop g pot s = Some t \<and> search_ok g (\<lambda>v. pot ! v) source R t \<and>
      frontier_ok g (\<lambda>v. pot ! v) t {} \<and> sr_queue t = []"
  using wf_search_measure
proof (induction s rule: wf_induct_rule)
  case (less s)
  show ?case
  proof (cases "sr_queue s")
    case Nil
    then show ?thesis using less.prems by (subst search_loop.simps) simp
  next
    case (Cons entry queue)
    obtain d u where entry: "entry = (d, u)" by (cases entry)
    let ?s = "s\<lparr>sr_queue := queue\<rparr>"
    have u: "u < length g" using less.prems(1) Cons entry by (simp add: search_ok_def)
    have ok: "search_ok g (\<lambda>v. pot ! v) source R ?s"
      using less.prems(1) Cons by (auto simp: search_ok_def links_def)
    have popped: "(?s, s) \<in> search_measure"
      by (simp add: search_measure_def undiscovered_def total_distance_def Cons)
    show ?thesis
    proof (cases "sr_distances s ! u = Some d")
      case False
      then have "frontier_ok g (\<lambda>v. pot ! v) ?s {}"
        using less.prems(2) Cons entry by (auto simp: frontier_ok_def)
      from less.IH[OF popped ok this]
      show ?thesis using False Cons entry by (subst search_loop.simps) simp
    next
      case True
      let ?t = "scan_edges pot d u 0 (g ! u) ?s"
      have "frontier_ok g (\<lambda>v. pot ! v) ?s {u}"
        using less.prems(2) Cons entry True by (auto simp: frontier_ok_def)
      moreover have "settled g (\<lambda>v. pot ! v) (sr_distances ?s) u 0" by (simp add: settled_def)
      ultimately have t: "search_ok g (\<lambda>v. pot ! v) source R ?t"
        "frontier_ok g (\<lambda>v. pot ! v) ?t {}" "improves ?t ?s"
        using scan_edges_ok[OF region ok, of u d "g ! u" 0] True u by simp_all
      have "(?t, s) \<in> search_measure"
        using t(3) popped by (auto simp: improves_def search_measure_def undiscovered_def total_distance_def)
      then show ?thesis
        using less.IH[of ?t] t True Cons entry by (subst search_loop.simps) simp
    qed
  qed
qed

section \<open>The tree of shortest paths\<close>

definition arcs_of :: "flow_graph \<Rightarrow> (nat \<times> nat) set" where
  "arcs_of g = {(u, v). \<exists>i. live g u i \<and> fe_to (g ! u ! i) = v}"

definition reachable :: "flow_graph \<Rightarrow> nat \<Rightarrow> nat set" where
  "reachable g source = {v. (source, v) \<in> (arcs_of g)\<^sup>*}"

definition closed_under :: "flow_graph \<Rightarrow> nat set \<Rightarrow> bool" where
  "closed_under g R \<longleftrightarrow> (\<forall>u\<in>R. \<forall>i. live g u i \<longrightarrow> fe_to (g ! u ! i) \<in> R)"

lemma reachable_source [simp]: "source \<in> reachable g source"
  by (simp add: reachable_def)

lemma closed_reachable: "closed_under g (reachable g source)"
  unfolding closed_under_def reachable_def arcs_of_def by (auto intro: rtrancl_into_rtrancl)

lemma reachable_subset:
  assumes "closed_under g R" and "source \<in> R"
  shows "reachable g source \<subseteq> R"
proof
  fix v assume "v \<in> reachable g source"
  then have "(source, v) \<in> (arcs_of g)\<^sup>*" by (simp add: reachable_def)
  then show "v \<in> R"
    by (induction rule: rtrancl_induct) (use assms in \<open>auto simp: closed_under_def arcs_of_def\<close>)
qed

lemma reachable_bounded: "targets_ok g \<Longrightarrow> source < length g \<Longrightarrow> reachable g source \<subseteq> {..<length g}"
  by (rule reachable_subset) (auto simp: closed_under_def live_def targets_ok_def)

definition shortest_tree :: "flow_graph \<Rightarrow> (nat \<Rightarrow> int) \<Rightarrow> nat \<Rightarrow> search \<Rightarrow> bool" where
  "shortest_tree g p source s \<longleftrightarrow>
     length (sr_distances s) = length g \<and> length (sr_previous s) = length g \<and> acyclic (links s) \<and>
     (\<forall>v<length g. sr_distances s ! v \<noteq> None \<longleftrightarrow> v \<in> reachable g source) \<and>
     (\<forall>v\<in>reachable g source. 0 \<le> the (sr_distances s ! v)) \<and>
     (\<forall>u\<in>reachable g source. \<forall>i. live g u i \<longrightarrow>
        the (sr_distances s ! fe_to (g ! u ! i)) \<le> the (sr_distances s ! u) + reduced g p u i) \<and>
     (\<forall>v\<in>reachable g source. v \<noteq> source \<longrightarrow>
        (\<exists>u i. sr_previous s ! v = Some (u, i) \<and> u \<in> reachable g source \<and> live g u i \<and>
           fe_to (g ! u ! i) = v \<and> the (sr_distances s ! v) = the (sr_distances s ! u) + reduced g p u i))"

lemma start_search_ok:
  assumes "source < length g" and "source \<in> R"
  shows "search_ok g p source R (start_search g source)"
    and "frontier_ok g p (start_search g source) {}"
proof -
  have "links (start_search g source) = {}" by (auto simp: links_def start_search_def)
  then show "search_ok g p source R (start_search g source)"
    using assms by (auto simp: search_ok_def start_search_def nth_list_update acyclic_def split: if_splits)
  show "frontier_ok g p (start_search g source) {}"
    using assms by (auto simp: frontier_ok_def start_search_def nth_list_update split: if_splits)
qed

lemma search_finds_shortest_tree:
  fixes pot :: "int list"
  assumes targets: "targets_ok g" and source: "source < length g"
    and nonneg: "\<And>u i. u \<in> reachable g source \<Longrightarrow> live g u i \<Longrightarrow> 0 \<le> reduced g (\<lambda>v. pot ! v) u i"
  shows "\<exists>t. search_loop g pot (start_search g source) = Some t \<and>
    shortest_tree g (\<lambda>v. pot ! v) source t"
proof -
  let ?R = "reachable g source" and ?p = "\<lambda>v. pot ! v"
  have bound: "?R \<subseteq> {..<length g}" by (rule reachable_bounded[OF targets source])
  have region: "search_region g ?p source ?R"
    using targets bound nonneg closed_reachable[of g source]
    by (auto simp: search_region_def closed_under_def)
  from search_loop_ok[OF region start_search_ok(1) start_search_ok(2)] source
  obtain t where t: "search_loop g pot (start_search g source) = Some t"
    and ok: "search_ok g ?p source ?R t" and front: "frontier_ok g ?p t {}" and empty: "sr_queue t = []"
    by auto
  let ?D = "sr_distances t"
  have settled: "settled g ?p ?D u (length (g ! u))" if "u < length g" "?D ! u \<noteq> None" for u
    using front empty that by (auto simp: frontier_ok_def)
  have relaxed: "\<exists>d d'. ?D ! u = Some d \<and> ?D ! fe_to (g ! u ! i) = Some d' \<and> d' \<le> d + reduced g ?p u i"
    if "live g u i" "?D ! u \<noteq> None" for u i
    using settled[of u] that by (auto simp: settled_def live_def)
  have "?R \<subseteq> {v. v < length g \<and> ?D ! v \<noteq> None}"
  proof (rule reachable_subset)
    show "closed_under g {v. v < length g \<and> ?D ! v \<noteq> None}"
      unfolding closed_under_def
    proof (intro ballI allI impI)
      fix u i assume u: "u \<in> {v. v < length g \<and> ?D ! v \<noteq> None}" and live: "live g u i"
      then have "?D ! fe_to (g ! u ! i) \<noteq> None" using relaxed[OF live] by auto
      moreover have "fe_to (g ! u ! i) < length g" using targets live by (auto simp: targets_ok_def live_def)
      ultimately show "fe_to (g ! u ! i) \<in> {v. v < length g \<and> ?D ! v \<noteq> None}" by simp
    qed
  qed (use ok source in \<open>simp add: search_ok_def\<close>)
  then have discovered: "?D ! v \<noteq> None \<longleftrightarrow> v \<in> ?R" if "v < length g" for v
    using ok that by (auto simp: search_ok_def)
  have tight: "\<exists>u i. sr_previous t ! v = Some (u, i) \<and> u \<in> ?R \<and> live g u i \<and>
      fe_to (g ! u ! i) = v \<and> the (?D ! v) = the (?D ! u) + reduced g ?p u i"
    if v: "v \<in> ?R" "v \<noteq> source" for v
  proof -
    have vl: "v < length g" using v bound by auto
    then have "sr_previous t ! v \<noteq> None" using ok v discovered by (auto simp: search_ok_def)
    then obtain u i where ui: "sr_previous t ! v = Some (u, i)" by auto
    with search_ok_link[OF ok vl] obtain du dv where l: "live g u i" "fe_to (g ! u ! i) = v"
      "?D ! u = Some du" "?D ! v = Some dv" "du + reduced g ?p u i \<le> dv"
      by (auto simp: link_ok_def)
    moreover have "dv \<le> du + reduced g ?p u i" using relaxed[OF l(1)] l by auto
    moreover have "u \<in> ?R" using discovered[of u] l by (auto simp: live_def)
    ultimately show ?thesis using ui by auto
  qed
  have "shortest_tree g ?p source t"
    unfolding shortest_tree_def
  proof (intro conjI ballI allI impI)
    fix u i assume u: "u \<in> ?R" "live g u i"
    then have "?D ! u \<noteq> None" using discovered[of u] bound by auto
    from relaxed[OF u(2) this]
    show "the (?D ! fe_to (g ! u ! i)) \<le> the (?D ! u) + reduced g ?p u i" by auto
  next
    fix v assume "v \<in> ?R"
    then show "0 \<le> the (?D ! v)" using ok discovered[of v] bound by (auto simp: search_ok_def)
  qed (use ok discovered tight in \<open>auto simp: search_ok_def\<close>)
  with t show ?thesis by blast
qed

section \<open>Pushing flow along an edge\<close>

text \<open>Every edge has its reverse, with the opposite cost, and one of the two has the capacity.\<close>

definition edge_paired :: "flow_graph \<Rightarrow> nat \<Rightarrow> nat \<Rightarrow> bool" where
  "edge_paired g u i \<longleftrightarrow>
     (let e = g ! u ! i; r = g ! fe_to e ! fe_reverse e
      in fe_to e < length g \<and> fe_reverse e < length (g ! fe_to e) \<and>
         fe_to r = u \<and> fe_reverse r = i \<and> fe_cost r = - fe_cost e \<and>
         fe_capacity r = 1 - fe_capacity e \<and> (fe_capacity e = 0 \<or> fe_capacity e = 1))"

definition paired :: "flow_graph \<Rightarrow> bool" where
  "paired g \<longleftrightarrow> (\<forall>u<length g. \<forall>i<length (g ! u). edge_paired g u i)"

text \<open>The graphs differ in the capacities only.\<close>

definition without_capacity :: "flow_edge \<Rightarrow> nat \<times> nat \<times> int" where
  "without_capacity e = (fe_to e, fe_reverse e, fe_cost e)"

definition same_shape :: "flow_graph \<Rightarrow> flow_graph \<Rightarrow> bool" where
  "same_shape g h \<longleftrightarrow> map (map without_capacity) h = map (map without_capacity) g"

definition node_capacity :: "flow_graph \<Rightarrow> nat \<Rightarrow> int" where
  "node_capacity g v = sum_list (map fe_capacity (g ! v))"

definition feasible :: "flow_graph \<Rightarrow> (nat \<Rightarrow> int) \<Rightarrow> bool" where
  "feasible g p \<longleftrightarrow> (\<forall>u i. live g u i \<longrightarrow> 0 \<le> reduced g p u i)"

lemma same_shape_refl: "same_shape g g"
  by (simp add: same_shape_def)

lemma same_shape_trans: "same_shape g h \<Longrightarrow> same_shape h k \<Longrightarrow> same_shape g k"
  by (simp add: same_shape_def)

lemma same_shape_length: "same_shape g h \<Longrightarrow> length h = length g"
  unfolding same_shape_def by (rule map_eq_imp_length_eq)

lemma same_shape_row:
  assumes "same_shape g h" and "u < length g"
  shows "map without_capacity (h ! u) = map without_capacity (g ! u)"
  using assms same_shape_length[OF assms(1)] unfolding same_shape_def by (metis nth_map)

lemma same_shape_edge:
  assumes "same_shape g h" and "u < length g" and "i < length (g ! u)"
  shows "length (h ! u) = length (g ! u)" and "fe_to (h ! u ! i) = fe_to (g ! u ! i)"
    and "fe_reverse (h ! u ! i) = fe_reverse (g ! u ! i)" and "fe_cost (h ! u ! i) = fe_cost (g ! u ! i)"
proof -
  note row = same_shape_row[OF assms(1,2)]
  show l: "length (h ! u) = length (g ! u)" using row by (rule map_eq_imp_length_eq)
  then have "without_capacity (h ! u ! i) = without_capacity (g ! u ! i)"
    using row assms(3) by (metis nth_map)
  then show "fe_to (h ! u ! i) = fe_to (g ! u ! i)" "fe_reverse (h ! u ! i) = fe_reverse (g ! u ! i)"
    "fe_cost (h ! u ! i) = fe_cost (g ! u ! i)" by (simp_all add: without_capacity_def)
qed

lemma same_shape_reduced: "same_shape g h \<Longrightarrow> live h u i \<Longrightarrow> reduced h p u i = reduced g p u i"
  using same_shape_edge[of g h u i] same_shape_length[of g h] same_shape_row[of g h u]
  by (auto simp: live_def reduced_def dest: map_eq_imp_length_eq)

lemma length_add_capacity [simp]:
  "length (add_capacity g u i a) = length g" "length (add_capacity g u i a ! v) = length (g ! v)"
proof -
  show "length (add_capacity g u i a) = length g" by (simp add: add_capacity_def)
  show "length (add_capacity g u i a ! v) = length (g ! v)"
    unfolding add_capacity_def by (metis length_list_update list_update_beyond not_le nth_list_update)
qed

lemma add_capacity_other: "v \<noteq> u \<Longrightarrow> add_capacity g u i a ! v = g ! v"
  by (simp add: add_capacity_def)

lemma add_capacity_nth:
  "u < length g \<Longrightarrow> i < length (g ! u) \<Longrightarrow> j < length (g ! v) \<Longrightarrow>
     add_capacity g u i a ! v ! j = (if v = u \<and> j = i
       then (g ! u ! i)\<lparr>fe_capacity := fe_capacity (g ! u ! i) + a\<rparr> else g ! v ! j)"
  by (auto simp: add_capacity_def nth_list_update)

lemma sum_list_add_at: "i < length xs \<Longrightarrow> sum_list (xs[i := xs ! i + (a::int)]) = sum_list xs + a"
  by (induction xs arbitrary: i) (auto split: nat.split)

lemma node_capacity_add:
  "u < length g \<Longrightarrow> i < length (g ! u) \<Longrightarrow>
     node_capacity (add_capacity g u i a) v = node_capacity g v + (if v = u then a else 0)"
  using sum_list_add_at[of i "map fe_capacity (g ! u)" a]
  by (cases "v = u") (simp_all add: node_capacity_def add_capacity_def map_update)

definition push :: "flow_graph \<Rightarrow> nat \<Rightarrow> nat \<Rightarrow> flow_graph" where
  "push g u i = add_capacity (add_capacity g u i (- 1)) (fe_to (g ! u ! i)) (fe_reverse (g ! u ! i)) 1"

lemma edge_pairedD:
  assumes "paired g" and "u < length g" and "i < length (g ! u)"
  shows "fe_to (g ! u ! i) < length g" "fe_reverse (g ! u ! i) < length (g ! fe_to (g ! u ! i))"
    "fe_to (g ! fe_to (g ! u ! i) ! fe_reverse (g ! u ! i)) = u"
    "fe_reverse (g ! fe_to (g ! u ! i) ! fe_reverse (g ! u ! i)) = i"
    "fe_cost (g ! fe_to (g ! u ! i) ! fe_reverse (g ! u ! i)) = - fe_cost (g ! u ! i)"
    "fe_capacity (g ! fe_to (g ! u ! i) ! fe_reverse (g ! u ! i)) = 1 - fe_capacity (g ! u ! i)"
    "fe_capacity (g ! u ! i) = 0 \<or> fe_capacity (g ! u ! i) = 1"
  using assms by (auto simp: paired_def edge_paired_def Let_def)

lemma paired_targets: "paired g \<Longrightarrow> targets_ok g"
  using edge_pairedD(1) by (auto simp: targets_ok_def)

lemma live_paired:
  assumes "paired g" and "live g u i"
  shows "fe_capacity (g ! u ! i) = 1" "u < length g" "i < length (g ! u)"
  using assms edge_pairedD(7)[of g u i] by (auto simp: live_def)

lemma push_length [simp]: "length (push g u i) = length g" "length (push g u i ! v) = length (g ! v)"
  by (simp_all add: push_def)

lemma push_nth:
  assumes "paired g" and live: "live g u i" and w: "w < length g" "j < length (g ! w)"
  shows "push g u i ! w ! j = (g ! w ! j)\<lparr>fe_capacity :=
    (if w = u \<and> j = i then 0
     else if w = fe_to (g ! u ! i) \<and> j = fe_reverse (g ! u ! i) then 1
     else fe_capacity (g ! w ! j))\<rparr>"
proof -
  let ?v = "fe_to (g ! u ! i)" and ?r = "fe_reverse (g ! u ! i)"
  note cap = live_paired[OF assms(1,2)] edge_pairedD[OF assms(1) live_paired(2,3)[OF assms(1,2)]]
  have ne: "\<not> (?v = u \<and> ?r = i)" using cap(1,9) by auto
  have nth: "push g u i ! w ! j = (if w = ?v \<and> j = ?r
      then (add_capacity g u i (- 1) ! ?v ! ?r)\<lparr>fe_capacity :=
             fe_capacity (add_capacity g u i (- 1) ! ?v ! ?r) + 1\<rparr>
      else add_capacity g u i (- 1) ! w ! j)"
    unfolding push_def by (rule add_capacity_nth) (use cap w in simp_all)
  have base: "add_capacity g u i (- 1) ! a ! b = (if a = u \<and> b = i
      then (g ! u ! i)\<lparr>fe_capacity := fe_capacity (g ! u ! i) + - 1\<rparr> else g ! a ! b)"
    if "b < length (g ! a)" for a b
    by (rule add_capacity_nth) (use cap that in simp_all)
  show ?thesis
    using ne cap(1,9) w base[of j w] base[of ?r ?v] cap(5) unfolding nth by auto
qed

lemma push_node_capacity:
  assumes "paired g" and "live g u i"
  shows "node_capacity (push g u i) w =
    node_capacity g w - (if w = u then 1 else 0) + (if w = fe_to (g ! u ! i) then 1 else 0)"
proof -
  note cap = live_paired[OF assms] edge_pairedD[OF assms(1) live_paired(2,3)[OF assms]]
  show ?thesis unfolding push_def
    by (subst node_capacity_add, use cap in simp, use cap in simp)
      (simp add: node_capacity_add[OF cap(2,3)])
qed

lemma push_other: "w \<noteq> u \<Longrightarrow> w \<noteq> fe_to (g ! u ! i) \<Longrightarrow> push g u i ! w = g ! w"
  by (simp add: push_def add_capacity_other)

lemma push_shape:
  assumes "paired g" and "live g u i"
  shows "same_shape g (push g u i)"
  unfolding same_shape_def
  by (rule nth_equalityI; (rule nth_equalityI)?)
    (simp_all add: push_nth[OF assms] without_capacity_def)

lemma push_paired:
  assumes g: "paired g" and live: "live g u i"
  shows "paired (push g u i)"
  unfolding paired_def
proof (intro allI impI)
  fix w j assume "w < length (push g u i)" "j < length (push g u i ! w)"
  then have w: "w < length g" "j < length (g ! w)" by simp_all
  note cap = live_paired[OF g live] edge_pairedD[OF g live_paired(2,3)[OF g live]]
  note e = edge_pairedD[OF g w]
  define v r where "v = fe_to (g ! u ! i)" and "r = fe_reverse (g ! u ! i)"
  define c where "c = (\<lambda>a b. if a = u \<and> b = i then 0 else if a = v \<and> b = r then 1
    else fe_capacity (g ! a ! b))"
  have nth: "push g u i ! a ! b = (g ! a ! b)\<lparr>fe_capacity := c a b\<rparr>"
    if "a < length g" "b < length (g ! a)" for a b
    using push_nth[OF g live that] by (simp add: c_def v_def r_def)
  define x y where "x = fe_to (g ! w ! j)" and "y = fe_reverse (g ! w ! j)"
  have ne: "\<not> (v = u \<and> r = i)" using cap(1,9) by (auto simp: v_def r_def)
  have xy: "x < length g" "y < length (g ! x)" "fe_to (g ! x ! y) = w" "fe_reverse (g ! x ! y) = j"
    "fe_capacity (g ! x ! y) = 1 - fe_capacity (g ! w ! j)"
    using e by (simp_all add: x_def y_def)
  have vr: "fe_to (g ! v ! r) = u" "fe_reverse (g ! v ! r) = i"
    using cap by (simp_all add: v_def r_def)
  have first: "x = u \<and> y = i \<longleftrightarrow> w = v \<and> j = r"
    using xy(3,4) vr by (auto simp: x_def y_def v_def r_def)
  have second: "x = v \<and> y = r \<longleftrightarrow> w = u \<and> j = i"
    using xy(3,4) vr by (auto simp: x_def y_def v_def r_def)
  have swap: "c x y = 1 - c w j"
    unfolding c_def first second using ne xy(5) by auto
  moreover have "c w j = 0 \<or> c w j = 1" using e(7) by (auto simp: c_def)
  ultimately show "edge_paired (push g u i) w j"
    using xy e(5) unfolding edge_paired_def Let_def
    by (simp add: nth w flip: x_def y_def)
qed

lemma push_live:
  assumes "paired g" and "live g u i" and "live (push g u i) w j"
  shows "live g w j \<or> w = fe_to (g ! u ! i) \<and> j = fe_reverse (g ! u ! i)"
  using assms(3) push_nth[OF assms(1,2), of w j] by (auto simp: live_def split: if_splits)

lemma push_feasible:
  assumes g: "paired g" and live: "live g u i" and feasible: "feasible g p" and tight: "reduced g p u i = 0"
  shows "feasible (push g u i) p"
  unfolding feasible_def
proof (intro allI impI)
  fix w j assume new: "live (push g u i) w j"
  note cap = edge_pairedD[OF g live_paired(2,3)[OF g live]]
  have "reduced g p (fe_to (g ! u ! i)) (fe_reverse (g ! u ! i)) = - reduced g p u i"
    by (simp add: reduced_def cap)
  then have "0 \<le> reduced g p w j"
    using push_live[OF g live new] feasible tight by (auto simp: feasible_def)
  then show "0 \<le> reduced (push g u i) p w j"
    using same_shape_reduced[OF push_shape[OF g live] new] by simp
qed

lemma push_closed:
  assumes g: "paired g" and live: "live g u i" and closed: "closed_under g R" and u: "u \<in> R"
  shows "closed_under (push g u i) R"
  unfolding closed_under_def
proof (intro ballI allI impI)
  fix w j assume w: "w \<in> R" and new: "live (push g u i) w j"
  note cap = edge_pairedD[OF g live_paired(2,3)[OF g live]]
  have "fe_to (push g u i ! w ! j) = fe_to (g ! w ! j)"
    using new push_nth[OF g live, of w j] by (simp add: live_def)
  moreover have "fe_to (g ! w ! j) \<in> R"
    using push_live[OF g live new] closed w u cap(3) by (auto simp: closed_under_def)
  ultimately show "fe_to (push g u i ! w ! j) \<in> R" by simp
qed

section \<open>The augmentation along a shortest path\<close>

definition walk_ok :: "flow_graph \<Rightarrow> (nat \<Rightarrow> int) \<Rightarrow> nat set \<Rightarrow> search \<Rightarrow> flow_graph \<Rightarrow> nat \<Rightarrow> bool" where
  "walk_ok g0 p R s g x \<longleftrightarrow> x \<in> R \<and> paired g \<and> same_shape g0 g \<and> feasible g p \<and> closed_under g R \<and>
     (\<forall>y. (y, x) \<in> (links s)\<^sup>+ \<longrightarrow> g ! y = g0 ! y)"

text \<open>What the walk relies on: the links lead back to the source along edges of reduced cost zero.\<close>

definition tight_tree :: "flow_graph \<Rightarrow> (nat \<Rightarrow> int) \<Rightarrow> nat set \<Rightarrow> nat \<Rightarrow> search \<Rightarrow> bool" where
  "tight_tree g p R source s \<longleftrightarrow> acyclic (links s) \<and>
     (\<forall>v\<in>R. v \<noteq> source \<longrightarrow> (\<exists>u i. sr_previous s ! v = Some (u, i) \<and> v < length (sr_previous s) \<and>
        u \<in> R \<and> live g u i \<and> fe_to (g ! u ! i) = v \<and> reduced g p u i = 0))"

lemma finite_links: "finite (links s)"
proof (rule finite_subset)
  show "links s \<subseteq> (\<lambda>v. (fst (the (sr_previous s ! v)), v)) ` {..<length (sr_previous s)}"
    by (auto simp: links_def image_iff)
qed simp

lemma augment_ok:
  assumes tree: "tight_tree g0 p R source s"
  shows "walk_ok g0 p R s g x \<Longrightarrow>
    \<exists>h. augment source (sr_previous s) g x = Some (Inr h) \<and> paired h \<and> same_shape g0 h \<and>
      feasible h p \<and> closed_under h R \<and>
      (\<forall>w. node_capacity h w =
        node_capacity g w + (if w = x then 1 else 0) - (if w = source then 1 else 0))"
proof -
  have "wf (links s)" using tree finite_links by (simp add: tight_tree_def finite_acyclic_wf)
  then show "walk_ok g0 p R s g x \<Longrightarrow> ?thesis"
  proof (induction x arbitrary: g rule: wf_induct_rule)
    case (less x)
    note inv = less.prems[unfolded walk_ok_def]
    show ?case
    proof (cases "x = source")
      case True
      then show ?thesis using inv by (subst augment.simps) simp
    next
      case False
      with tree inv obtain u i where ui: "sr_previous s ! x = Some (u, i)" "x < length (sr_previous s)"
        "u \<in> R" "live g0 u i" "fe_to (g0 ! u ! i) = x" "reduced g0 p u i = 0"
        unfolding tight_tree_def by blast
      then have link: "(u, x) \<in> links s" by (auto simp: links_def)
      then have same: "g ! u = g0 ! u" using inv by blast
      have len: "length g = length g0" using inv by (simp add: same_shape_length)
      have live: "live g u i" using ui(4) same len by (simp add: live_def)
      have to: "fe_to (g ! u ! i) = x" using ui(5) same by simp
      have tight: "reduced g p u i = 0"
        using same_shape_reduced[of g0 g u i p] inv live ui(6) by simp
      have other: "push g u i ! y = g0 ! y" if "(y, u) \<in> (links s)\<^sup>+" for y
      proof -
        from that link have yx: "(y, x) \<in> (links s)\<^sup>+" by (rule trancl.trancl_into_trancl)
        have "y \<noteq> u" "y \<noteq> x" using that yx tree by (auto simp: tight_tree_def acyclic_def)
        then show ?thesis using inv yx by (simp add: push_other to)
      qed
      have "walk_ok g0 p R s (push g u i) u"
        unfolding walk_ok_def
        using inv ui(3) live tight other push_paired[OF _ live] push_shape[OF _ live]
          push_feasible[OF _ live _ tight] push_closed[OF _ live] same_shape_trans[of g0 g]
        by blast
      from less.IH[OF link this] obtain h where h: "paired h" "same_shape g0 h" "feasible h p" "closed_under h R"
        "augment source (sr_previous s) (push g u i) u = Some (Inr h)"
        "\<And>w. node_capacity h w = node_capacity (push g u i) w + (if w = u then 1 else 0)
           - (if w = source then 1 else 0)"
        by blast
      have "augment source (sr_previous s) g x = Some (Inr h)"
        by (subst augment.simps) (use False ui(1) h(5) to in \<open>simp add: Let_def push_def\<close>)
      moreover have "node_capacity h w = node_capacity g w + (if w = x then 1 else 0) -
          (if w = source then 1 else 0)" for w
        using inv by (simp add: h(6) push_node_capacity[OF _ live] to)
      ultimately show ?thesis using h(1-4) by blast
    qed
  qed
qed

section \<open>The flow\<close>

text \<open>
  The invariant of the main loop. Nodes out of reach keep stale potentials, so the potentials of
  the code agree with feasible ones on the nodes in reach only.
\<close>

definition flow_inv :: "flow_graph \<Rightarrow> nat \<Rightarrow> nat \<Rightarrow> int list \<Rightarrow> flow_graph \<Rightarrow> bool" where
  "flow_inv g0 source sink pot g \<longleftrightarrow> paired g \<and> same_shape g0 g \<and> length pot = length g \<and>
     source < length g \<and> sink < length g \<and> source \<noteq> sink \<and>
     (\<forall>v. v \<noteq> source \<longrightarrow> v \<noteq> sink \<longrightarrow> node_capacity g v = node_capacity g0 v) \<and>
     (\<exists>p. feasible g p \<and> (\<forall>v\<in>reachable g source. p v = pot ! v))"

definition flow_done :: "flow_graph \<Rightarrow> nat \<Rightarrow> nat \<Rightarrow> flow_graph \<Rightarrow> bool" where
  "flow_done g0 source sink g \<longleftrightarrow> paired g \<and> same_shape g0 g \<and>
     (\<forall>v. v \<noteq> source \<longrightarrow> v \<noteq> sink \<longrightarrow> node_capacity g v = node_capacity g0 v) \<and>
     (\<exists>p. feasible g p) \<and> sink \<notin> reachable g source"

definition raised :: "(nat \<Rightarrow> int) \<Rightarrow> nat set \<Rightarrow> int option list \<Rightarrow> nat \<Rightarrow> int" where
  "raised p R D v = (if v \<in> R then p v + the (D ! v) else p v + (\<Sum>u\<in>R. the (D ! u)))"

lemma raised_feasible:
  assumes feasible: "feasible g p" and tree: "shortest_tree g p source s"
    and finite: "finite (reachable g source)"
  shows "feasible g (raised p (reachable g source) (sr_distances s))"
  unfolding feasible_def
proof (intro allI impI)
  fix u i assume live: "live g u i"
  let ?R = "reachable g source" and ?D = "sr_distances s" and ?v = "fe_to (g ! u ! i)"
  have le_sum: "the (?D ! v) \<le> (\<Sum>u\<in>?R. the (?D ! u))" if "v \<in> ?R" for v
    using tree finite that by (intro member_le_sum) (auto simp: shortest_tree_def)
  show "0 \<le> reduced g (raised p ?R ?D) u i"
  proof (cases "u \<in> ?R")
    case True
    moreover from True have "?v \<in> ?R"
      using closed_reachable[of g source] live by (auto simp: closed_under_def)
    moreover have "the (?D ! ?v) \<le> the (?D ! u) + reduced g p u i"
      using tree True live by (auto simp: shortest_tree_def)
    ultimately show ?thesis by (simp add: reduced_def raised_def)
  next
    case False
    have "0 \<le> reduced g p u i" using feasible live by (simp add: feasible_def)
    then show ?thesis using False le_sum[of ?v]
      by (cases "?v \<in> ?R") (simp_all add: reduced_def raised_def)
  qed
qed

lemma node_capacity_nonneg:
  assumes "paired g" and "v < length g"
  shows "0 \<le> node_capacity g v"
  unfolding node_capacity_def
proof (rule sum_list_nonneg)
  fix c assume "c \<in> set (map fe_capacity (g ! v))"
  then obtain i where "i < length (g ! v)" "c = fe_capacity (g ! v ! i)"
    by (auto simp: in_set_conv_nth)
  then show "0 \<le> c" using edge_pairedD(7)[OF assms, of i] by auto
qed

lemma flow_round:
  assumes inv: "flow_inv g0 source sink pot g"
  shows "\<exists>s. search_loop g pot (start_search g source) = Some s \<and>
    (if sr_distances s ! sink = None then flow_done g0 source sink g
     else \<exists>h. augment source (sr_previous s) g sink = Some (Inr h) \<and>
       flow_inv g0 source sink (raise_potentials (sr_distances s) pot) h \<and>
       node_capacity h source = node_capacity g source - 1)"
proof -
  let ?R = "reachable g source"
  obtain p where p: "feasible g p" "\<And>v. v \<in> ?R \<Longrightarrow> p v = pot ! v"
    using inv by (auto simp: flow_inv_def)
  have g: "paired g" "same_shape g0 g" "length pot = length g" "source < length g" "sink < length g"
    "source \<noteq> sink" using inv by (auto simp: flow_inv_def)
  note targets = paired_targets[OF g(1)]
  have agree: "reduced g (\<lambda>v. pot ! v) u i = reduced g p u i" if "u \<in> ?R" "live g u i" for u i
    using p(2)[OF that(1)] p(2)[of "fe_to (g ! u ! i)"] closed_reachable[of g source] that
    by (simp add: reduced_def closed_under_def)
  obtain s where s: "search_loop g pot (start_search g source) = Some s"
    "shortest_tree g (\<lambda>v. pot ! v) source s"
    using search_finds_shortest_tree[OF targets g(4), of pot] agree p(1) by (auto simp: feasible_def)
  let ?D = "sr_distances s"
  have tree: "shortest_tree g p source s"
    using s(2) unfolding shortest_tree_def by (metis agree)
  have bound: "?R \<subseteq> {..<length g}" by (rule reachable_bounded[OF targets g(4)])
  have sink: "?D ! sink \<noteq> None \<longleftrightarrow> sink \<in> ?R" using tree g(5) by (simp add: shortest_tree_def)
  show ?thesis
  proof (cases "?D ! sink = None")
    case True
    then have "flow_done g0 source sink g"
      using inv sink p(1) by (auto simp: flow_done_def flow_inv_def)
    with s True show ?thesis by simp
  next
    case False
    define q where "q = raised p ?R ?D"
    have q: "feasible g q" unfolding q_def
      by (rule raised_feasible[OF p(1) tree]) (use bound finite_subset in blast)
    have "tight_tree g q ?R source s"
      unfolding tight_tree_def
    proof (intro conjI ballI impI)
      fix v assume v: "v \<in> ?R" "v \<noteq> source"
      with tree obtain u i where ui: "sr_previous s ! v = Some (u, i)" "u \<in> ?R" "live g u i"
        "fe_to (g ! u ! i) = v" "the (?D ! v) = the (?D ! u) + reduced g p u i"
        unfolding shortest_tree_def by blast
      then have "reduced g q u i = 0" using v by (simp add: reduced_def q_def raised_def)
      moreover have "v < length (sr_previous s)" using v bound tree by (auto simp: shortest_tree_def)
      ultimately show "\<exists>u i. sr_previous s ! v = Some (u, i) \<and> v < length (sr_previous s) \<and>
        u \<in> ?R \<and> live g u i \<and> fe_to (g ! u ! i) = v \<and> reduced g q u i = 0" using ui by blast
    qed (use tree in \<open>simp add: shortest_tree_def\<close>)
    moreover have "walk_ok g q ?R s g sink"
      using False sink g(1) q closed_reachable by (simp add: walk_ok_def same_shape_refl)
    ultimately obtain h where h: "augment source (sr_previous s) g sink = Some (Inr h)"
      "paired h" "same_shape g h" "feasible h q" "closed_under h ?R"
      "\<And>w. node_capacity h w = node_capacity g w + (if w = sink then 1 else 0) -
          (if w = source then 1 else 0)"
      using augment_ok by blast
    have smaller: "reachable h source \<subseteq> ?R" using reachable_subset[OF h(5)] by simp
    have "q v = raise_potentials ?D pot ! v" if "v \<in> reachable h source" for v
    proof -
      have v: "v \<in> ?R" "v < length g" using that smaller bound by auto
      then have "?D ! v \<noteq> None" using tree by (simp add: shortest_tree_def)
      then show ?thesis using v p(2)[of v] g(3) tree
        by (auto simp: q_def raised_def raise_potentials_def shortest_tree_def)
    qed
    then have "flow_inv g0 source sink (raise_potentials ?D pot) h"
      using inv h same_shape_trans[OF g(2) h(3)] same_shape_length[OF h(3)] tree
      by (auto simp: flow_inv_def raise_potentials_def shortest_tree_def)
    then show ?thesis using s(1) False h(1,6) g(6) by auto
  qed
qed

text \<open>
  The main loop ends: every round takes one unit from the capacity that is left at the source.
\<close>

lemma flow_loop_ok:
  "flow_inv g0 source sink pot g \<Longrightarrow>
     \<exists>h. flow_loop source sink pot g = Some (Inr h) \<and> flow_done g0 source sink h"
proof (induction "nat (node_capacity g source)" arbitrary: g pot rule: less_induct)
  case less
  from flow_round[OF less.prems] obtain s where s: "search_loop g pot (start_search g source) = Some s"
    "if sr_distances s ! sink = None then flow_done g0 source sink g
     else \<exists>h. augment source (sr_previous s) g sink = Some (Inr h) \<and>
       flow_inv g0 source sink (raise_potentials (sr_distances s) pot) h \<and>
       node_capacity h source = node_capacity g source - 1" by blast
  show ?case
  proof (cases "sr_distances s ! sink = None")
    case True
    then show ?thesis using s by (subst flow_loop.simps) simp
  next
    case False
    with s(2) obtain h where h: "augment source (sr_previous s) g sink = Some (Inr h)"
      "flow_inv g0 source sink (raise_potentials (sr_distances s) pot) h"
      "node_capacity h source = node_capacity g source - 1" by auto
    have "0 \<le> node_capacity h source"
      using node_capacity_nonneg[of h source] h(2) by (simp add: flow_inv_def)
    with h(3) less.hyps[OF _ h(2)]
    obtain k where "flow_loop source sink (raise_potentials (sr_distances s) pot) h = Some (Inr k)"
      "flow_done g0 source sink k" by auto
    moreover obtain d where "sr_distances s ! sink = Some d" using False by auto
    ultimately show ?thesis using s(1) h(1)
      by (intro exI[of _ k] conjI) (subst flow_loop.simps, simp)
  qed
qed

lemma flow_loop_start:
  assumes "paired g" and "source < length g" and "sink < length g" and "source \<noteq> sink"
    and "\<And>u i. live g u i \<Longrightarrow> 0 \<le> fe_cost (g ! u ! i)"
  shows "\<exists>h. flow_loop source sink (replicate (length g) 0) g = Some (Inr h) \<and>
    flow_done g source sink h"
proof (rule flow_loop_ok)
  have targets: "targets_ok g" by (rule paired_targets[OF assms(1)])
  have "feasible g (\<lambda>_. 0)" using assms(5) by (simp add: feasible_def reduced_def)
  moreover have "\<forall>v\<in>reachable g source. 0 = replicate (length g) 0 ! v"
    using reachable_bounded[OF targets assms(2)] by auto
  ultimately show "flow_inv g source sink (replicate (length g) 0) g"
    using assms unfolding flow_inv_def
    by (intro conjI exI[of _ "\<lambda>_. 0"]) (simp_all add: same_shape_refl)
qed

end
