(* ===== verification/Network_Layout.thy ===== *)
theory Network_Layout
  imports Flow_Network
begin

text \<open>
  The graph that a list of arcs becomes under repeated \<open>_add_flow_edge\<close> of
  \<open>reconciliation/matcher.py\<close>, and what the flow of the main loop means for the arcs: which nodes
  conserve it, how much leaves the source, and that no other flow is larger, or as large and
  cheaper.
\<close>

section \<open>Adding arcs\<close>

type_synonym arc = "nat \<times> nat \<times> int"

fun add_arcs :: "arc list \<Rightarrow> flow_graph \<Rightarrow> flow_graph \<times> edge_address list" where
  "add_arcs [] graph = (graph, [])"
| "add_arcs ((source, destination, cost) # arcs) graph =
     (let (graph, address) = add_flow_edge graph source destination 1 cost;
          (graph, addresses) = add_arcs arcs graph
      in (graph, address # addresses))"

definition partner :: "flow_graph \<Rightarrow> edge_address \<Rightarrow> edge_address" where
  "partner g a = (fe_to (edge_at g a), fe_reverse (edge_at g a))"

definition arc_at :: "flow_graph \<Rightarrow> arc \<Rightarrow> edge_address \<Rightarrow> bool" where
  "arc_at g = (\<lambda>(u, v, c) a. fst a = u \<and> u < length g \<and> snd a < length (g ! u) \<and>
     fe_to (edge_at g a) = v \<and> fe_cost (edge_at g a) = c \<and> fe_capacity (edge_at g a) = 1)"

text \<open>The edges of the graph are those of the arcs and their partners, each once.\<close>

definition laid_out :: "flow_graph \<Rightarrow> arc list \<Rightarrow> edge_address list \<Rightarrow> bool" where
  "laid_out g arcs addrs \<longleftrightarrow> paired g \<and> list_all2 (arc_at g) arcs addrs \<and>
     distinct (addrs @ map (partner g) addrs) \<and>
     set (addrs @ map (partner g) addrs) = {(u, i). u < length g \<and> i < length (g ! u)}"

lemma laid_out_empty: "laid_out (replicate n []) [] []"
  by (auto simp: laid_out_def paired_def)

lemma add_flow_edge_eqs:
  assumes "u < length g" and "v < length g" and "u \<noteq> v" and "add_flow_edge g u v k c = (g', a)"
  shows "length g' = length g" and "a = (u, length (g ! u))"
    and "g' ! u = g ! u @ [\<lparr>fe_to = v, fe_reverse = length (g ! v), fe_capacity = k, fe_cost = c\<rparr>]"
    and "g' ! v = g ! v @ [\<lparr>fe_to = u, fe_reverse = length (g ! u), fe_capacity = 0, fe_cost = - c\<rparr>]"
    and "\<And>w. w \<noteq> u \<Longrightarrow> w \<noteq> v \<Longrightarrow> g' ! w = g ! w"
  using assms by (auto simp: add_flow_edge_def Let_def)

lemma add_flow_edge_laid_out:
  assumes out: "laid_out g arcs addrs" and u: "u < length g" "v < length g" "u \<noteq> v"
    and add: "add_flow_edge g u v 1 c = (g', a)"
  shows "laid_out g' (arcs @ [(u, v, c)]) (addrs @ [a])"
proof -
  note eqs = add_flow_edge_eqs[OF u add]
  have paired: "paired g" using out by (simp add: laid_out_def)
  have old: "edge_at g' (w, j) = edge_at g (w, j)" if "j < length (g ! w)" for w j
    using eqs(3,4,5) that by (cases "w = u"; cases "w = v") (simp_all add: edge_at_def nth_append)
  have longer: "length (g' ! w) = length (g ! w) + (if w = u then 1 else 0) + (if w = v then 1 else 0)" for w
    using eqs(3,4,5) u(3) by (cases "w = u"; cases "w = v") simp_all
  have new: "edge_at g' (u, length (g ! u)) = \<lparr>fe_to = v, fe_reverse = length (g ! v), fe_capacity = 1, fe_cost = c\<rparr>"
    "edge_at g' (v, length (g ! v)) = \<lparr>fe_to = u, fe_reverse = length (g ! u), fe_capacity = 0, fe_cost = - c\<rparr>"
    using eqs(3,4) by (simp_all add: edge_at_def)
  have cases: "j < length (g ! w) \<or> w = u \<and> j = length (g ! u) \<or> w = v \<and> j = length (g ! v)"
    if "j < length (g' ! w)" for w j
    using that longer[of w] u(3) by (auto split: if_splits)
  have paired': "paired g'"
    unfolding paired_def
  proof (intro allI impI)
    fix w j assume w: "w < length g'" "j < length (g' ! w)"
    show "edge_paired g' w j"
    proof (cases "j < length (g ! w)")
      case True
      note e = edge_pairedD[OF paired _ True]
      have wl: "w < length g" using w eqs(1) by simp
      show ?thesis
        unfolding edge_paired_def Let_def
        using e[OF wl] old[OF True] old[of "fe_reverse (g ! w ! j)" "fe_to (g ! w ! j)"] eqs(1) longer
        by (simp add: edge_at_def)
    next
      case False
      with cases[OF w(2)] have "w = u \<and> j = length (g ! u) \<or> w = v \<and> j = length (g ! v)" by blast
      then show ?thesis
        unfolding edge_paired_def Let_def
        using new longer[of u] longer[of v] u eqs(1) by (auto simp: edge_at_def)
    qed
  qed
  have inside: "fst x < length g \<and> snd x < length (g ! fst x)" if "x \<in> set (addrs @ map (partner g) addrs)" for x
    using out that by (auto simp: laid_out_def)
  have part: "partner g' x = partner g x" if "x \<in> set addrs" for x
    using inside[of x] that old[of "snd x" "fst x"] by (simp add: partner_def)
  have partners: "map (partner g') addrs = map (partner g) addrs" using part by simp
  have pa: "partner g' a = (v, length (g ! v))" using new(1) eqs(2) by (simp add: partner_def)
  have arcs: "list_all2 (arc_at g') arcs addrs"
  proof (rule list.rel_mono_strong)
    show "list_all2 (arc_at g) arcs addrs" using out by (simp add: laid_out_def)
    fix x y assume "y \<in> set addrs" "arc_at g x y"
    then show "arc_at g' x y"
      using inside[of y] old[of "snd y" "fst y"] longer[of "fst y"] eqs(1)
      by (cases x) (auto simp: arc_at_def)
  qed
  have last: "arc_at g' (u, v, c) a" using new(1) eqs(1,2) longer[of u] u by (simp add: arc_at_def)
  have fresh: "(u, length (g ! u)) \<notin> set (addrs @ map (partner g) addrs)"
    "(v, length (g ! v)) \<notin> set (addrs @ map (partner g) addrs)"
    using inside by fastforce+
  have "set ((addrs @ [a]) @ map (partner g') (addrs @ [a])) =
      {(u, length (g ! u)), (v, length (g ! v))} \<union> {(u, i). u < length g \<and> i < length (g ! u)}"
    using out eqs(2) pa partners by (auto simp: laid_out_def)
  also have "\<dots> = {(w, i). w < length g' \<and> i < length (g' ! w)}"
    using u eqs(1) longer cases by auto
  finally have set: "set ((addrs @ [a]) @ map (partner g') (addrs @ [a])) =
      {(w, i). w < length g' \<and> i < length (g' ! w)}" .
  have "distinct ((addrs @ [a]) @ map (partner g) addrs @ [(v, length (g ! v))])"
    using out fresh eqs(2) u(3) by (auto simp: laid_out_def)
  then have "distinct ((addrs @ [a]) @ map (partner g') (addrs @ [a]))"
    by (simp only: map_append partners list.map pa)
  with paired' arcs last set show ?thesis
    unfolding laid_out_def by (intro conjI list_all2_appendI) simp_all
qed

definition proper_arc :: "nat \<Rightarrow> arc \<Rightarrow> bool" where
  "proper_arc n = (\<lambda>(u, v, c). u < n \<and> v < n \<and> u \<noteq> v)"

lemma add_arcs_laid_out:
  "laid_out g done addrs \<Longrightarrow> list_all (proper_arc (length g)) arcs \<Longrightarrow> add_arcs arcs g = (g', new) \<Longrightarrow>
     laid_out g' (done @ arcs) (addrs @ new) \<and> length g' = length g \<and> length new = length arcs"
proof (induction arcs arbitrary: g "done" addrs new)
  case (Cons x arcs)
  obtain u v c where x: "x = (u, v, c)" by (cases x)
  obtain g1 a where a: "add_flow_edge g u v 1 c = (g1, a)" by (cases "add_flow_edge g u v 1 c")
  obtain as where as: "add_arcs arcs g1 = (g', as)" "new = a # as"
    using Cons.prems(3) a by (auto simp: x split: prod.splits)
  have u: "u < length g" "v < length g" "u \<noteq> v" using Cons.prems(2) by (simp_all add: x proper_arc_def)
  have "laid_out g1 (done @ [x]) (addrs @ [a])"
    using add_flow_edge_laid_out[OF Cons.prems(1) u a] by (simp add: x)
  moreover have "length g1 = length g" by (rule add_flow_edge_eqs(1)[OF u a])
  ultimately show ?case using Cons.IH[of g1 "done @ [x]" "addrs @ [a]" as] Cons.prems(2) as by simp
qed simp

lemma add_arcs_append:
  "add_arcs (xs @ ys) g = (let (g, as) = add_arcs xs g; (g, bs) = add_arcs ys g in (g, as @ bs))"
  by (induction xs arbitrary: g) (auto simp: split: prod.splits)

section \<open>Flows on the arcs\<close>

definition flow_on :: "flow_graph \<Rightarrow> edge_address \<Rightarrow> int" where
  "flow_on h a = 1 - fe_capacity (edge_at h a)"

definition net_out :: "(arc \<times> int) list \<Rightarrow> nat \<Rightarrow> int" where
  "net_out xs w = (\<Sum>((u, v, c), f)\<leftarrow>xs. f * ((if u = w then 1 else 0) - (if v = w then 1 else 0)))"

definition weight_of :: "(arc \<Rightarrow> int) \<Rightarrow> (arc \<times> int) list \<Rightarrow> int" where
  "weight_of k xs = (\<Sum>(x, f)\<leftarrow>xs. k x * f)"

definition out_degree :: "arc list \<Rightarrow> nat \<Rightarrow> int" where
  "out_degree arcs w = (\<Sum>(u, v, c)\<leftarrow>arcs. if u = w then 1 else 0)"

lemma node_capacity_sum:
  assumes out: "laid_out g arcs addrs" and v: "w < length g" and shape: "same_shape g h"
  shows "node_capacity h w = (\<Sum>a\<leftarrow>addrs @ map (partner g) addrs.
    if fst a = w then fe_capacity (edge_at h a) else 0)"
proof -
  let ?F = "\<lambda>a. if fst a = w then fe_capacity (edge_at h a) else 0"
  have len: "length h = length g" "length (h ! w) = length (g ! w)"
    using same_shape_length[OF shape] same_shape_row[OF shape v] by (auto dest: map_eq_imp_length_eq)
  have "(\<Sum>a\<leftarrow>addrs @ map (partner g) addrs. ?F a) =
      sum ?F {(u, i). u < length g \<and> i < length (g ! u)}"
    using out sum_list_distinct_conv_sum_set[of "addrs @ map (partner g) addrs" ?F]
    by (simp only: laid_out_def)
  also have "{(u, i). u < length g \<and> i < length (g ! u)} = (SIGMA u:{..<length g}. {..<length (g ! u)})"
    by auto
  also have "sum ?F \<dots> = (\<Sum>u<length g. \<Sum>i<length (g ! u). ?F (u, i))"
    by (subst sum.Sigma) (auto intro!: sum.cong)
  also have "\<dots> = (\<Sum>u<length g. if u = w then \<Sum>i<length (g ! w). fe_capacity (edge_at h (w, i)) else 0)"
    by (rule sum.cong) auto
  also have "\<dots> = (\<Sum>i<length (g ! w). fe_capacity (edge_at h (w, i)))"
    using v by simp
  also have "\<dots> = node_capacity h w"
    using len by (simp add: node_capacity_def edge_at_def sum_list_sum_nth atLeast0LessThan)
  finally show ?thesis by simp
qed

lemma laid_out_edge:
  assumes "laid_out g arcs addrs" and "((u, v, c), a) \<in> set (zip arcs addrs)"
  shows "fst a = u" "u < length g" "snd a < length (g ! u)" "fe_to (edge_at g a) = v"
    "fe_cost (edge_at g a) = c" "fe_capacity (edge_at g a) = 1"
proof -
  have "list_all2 (arc_at g) arcs addrs" using assms(1) by (simp add: laid_out_def)
  then have "arc_at g (u, v, c) a" using assms(2) by (auto simp: list_all2_iff)
  then show "fst a = u" "u < length g" "snd a < length (g ! u)" "fe_to (edge_at g a) = v"
    "fe_cost (edge_at g a) = c" "fe_capacity (edge_at g a) = 1" by (auto simp: arc_at_def)
qed

text \<open>The edge of an arc, and its partner, in a graph of the same shape.\<close>

lemma laid_out_flow:
  assumes out: "laid_out g arcs addrs" and mem: "((u, v, c), a) \<in> set (zip arcs addrs)"
    and shape: "same_shape g h" and paired: "paired h"
  shows "flow_on h a = 0 \<or> flow_on h a = 1"
    and "fe_capacity (edge_at h (partner g a)) = flow_on h a"
    and "flow_on h a = 0 \<longleftrightarrow> live h u (snd a)"
    and "flow_on h a = 1 \<longleftrightarrow> live h v (snd (partner g a))"
    and "fe_to (h ! u ! snd a) = v" and "fe_to (h ! v ! snd (partner g a)) = u"
    and "fe_cost (h ! u ! snd a) = c" and "fe_cost (h ! v ! snd (partner g a)) = - c"
proof -
  note e = laid_out_edge[OF out mem]
  note s = same_shape_edge[OF shape e(2,3)]
  have len: "length h = length g" by (rule same_shape_length[OF shape])
  have a: "edge_at h a = h ! u ! snd a" "edge_at g a = g ! u ! snd a" using e(1) by (simp_all add: edge_at_def)
  have inside: "u < length h" "snd a < length (h ! u)" using e len s(1) by simp_all
  note p = edge_pairedD[OF paired inside]
  have part: "partner g a = (v, fe_reverse (h ! u ! snd a))"
    using e(4) s(3) a(2) by (simp add: partner_def)
  show to: "fe_to (h ! u ! snd a) = v" using e(4) s(2) a(2) by simp
  show "flow_on h a = 0 \<or> flow_on h a = 1" using p(7) by (auto simp: flow_on_def a)
  show "fe_capacity (edge_at h (partner g a)) = flow_on h a"
    using p(6) to by (simp add: part edge_at_def flow_on_def e(1))
  show "flow_on h a = 0 \<longleftrightarrow> live h u (snd a)"
    using p(7) inside by (auto simp: flow_on_def a live_def)
  show "flow_on h a = 1 \<longleftrightarrow> live h v (snd (partner g a))"
    using p(1,2,6,7) to by (auto simp: flow_on_def a live_def part)
  show "fe_to (h ! v ! snd (partner g a)) = u" using p(3) to by (simp add: part)
  show "fe_cost (h ! u ! snd a) = c" using e(5) s(4) a(2) by simp
  then show "fe_cost (h ! v ! snd (partner g a)) = - c" using p(5) to by (simp add: part)
qed

lemma sum_list_zip_arcs:
  "length arcs = length addrs \<Longrightarrow>
     sum_list (map2 (\<lambda>(u, v, c) a. G a) arcs addrs) = (\<Sum>a\<leftarrow>addrs. G a :: int)"
  by (induction arcs addrs rule: list_induct2) auto

lemma node_capacity_net_out:
  assumes out: "laid_out g arcs addrs" and w: "w < length g"
    and shape: "same_shape g h" and paired: "paired h"
  shows "node_capacity h w = out_degree arcs w - net_out (zip arcs (map (flow_on h) addrs)) w"
proof -
  have len: "length arcs = length addrs" using out by (auto simp: laid_out_def list_all2_lengthD)
  have each: "(if fst a = w then fe_capacity (edge_at h a) else 0) +
      (if fst (partner g a) = w then fe_capacity (edge_at h (partner g a)) else 0) =
      (if u = w then 1 else 0) - flow_on h a * ((if u = w then 1 else 0) - (if v = w then 1 else 0))"
    if "((u, v, c), a) \<in> set (zip arcs addrs)" for u v c a
    using laid_out_edge[OF out that] laid_out_flow(2)[OF out that shape paired]
    by (auto simp: flow_on_def partner_def)
  let ?G = "\<lambda>a. (if fst a = w then fe_capacity (edge_at h a) else 0) +
      (if fst (partner g a) = w then fe_capacity (edge_at h (partner g a)) else 0)"
  have "node_capacity h w = (\<Sum>a\<leftarrow>addrs. ?G a)"
    unfolding node_capacity_sum[OF out w shape] by (simp add: o_def sum_list_addf)
  also have "\<dots> = (\<Sum>((u, v, c), a)\<leftarrow>zip arcs addrs. ?G a)"
    by (rule sum_list_zip_arcs[OF len, symmetric])
  also have "\<dots> = (\<Sum>((u, v, c), a)\<leftarrow>zip arcs addrs. (if u = w then 1 else 0) -
      flow_on h a * ((if u = w then 1 else 0) - (if v = w then 1 else 0)))"
    using each by (intro arg_cong[of _ _ sum_list] map_cong) auto
  also have "\<dots> = out_degree arcs w - net_out (zip arcs (map (flow_on h) addrs)) w"
    using len unfolding out_degree_def net_out_def
    by (induction arcs addrs rule: list_induct2) (auto simp: algebra_simps)
  finally show ?thesis .
qed

section \<open>The flow that the loop leaves is best\<close>

text \<open>Summing potential differences along a flow.\<close>

definition bounded_arcs :: "nat \<Rightarrow> (arc \<times> int) list \<Rightarrow> bool" where
  "bounded_arcs n xs \<longleftrightarrow> (\<forall>((u, v, c), f)\<in>set xs. u < n \<and> v < n)"

lemma net_out_Cons: "net_out (((u, v, c), f) # xs) w =
    f * ((if u = w then 1 else 0) - (if v = w then 1 else 0)) + net_out xs w"
  by (simp add: net_out_def)

lemma sum_potentials:
  "bounded_arcs n xs \<Longrightarrow>
     (\<Sum>((u, v, c), f)\<leftarrow>xs. f * (p u - p v)) = (\<Sum>w<n. p w * net_out xs w)"
proof (induction xs)
  case Nil
  then show ?case by (simp add: net_out_def)
next
  case (Cons x xs)
  obtain u v c f where x: "x = ((u, v, c), f)" by (cases x; cases "fst x") auto
  have u: "u < n" "v < n" using Cons.prems by (auto simp: x bounded_arcs_def)
  have "(\<Sum>w<n. p w * net_out (x # xs) w) =
      (\<Sum>w<n. (if u = w then f * p w else 0) - (if v = w then f * p w else 0) + p w * net_out xs w)"
    by (intro sum.cong) (auto simp: x net_out_Cons algebra_simps)
  also have "\<dots> = f * p u - f * p v + (\<Sum>w<n. p w * net_out xs w)"
    using u by (simp add: sum.distrib sum_subtractf)
  finally show ?case using Cons by (simp add: x bounded_arcs_def algebra_simps)
qed

definition flow_at :: "nat \<Rightarrow> nat \<Rightarrow> nat \<Rightarrow> (arc \<times> int) list \<Rightarrow> bool" where
  "flow_at n source sink xs \<longleftrightarrow> bounded_arcs n xs \<and> (\<forall>(x, f)\<in>set xs. f = 0 \<or> f = 1) \<and>
     (\<forall>w<n. w \<noteq> source \<longrightarrow> w \<noteq> sink \<longrightarrow> net_out xs w = 0)"

lemma net_out_sink:
  assumes flow: "flow_at n source sink xs" and st: "source < n" "sink < n" "source \<noteq> sink"
  shows "(\<Sum>((u, v, c), f)\<leftarrow>xs. f * (p u - p v)) = (p source - p sink) * net_out xs source"
proof -
  have split: "(\<Sum>w<n. q w * net_out xs w) = q source * net_out xs source + q sink * net_out xs sink"
    for q :: "nat \<Rightarrow> int"
  proof -
    have "(\<Sum>w<n. q w * net_out xs w) = (\<Sum>w\<in>{source, sink}. q w * net_out xs w)"
      by (rule sum.mono_neutral_right) (use flow st in \<open>auto simp: flow_at_def\<close>)
    then show ?thesis using st by simp
  qed
  have bounded: "bounded_arcs n xs" using flow by (simp add: flow_at_def)
  have "net_out xs source + net_out xs sink = 0"
    using sum_potentials[OF bounded, of "\<lambda>_. 1"] split[of "\<lambda>_. 1"]
    by (simp add: case_prod_unfold)
  then have "net_out xs sink = - net_out xs source" by simp
  then show ?thesis
    unfolding sum_potentials[OF bounded] split by (simp add: algebra_simps)
qed

text \<open>
  Complementary slackness: potentials that agree with the direction of every arc of the first flow
  bound the weight of the second.
\<close>

definition slack_ok :: "(arc \<Rightarrow> int) \<Rightarrow> (nat \<Rightarrow> int) \<Rightarrow> (arc \<times> int) list \<Rightarrow> bool" where
  "slack_ok k p xs \<longleftrightarrow> (\<forall>((u, v, c), f)\<in>set xs.
     (f = 0 \<longrightarrow> 0 \<le> k (u, v, c) + p u - p v) \<and> (f = 1 \<longrightarrow> k (u, v, c) + p u - p v \<le> 0))"

lemma slack_sum:
  "length fs = length arcs \<Longrightarrow> length gs = length arcs \<Longrightarrow> slack_ok k p (zip arcs fs) \<Longrightarrow>
     \<forall>f\<in>set fs. f = 0 \<or> f = 1 \<Longrightarrow> \<forall>f\<in>set gs. f = 0 \<or> f = 1 \<Longrightarrow>
     weight_of k (zip arcs fs) + (\<Sum>((u, v, c), f)\<leftarrow>zip arcs fs. f * (p u - p v)) \<le>
     weight_of k (zip arcs gs) + (\<Sum>((u, v, c), f)\<leftarrow>zip arcs gs. f * (p u - p v))"
proof (induction arcs arbitrary: fs gs)
  case (Cons x arcs)
  obtain f fs' g gs' where fg: "fs = f # fs'" "gs = g # gs'"
    using Cons.prems(1,2) by (cases fs; cases gs) auto
  obtain u v c where x: "x = (u, v, c)" by (cases x)
  have "k x * f + f * (p u - p v) \<le> k x * g + g * (p u - p v)"
    using Cons.prems(3,4,5) by (auto simp: fg x slack_ok_def)
  moreover have "weight_of k (zip arcs fs') + (\<Sum>((u, v, c), f)\<leftarrow>zip arcs fs'. f * (p u - p v)) \<le>
     weight_of k (zip arcs gs') + (\<Sum>((u, v, c), f)\<leftarrow>zip arcs gs'. f * (p u - p v))"
    using Cons by (simp add: fg slack_ok_def)
  ultimately show ?case by (simp add: fg weight_of_def x)
qed (simp add: weight_of_def)

lemma zip_second: "length fs = length arcs \<Longrightarrow> \<forall>(x, f)\<in>set (zip arcs fs). P f \<Longrightarrow> \<forall>f\<in>set fs. P f"
  by (induction fs arcs rule: list_induct2) auto

lemma flow_exchange:
  assumes flows: "flow_at n source sink (zip arcs fs)" "flow_at n source sink (zip arcs gs)"
    and len: "length fs = length arcs" "length gs = length arcs"
    and st: "source < n" "sink < n" "source \<noteq> sink" and slack: "slack_ok k p (zip arcs fs)"
  shows "weight_of k (zip arcs fs) + (p source - p sink) * net_out (zip arcs fs) source \<le>
    weight_of k (zip arcs gs) + (p source - p sink) * net_out (zip arcs gs) source"
proof -
  have "\<forall>f\<in>set fs. f = 0 \<or> f = 1" if "flow_at n source sink (zip arcs fs)" "length fs = length arcs" for fs
    using zip_second[OF that(2), of "\<lambda>f. f = 0 \<or> f = 1"] that(1) by (simp add: flow_at_def)
  from slack_sum[OF len slack this[OF flows(1) len(1)] this[OF flows(2) len(2)]]
  show ?thesis by (simp only: net_out_sink[OF flows(1) st] net_out_sink[OF flows(2) st])
qed

section \<open>The loop on a graph of arcs\<close>

definition arc_cost :: "arc \<Rightarrow> int" where
  "arc_cost = (\<lambda>(u, v, c). c)"

lemma weight_of_zero [simp]: "weight_of (\<lambda>_. 0) xs = 0"
  by (simp add: weight_of_def case_prod_unfold)

lemma net_out_zero: "\<forall>(x, f)\<in>set xs. f = 0 \<Longrightarrow> net_out xs w = 0"
  by (induction xs) (auto simp: net_out_def)

lemma flow_done_best:
  assumes out: "laid_out g arcs addrs" and d: "flow_done g source sink h"
    and st: "source < length g" "sink < length g" "source \<noteq> sink"
  defines "fs \<equiv> map (flow_on h) addrs"
  shows "flow_at (length g) source sink (zip arcs fs)"
    and "flow_at (length g) source sink (zip arcs gs) \<Longrightarrow> length gs = length arcs \<Longrightarrow>
      net_out (zip arcs gs) source \<le> net_out (zip arcs fs) source \<and>
      (net_out (zip arcs gs) source = net_out (zip arcs fs) source \<longrightarrow>
        weight_of arc_cost (zip arcs fs) \<le> weight_of arc_cost (zip arcs gs))"
proof -
  have h: "paired h" "same_shape g h" using d by (simp_all add: flow_done_def)
  have g: "paired g" "same_shape g g" using out by (simp_all add: laid_out_def same_shape_refl)
  have len: "length arcs = length addrs" using out by (auto simp: laid_out_def list_all2_lengthD)
  then have len_fs: "length fs = length arcs" by (simp add: fs_def)
  have mem: "\<exists>a. ((u, v, c), a) \<in> set (zip arcs addrs) \<and> f = flow_on h a"
    if "((u, v, c), f) \<in> set (zip arcs fs)" for u v c f
    using that by (auto simp: fs_def zip_map2)
  have "f = 0" if "(x, f) \<in> set (zip arcs (map (flow_on g) addrs))" for x f
    using that laid_out_edge(6)[OF out] by (cases x) (auto simp: zip_map2 flow_on_def)
  then have start: "net_out (zip arcs (map (flow_on g) addrs)) w = 0" for w
    by (intro net_out_zero) auto
  show flow: "flow_at (length g) source sink (zip arcs fs)"
    unfolding flow_at_def
  proof (intro conjI allI impI)
    show "bounded_arcs (length g) (zip arcs fs)"
      unfolding bounded_arcs_def
    proof (intro ballI, clarify)
      fix u v c f assume "((u, v, c), f) \<in> set (zip arcs fs)"
      then obtain a where a: "((u, v, c), a) \<in> set (zip arcs addrs)" using mem by blast
      note e = laid_out_edge[OF out a]
      show "u < length g \<and> v < length g"
        using e edge_pairedD(1)[OF g(1) e(2,3)] by (auto simp: edge_at_def)
    qed
    show "\<forall>(x, f)\<in>set (zip arcs fs). f = 0 \<or> f = 1"
      using mem laid_out_flow(1)[OF out _ h(2,1)] by fastforce
    fix w assume w: "w < length g" "w \<noteq> source" "w \<noteq> sink"
    then have "node_capacity h w = node_capacity g w" using d by (simp add: flow_done_def)
    then show "net_out (zip arcs fs) w = 0"
      unfolding node_capacity_net_out[OF out w(1) h(2,1)] node_capacity_net_out[OF out w(1) g(2,1)]
      by (simp add: start fs_def)
  qed
  show "net_out (zip arcs gs) source \<le> net_out (zip arcs fs) source \<and>
      (net_out (zip arcs gs) source = net_out (zip arcs fs) source \<longrightarrow>
        weight_of arc_cost (zip arcs fs) \<le> weight_of arc_cost (zip arcs gs))"
    if gs: "flow_at (length g) source sink (zip arcs gs)" "length gs = length arcs"
  proof -
    let ?R = "reachable h source"
    have cut: "slack_ok (\<lambda>_. 0) (\<lambda>v. if v \<in> ?R then - 1 else 0) (zip arcs fs)"
      unfolding slack_ok_def
    proof (intro ballI, clarify)
      fix u v c f assume "((u, v, c), f) \<in> set (zip arcs fs)"
      then obtain a where a: "((u, v, c), a) \<in> set (zip arcs addrs)" "f = flow_on h a" using mem by blast
      note e = laid_out_flow[OF out a(1) h(2,1)]
      show "(f = 0 \<longrightarrow> 0 \<le> 0 + (if u \<in> ?R then - 1 else 0) - (if v \<in> ?R then - 1 else (0::int))) \<and>
        (f = 1 \<longrightarrow> 0 + (if u \<in> ?R then - 1 else 0) - (if v \<in> ?R then - 1 else (0::int)) \<le> 0)"
        using e(3-6) a(2) closed_reachable[of h source] unfolding closed_under_def by force
    qed
    obtain p where p: "feasible h p" using d by (auto simp: flow_done_def)
    have slack: "slack_ok arc_cost p (zip arcs fs)"
      unfolding slack_ok_def
    proof (intro ballI, clarify)
      fix u v c f assume "((u, v, c), f) \<in> set (zip arcs fs)"
      then obtain a where a: "((u, v, c), a) \<in> set (zip arcs addrs)" "f = flow_on h a" using mem by blast
      note e = laid_out_flow[OF out a(1) h(2,1)]
      have "f = 0 \<Longrightarrow> 0 \<le> c + p u - p v" "f = 1 \<Longrightarrow> 0 \<le> - c + p v - p u"
        using p e(3-8) a(2) unfolding feasible_def reduced_def by metis+
      then show "(f = 0 \<longrightarrow> 0 \<le> arc_cost (u, v, c) + p u - p v) \<and>
        (f = 1 \<longrightarrow> arc_cost (u, v, c) + p u - p v \<le> 0)"
        by (auto simp: arc_cost_def)
    qed
    have sink: "sink \<notin> ?R" using d by (simp add: flow_done_def)
    have "net_out (zip arcs gs) source \<le> net_out (zip arcs fs) source"
      using flow_exchange[OF flow gs(1) len_fs gs(2) st cut] sink by simp
    moreover have "weight_of arc_cost (zip arcs fs) \<le> weight_of arc_cost (zip arcs gs)"
      if "net_out (zip arcs gs) source = net_out (zip arcs fs) source"
      using flow_exchange[OF flow gs(1) len_fs gs(2) st slack] that by simp
    ultimately show ?thesis by blast
  qed
qed

end
