(* ===== verification/Optimal_Matching.thy ===== *)
theory Optimal_Matching
  imports Transaction_Matching
begin

text \<open>
  What \<open>_optimal_one_to_one_match\<close> of \<open>reconciliation/matcher.py\<close> finds. The flows of its network
  are the one-to-one assignments of candidates, the value of a flow is the number of pairs and its
  cost their total cost, so the flow that the loop leaves is a largest and, among these, cheapest
  assignment. The costs are numbers of a mixed radix system: comparing them compares the total
  qualities of two assignments lexicographically, down to the identifiers of the pairs.
\<close>

section \<open>Positions and identifiers\<close>

lemma position_nth: "x \<in> set xs \<Longrightarrow> position xs x < length xs \<and> xs ! position xs x = x"
  by (induction xs) (auto simp: position_def)

lemma position_inj: "x \<in> set xs \<Longrightarrow> y \<in> set xs \<Longrightarrow> position xs x = position xs y \<longleftrightarrow> x = y"
  using position_nth by metis

abbreviation left_id :: "candidate \<Rightarrow> string" where
  "left_id c \<equiv> tx_transaction_id (cd_left c)"

abbreviation right_id :: "candidate \<Rightarrow> string" where
  "right_id c \<equiv> tx_transaction_id (cd_right c)"

lemma left_ids_set [simp]: "set (left_ids cs) = left_id ` set cs" "distinct (left_ids cs)"
  by (simp_all add: left_ids_def)

lemma right_ids_set [simp]: "set (right_ids cs) = right_id ` set cs" "distinct (right_ids cs)"
  by (simp_all add: right_ids_def)

lemma left_ids_nonempty [simp]: "left_ids cs = [] \<longleftrightarrow> cs = []" "right_ids cs = [] \<longleftrightarrow> cs = []"
  by (metis left_ids_set(1) image_is_empty set_empty2, metis right_ids_set(1) image_is_empty set_empty2)

lemma left_position: "c \<in> set cs \<Longrightarrow> position (left_ids cs) (left_id c) < length (left_ids cs)"
  using position_nth[of "left_id c" "left_ids cs"] by simp

lemma right_position: "c \<in> set cs \<Longrightarrow> position (right_ids cs) (right_id c) < length (right_ids cs)"
  using position_nth[of "right_id c" "right_ids cs"] by simp

section \<open>The costs\<close>

definition candidate_ok :: "candidate \<Rightarrow> bool" where
  "candidate_ok c \<longleftrightarrow> (case cd_quality c of (k, r, p, a, d) \<Rightarrow>
     k \<le> 1 \<and> r \<le> 1 \<and> p \<le> 1 \<and> a = cd_amount_difference c \<and> d = cd_date_difference_days c)"

definition well_formed :: "candidate list \<Rightarrow> bool" where
  "well_formed cs \<longleftrightarrow> distinct (map cd_pair cs) \<and> list_all candidate_ok cs"

lemma foldl_updates:
  "foldl (\<lambda>m x. m(f x \<mapsto> g x)) m xs = m ++ map_of (rev (map (\<lambda>x. (f x, g x)) xs))"
  by (induction xs arbitrary: m) auto

lemma candidate_costs_at:
  assumes "distinct (map cd_pair cs)" and "c \<in> set cs"
  shows "candidate_costs cs (cd_pair c) = Some (candidate_cost cs c)"
proof -
  let ?ps = "map (\<lambda>c. (cd_pair c, candidate_cost cs c)) (sort_key cd_pair cs)"
  have "distinct (map cd_pair (sort_key cd_pair cs))"
    using assms(1) by (metis distinct_map distinct_sort set_sort)
  then have "map_of (rev ?ps) (cd_pair c) = Some (candidate_cost cs c)"
    using assms(2) by (intro map_of_is_SomeI) (auto simp: o_def simp flip: rev_map)
  then show ?thesis by (simp add: candidate_costs_def foldl_updates)
qed

lemma left_weight_pos: "0 < left_weight cs l"
  by (simp add: left_weight_def)

lemma left_weight_le_first: "c \<in> set cs \<Longrightarrow> left_weight cs (left_id c) \<le> left_weight cs (hd (left_ids cs))"
proof -
  assume c: "c \<in> set cs"
  then have "left_ids cs \<noteq> []" by auto
  then have "position (left_ids cs) (hd (left_ids cs)) = 0" by (cases "left_ids cs") (simp_all add: position_def)
  then show ?thesis unfolding left_weight_def by (simp add: power_increasing)
qed

text \<open>The summand that breaks ties lies between zero and the shift.\<close>

lemma stable_cost_bounds:
  assumes "c \<in> set cs"
  shows "0 \<le> stable_cost cs c" and "stable_cost cs c \<le> cw_shift (cost_weights_of cs)"
proof -
  let ?n = "int (length (right_ids cs))" and ?p = "int (position (right_ids cs) (right_id c))"
  let ?w = "left_weight cs (left_id c)"
  have p: "0 \<le> ?p" "?p \<le> ?n" using right_position[OF assms] by simp_all
  have shift: "cw_shift (cost_weights_of cs) = ?n * left_weight cs (hd (left_ids cs))"
    by (simp add: cost_weights_of_def Let_def)
  have "?n * ?w \<le> cw_shift (cost_weights_of cs)"
    unfolding shift using left_weight_le_first[OF assms] by (simp add: mult_left_mono)
  moreover have "(?n - ?p) * ?w \<le> ?n * ?w" using p left_weight_pos[of cs "left_id c"]
    by (simp add: mult_right_mono)
  ultimately show "0 \<le> stable_cost cs c" unfolding stable_cost_def by (simp add: algebra_simps)
  have "0 \<le> (?n - ?p) * ?w" using p left_weight_pos[of cs "left_id c"] by simp
  then show "stable_cost cs c \<le> cw_shift (cost_weights_of cs)"
    unfolding stable_cost_def by (simp add: algebra_simps)
qed

lemma weights_nonneg:
  "0 \<le> cw_shift (cost_weights_of cs)" "0 < cw_date (cost_weights_of cs)" "0 < cw_amount (cost_weights_of cs)"
  "0 < cw_counterparty (cost_weights_of cs)" "0 < cw_reference (cost_weights_of cs)"
  "0 < cw_classification (cost_weights_of cs)"
  using left_weight_pos[of cs "hd (left_ids cs)"]
  by (simp_all add: cost_weights_of_def Let_def add_nonneg_pos zero_less_mult_iff add_pos_nonneg)

lemma candidate_cost_nonneg: "c \<in> set cs \<Longrightarrow> 0 \<le> candidate_cost cs c"
  using stable_cost_bounds(1)[of c cs] weights_nonneg[of cs]
  by (auto simp: candidate_cost_def split: prod.splits intro!: add_nonneg_nonneg mult_nonneg_nonneg)

section \<open>The network of the candidates\<close>

definition source_arcs :: "candidate list \<Rightarrow> arc list" where
  "source_arcs cs = map (\<lambda>l. (0, 1 + position (left_ids cs) l, 0)) (left_ids cs)"

definition sink_node :: "candidate list \<Rightarrow> nat" where
  "sink_node cs = 1 + length (left_ids cs) + length (right_ids cs)"

definition sink_arcs :: "candidate list \<Rightarrow> arc list" where
  "sink_arcs cs = map (\<lambda>r. (1 + length (left_ids cs) + position (right_ids cs) r, sink_node cs, 0)) (right_ids cs)"

definition ordered :: "candidate list \<Rightarrow> candidate list" where
  "ordered cs = sort_key cd_pair cs"

definition pair_arcs :: "candidate list \<Rightarrow> arc list" where
  "pair_arcs cs = map (candidate_arc cs) (ordered cs)"

definition network_arcs :: "candidate list \<Rightarrow> arc list" where
  "network_arcs cs = source_arcs cs @ sink_arcs cs @ pair_arcs cs"

lemma ordered_set [simp]: "set (ordered cs) = set cs"
  by (simp add: ordered_def)

lemma ordered_distinct: "well_formed cs \<Longrightarrow> distinct (ordered cs)"
  by (simp add: ordered_def well_formed_def distinct_map)

lemma candidate_arc_eq:
  assumes "well_formed cs" and "c \<in> set cs"
  shows "candidate_arc cs c = (1 + position (left_ids cs) (left_id c),
    1 + length (left_ids cs) + position (right_ids cs) (right_id c), candidate_cost cs c)"
  using candidate_costs_at[of cs c] assms by (simp add: candidate_arc_def well_formed_def)

lemma pair_arcs_eq:
  assumes "well_formed cs"
  shows "pair_arcs cs = map (\<lambda>c. (1 + position (left_ids cs) (left_id c),
    1 + length (left_ids cs) + position (right_ids cs) (right_id c), candidate_cost cs c)) (ordered cs)"
  unfolding pair_arcs_def by (rule map_cong) (use candidate_arc_eq[OF assms] in auto)

lemma network_arcs_proper:
  assumes "well_formed cs"
  shows "list_all (proper_arc (sink_node cs + 1)) (network_arcs cs)"
  using position_nth[of _ "left_ids cs"] position_nth[of _ "right_ids cs"]
  unfolding network_arcs_def pair_arcs_eq[OF assms]
  by (force simp: source_arcs_def sink_arcs_def sink_node_def proper_arc_def list_all_iff)

lemma network_arcs_costs:
  assumes "well_formed cs" and "(u, v, k) \<in> set (network_arcs cs)"
  shows "0 \<le> k"
  using assms(2) candidate_cost_nonneg[of _ cs]
  unfolding network_arcs_def pair_arcs_eq[OF assms(1)]
  by (auto simp: source_arcs_def sink_arcs_def)

text \<open>At the start only the edges of the arcs have capacity.\<close>

lemma laid_out_live:
  assumes out: "laid_out g arcs addrs" and live: "live g u i"
  shows "\<exists>v c. (u, v, c) \<in> set arcs \<and> fe_cost (g ! u ! i) = c"
proof -
  have paired: "paired g" and len: "length arcs = length addrs"
    using out by (auto simp: laid_out_def list_all2_lengthD)
  have arc: "\<exists>x. (x, a) \<in> set (zip arcs addrs)" if "a \<in> set addrs" for a
    using that len by (metis in_set_impl_in_set_zip2)
  have "(u, i) \<in> set (addrs @ map (partner g) addrs)"
    using out live by (simp only: laid_out_def live_def) simp
  then consider "(u, i) \<in> set addrs" | a where "a \<in> set addrs" "(u, i) = partner g a" by auto
  then show ?thesis
  proof cases
    case 1
    then obtain w v c where mem: "((w, v, c), (u, i)) \<in> set (zip arcs addrs)" using arc by fastforce
    then show ?thesis
      using laid_out_edge[OF out mem] by (auto simp: edge_at_def dest: set_zip_leftD)
  next
    case 2
    then obtain w v c where mem: "((w, v, c), a) \<in> set (zip arcs addrs)" using arc by fastforce
    have "fe_capacity (edge_at g (u, i)) = 0"
      using laid_out_flow(2)[OF out mem same_shape_refl paired] laid_out_edge(6)[OF out mem] 2
      by (simp add: flow_on_def)
    then show ?thesis using live by (simp add: live_def edge_at_def)
  qed
qed

text \<open>The graph of the code is laid out by these arcs.\<close>

lemma network_laid_out:
  assumes ok: "well_formed cs"
  obtains g1 g2 g as bs addrs where
    "add_arcs (source_arcs cs) (replicate (sink_node cs + 1) []) = (g1, as)"
    "add_arcs (sink_arcs cs) g1 = (g2, bs)" "add_arcs (pair_arcs cs) g2 = (g, addrs)"
    "laid_out g (network_arcs cs) (as @ bs @ addrs)" "length g = sink_node cs + 1"
    "length as = length (left_ids cs)" "length bs = length (right_ids cs)" "length addrs = length cs"
proof -
  let ?g0 = "replicate (sink_node cs + 1) [] :: flow_graph"
  obtain g1 as where 1: "add_arcs (source_arcs cs) ?g0 = (g1, as)" by (cases "add_arcs (source_arcs cs) ?g0")
  obtain g2 bs where 2: "add_arcs (sink_arcs cs) g1 = (g2, bs)" by (cases "add_arcs (sink_arcs cs) g1")
  obtain g addrs where 3: "add_arcs (pair_arcs cs) g2 = (g, addrs)" by (cases "add_arcs (pair_arcs cs) g2")
  have proper: "list_all (proper_arc (sink_node cs + 1)) (source_arcs cs)"
    "list_all (proper_arc (sink_node cs + 1)) (sink_arcs cs)"
    "list_all (proper_arc (sink_node cs + 1)) (pair_arcs cs)"
    using network_arcs_proper[OF ok] by (simp_all add: network_arcs_def)
  have o1: "laid_out g1 (source_arcs cs) as" "length g1 = sink_node cs + 1" "length as = length (left_ids cs)"
    using add_arcs_laid_out[OF laid_out_empty _ 1] proper(1) by (simp_all add: source_arcs_def)
  have o2: "laid_out g2 (source_arcs cs @ sink_arcs cs) (as @ bs)" "length g2 = sink_node cs + 1"
    "length bs = length (right_ids cs)"
    using add_arcs_laid_out[OF o1(1) _ 2] proper(2) o1(2) by (simp_all add: sink_arcs_def)
  have "laid_out g (network_arcs cs) (as @ bs @ addrs)" "length g = sink_node cs + 1" "length addrs = length cs"
    using add_arcs_laid_out[OF o2(1) _ 3] proper(3) o2(2) by (simp_all add: network_arcs_def pair_arcs_def ordered_def)
  then show ?thesis using that 1 2 3 o1(3) o2(3) by blast
qed

section \<open>Assignments as flows\<close>

text \<open>A flow on the three groups of arcs.\<close>

definition network_flow ::
    "candidate list \<Rightarrow> (string \<Rightarrow> int) \<Rightarrow> (string \<Rightarrow> int) \<Rightarrow> (candidate \<Rightarrow> int) \<Rightarrow> (arc \<times> int) list" where
  "network_flow cs F G H =
     zip (network_arcs cs) (map F (left_ids cs) @ map G (right_ids cs) @ map H (ordered cs))"

lemma network_flow_eq:
  assumes "well_formed cs"
  shows "network_flow cs F G H =
    map (\<lambda>l. ((0, 1 + position (left_ids cs) l, 0), F l)) (left_ids cs) @
    map (\<lambda>r. ((1 + length (left_ids cs) + position (right_ids cs) r, sink_node cs, 0), G r)) (right_ids cs) @
    map (\<lambda>c. ((1 + position (left_ids cs) (left_id c),
      1 + length (left_ids cs) + position (right_ids cs) (right_id c), candidate_cost cs c), H c)) (ordered cs)"
  unfolding network_flow_def network_arcs_def pair_arcs_eq[OF assms]
  by (simp add: source_arcs_def sink_arcs_def zip_map_map zip_same_conv_map o_def)

lemma net_out_append: "net_out (xs @ ys) w = net_out xs w + net_out ys w"
  by (simp add: net_out_def)

lemma net_out_map:
  assumes "distinct xs"
  shows "net_out (map (\<lambda>x. ((u x, v x, k x), f x)) xs) w =
    (\<Sum>x\<in>set xs. f x * ((if u x = w then 1 else 0) - (if v x = w then 1 else 0)))"
  using assms by (simp add: net_out_def o_def sum_list_distinct_conv_sum_set)

lemma net_out_network:
  assumes ok: "well_formed cs"
  shows "net_out (network_flow cs F G H) w =
    (\<Sum>l\<in>left_id ` set cs. F l * ((if w = 0 then 1 else 0) - (if 1 + position (left_ids cs) l = w then 1 else 0))) +
    (\<Sum>r\<in>right_id ` set cs. G r * ((if 1 + length (left_ids cs) + position (right_ids cs) r = w then 1 else 0) -
       (if sink_node cs = w then 1 else 0))) +
    (\<Sum>c\<in>set cs. H c * ((if 1 + position (left_ids cs) (left_id c) = w then 1 else 0) -
       (if 1 + length (left_ids cs) + position (right_ids cs) (right_id c) = w then 1 else 0)))"
  unfolding network_flow_eq[OF ok] net_out_append
  using ordered_distinct[OF ok] by (simp add: net_out_map eq_commute[of 0 w])

lemma position_at: "distinct xs \<Longrightarrow> k < length xs \<Longrightarrow> position xs (xs ! k) = k"
  using position_nth[of "xs ! k" xs] nth_eq_iff_index_eq[of xs "position xs (xs ! k)" k] by simp

definition left_node :: "candidate list \<Rightarrow> string \<Rightarrow> nat" where
  "left_node cs l = 1 + position (left_ids cs) l"

definition right_node :: "candidate list \<Rightarrow> string \<Rightarrow> nat" where
  "right_node cs r = 1 + length (left_ids cs) + position (right_ids cs) r"

lemma left_node_simps:
  assumes "l \<in> left_id ` set cs"
  shows "left_node cs l \<noteq> 0" "left_node cs l \<noteq> sink_node cs" "left_node cs l \<noteq> right_node cs r"
    "left_node cs l < sink_node cs"
    "l' \<in> left_id ` set cs \<Longrightarrow> left_node cs l' = left_node cs l \<longleftrightarrow> l' = l"
  using assms position_nth[of l "left_ids cs"] position_inj[of l' "left_ids cs" l]
  by (auto simp: left_node_def right_node_def sink_node_def)

lemma right_node_simps:
  assumes "r \<in> right_id ` set cs"
  shows "right_node cs r \<noteq> 0" "right_node cs r \<noteq> sink_node cs" "right_node cs r < sink_node cs"
    "r' \<in> right_id ` set cs \<Longrightarrow> right_node cs r' = right_node cs r \<longleftrightarrow> r' = r"
  using assms position_nth[of r "right_ids cs"] position_inj[of r' "right_ids cs" r]
  by (auto simp: right_node_def sink_node_def)

lemmas net_out_nodes = net_out_network[folded left_node_def right_node_def]

lemma net_out_source:
  assumes "well_formed cs"
  shows "net_out (network_flow cs F G H) 0 = (\<Sum>l\<in>left_id ` set cs. F l)"
  unfolding net_out_network[OF assms] by (simp add: sink_node_def)

lemma net_out_left:
  assumes ok: "well_formed cs" and l: "l \<in> left_id ` set cs"
  shows "net_out (network_flow cs F G H) (left_node cs l) =
    (\<Sum>c\<in>set cs. if left_id c = l then H c else 0) - F l"
proof -
  note n = left_node_simps[OF l]
  have "(\<Sum>k\<in>left_id ` set cs. F k * ((if left_node cs l = 0 then 1 else 0) -
      (if left_node cs k = left_node cs l then 1 else 0))) = (\<Sum>k\<in>left_id ` set cs. if k = l then - F l else 0)"
    using n by (intro sum.cong) auto
  moreover have "(\<Sum>r\<in>right_id ` set cs. G r * ((if right_node cs r = left_node cs l then 1 else 0) -
      (if sink_node cs = left_node cs l then 1 else 0))) = 0"
    using n(2,3) by (intro sum.neutral) (metis mult_zero_right diff_self)
  moreover have "(\<Sum>c\<in>set cs. H c * ((if left_node cs (left_id c) = left_node cs l then 1 else 0) -
      (if right_node cs (right_id c) = left_node cs l then 1 else 0))) =
      (\<Sum>c\<in>set cs. if left_id c = l then H c else 0)"
    using n(3)[symmetric] n(5) by (intro sum.cong) auto
  ultimately show ?thesis
    unfolding net_out_nodes[OF ok] using l by simp
qed

lemma net_out_right:
  assumes ok: "well_formed cs" and r: "r \<in> right_id ` set cs"
  shows "net_out (network_flow cs F G H) (right_node cs r) =
    G r - (\<Sum>c\<in>set cs. if right_id c = r then H c else 0)"
proof -
  note n = right_node_simps[OF r]
  have "(\<Sum>k\<in>left_id ` set cs. F k * ((if right_node cs r = 0 then 1 else 0) -
      (if left_node cs k = right_node cs r then 1 else 0))) = 0"
    using n(1) left_node_simps(3)[of _ cs r] by (intro sum.neutral) auto
  moreover have "(\<Sum>s\<in>right_id ` set cs. G s * ((if right_node cs s = right_node cs r then 1 else 0) -
      (if sink_node cs = right_node cs r then 1 else 0))) = (\<Sum>s\<in>right_id ` set cs. if s = r then G r else 0)"
    using n(2,4) by (intro sum.cong) auto
  moreover have "(\<Sum>c\<in>set cs. H c * ((if left_node cs (left_id c) = right_node cs r then 1 else 0) -
      (if right_node cs (right_id c) = right_node cs r then 1 else 0))) =
      (\<Sum>c\<in>set cs. - (if right_id c = r then H c else 0))"
    using n(4) left_node_simps(3)[of _ cs r] by (intro sum.cong) auto
  ultimately show ?thesis
    unfolding net_out_nodes[OF ok] using r by (simp add: sum_negf)
qed

lemma inner_node:
  assumes "w < sink_node cs + 1" and "w \<noteq> 0" and "w \<noteq> sink_node cs"
  shows "(\<exists>l\<in>left_id ` set cs. w = left_node cs l) \<or> (\<exists>r\<in>right_id ` set cs. w = right_node cs r)"
proof (cases "w - 1 < length (left_ids cs)")
  case True
  then have "left_ids cs ! (w - 1) \<in> set (left_ids cs)" by (rule nth_mem)
  moreover have "w = left_node cs (left_ids cs ! (w - 1))"
    using True assms(2) position_at[OF _ True] by (simp add: left_node_def)
  ultimately show ?thesis by auto
next
  case False
  let ?k = "w - 1 - length (left_ids cs)"
  have k: "?k < length (right_ids cs)" using False assms by (simp add: sink_node_def)
  then have "right_ids cs ! ?k \<in> set (right_ids cs)" by (rule nth_mem)
  moreover have "w = right_node cs (right_ids cs ! ?k)"
    using False assms(2) position_at[OF _ k] by (simp add: right_node_def)
  ultimately show ?thesis by auto
qed

text \<open>The conditions on a flow, in terms of the candidates.\<close>

definition unit_valued :: "('a \<Rightarrow> int) \<Rightarrow> 'a set \<Rightarrow> bool" where
  "unit_valued F X \<longleftrightarrow> (\<forall>x\<in>X. F x = 0 \<or> F x = 1)"

lemma flow_at_network:
  assumes ok: "well_formed cs"
  shows "flow_at (sink_node cs + 1) 0 (sink_node cs) (network_flow cs F G H) \<longleftrightarrow>
    unit_valued F (left_id ` set cs) \<and> unit_valued G (right_id ` set cs) \<and> unit_valued H (set cs) \<and>
    (\<forall>l\<in>left_id ` set cs. F l = (\<Sum>c\<in>set cs. if left_id c = l then H c else 0)) \<and>
    (\<forall>r\<in>right_id ` set cs. G r = (\<Sum>c\<in>set cs. if right_id c = r then H c else 0))"
proof -
  have bounded: "bounded_arcs (sink_node cs + 1) (network_flow cs F G H)"
    using network_arcs_proper[OF ok] unfolding bounded_arcs_def network_flow_def
    by (auto simp: list_all_iff proper_arc_def dest!: set_zip_leftD)
  have units: "(\<forall>(x, f)\<in>set (network_flow cs F G H). f = 0 \<or> f = 1) \<longleftrightarrow>
      unit_valued F (left_id ` set cs) \<and> unit_valued G (right_id ` set cs) \<and> unit_valued H (set cs)"
    unfolding network_flow_eq[OF ok] unit_valued_def by (simp add: ball_Un)
  have nodes: "(\<forall>w<sink_node cs + 1. w \<noteq> 0 \<longrightarrow> w \<noteq> sink_node cs \<longrightarrow> P w) \<longleftrightarrow>
      (\<forall>l\<in>left_id ` set cs. P (left_node cs l)) \<and> (\<forall>r\<in>right_id ` set cs. P (right_node cs r))" for P
    using inner_node[of _ cs] left_node_simps(1,2,4)[of _ cs] right_node_simps(1,2,3)[of _ cs]
    by (metis less_Suc_eq Suc_eq_plus1)
  show ?thesis
    unfolding flow_at_def nodes units using bounded
    by (auto simp: net_out_left[OF ok] net_out_right[OF ok])
qed

definition one_to_one :: "candidate set \<Rightarrow> bool" where
  "one_to_one M \<longleftrightarrow> inj_on left_id M \<and> inj_on right_id M"

lemma sum_once:
  assumes "finite X" and "M \<subseteq> X" and "inj_on f M"
  shows "(\<Sum>c\<in>X. if f c = y then of_bool (c \<in> M) else 0 :: int) = of_bool (y \<in> f ` M)"
proof (cases "y \<in> f ` M")
  case True
  then obtain x where x: "x \<in> M" "f x = y" by auto
  have "(\<Sum>c\<in>X. if f c = y then of_bool (c \<in> M) else 0 :: int) = (\<Sum>c\<in>X. if c = x then 1 else 0)"
    using x assms(2,3) by (intro sum.cong) (auto dest: inj_onD)
  then show ?thesis using True assms(1,2) x(1) by auto
next
  case False
  then show ?thesis by (auto intro!: sum.neutral)
qed

lemma inj_on_sum:
  fixes f :: "'a \<Rightarrow> 'b" and H :: "'a \<Rightarrow> int"
  assumes "finite X" and "unit_valued H X" and "\<And>y. y \<in> f ` X \<Longrightarrow> (\<Sum>c\<in>X. if f c = y then H c else 0) \<le> (1::int)"
  shows "inj_on f {c \<in> X. H c = 1}"
proof (rule inj_onI, rule ccontr)
  fix c d assume c: "c \<in> {c \<in> X. H c = 1}" "d \<in> {c \<in> X. H c = 1}" "f c = f d" "c \<noteq> d"
  let ?G = "\<lambda>x. if f x = f c then H x else 0"
  have "sum ?G {c, d} \<le> sum ?G X"
    using assms(1,2) c by (intro sum_mono2) (auto simp: unit_valued_def)
  also have "\<dots> \<le> 1" using assms(3)[of "f c"] c by simp
  finally show False using c by simp
qed

lemma sum_fibres:
  "finite X \<Longrightarrow> (\<Sum>y\<in>f ` X. \<Sum>c\<in>X. if f c = y then H c else 0 :: int) = sum H X"
  by (subst sum.swap) simp

lemma sum_units:
  "finite X \<Longrightarrow> unit_valued H X \<Longrightarrow> (\<Sum>c\<in>X. k c * H c) = (\<Sum>c\<in>{c \<in> X. H c = 1}. k c)"
  by (rule sum.mono_neutral_cong_right) (auto simp: unit_valued_def)

lemma weight_network:
  assumes "well_formed cs"
  shows "weight_of arc_cost (network_flow cs F G H) = (\<Sum>c\<in>set cs. candidate_cost cs c * H c)"
  unfolding network_flow_eq[OF assms] weight_of_def
  using ordered_distinct[OF assms]
  by (simp add: o_def arc_cost_def sum_list_distinct_conv_sum_set)

lemma flow_of_assignment:
  assumes ok: "well_formed cs" and M: "M \<subseteq> set cs" "one_to_one M"
  defines "xs \<equiv> network_flow cs (\<lambda>l. of_bool (l \<in> left_id ` M)) (\<lambda>r. of_bool (r \<in> right_id ` M))
    (\<lambda>c. of_bool (c \<in> M))"
  shows "flow_at (sink_node cs + 1) 0 (sink_node cs) xs" and "net_out xs 0 = int (card M)"
    and "weight_of arc_cost xs = (\<Sum>c\<in>M. candidate_cost cs c)"
proof -
  have inj: "inj_on left_id M" "inj_on right_id M" using M(2) by (simp_all add: one_to_one_def)
  show "flow_at (sink_node cs + 1) 0 (sink_node cs) xs"
    unfolding xs_def flow_at_network[OF ok]
    by (simp add: unit_valued_def sum_once[OF _ M(1) inj(1)] sum_once[OF _ M(1) inj(2)])
  have "(\<Sum>l\<in>left_id ` set cs. of_bool (l \<in> left_id ` M) :: int) =
      (\<Sum>l\<in>left_id ` set cs. \<Sum>c\<in>set cs. if left_id c = l then of_bool (c \<in> M) else 0)"
    by (simp add: sum_once[OF _ M(1) inj(1)])
  also have "\<dots> = (\<Sum>c\<in>set cs. of_bool (c \<in> M))" by (rule sum_fibres) simp
  also have "\<dots> = int (card M)" using M(1) by (simp add: Int_absorb1)
  finally show "net_out xs 0 = int (card M)" by (simp add: xs_def net_out_source[OF ok])
  have "{c \<in> set cs. (of_bool (c \<in> M) :: int) = 1} = M" using M(1) by auto
  then show "weight_of arc_cost xs = (\<Sum>c\<in>M. candidate_cost cs c)"
    unfolding xs_def weight_network[OF ok] by (subst sum_units) (simp_all add: unit_valued_def)
qed

lemma assignment_of_flow:
  assumes ok: "well_formed cs"
    and flow: "flow_at (sink_node cs + 1) 0 (sink_node cs) (network_flow cs F G H)"
  defines "M \<equiv> {c \<in> set cs. H c = 1}"
  shows "one_to_one M" and "net_out (network_flow cs F G H) 0 = int (card M)"
    and "weight_of arc_cost (network_flow cs F G H) = (\<Sum>c\<in>M. candidate_cost cs c)"
proof -
  have u: "unit_valued F (left_id ` set cs)" "unit_valued G (right_id ` set cs)" "unit_valued H (set cs)"
    and l: "\<And>l. l \<in> left_id ` set cs \<Longrightarrow> F l = (\<Sum>c\<in>set cs. if left_id c = l then H c else 0)"
    and r: "\<And>r. r \<in> right_id ` set cs \<Longrightarrow> G r = (\<Sum>c\<in>set cs. if right_id c = r then H c else 0)"
    using flow unfolding flow_at_network[OF ok] by blast+
  have "F l \<le> 1" if "l \<in> left_id ` set cs" for l using u(1) that by (auto simp: unit_valued_def)
  moreover have "G r \<le> 1" if "r \<in> right_id ` set cs" for r using u(2) that by (auto simp: unit_valued_def)
  ultimately show "one_to_one M"
    unfolding one_to_one_def M_def using inj_on_sum[of "set cs" H left_id] inj_on_sum[of "set cs" H right_id] u(3) l r
    by simp
  have "net_out (network_flow cs F G H) 0 = (\<Sum>c\<in>set cs. H c)"
    unfolding net_out_source[OF ok] using l sum_fibres[of "set cs" left_id H] by simp
  also have "\<dots> = int (card M)"
    using sum_units[OF _ u(3), of "\<lambda>_. 1"] by (simp add: M_def)
  finally show "net_out (network_flow cs F G H) 0 = int (card M)" .
  show "weight_of arc_cost (network_flow cs F G H) = (\<Sum>c\<in>M. candidate_cost cs c)"
    unfolding weight_network[OF ok] M_def by (rule sum_units) (use u(3) in simp_all)
qed

section \<open>The result is a largest and cheapest assignment\<close>

lemma map_of_distinct:
  "distinct xs \<Longrightarrow> length ys = length xs \<Longrightarrow> \<exists>F. map F xs = ys"
  by (intro exI[of _ "\<lambda>x. ys ! position xs x"] nth_equalityI) (simp_all add: position_at)

lemma filter_zip_flow:
  "length xs = length ys \<Longrightarrow> map H xs = map K ys \<Longrightarrow>
     map fst (filter (\<lambda>(x, y). K y = (1::int)) (zip xs ys)) = filter (\<lambda>x. H x = 1) xs"
  by (induction xs ys rule: list_induct2) auto

definition cheapest_assignment :: "candidate list \<Rightarrow> candidate list \<Rightarrow> bool" where
  "cheapest_assignment cs ms \<longleftrightarrow> distinct ms \<and> sorted (map cd_pair ms) \<and> set ms \<subseteq> set cs \<and> one_to_one (set ms) \<and>
     (\<forall>M \<subseteq> set cs. one_to_one M \<longrightarrow> card M \<le> length ms \<and>
        (card M = length ms \<longrightarrow> (\<Sum>c\<in>set ms. candidate_cost cs c) \<le> (\<Sum>c\<in>M. candidate_cost cs c)))"

lemma match_unfold:
  "cs \<noteq> [] \<Longrightarrow> optimal_one_to_one_match cs =
     (let (g, _) = add_arcs (source_arcs cs) (replicate (sink_node cs + 1) []);
          (g, _) = add_arcs (sink_arcs cs) g;
          (g, addrs) = add_arcs (pair_arcs cs) g
      in Option.bind (flow_loop 0 (sink_node cs) (replicate (length g) 0) g) (\<lambda>r.
         case r of Inl e \<Rightarrow> Some (Inl e)
         | Inr g \<Rightarrow> Some (Inr (sort_key cd_pair
             (map fst (filter (\<lambda>(c, a). fe_capacity (edge_at g a) = 0) (zip (ordered cs) addrs)))))))"
  unfolding optimal_one_to_one_match_def source_arcs_def sink_arcs_def pair_arcs_def sink_node_def
    ordered_def Let_def by simp

lemma match_cheapest:
  assumes ok: "well_formed cs"
  shows "\<exists>ms. optimal_one_to_one_match cs = Some (Inr ms) \<and> cheapest_assignment cs ms"
proof (cases "cs = []")
  case True
  then show ?thesis
    by (simp add: optimal_one_to_one_match_def cheapest_assignment_def one_to_one_def)
next
  case False
  obtain g1 g2 g as bs addrs where adds:
      "add_arcs (source_arcs cs) (replicate (sink_node cs + 1) []) = (g1, as)"
      "add_arcs (sink_arcs cs) g1 = (g2, bs)" "add_arcs (pair_arcs cs) g2 = (g, addrs)"
    and out: "laid_out g (network_arcs cs) (as @ bs @ addrs)" and len: "length g = sink_node cs + 1"
    and lens: "length as = length (left_ids cs)" "length bs = length (right_ids cs)" "length addrs = length cs"
    using network_laid_out[OF ok] .
  have st: "0 < length g" "sink_node cs < length g" "0 \<noteq> sink_node cs"
    using len by (simp_all add: sink_node_def)
  have "paired g" using out by (simp add: laid_out_def)
  moreover have "0 \<le> fe_cost (g ! u ! i)" if "live g u i" for u i
    using laid_out_live[OF out that] network_arcs_costs[OF ok] by blast
  ultimately obtain h where h: "flow_loop 0 (sink_node cs) (replicate (length g) 0) g = Some (Inr h)"
    "flow_done g 0 (sink_node cs) h"
    using flow_loop_start[of g 0 "sink_node cs"] st by blast
  obtain F where F: "map F (left_ids cs) = map (flow_on h) as"
    using map_of_distinct[of "left_ids cs" "map (flow_on h) as"] lens by auto
  obtain G where G: "map G (right_ids cs) = map (flow_on h) bs"
    using map_of_distinct[of "right_ids cs" "map (flow_on h) bs"] lens by auto
  obtain H where H: "map H (ordered cs) = map (flow_on h) addrs"
    using map_of_distinct[of "ordered cs" "map (flow_on h) addrs"] lens ordered_distinct[OF ok]
    by (auto simp: ordered_def)
  have flows: "zip (network_arcs cs) (map (flow_on h) (as @ bs @ addrs)) = network_flow cs F G H"
    by (simp add: network_flow_def F G H)
  note best = flow_done_best[OF out h(2) st, unfolded flows len]
  let ?M = "{c \<in> set cs. H c = 1}"
  note M = assignment_of_flow[OF ok best(1)]
  define ms where "ms = sort_key cd_pair (filter (\<lambda>c. H c = 1) (ordered cs))"
  have set_ms: "set ms = ?M" by (auto simp: ms_def)
  have distinct_ms: "distinct ms" using ordered_distinct[OF ok] by (simp add: ms_def)
  have result: "optimal_one_to_one_match cs = Some (Inr ms)"
  proof -
    have "map fst (filter (\<lambda>(c, a). fe_capacity (edge_at h a) = 0) (zip (ordered cs) addrs)) =
        filter (\<lambda>c. H c = 1) (ordered cs)"
      using filter_zip_flow[OF _ H] lens by (simp add: flow_on_def ordered_def)
    then show ?thesis
      using False adds h(1) by (simp add: match_unfold ms_def)
  qed
  have "card N \<le> length ms \<and>
      (card N = length ms \<longrightarrow> (\<Sum>c\<in>set ms. candidate_cost cs c) \<le> (\<Sum>c\<in>N. candidate_cost cs c))"
    if N: "N \<subseteq> set cs" "one_to_one N" for N
  proof -
    note f = flow_of_assignment[OF ok N]
    have "length (map (\<lambda>l. of_bool (l \<in> left_id ` N)) (left_ids cs) @
      map (\<lambda>r. of_bool (r \<in> right_id ` N)) (right_ids cs) @ map (\<lambda>c. of_bool (c \<in> N)) (ordered cs) :: int list)
      = length (network_arcs cs)"
      by (simp add: network_arcs_def source_arcs_def sink_arcs_def pair_arcs_def)
    from best(2)[OF f(1)[unfolded network_flow_def] this] distinct_ms
    show ?thesis
      using f(2,3) M(2,3) by (simp add: network_flow_def set_ms distinct_card[symmetric, of ms])
  qed
  then have "cheapest_assignment cs ms"
    using distinct_ms M(1) unfolding cheapest_assignment_def set_ms by (auto simp: ms_def)
  with result show ?thesis by blast
qed

section \<open>The order on assignments that the costs encode\<close>

text \<open>The rank of the transaction that an assignment gives a left one; unassigned ones come last.\<close>

definition partner_rank :: "candidate list \<Rightarrow> candidate set \<Rightarrow> string \<Rightarrow> nat" where
  "partner_rank cs M l = Min (insert (length (right_ids cs))
     ((\<lambda>c. position (right_ids cs) (right_id c)) ` {c \<in> M. left_id c = l}))"

definition quality_totals :: "candidate set \<Rightarrow> nat list" where
  "quality_totals M =
     [\<Sum>c\<in>M. fst (cd_quality c), \<Sum>c\<in>M. fst (snd (cd_quality c)), \<Sum>c\<in>M. fst (snd (snd (cd_quality c))),
      \<Sum>c\<in>M. cd_amount_difference c, \<Sum>c\<in>M. cd_date_difference_days c]"

definition preference :: "candidate list \<Rightarrow> candidate set \<Rightarrow> nat list" where
  "preference cs M = quality_totals M @ map (partner_rank cs M) (left_ids cs)"

fun tie_value :: "nat \<Rightarrow> nat list \<Rightarrow> int" where
  "tie_value n [] = 0"
| "tie_value n (r # rs) = (int n - int r) * int (n + 1) ^ length rs + tie_value n rs"

lemma tie_value_bounds: "list_all (\<lambda>r. r \<le> n) rs \<Longrightarrow> 0 \<le> tie_value n rs \<and> tie_value n rs < int (n + 1) ^ length rs"
proof (induction rs)
  case (Cons r rs)
  define b where "b = int (n + 1) ^ length rs"
  have b: "0 < b" "int (n + 1) ^ length (r # rs) = int n * b + b" by (simp_all add: b_def algebra_simps)
  have "(int n - int r) * b \<le> int n * b" using b(1) by (simp add: mult_right_mono)
  moreover have "0 \<le> (int n - int r) * b" using Cons.prems b(1) by simp
  moreover have "0 \<le> tie_value n rs" "tie_value n rs < b" using Cons by (simp_all add: b_def)
  ultimately show ?case unfolding b(2) tie_value.simps unfolding b_def[symmetric] by linarith
qed simp

lemma radix_less:
  fixes a b a' b' w :: int
  assumes "0 \<le> b" "b < w" "0 \<le> b'" "b' < w"
  shows "a * w + b < a' * w + b' \<longleftrightarrow> a < a' \<or> a = a' \<and> b < b'"
proof -
  have less: "x * w + y < x' * w + y'" if "x < x'" "y < w" "0 \<le> y'" for x y x' y'
  proof -
    have "x * w + w \<le> x' * w" using that(1) assms(1,2) mult_right_mono[of "x + 1" x' w]
      by (simp add: algebra_simps)
    then show ?thesis using that by linarith
  qed
  show ?thesis
    using less[of a a' b b'] less[of a' a b' b] assms by (cases a a' rule: linorder_cases) auto
qed

lemma tie_value_less:
  "length rs = length ss \<Longrightarrow> list_all (\<lambda>r. r \<le> n) rs \<Longrightarrow> list_all (\<lambda>r. r \<le> n) ss \<Longrightarrow>
     tie_value n ss < tie_value n rs \<longleftrightarrow> rs < ss"
proof (induction rs ss rule: list_induct2)
  case (Cons r rs s ss)
  let ?w = "int (n + 1) ^ length rs"
  have "tie_value n (s # ss) < tie_value n (r # rs) \<longleftrightarrow>
      int n - int s < int n - int r \<or> int n - int s = int n - int r \<and> tie_value n ss < tie_value n rs"
    using radix_less[of "tie_value n ss" ?w "tie_value n rs" "int n - int s" "int n - int r"]
      tie_value_bounds[of n rs] tie_value_bounds[of n ss] Cons by simp
  then show ?case using Cons by auto
qed simp

section \<open>Comparing costs is comparing preferences\<close>

lemma assignment_small:
  assumes "one_to_one M" and "M \<subseteq> set cs"
  shows "card M \<le> min (length (left_ids cs)) (length (right_ids cs))" and "finite M"
proof -
  have "card M = card (left_id ` M)" "card M = card (right_id ` M)"
    using assms(1) by (simp_all add: one_to_one_def card_image)
  moreover have "card (left_id ` M) \<le> card (set (left_ids cs))" "card (right_id ` M) \<le> card (set (right_ids cs))"
    using assms(2) by (auto intro!: card_mono)
  ultimately show "card M \<le> min (length (left_ids cs)) (length (right_ids cs))"
    by (simp add: distinct_card del: left_ids_set(1) right_ids_set(1))
  show "finite M" using assms(2) by (rule finite_subset) simp
qed

lemma sum_at_most:
  fixes f :: "'a \<Rightarrow> int"
  assumes "finite M" and "\<And>c. c \<in> M \<Longrightarrow> f c \<le> b" and "0 \<le> b" and "int (card M) \<le> m"
  shows "sum f M \<le> m * b"
proof -
  have "sum f M \<le> int (card M) * b" using sum_bounded_above[of M f b] assms(2) by simp
  also have "\<dots> \<le> m * b" using assms(3,4) by (rule mult_right_mono[rotated])
  finally show ?thesis .
qed

lemma partner_rank_of:
  assumes "one_to_one M" and "M \<subseteq> set cs" and "c \<in> M"
  shows "partner_rank cs M (left_id c) = position (right_ids cs) (right_id c)"
proof -
  have "{d \<in> M. left_id d = left_id c} = {c}"
    using assms(1,3) by (auto simp: one_to_one_def dest: inj_onD)
  moreover have "c \<in> set cs" using assms(2,3) by blast
  ultimately show ?thesis using right_position[of c cs] by (simp add: partner_rank_def)
qed

lemma partner_rank_none: "l \<notin> left_id ` M \<Longrightarrow> partner_rank cs M l = length (right_ids cs)"
proof -
  assume "l \<notin> left_id ` M"
  then have "{c \<in> M. left_id c = l} = {}" by auto
  then show ?thesis by (simp only: partner_rank_def image_empty Min_singleton)
qed

lemma partner_rank_le: "finite M \<Longrightarrow> partner_rank cs M l \<le> length (right_ids cs)"
  by (simp add: partner_rank_def)

lemma tie_value_sum:
  "distinct ls \<Longrightarrow> tie_value n (map f ls) =
     (\<Sum>l\<in>set ls. (int n - int (f l)) * int (n + 1) ^ (length ls - position ls l - 1))"
proof (induction ls)
  case (Cons x ls)
  have "(\<Sum>l\<in>set ls. (int n - int (f l)) * int (n + 1) ^ (length (x # ls) - position (x # ls) l - 1)) =
      (\<Sum>l\<in>set ls. (int n - int (f l)) * int (n + 1) ^ (length ls - position ls l - 1))"
    using Cons.prems by (intro sum.cong) (auto simp: position_def)
  then show ?case using Cons by (simp add: position_def)
qed simp

lemma stable_total:
  assumes M: "one_to_one M" "M \<subseteq> set cs"
  shows "(\<Sum>c\<in>M. stable_cost cs c) = int (card M) * cw_shift (cost_weights_of cs) -
    tie_value (length (right_ids cs)) (map (partner_rank cs M) (left_ids cs))"
proof -
  let ?n = "length (right_ids cs)"
  let ?f = "\<lambda>l. (int ?n - int (partner_rank cs M l)) * left_weight cs l"
  have "tie_value ?n (map (partner_rank cs M) (left_ids cs)) = (\<Sum>l\<in>left_id ` set cs. ?f l)"
    by (simp add: tie_value_sum left_weight_def)
  also have "\<dots> = (\<Sum>l\<in>left_id ` M. ?f l)"
    by (rule sum.mono_neutral_right) (use M in \<open>auto simp: partner_rank_none\<close>)
  also have "\<dots> = (\<Sum>c\<in>M. ?f (left_id c))"
    using M(1) by (simp add: one_to_one_def sum.reindex)
  also have "\<dots> = (\<Sum>c\<in>M. cw_shift (cost_weights_of cs) - stable_cost cs c)"
    using partner_rank_of[OF M] by (intro sum.cong) (simp_all add: stable_cost_def algebra_simps)
  finally show ?thesis by (simp add: sum_subtractf)
qed

text \<open>The totals of an assignment, as the digits of its cost.\<close>

definition digits_of :: "candidate list \<Rightarrow> candidate set \<Rightarrow> int list" where
  "digits_of cs M = map int (quality_totals M) @ [\<Sum>c\<in>M. stable_cost cs c]"

definition assemble :: "cost_weights \<Rightarrow> int list \<Rightarrow> int" where
  "assemble w ds = ds ! 0 * cw_classification w + (ds ! 1 * cw_reference w + (ds ! 2 * cw_counterparty w +
     (ds ! 3 * cw_amount w + (ds ! 4 * cw_date w + ds ! 5))))"

lemma cost_total:
  assumes "M \<subseteq> set cs"
  and ok: "well_formed cs"
  shows "(\<Sum>c\<in>M. candidate_cost cs c) = assemble (cost_weights_of cs) (digits_of cs M)"
proof -
  let ?w = "cost_weights_of cs"
  have "(\<Sum>c\<in>M. candidate_cost cs c) = (\<Sum>c\<in>M. int (fst (cd_quality c)) * cw_classification ?w +
      (int (fst (snd (cd_quality c))) * cw_reference ?w +
       (int (fst (snd (snd (cd_quality c)))) * cw_counterparty ?w +
       (int (cd_amount_difference c) * cw_amount ?w + (int (cd_date_difference_days c) * cw_date ?w + stable_cost cs c)))))"
  proof (rule sum.cong)
    fix c assume "c \<in> M"
    then have "candidate_ok c" using assms(1) ok by (auto simp: well_formed_def list_all_iff)
    then show "candidate_cost cs c = int (fst (cd_quality c)) * cw_classification ?w +
      (int (fst (snd (cd_quality c))) * cw_reference ?w +
       (int (fst (snd (snd (cd_quality c)))) * cw_counterparty ?w +
       (int (cd_amount_difference c) * cw_amount ?w + (int (cd_date_difference_days c) * cw_date ?w + stable_cost cs c))))"
      by (auto simp: candidate_cost_def candidate_ok_def split: prod.splits)
  qed simp
  then show ?thesis
    by (simp add: assemble_def digits_of_def quality_totals_def sum.distrib sum_distrib_right)
qed

lemma radix_step:
  fixes x low w m :: int
  assumes "0 \<le> x" "x \<le> m" "0 \<le> low" "low < w"
  shows "0 \<le> x * w + low" and "x * w + low < (m + 1) * w"
proof -
  show "0 \<le> x * w + low" using assms by simp
  have "x * w \<le> m * w" using assms by (simp add: mult_right_mono)
  moreover have "(m + 1) * w = m * w + w" by (simp add: algebra_simps)
  ultimately show "x * w + low < (m + 1) * w" using assms by linarith
qed

text \<open>Every digit is below the radix that its weight leaves for it.\<close>

lemma digit_bounds:
  assumes ok: "well_formed cs" and M: "one_to_one M" "M \<subseteq> set cs"
  defines "m \<equiv> int (min (length (left_ids cs)) (length (right_ids cs)))"
  shows "0 \<le> (\<Sum>c\<in>M. stable_cost cs c)" "(\<Sum>c\<in>M. stable_cost cs c) \<le> m * cw_shift (cost_weights_of cs)"
    and "int (\<Sum>c\<in>M. cd_date_difference_days c) \<le> m * int (Max (set (map cd_date_difference_days cs)))"
    and "int (\<Sum>c\<in>M. cd_amount_difference c) \<le> m * int (Max (set (map cd_amount_difference cs)))"
    and "int (\<Sum>c\<in>M. fst (snd (snd (cd_quality c)))) \<le> m"
    and "int (\<Sum>c\<in>M. fst (snd (cd_quality c))) \<le> m"
proof -
  note small = assignment_small[OF M]
  have card: "int (card M) \<le> m" using small(1) by (simp add: m_def)
  have in_cs: "c \<in> set cs" if "c \<in> M" for c using that M(2) by blast
  have quality: "fst (snd (cd_quality c)) \<le> 1 \<and> fst (snd (snd (cd_quality c))) \<le> 1" if "c \<in> M" for c
  proof -
    have "candidate_ok c" using in_cs[OF that] ok by (simp add: well_formed_def list_all_iff)
    then show ?thesis by (cases "cd_quality c") (simp add: candidate_ok_def)
  qed
  show "0 \<le> (\<Sum>c\<in>M. stable_cost cs c)" using stable_cost_bounds(1) in_cs by (intro sum_nonneg) blast
  show "(\<Sum>c\<in>M. stable_cost cs c) \<le> m * cw_shift (cost_weights_of cs)"
    using stable_cost_bounds(2) in_cs weights_nonneg(1) card small(2) by (intro sum_at_most) blast+
  show "int (\<Sum>c\<in>M. cd_date_difference_days c) \<le> m * int (Max (set (map cd_date_difference_days cs)))"
    unfolding of_nat_sum using in_cs card small(2) by (intro sum_at_most) (simp_all add: Max_ge)
  show "int (\<Sum>c\<in>M. cd_amount_difference c) \<le> m * int (Max (set (map cd_amount_difference cs)))"
    unfolding of_nat_sum using in_cs card small(2) by (intro sum_at_most) (simp_all add: Max_ge)
  show "int (\<Sum>c\<in>M. fst (snd (snd (cd_quality c)))) \<le> m"
    unfolding of_nat_sum using sum_at_most[OF small(2), of "\<lambda>c. int (fst (snd (snd (cd_quality c))))" 1 m] quality card
    by simp
  show "int (\<Sum>c\<in>M. fst (snd (cd_quality c))) \<le> m"
    unfolding of_nat_sum using sum_at_most[OF small(2), of "\<lambda>c. int (fst (snd (cd_quality c)))" 1 m] quality card
    by simp
qed

lemma cost_less_digits:
  assumes ok: "well_formed cs" and M: "one_to_one M" "M \<subseteq> set cs" and N: "one_to_one N" "N \<subseteq> set cs"
  shows "(\<Sum>c\<in>M. candidate_cost cs c) < (\<Sum>c\<in>N. candidate_cost cs c) \<longleftrightarrow>
    digits_of cs M < digits_of cs N"
proof -
  let ?w = "cost_weights_of cs"
  define m where "m = int (min (length (left_ids cs)) (length (right_ids cs)))"
  define ma md where "ma = m * int (Max (set (map cd_amount_difference cs)))"
    and "md = m * int (Max (set (map cd_date_difference_days cs)))"
  have w: "cw_date ?w = m * cw_shift ?w + 1" "cw_amount ?w = (md + 1) * cw_date ?w"
    "cw_counterparty ?w = (ma + 1) * cw_amount ?w" "cw_reference ?w = (m + 1) * cw_counterparty ?w"
    "cw_classification ?w = (m + 1) * cw_reference ?w"
    by (simp_all add: cost_weights_of_def Let_def m_def md_def ma_def)
  define x5 x4 x3 x2 x1 where "x5 = (\<lambda>M. \<Sum>c\<in>M. stable_cost cs c)"
    and "x4 = (\<lambda>M. int (\<Sum>c\<in>M. cd_date_difference_days c) * cw_date ?w + x5 M)"
    and "x3 = (\<lambda>M. int (\<Sum>c\<in>M. cd_amount_difference c) * cw_amount ?w + x4 M)"
    and "x2 = (\<lambda>M. int (\<Sum>c\<in>M. fst (snd (snd (cd_quality c)))) * cw_counterparty ?w + x3 M)"
    and "x1 = (\<lambda>M. int (\<Sum>c\<in>M. fst (snd (cd_quality c))) * cw_reference ?w + x2 M)"
  have bounds: "0 \<le> x5 K \<and> x5 K < cw_date ?w \<and> 0 \<le> x4 K \<and> x4 K < cw_amount ?w \<and>
      0 \<le> x3 K \<and> x3 K < cw_counterparty ?w \<and> 0 \<le> x2 K \<and> x2 K < cw_reference ?w \<and>
      0 \<le> x1 K \<and> x1 K < cw_classification ?w" if K: "one_to_one K" "K \<subseteq> set cs" for K
  proof -
    note b = digit_bounds[OF ok K, folded m_def, folded ma_def md_def]
    have 5: "0 \<le> x5 K" "x5 K < cw_date ?w" using b(1,2) by (simp_all add: x5_def w(1))
    have 4: "0 \<le> x4 K" "x4 K < cw_amount ?w" unfolding w(2) x4_def
      by (rule radix_step[OF of_nat_0_le_iff b(3) 5])+
    have 3: "0 \<le> x3 K" "x3 K < cw_counterparty ?w" unfolding w(3) x3_def
      by (rule radix_step[OF of_nat_0_le_iff b(4) 4])+
    have 2: "0 \<le> x2 K" "x2 K < cw_reference ?w" unfolding w(4) x2_def
      by (rule radix_step[OF of_nat_0_le_iff b(5) 3])+
    have 1: "0 \<le> x1 K" "x1 K < cw_classification ?w" unfolding w(5) x1_def
      by (rule radix_step[OF of_nat_0_le_iff b(6) 2])+
    show ?thesis using 1 2 3 4 5 by blast
  qed
  note bM = bounds[OF M] and bN = bounds[OF N]
  have total: "(\<Sum>c\<in>K. candidate_cost cs c) =
      int (\<Sum>c\<in>K. fst (cd_quality c)) * cw_classification ?w + x1 K" if "K \<subseteq> set cs" for K
    unfolding cost_total[OF that ok]
    by (simp add: assemble_def digits_of_def quality_totals_def x1_def x2_def x3_def x4_def x5_def)
  have 1: "(\<Sum>c\<in>M. candidate_cost cs c) < (\<Sum>c\<in>N. candidate_cost cs c) \<longleftrightarrow>
      (\<Sum>c\<in>M. fst (cd_quality c)) < (\<Sum>c\<in>N. fst (cd_quality c)) \<or>
      (\<Sum>c\<in>M. fst (cd_quality c)) = (\<Sum>c\<in>N. fst (cd_quality c)) \<and> x1 M < x1 N"
    unfolding total[OF M(2)] total[OF N(2)] by (subst radix_less) (use bM bN in \<open>simp_all del: of_nat_sum\<close>)
  have 2: "x1 M < x1 N \<longleftrightarrow>
      (\<Sum>c\<in>M. fst (snd (cd_quality c))) < (\<Sum>c\<in>N. fst (snd (cd_quality c))) \<or>
      (\<Sum>c\<in>M. fst (snd (cd_quality c))) = (\<Sum>c\<in>N. fst (snd (cd_quality c))) \<and> x2 M < x2 N"
    unfolding x1_def by (subst radix_less) (use bM bN in \<open>simp_all del: of_nat_sum\<close>)
  have 3: "x2 M < x2 N \<longleftrightarrow>
      (\<Sum>c\<in>M. fst (snd (snd (cd_quality c)))) < (\<Sum>c\<in>N. fst (snd (snd (cd_quality c)))) \<or>
      (\<Sum>c\<in>M. fst (snd (snd (cd_quality c)))) = (\<Sum>c\<in>N. fst (snd (snd (cd_quality c)))) \<and> x3 M < x3 N"
    unfolding x2_def by (subst radix_less) (use bM bN in \<open>simp_all del: of_nat_sum\<close>)
  have 4: "x3 M < x3 N \<longleftrightarrow> (\<Sum>c\<in>M. cd_amount_difference c) < (\<Sum>c\<in>N. cd_amount_difference c) \<or>
      (\<Sum>c\<in>M. cd_amount_difference c) = (\<Sum>c\<in>N. cd_amount_difference c) \<and> x4 M < x4 N"
    unfolding x3_def by (subst radix_less) (use bM bN in \<open>simp_all del: of_nat_sum\<close>)
  have 5: "x4 M < x4 N \<longleftrightarrow> (\<Sum>c\<in>M. cd_date_difference_days c) < (\<Sum>c\<in>N. cd_date_difference_days c) \<or>
      (\<Sum>c\<in>M. cd_date_difference_days c) = (\<Sum>c\<in>N. cd_date_difference_days c) \<and> x5 M < x5 N"
    unfolding x4_def by (subst radix_less) (use bM bN in \<open>simp_all del: of_nat_sum\<close>)
  show ?thesis
    unfolding 1 2 3 4 5 by (simp add: digits_of_def quality_totals_def x5_def del: of_nat_sum)
qed

lemma cost_less_preference:
  assumes ok: "well_formed cs" and M: "one_to_one M" "M \<subseteq> set cs" and N: "one_to_one N" "N \<subseteq> set cs"
    and card: "card M = card N"
  shows "(\<Sum>c\<in>M. candidate_cost cs c) < (\<Sum>c\<in>N. candidate_cost cs c) \<longleftrightarrow>
    preference cs M < preference cs N"
proof -
  have "(\<Sum>c\<in>M. stable_cost cs c) < (\<Sum>c\<in>N. stable_cost cs c) \<longleftrightarrow>
      map (partner_rank cs M) (left_ids cs) < map (partner_rank cs N) (left_ids cs)"
    unfolding stable_total[OF M] stable_total[OF N]
    using tie_value_less[of "map (partner_rank cs M) (left_ids cs)" "map (partner_rank cs N) (left_ids cs)"
        "length (right_ids cs)"] card assignment_small(2)[OF M] assignment_small(2)[OF N]
    by (simp add: list_all_iff partner_rank_le)
  then show ?thesis
    unfolding cost_less_digits[OF ok M N]
    by (simp add: digits_of_def preference_def quality_totals_def del: of_nat_sum)
qed

lemma partner_ranks_determine:
  assumes ok: "well_formed cs" and M: "one_to_one M" "M \<subseteq> set cs" and N: "one_to_one N" "N \<subseteq> set cs"
    and same: "map (partner_rank cs M) (left_ids cs) = map (partner_rank cs N) (left_ids cs)"
  shows "M \<subseteq> N"
proof
  fix c assume c: "c \<in> M"
  then have cs: "c \<in> set cs" using M(2) by blast
  have rank: "partner_rank cs N (left_id c) = position (right_ids cs) (right_id c)"
    using same cs partner_rank_of[OF M c] by auto
  then have "partner_rank cs N (left_id c) \<noteq> length (right_ids cs)" using right_position[OF cs] by simp
  then have "left_id c \<in> left_id ` N" using partner_rank_none by blast
  then obtain d where d: "d \<in> N" "left_id d = left_id c" by auto
  then have ds: "d \<in> set cs" using N(2) by blast
  have "position (right_ids cs) (right_id d) = position (right_ids cs) (right_id c)"
    using rank partner_rank_of[OF N d(1)] d(2) by simp
  then have "right_id d = right_id c" using cs ds by (subst (asm) position_inj) auto
  then have "cd_pair d = cd_pair c" using d(2) by (simp add: cd_pair_def)
  then have "d = c" using ok cs ds by (auto simp: well_formed_def distinct_map dest: inj_onD)
  then show "c \<in> N" using d(1) by simp
qed

text \<open>
  The best assignment: largest, and of the largest ones the first in the order of preference, in
  which no two are equal.
\<close>

definition best_assignment :: "candidate list \<Rightarrow> candidate list \<Rightarrow> bool" where
  "best_assignment cs ms \<longleftrightarrow> distinct ms \<and> sorted (map cd_pair ms) \<and> set ms \<subseteq> set cs \<and> one_to_one (set ms) \<and>
     (\<forall>M. M \<subseteq> set cs \<and> one_to_one M \<and> M \<noteq> set ms \<longrightarrow>
        card M < length ms \<or> card M = length ms \<and> preference cs (set ms) < preference cs M)"

lemma cheapest_is_best:
  assumes ok: "well_formed cs" and cheapest: "cheapest_assignment cs ms"
  shows "best_assignment cs ms"
proof -
  have ms: "distinct ms" "sorted (map cd_pair ms)" "set ms \<subseteq> set cs" "one_to_one (set ms)"
    using cheapest by (simp_all add: cheapest_assignment_def)
  have "card M < length ms \<or> card M = length ms \<and> preference cs (set ms) < preference cs M"
    if M: "M \<subseteq> set cs" "one_to_one M" "M \<noteq> set ms" for M
  proof (cases "card M = length ms")
    case False
    then show ?thesis using cheapest M by (auto simp: cheapest_assignment_def le_neq_implies_less)
  next
    case True
    then have card: "card M = card (set ms)" using ms(1) by (simp add: distinct_card)
    have "(\<Sum>c\<in>set ms. candidate_cost cs c) \<le> (\<Sum>c\<in>M. candidate_cost cs c)"
      using cheapest M True by (simp add: cheapest_assignment_def)
    then have "\<not> preference cs M < preference cs (set ms)"
      using cost_less_preference[OF ok M(2,1) ms(4,3) card] by simp
    moreover have "preference cs M \<noteq> preference cs (set ms)"
    proof
      assume "preference cs M = preference cs (set ms)"
      then have "map (partner_rank cs M) (left_ids cs) = map (partner_rank cs (set ms)) (left_ids cs)"
        by (simp add: preference_def quality_totals_def)
      then show False
        using partner_ranks_determine[OF ok M(2,1) ms(4,3)] partner_ranks_determine[OF ok ms(4,3) M(2,1)] M(3)
        by auto
    qed
    ultimately show ?thesis using True by auto
  qed
  with ms show ?thesis by (simp add: best_assignment_def)
qed

lemma match_best:
  assumes "well_formed cs"
  shows "\<exists>ms. optimal_one_to_one_match cs = Some (Inr ms) \<and> best_assignment cs ms"
  using match_cheapest[OF assms] cheapest_is_best[OF assms] by blast

lemma best_assignment_unique:
  assumes "best_assignment cs ms" and "best_assignment cs ns"
  shows "ms = ns"
proof -
  have "set ms = set ns"
  proof (rule ccontr)
    assume ne: "set ms \<noteq> set ns"
    have "length ms < length ns \<or> length ms = length ns \<and> preference cs (set ns) < preference cs (set ms)"
      "length ns < length ms \<or> length ns = length ms \<and> preference cs (set ms) < preference cs (set ns)"
      using assms ne unfolding best_assignment_def by (metis distinct_card)+
    then show False by auto
  qed
  moreover have "inj_on cd_pair (set ms)"
    using assms(1) by (auto simp: best_assignment_def one_to_one_def cd_pair_def inj_on_def)
  ultimately show ?thesis
    using assms by (intro map_sorted_distinct_set_unique[of cd_pair])
      (simp_all add: best_assignment_def distinct_map)
qed

end
