(* ===== verification/Reconciliation.thy ===== *)
theory Reconciliation
  imports Optimal_Matching "HOL-Library.Multiset"
begin

text \<open>
  \<open>match_transactions\<close> of \<open>reconciliation/matcher.py\<close> and the evidence models of
  \<open>reconciliation/models.py\<close>: exact duplicates of each side are set aside, the rest is matched one
  to one, and every transaction ends up in the evidence. The rows are canonical transactions
  already; the text normalisation of the evidence models, which leaves their texts as they are, is
  not modelled, their own checks are.

  The properties: the matching always returns, with the best assignment; every transaction of the
  input is accounted for exactly once; the order of the input does not matter.
\<close>

section \<open>Evidence\<close>

datatype side = LeftSide | RightSide

definition side_value :: "side \<Rightarrow> string" where
  "side_value s = (case s of LeftSide \<Rightarrow> ''left'' | RightSide \<Rightarrow> ''right'')"

datatype tie_breaker = NoTie | StableTransactionId

datatype unmatched_reason = CandidateContention | NoEligibleCandidate

record pair_evidence =
  pe_classification :: pair_class
  pe_left_transaction_id :: string
  pe_right_transaction_id :: string
  pe_amount_difference :: nat
  pe_date_difference_days :: nat
  pe_matched_fields :: "string list"
  pe_evidence_refs :: "string list"
  pe_candidate_count :: nat
  pe_tie_breaker :: tie_breaker

record duplicate_evidence =
  de_side :: side
  de_canonical_transaction_id :: string
  de_transaction_ids :: "string list"
  de_evidence_refs :: "string list"

record unmatched_evidence =
  ue_side :: side
  ue_transaction_id :: string
  ue_evidence_refs :: "string list"
  ue_reason :: unmatched_reason

record reconciliation_result =
  rr_matched :: "pair_evidence list"
  rr_differences :: "pair_evidence list"
  rr_duplicates :: "duplicate_evidence list"
  rr_unmatched :: "unmatched_evidence list"

definition allowed_match_fields :: "string list" where
  "allowed_match_fields =
     [''amount'', ''counterparty_key'', ''currency'', ''document_state'', ''reference'', ''transaction_date'']"

definition validate_pair_evidence :: "pair_evidence \<Rightarrow> pair_evidence result" where
  "validate_pair_evidence e =
     ebind (raise_if (pe_evidence_refs e = [] \<or> pe_candidate_count e < 1) (ValueError ''ValidationError'')) (\<lambda>_.
     ebind (raise_if (pe_matched_fields e = [] \<or> \<not> set (pe_matched_fields e) \<subseteq> set allowed_match_fields)
       (ValueError ''reconciliation_matched_fields_invalid'')) (\<lambda>_.
     ebind (raise_if (\<not> distinct (pe_evidence_refs e)) (ValueError ''reconciliation_evidence_refs_invalid'')) (\<lambda>_.
     Inr e)))"

definition validate_duplicate_evidence :: "duplicate_evidence \<Rightarrow> duplicate_evidence result" where
  "validate_duplicate_evidence e =
     ebind (raise_if (length (de_transaction_ids e) < 2 \<or> de_evidence_refs e = []) (ValueError ''ValidationError'')) (\<lambda>_.
     ebind (raise_if (\<not> distinct (de_transaction_ids e)) (ValueError ''reconciliation_duplicate_ids_invalid'')) (\<lambda>_.
     ebind (raise_if (de_canonical_transaction_id e \<notin> set (de_transaction_ids e))
       (ValueError ''reconciliation_duplicate_ids_invalid'')) (\<lambda>_.
     ebind (raise_if (\<not> distinct (de_evidence_refs e)) (ValueError ''reconciliation_evidence_refs_invalid'')) (\<lambda>_.
     Inr e))))"

definition validate_unmatched_evidence :: "unmatched_evidence \<Rightarrow> unmatched_evidence result" where
  "validate_unmatched_evidence e =
     ebind (raise_if (ue_evidence_refs e = []) (ValueError ''ValidationError'')) (\<lambda>_.
     ebind (raise_if (\<not> distinct (ue_evidence_refs e)) (ValueError ''reconciliation_evidence_refs_invalid'')) (\<lambda>_.
     Inr e))"

section \<open>Rows and duplicates\<close>

definition transaction_sort_key :: "transaction \<Rightarrow> string \<times> string" where
  "transaction_sort_key t = (tx_transaction_id t, tx_source t)"

definition normalize_transactions :: "transaction list \<Rightarrow> transaction list result" where
  "normalize_transactions rows =
     ebind (raise_if (\<not> distinct (map tx_transaction_id rows))
       (ValueError ''reconciliation_transaction_id_duplicate'')) (\<lambda>_.
     Inr (sort_key transaction_sort_key rows))"

type_synonym duplicate_key = "string \<times> int \<times> string \<times> int \<times> string \<times> string \<times> string"

definition duplicate_key :: "'a pylib_scheme \<Rightarrow> transaction \<Rightarrow> duplicate_key" where
  "duplicate_key lib t =
     (tx_source t, tx_amount t, tx_currency t, tx_transaction_date t, text_key lib (tx_reference t),
      text_key lib (tx_counterparty_key t), tx_document_state t)"

text \<open>\<open>grouped[key].append(row)\<close> of a \<open>defaultdict(list)\<close>, in the order of first insertion.\<close>

fun append_to_group :: "'k \<Rightarrow> 'v \<Rightarrow> ('k \<times> 'v list) list \<Rightarrow> ('k \<times> 'v list) list" where
  "append_to_group k v [] = [(k, [v])]"
| "append_to_group k v ((k', vs) # groups) =
     (if k' = k then (k', vs @ [v]) # groups else (k', vs) # append_to_group k v groups)"

definition grouped :: "('v \<Rightarrow> 'k) \<Rightarrow> 'v list \<Rightarrow> ('k \<times> 'v list) list" where
  "grouped key rows = foldl (\<lambda>groups row. append_to_group (key row) row groups) [] rows"

definition group_evidence :: "side \<Rightarrow> transaction list \<Rightarrow> duplicate_evidence result" where
  "group_evidence s rows = validate_duplicate_evidence
     \<lparr>de_side = s, de_canonical_transaction_id = tx_transaction_id (hd rows),
      de_transaction_ids = map tx_transaction_id rows,
      de_evidence_refs = ordered_unique (concat (map tx_evidence_refs rows))\<rparr>"

definition partition_duplicates ::
    "'a pylib_scheme \<Rightarrow> transaction list \<Rightarrow> side \<Rightarrow> (transaction list \<times> duplicate_evidence list) result" where
  "partition_duplicates lib rows s =
     (let groups = map (\<lambda>(_, group). sort_key transaction_sort_key group) (grouped (duplicate_key lib) rows)
      in ebind (emap (group_evidence s) (filter (\<lambda>group. 1 < length group) groups)) (\<lambda>evidence.
         Inr (sort_key transaction_sort_key (map hd groups), sort_key de_transaction_ids evidence)))"

section \<open>The result\<close>

definition pair_item :: "candidate list \<Rightarrow> candidate \<Rightarrow> pair_evidence result" where
  "pair_item candidates a =
     (let row_candidates = filter (\<lambda>c. left_id c = left_id a) candidates;
          tied = length (filter (\<lambda>c. cd_quality c = cd_quality a) row_candidates)
      in validate_pair_evidence
           \<lparr>pe_classification = cd_classification a, pe_left_transaction_id = left_id a,
            pe_right_transaction_id = right_id a, pe_amount_difference = cd_amount_difference a,
            pe_date_difference_days = cd_date_difference_days a, pe_matched_fields = cd_matched_fields a,
            pe_evidence_refs = ordered_unique (tx_evidence_refs (cd_left a) @ tx_evidence_refs (cd_right a)),
            pe_candidate_count = length row_candidates,
            pe_tie_breaker = (if 1 < tied then StableTransactionId else NoTie)\<rparr>)"

definition unmatched_item ::
    "side \<Rightarrow> (candidate \<Rightarrow> string) \<Rightarrow> candidate list \<Rightarrow> transaction \<Rightarrow> unmatched_evidence result" where
  "unmatched_item s id_of candidates row = validate_unmatched_evidence
     \<lparr>ue_side = s, ue_transaction_id = tx_transaction_id row, ue_evidence_refs = tx_evidence_refs row,
      ue_reason = (if filter (\<lambda>c. id_of c = tx_transaction_id row) candidates \<noteq> []
                   then CandidateContention else NoEligibleCandidate)\<rparr>"

definition unassigned :: "(candidate \<Rightarrow> string) \<Rightarrow> candidate list \<Rightarrow> transaction list \<Rightarrow> transaction list" where
  "unassigned id_of assignments rows =
     filter (\<lambda>row. tx_transaction_id row \<notin> id_of ` set assignments) rows"

definition pair_ids :: "pair_evidence \<Rightarrow> string \<times> string" where
  "pair_ids e = (pe_left_transaction_id e, pe_right_transaction_id e)"

definition report ::
    "candidate list \<Rightarrow> candidate list \<Rightarrow> transaction list \<Rightarrow> transaction list \<Rightarrow> duplicate_evidence list \<Rightarrow>
       reconciliation_result result" where
  "report candidates assignments left_canonical right_canonical duplicates =
     ebind (emap (pair_item candidates) assignments) (\<lambda>items.
     ebind (emap (unmatched_item LeftSide left_id candidates) (unassigned left_id assignments left_canonical)) (\<lambda>left_unmatched.
     ebind (emap (unmatched_item RightSide right_id candidates) (unassigned right_id assignments right_canonical)) (\<lambda>right_unmatched.
     Inr \<lparr>rr_matched = sort_key pair_ids (filter (\<lambda>e. pe_classification e = Matched) items),
          rr_differences = sort_key pair_ids (filter (\<lambda>e. pe_classification e \<noteq> Matched) items),
          rr_duplicates = duplicates,
          rr_unmatched = sort_key (\<lambda>e. (side_value (ue_side e), ue_transaction_id e))
            (left_unmatched @ right_unmatched)\<rparr>)))"

definition obind :: "'a result option \<Rightarrow> ('a \<Rightarrow> 'b result option) \<Rightarrow> 'b result option" where
  "obind m k = (case m of None \<Rightarrow> None | Some (Inl e) \<Rightarrow> Some (Inl e) | Some (Inr x) \<Rightarrow> k x)"

definition match_transactions ::
    "'a pylib_scheme \<Rightarrow> transaction list \<Rightarrow> transaction list \<Rightarrow> policy \<Rightarrow> reconciliation_result result option" where
  "match_transactions lib left right policy =
     obind (Some (normalize_transactions left)) (\<lambda>left_rows.
     obind (Some (normalize_transactions right)) (\<lambda>right_rows.
     obind (Some (partition_duplicates lib left_rows LeftSide)) (\<lambda>(left_canonical, left_duplicates).
     obind (Some (partition_duplicates lib right_rows RightSide)) (\<lambda>(right_canonical, right_duplicates).
     let candidates = score_candidates lib left_canonical right_canonical policy in
     obind (optimal_one_to_one_match candidates) (\<lambda>assignments.
     Some (report candidates assignments left_canonical right_canonical (left_duplicates @ right_duplicates)))))))"

section \<open>Groups\<close>

lemma concat_append_to_group:
  "mset (concat (map snd (append_to_group k v groups))) = mset (concat (map snd groups)) + {#v#}"
  by (induction k v groups rule: append_to_group.induct) auto

lemma foldl_append_to_group:
  "mset (concat (map snd (foldl (\<lambda>groups row. append_to_group (key row) row groups) groups rows))) =
     mset (concat (map snd groups)) + mset rows"
  by (induction rows arbitrary: groups) (auto simp: concat_append_to_group)

lemma grouped_mset: "mset (concat (map snd (grouped key rows))) = mset rows"
  by (simp add: grouped_def foldl_append_to_group)

lemma append_to_group_nonempty:
  "list_all (\<lambda>(k, vs). vs \<noteq> []) groups \<Longrightarrow> list_all (\<lambda>(k, vs). vs \<noteq> []) (append_to_group k v groups)"
  by (induction k v groups rule: append_to_group.induct) auto

lemma grouped_nonempty: "list_all (\<lambda>(k, vs). vs \<noteq> []) (grouped key rows)"
proof -
  have "list_all (\<lambda>(k, vs). vs \<noteq> []) groups \<Longrightarrow>
      list_all (\<lambda>(k, vs). vs \<noteq> []) (foldl (\<lambda>groups row. append_to_group (key row) row groups) groups rows)" for groups
    by (induction rows arbitrary: groups) (simp_all add: append_to_group_nonempty)
  then show ?thesis by (simp add: grouped_def)
qed

section \<open>Valid transactions\<close>

definition valid_transaction :: "transaction \<Rightarrow> bool" where
  "valid_transaction t \<longleftrightarrow> tx_evidence_refs t \<noteq> [] \<and> validate_canonical_data t = Inr t"

lemma valid_transaction_refs:
  "valid_transaction t \<Longrightarrow> tx_evidence_refs t \<noteq> [] \<and> distinct (tx_evidence_refs t)"
  by (auto simp: valid_transaction_def validate_canonical_data_def split: if_splits)

lemma ordered_unique_Nil [simp]: "ordered_unique xs = [] \<longleftrightarrow> xs = []"
  by (cases xs) simp_all

text \<open>The canonical rows of a side and the members of its duplicate groups beside them.\<close>

definition sorted_groups :: "'a pylib_scheme \<Rightarrow> transaction list \<Rightarrow> transaction list list" where
  "sorted_groups lib rows =
     map (\<lambda>(_, group). sort_key transaction_sort_key group)
       (grouped (duplicate_key lib) (sort_key transaction_sort_key rows))"

definition canonical_rows :: "'a pylib_scheme \<Rightarrow> transaction list \<Rightarrow> transaction list" where
  "canonical_rows lib rows = sort_key transaction_sort_key (map hd (sorted_groups lib rows))"

definition duplicate_groups :: "'a pylib_scheme \<Rightarrow> side \<Rightarrow> transaction list \<Rightarrow> duplicate_evidence list" where
  "duplicate_groups lib s rows = sort_key de_transaction_ids
     (map (\<lambda>group. \<lparr>de_side = s, de_canonical_transaction_id = tx_transaction_id (hd group),
        de_transaction_ids = map tx_transaction_id group,
        de_evidence_refs = ordered_unique (concat (map tx_evidence_refs group))\<rparr>)
       (filter (\<lambda>group. 1 < length group) (sorted_groups lib rows)))"

lemma mset_concat_sorted:
  "mset (concat (map (\<lambda>(k, rows). sort_key f rows) groups)) = mset (concat (map snd groups))"
  by (induction groups) auto

lemma sorted_groups_mset: "mset (concat (sorted_groups lib rows)) = mset rows"
  unfolding sorted_groups_def by (simp only: mset_concat_sorted grouped_mset mset_sort)

lemma sort_key_Nil: "sort_key f xs = [] \<longleftrightarrow> xs = []"
  by (metis length_0_conv length_sort)

lemma sorted_groups_nonempty: "gr \<in> set (sorted_groups lib rows) \<Longrightarrow> gr \<noteq> []"
  using grouped_nonempty[of "duplicate_key lib" "sort_key transaction_sort_key rows"]
  by (auto simp: sorted_groups_def list_all_iff sort_key_Nil)

lemma distinct_in_concat: "distinct (map f (concat xss)) \<Longrightarrow> xs \<in> set xss \<Longrightarrow> distinct (map f xs)"
  by (induction xss) auto

lemma mset_heads_tails:
  "(\<And>xs. xs \<in> set xss \<Longrightarrow> xs \<noteq> []) \<Longrightarrow> mset (concat xss) = mset (map hd xss) + mset (concat (map tl xss))"
proof (induction xss)
  case (Cons xs xss)
  then have "mset xs = {#hd xs#} + mset (tl xs)" by (cases xs) auto
  then show ?case using Cons by simp
qed simp

lemma canonical_rows_mset:
  "mset rows = mset (canonical_rows lib rows) + mset (concat (map tl (sorted_groups lib rows)))"
  using mset_heads_tails[of "sorted_groups lib rows"] sorted_groups_nonempty[of _ lib rows] sorted_groups_mset[of lib rows]
  by (simp add: canonical_rows_def)

lemma canonical_rows_subset: "set (canonical_rows lib rows) \<subseteq> set rows"
  by (metis canonical_rows_mset mset_subset_eq_add_left set_mset_mono set_mset_mset)

lemma group_subset: "gr \<in> set (sorted_groups lib rows) \<Longrightarrow> set gr \<subseteq> set rows"
  by (metis Union_upper image_eqI set_concat set_mset_mset sorted_groups_mset)

lemma partition_duplicates_ok:
  assumes "list_all valid_transaction rows" and "distinct (map tx_transaction_id rows)"
  shows "partition_duplicates lib (sort_key transaction_sort_key rows) s =
    Inr (canonical_rows lib rows, duplicate_groups lib s rows)"
proof -
  let ?gs = "filter (\<lambda>gr. 1 < length gr) (sorted_groups lib rows)"
  have "group_evidence s gr = Inr \<lparr>de_side = s, de_canonical_transaction_id = tx_transaction_id (hd gr),
        de_transaction_ids = map tx_transaction_id gr,
        de_evidence_refs = ordered_unique (concat (map tx_evidence_refs gr))\<rparr>"
    if gr: "gr \<in> set ?gs" for gr
  proof -
    have long: "1 < length gr" "gr \<in> set (sorted_groups lib rows)" using gr by auto
    then have sub: "set gr \<subseteq> set rows" using group_subset by blast
    have "distinct (map tx_transaction_id (concat (sorted_groups lib rows)))"
      using assms(2) sorted_groups_mset[of lib rows] by (metis mset_eq_imp_distinct_iff mset_map)
    then have distinct: "distinct (map tx_transaction_id gr)" using long(2) by (rule distinct_in_concat)
    have "valid_transaction (hd gr)" using long sub assms(1) by (cases gr) (auto simp: list_all_iff)
    then have refs: "concat (map tx_evidence_refs gr) \<noteq> []"
      using long valid_transaction_refs by (cases gr) auto
    have "gr \<noteq> []" using long by auto
    then show ?thesis using long distinct refs
      by (simp add: group_evidence_def validate_duplicate_evidence_def)
  qed
  then have "emap (group_evidence s) ?gs = Inr (map (\<lambda>gr. \<lparr>de_side = s,
        de_canonical_transaction_id = tx_transaction_id (hd gr),
        de_transaction_ids = map tx_transaction_id gr,
        de_evidence_refs = ordered_unique (concat (map tx_evidence_refs gr))\<rparr>) ?gs)"
    by (rule emap_Inr_map)
  then show ?thesis
    by (simp add: partition_duplicates_def duplicate_groups_def canonical_rows_def Let_def flip: sorted_groups_def)
qed

section \<open>Candidates\<close>

lemma if_None_eq_Some: "(if b then None else x) = Some c \<longleftrightarrow> \<not> b \<and> x = Some c"
  by simp

lemma guarded_singleton: "{x. x = a \<and> P} \<subseteq> S \<longleftrightarrow> (P \<longrightarrow> a \<in> S)"
  by auto

lemma candidate_for_props:
  assumes "candidate_for lib l r policy = Some c"
  shows "cd_left c = l" "cd_right c = r" "candidate_ok c" "cd_matched_fields c \<noteq> []"
    "set (cd_matched_fields c) \<subseteq> set allowed_match_fields"
proof -
  note fields = assms[unfolded candidate_for_def Let_def if_None_eq_Some option.inject, THEN conjunct2,
      THEN conjunct2, THEN conjunct2, THEN conjunct2, THEN conjunct2, symmetric]
  show "cd_left c = l" "cd_right c = r" "cd_matched_fields c \<noteq> []" unfolding fields by simp_all
  show "candidate_ok c" unfolding fields candidate_ok_def by simp
  show "set (cd_matched_fields c) \<subseteq> set allowed_match_fields"
    unfolding fields allowed_match_fields_def by (simp add: guarded_singleton)
qed

lemma set_map_filter: "set (List.map_filter f xs) = {y. \<exists>x\<in>set xs. f x = Some y}"
  by (induction xs) (auto simp: map_filter_simps split: option.splits)

lemma score_candidates_mem:
  "c \<in> set (score_candidates lib ls rs policy) \<longleftrightarrow>
     cd_left c \<in> set ls \<and> cd_right c \<in> set rs \<and> candidate_for lib (cd_left c) (cd_right c) policy = Some c"
proof -
  have "c \<in> set (score_candidates lib ls rs policy) \<longleftrightarrow>
      (\<exists>l\<in>set ls. \<exists>r\<in>set rs. candidate_for lib l r policy = Some c)"
    by (auto simp: score_candidates_def set_map_filter)
  also have "\<dots> \<longleftrightarrow> cd_left c \<in> set ls \<and> cd_right c \<in> set rs \<and>
      candidate_for lib (cd_left c) (cd_right c) policy = Some c"
    by (blast dest: candidate_for_props(1,2) intro: bexI)
  finally show ?thesis .
qed

lemma distinct_row_pairs:
  assumes "distinct (map tx_transaction_id rs)"
  shows "distinct (map cd_pair (List.map_filter (\<lambda>r. candidate_for lib l r policy) rs))"
  using assms
proof (induction rs)
  case (Cons r rs)
  have "cd_pair c = (tx_transaction_id l, tx_transaction_id r)" if "candidate_for lib l r policy = Some c" for c r
    using candidate_for_props(1,2)[OF that] by (simp add: cd_pair_def)
  then show ?case using Cons by (force simp: map_filter_simps map_filter_def split: option.split)
qed (simp add: map_filter_simps)

lemma score_candidates_well_formed:
  assumes "distinct (map tx_transaction_id ls)" and "distinct (map tx_transaction_id rs)"
  shows "well_formed (score_candidates lib ls rs policy)"
proof -
  let ?row = "\<lambda>l. List.map_filter (\<lambda>r. candidate_for lib l r policy) rs"
  have fst: "fst ` cd_pair ` set (?row l) \<subseteq> {tx_transaction_id l}" for l
    using candidate_for_props(1) by (fastforce simp: map_filter_def cd_pair_def)
  have "distinct (map cd_pair (concat (map ?row ls)))"
    using assms(1)
  proof (induction ls)
    case (Cons l ls)
    have "cd_pair ` set (?row l) \<inter> cd_pair ` set (concat (map ?row ls)) = {}"
    proof (rule ccontr)
      assume "\<not> ?thesis"
      then obtain p k where p: "p \<in> cd_pair ` set (?row l)" "k \<in> set ls" "p \<in> cd_pair ` set (?row k)" by auto
      then have "fst p = tx_transaction_id l" "fst p = tx_transaction_id k" using fst[of l] fst[of k] by blast+
      then have "tx_transaction_id l \<in> tx_transaction_id ` set ls" using p(2) by (metis imageI)
      then show False using Cons.prems by simp
    qed
    then show ?case using Cons distinct_row_pairs[OF assms(2), of lib l policy] by simp
  qed simp
  then have "distinct (map cd_pair (score_candidates lib ls rs policy))"
    by (simp add: score_candidates_def distinct_map)
  moreover have "list_all candidate_ok (score_candidates lib ls rs policy)"
    by (auto simp: list_all_iff score_candidates_mem intro: candidate_for_props(3))
  ultimately show ?thesis by (simp add: well_formed_def)
qed

definition candidates_of ::
    "'a pylib_scheme \<Rightarrow> transaction list \<Rightarrow> transaction list \<Rightarrow> policy \<Rightarrow> candidate list" where
  "candidates_of lib left right policy =
     score_candidates lib (canonical_rows lib left) (canonical_rows lib right) policy"

lemma canonical_rows_distinct:
  assumes "distinct (map tx_transaction_id rows)"
  shows "distinct (map tx_transaction_id (canonical_rows lib rows))"
proof -
  have "mset (map tx_transaction_id rows) = mset (map tx_transaction_id
      (canonical_rows lib rows @ concat (map tl (sorted_groups lib rows))))"
    using canonical_rows_mset[of rows lib] by simp
  then have "distinct (map tx_transaction_id (canonical_rows lib rows @ concat (map tl (sorted_groups lib rows))))"
    using assms mset_eq_imp_distinct_iff by blast
  then show ?thesis by simp
qed

section \<open>The report\<close>

definition item_of :: "candidate list \<Rightarrow> candidate \<Rightarrow> pair_evidence" where
  "item_of candidates a =
     (let row_candidates = filter (\<lambda>c. left_id c = left_id a) candidates;
          tied = length (filter (\<lambda>c. cd_quality c = cd_quality a) row_candidates)
      in \<lparr>pe_classification = cd_classification a, pe_left_transaction_id = left_id a,
          pe_right_transaction_id = right_id a, pe_amount_difference = cd_amount_difference a,
          pe_date_difference_days = cd_date_difference_days a, pe_matched_fields = cd_matched_fields a,
          pe_evidence_refs = ordered_unique (tx_evidence_refs (cd_left a) @ tx_evidence_refs (cd_right a)),
          pe_candidate_count = length row_candidates,
          pe_tie_breaker = (if 1 < tied then StableTransactionId else NoTie)\<rparr>)"

lemma item_of_simps [simp]:
  "pe_classification (item_of cs a) = cd_classification a" "pair_ids (item_of cs a) = cd_pair a"
  "pe_left_transaction_id (item_of cs a) = left_id a" "pe_right_transaction_id (item_of cs a) = right_id a"
  by (simp_all add: item_of_def pair_ids_def cd_pair_def)

definition unmatched_of ::
    "side \<Rightarrow> (candidate \<Rightarrow> string) \<Rightarrow> candidate list \<Rightarrow> transaction \<Rightarrow> unmatched_evidence" where
  "unmatched_of s id_of candidates row =
     \<lparr>ue_side = s, ue_transaction_id = tx_transaction_id row, ue_evidence_refs = tx_evidence_refs row,
      ue_reason = (if filter (\<lambda>c. id_of c = tx_transaction_id row) candidates \<noteq> []
                   then CandidateContention else NoEligibleCandidate)\<rparr>"

lemma unmatched_of_simps [simp]:
  "ue_side (unmatched_of s f cs row) = s" "ue_transaction_id (unmatched_of s f cs row) = tx_transaction_id row"
  by (simp_all add: unmatched_of_def)

lemma unmatched_items_ok:
  assumes "list_all valid_transaction rows"
  shows "emap (unmatched_item s id_of cs) (unassigned id_of ms rows) =
    Inr (map (unmatched_of s id_of cs) (unassigned id_of ms rows))"
proof (rule emap_Inr_map)
  fix row assume "row \<in> set (unassigned id_of ms rows)"
  then have "valid_transaction row" using assms by (auto simp: unassigned_def list_all_iff)
  then show "unmatched_item s id_of cs row = Inr (unmatched_of s id_of cs row)"
    using valid_transaction_refs by (simp add: unmatched_item_def unmatched_of_def validate_unmatched_evidence_def)
qed

lemma pair_items_ok:
  assumes "set ms \<subseteq> set (score_candidates lib ls rs policy)" and "list_all valid_transaction ls"
    and "list_all valid_transaction rs"
  shows "emap (pair_item (score_candidates lib ls rs policy)) ms =
    Inr (map (item_of (score_candidates lib ls rs policy)) ms)"
proof (rule emap_Inr_map)
  fix a assume "a \<in> set ms"
  then have a: "a \<in> set (score_candidates lib ls rs policy)" using assms(1) by blast
  then have c: "cd_left a \<in> set ls" "candidate_for lib (cd_left a) (cd_right a) policy = Some a"
    using score_candidates_mem by blast+
  have "valid_transaction (cd_left a)" using c(1) assms(2) by (auto simp: list_all_iff)
  moreover have "filter (\<lambda>c. left_id c = left_id a) (score_candidates lib ls rs policy) \<noteq> []"
    using a by (auto simp: filter_empty_conv)
  ultimately show "pair_item (score_candidates lib ls rs policy) a = Inr (item_of (score_candidates lib ls rs policy) a)"
    using valid_transaction_refs[of "cd_left a"] candidate_for_props(4,5)[OF c(2)]
    by (simp add: pair_item_def item_of_def validate_pair_evidence_def Let_def Suc_le_eq)
qed

section \<open>The whole matching\<close>

definition distinct_ids :: "transaction list \<Rightarrow> bool" where
  "distinct_ids rows \<longleftrightarrow> distinct (map tx_transaction_id rows)"

definition report_of ::
    "'a pylib_scheme \<Rightarrow> transaction list \<Rightarrow> transaction list \<Rightarrow> policy \<Rightarrow> candidate list \<Rightarrow> reconciliation_result" where
  "report_of lib left right policy ms =
     (let cs = candidates_of lib left right policy in
      \<lparr>rr_matched = map (item_of cs) (filter (\<lambda>a. cd_classification a = Matched) ms),
       rr_differences = map (item_of cs) (filter (\<lambda>a. cd_classification a \<noteq> Matched) ms),
       rr_duplicates = duplicate_groups lib LeftSide left @ duplicate_groups lib RightSide right,
       rr_unmatched = sort_key (\<lambda>e. (side_value (ue_side e), ue_transaction_id e))
         (map (unmatched_of LeftSide left_id cs) (unassigned left_id ms (canonical_rows lib left)) @
          map (unmatched_of RightSide right_id cs) (unassigned right_id ms (canonical_rows lib right)))\<rparr>)"

lemma filter_map_items:
  "filter (\<lambda>e. P (pe_classification e)) (map (item_of cs) ms) = map (item_of cs) (filter (\<lambda>a. P (cd_classification a)) ms)"
  by (induction ms) auto

lemma sorted_filter_items:
  assumes "sorted (map cd_pair ms)"
  shows "sort_key pair_ids (map (item_of cs) (filter P ms)) = map (item_of cs) (filter P ms)"
proof (rule sort_key_id_if_sorted)
  have "map pair_ids (map (item_of cs) (filter P ms)) = map cd_pair (filter P ms)" by simp
  then show "sorted (map pair_ids (map (item_of cs) (filter P ms)))"
    using sorted_filter[OF assms, of P] by (simp only:)
qed

text \<open>What the matching returns, for valid transactions.\<close>

lemma match_transactions_eq:
  assumes valid: "list_all valid_transaction left" "list_all valid_transaction right"
  obtains (duplicate) "\<not> (distinct_ids left \<and> distinct_ids right)"
      "match_transactions lib left right policy = Some (Inl (ValueError ''reconciliation_transaction_id_duplicate''))"
    | (matched) ms where "distinct_ids left" "distinct_ids right"
      "best_assignment (candidates_of lib left right policy) ms"
      "match_transactions lib left right policy = Some (Inr (report_of lib left right policy ms))"
proof (cases "distinct_ids left \<and> distinct_ids right")
  case False
  have sorted_ids: "distinct_ids left \<Longrightarrow> normalize_transactions left = Inr (sort_key transaction_sort_key left)"
    by (simp add: normalize_transactions_def distinct_ids_def)
  from False show ?thesis
    by (intro duplicate) (auto simp: match_transactions_def obind_def sorted_ids,
      auto simp: normalize_transactions_def distinct_ids_def)
next
  case True
  let ?cs = "candidates_of lib left right policy"
  have "well_formed ?cs"
    unfolding candidates_of_def using True canonical_rows_distinct
    by (intro score_candidates_well_formed) (auto simp: distinct_ids_def)
  then obtain ms where ms: "optimal_one_to_one_match ?cs = Some (Inr ms)" "best_assignment ?cs ms"
    using match_best by blast
  have sorted: "sorted (map cd_pair ms)" "set ms \<subseteq> set ?cs" using ms(2) by (simp_all add: best_assignment_def)
  have rows: "list_all valid_transaction (canonical_rows lib left)" "list_all valid_transaction (canonical_rows lib right)"
    using valid by (auto simp: list_all_iff dest: subsetD[OF canonical_rows_subset])
  have "report ?cs ms (canonical_rows lib left) (canonical_rows lib right)
      (duplicate_groups lib LeftSide left @ duplicate_groups lib RightSide right) =
      Inr (report_of lib left right policy ms)"
    using pair_items_ok[OF sorted(2)[unfolded candidates_of_def] rows] unmatched_items_ok[OF rows(1)]
      unmatched_items_ok[OF rows(2)]
    by (simp add: report_def report_of_def candidates_of_def filter_map_items[where P = "\<lambda>k. k = Matched"]
        filter_map_items[where P = "\<lambda>k. k \<noteq> Matched"] sorted_filter_items[OF sorted(1)] Let_def)
  then have "match_transactions lib left right policy = Some (Inr (report_of lib left right policy ms))"
    using True valid ms(1)
    by (simp add: match_transactions_def obind_def normalize_transactions_def distinct_ids_def
        partition_duplicates_ok Let_def flip: candidates_of_def)
  then show ?thesis using matched True ms(2) by blast
qed

section \<open>Every transaction is accounted for\<close>

text \<open>The identifiers of one side that the evidence names, each as often as it does.\<close>

definition accounted_ids :: "side \<Rightarrow> (pair_evidence \<Rightarrow> string) \<Rightarrow> reconciliation_result \<Rightarrow> string multiset" where
  "accounted_ids s id_of r =
     mset (map id_of (rr_matched r @ rr_differences r)) +
     mset (map ue_transaction_id (filter (\<lambda>e. ue_side e = s) (rr_unmatched r))) +
     mset (concat (map (\<lambda>e. remove1 (de_canonical_transaction_id e) (de_transaction_ids e))
       (filter (\<lambda>e. de_side e = s) (rr_duplicates r))))"

lemma mset_concat_map: "mset (concat (map f xs)) = \<Sum>\<^sub># (image_mset (\<lambda>x. mset (f x)) (mset xs))"
  by (induction xs) auto

lemma mset_filter_sorted: "mset (map g (filter P (sort_key k xs))) = mset (map g (filter P xs))"
  by (simp only: mset_map mset_filter mset_sort)

lemma duplicates_ids:
  "mset (concat (map (\<lambda>e. remove1 (de_canonical_transaction_id e) (de_transaction_ids e)) (duplicate_groups lib s rows))) =
     mset (map tx_transaction_id (concat (map tl (sorted_groups lib rows))))"
proof -
  let ?e = "\<lambda>gr. \<lparr>de_side = s, de_canonical_transaction_id = tx_transaction_id (hd gr),
        de_transaction_ids = map tx_transaction_id gr,
        de_evidence_refs = ordered_unique (concat (map tx_evidence_refs gr))\<rparr>"
  let ?f = "\<lambda>e. remove1 (de_canonical_transaction_id e) (de_transaction_ids e)"
  have sorted: "mset (concat (map ?f (sort_key k es))) = mset (concat (map ?f es))" for k :: "duplicate_evidence \<Rightarrow> string list" and es
    by (simp only: mset_concat_map mset_sort)
  have tails: "mset (concat (map ?f (map ?e (filter (\<lambda>gr. 1 < length gr) gs)))) =
      mset (map tx_transaction_id (concat (map tl gs)))" if "\<And>gr. gr \<in> set gs \<Longrightarrow> gr \<noteq> []" for gs
    using that
  proof (induction gs)
    case (Cons gr gs)
    then obtain t ts where gr: "gr = t # ts" by (cases gr) auto
    then show ?case using Cons by (cases ts) auto
  qed simp
  show ?thesis
    unfolding duplicate_groups_def sorted by (rule tails) (rule sorted_groups_nonempty)
qed

lemma assigned_and_unassigned:
  assumes "distinct (map tx_transaction_id rows)" and "distinct (map f ms)"
    and "f ` set ms \<subseteq> tx_transaction_id ` set rows"
  shows "mset (map tx_transaction_id rows) = mset (map f ms) + mset (map tx_transaction_id (unassigned f ms rows))"
proof -
  let ?in = "filter (\<lambda>row. tx_transaction_id row \<in> f ` set ms) rows"
  have parts: "mset rows = mset ?in + mset (unassigned f ms rows)"
    unfolding unassigned_def mset_filter by (rule multiset_partition)
  have ins: "mset (map tx_transaction_id ?in) = mset (map f ms)"
  proof (rule set_eq_iff_mset_eq_distinct[THEN iffD1])
    show "distinct (map tx_transaction_id ?in)" using assms(1) by (rule distinct_map_filter)
    have "set (map tx_transaction_id ?in) = {y \<in> tx_transaction_id ` set rows. y \<in> f ` set ms}" by auto
    also have "\<dots> = f ` set ms" using assms(3) by blast
    finally show "set (map tx_transaction_id ?in) = set (map f ms)" by simp
  qed (rule assms(2))
  show ?thesis using arg_cong[OF parts, of "image_mset tx_transaction_id"] ins by simp
qed

lemma sides_of_duplicates:
  "filter (\<lambda>e. de_side e = s) (duplicate_groups lib s' rows) = (if s = s' then duplicate_groups lib s' rows else [])"
proof -
  have "\<forall>e\<in>set (duplicate_groups lib s' rows). de_side e = s'" by (auto simp: duplicate_groups_def)
  then show ?thesis by (auto simp: filter_empty_conv filter_id_conv)
qed

lemma sides_of_unmatched:
  "filter (\<lambda>e. ue_side e = s) (map (unmatched_of s' f cs) rows) = (if s = s' then map (unmatched_of s' f cs) rows else [])"
  by (induction rows) auto

lemma unmatched_ids:
  "mset (map ue_transaction_id (filter (\<lambda>e. ue_side e = s)
     (sort_key k (map (unmatched_of LeftSide f cs) ls @ map (unmatched_of RightSide g cs) rs)))) =
   mset (map tx_transaction_id (case s of LeftSide \<Rightarrow> ls | RightSide \<Rightarrow> rs))"
  unfolding mset_filter_sorted by (cases s) (simp_all add: sides_of_unmatched o_def)

lemma matched_ids:
  assumes "\<And>a. id_of (item_of cs a) = f a"
  shows "mset (map id_of (map (item_of cs) (filter (\<lambda>a. cd_classification a = Matched) ms) @
      map (item_of cs) (filter (\<lambda>a. cd_classification a \<noteq> Matched) ms))) = mset (map f ms)"
  using assms by (induction ms) auto

lemma best_assignment_left:
  assumes "best_assignment (candidates_of lib left right policy) ms"
  shows "distinct (map left_id ms)" "left_id ` set ms \<subseteq> tx_transaction_id ` set (canonical_rows lib left)"
    and "distinct (map right_id ms)" "right_id ` set ms \<subseteq> tx_transaction_id ` set (canonical_rows lib right)"
proof -
  have b: "distinct ms" "one_to_one (set ms)" "set ms \<subseteq> set (candidates_of lib left right policy)"
    using assms by (simp_all add: best_assignment_def)
  then show "distinct (map left_id ms)" "distinct (map right_id ms)"
    by (simp_all add: distinct_map one_to_one_def)
  have "cd_left c \<in> set (canonical_rows lib left)" "cd_right c \<in> set (canonical_rows lib right)"
    if "c \<in> set ms" for c
    using subsetD[OF b(3) that] by (simp_all add: candidates_of_def score_candidates_mem)
  then show "left_id ` set ms \<subseteq> tx_transaction_id ` set (canonical_rows lib left)"
    "right_id ` set ms \<subseteq> tx_transaction_id ` set (canonical_rows lib right)" by blast+
qed

lemma report_accounts:
  assumes distinct: "distinct_ids left" "distinct_ids right"
    and best: "best_assignment (candidates_of lib left right policy) ms"
  shows "accounted_ids LeftSide pe_left_transaction_id (report_of lib left right policy ms) =
      mset (map tx_transaction_id left)"
    and "accounted_ids RightSide pe_right_transaction_id (report_of lib left right policy ms) =
      mset (map tx_transaction_id right)"
proof -
  note b = best_assignment_left[OF best]
  have ids: "mset (map tx_transaction_id rows) = mset (map f ms) +
      mset (map tx_transaction_id (unassigned f ms (canonical_rows lib rows))) +
      mset (map tx_transaction_id (concat (map tl (sorted_groups lib rows))))"
    if "distinct_ids rows" "distinct (map f ms)" "f ` set ms \<subseteq> tx_transaction_id ` set (canonical_rows lib rows)" for rows f
    using assigned_and_unassigned[OF canonical_rows_distinct that(2,3)] that(1) canonical_rows_mset[of rows lib]
    by (simp add: distinct_ids_def)
  show "accounted_ids LeftSide pe_left_transaction_id (report_of lib left right policy ms) =
      mset (map tx_transaction_id left)"
    unfolding ids[OF distinct(1) b(1,2)] accounted_ids_def report_of_def Let_def reconciliation_result.simps
      unmatched_ids side.case filter_append sides_of_duplicates matched_ids[of pe_left_transaction_id, OF item_of_simps(3)]
    by (simp add: duplicates_ids del: mset_map)
  show "accounted_ids RightSide pe_right_transaction_id (report_of lib left right policy ms) =
      mset (map tx_transaction_id right)"
    unfolding ids[OF distinct(2) b(3,4)] accounted_ids_def report_of_def Let_def reconciliation_result.simps
      unmatched_ids side.case filter_append sides_of_duplicates matched_ids[of pe_right_transaction_id, OF item_of_simps(4)]
    by (simp add: duplicates_ids del: mset_map)
qed

section \<open>The order of the input does not matter\<close>

lemma sort_rows_permuted:
  assumes "mset rows' = mset rows" and "distinct (map tx_transaction_id rows)"
  shows "sort_key transaction_sort_key rows' = sort_key transaction_sort_key rows"
proof (rule map_sorted_distinct_set_unique[of transaction_sort_key])
  have sets: "set rows' = set rows" using assms(1) by (rule mset_eq_setD)
  show "inj_on transaction_sort_key (set (sort_key transaction_sort_key rows') \<union> set (sort_key transaction_sort_key rows))"
    using assms(2) sets by (auto simp: distinct_map inj_on_def transaction_sort_key_def)
  have "distinct rows'" "distinct rows"
    using assms(2) mset_eq_imp_distinct_iff[OF assms(1)] by (simp_all add: distinct_map)
  moreover have "inj_on transaction_sort_key (set rows)"
    using assms(2) by (auto simp: distinct_map inj_on_def transaction_sort_key_def)
  ultimately show "distinct (map transaction_sort_key (sort_key transaction_sort_key rows'))"
    "distinct (map transaction_sort_key (sort_key transaction_sort_key rows))"
    using sets by (simp_all add: distinct_map)
qed (use mset_eq_setD[OF assms(1)] in simp_all)

lemma normalize_permuted:
  assumes "mset rows' = mset rows"
  shows "normalize_transactions rows' = normalize_transactions rows"
proof -
  have "distinct (map tx_transaction_id rows') = distinct (map tx_transaction_id rows)"
    using assms by (metis mset_eq_imp_distinct_iff mset_map)
  then show ?thesis using sort_rows_permuted[OF assms] by (simp add: normalize_transactions_def)
qed

section \<open>Properties\<close>

text \<open>
  C33: reconciliation always returns and finds the best assignment. For valid transactions it never
  runs forever and fails only if a side repeats an identifier. Otherwise its matched and differing
  pairs are the best one-to-one assignment of candidates between the rows left after the
  duplicates: no assignment has more pairs, and of those with as many none has fewer differences,
  or as few and fewer pairs without the same reference, and so on through counterparties, total
  amount difference, total date difference and the order of identifiers.
\<close>

theorem reconciliation_best:
  assumes "list_all valid_transaction left" and "list_all valid_transaction right"
  shows "case match_transactions lib left right policy of
      None \<Rightarrow> False
    | Some (Inl e) \<Rightarrow> e = ValueError ''reconciliation_transaction_id_duplicate'' \<and>
        \<not> (distinct_ids left \<and> distinct_ids right)
    | Some (Inr r) \<Rightarrow> distinct_ids left \<and> distinct_ids right \<and>
        (\<exists>ms. best_assignment (candidates_of lib left right policy) ms \<and>
           map pair_ids (rr_matched r) = map cd_pair (filter (\<lambda>a. cd_classification a = Matched) ms) \<and>
           map pair_ids (rr_differences r) = map cd_pair (filter (\<lambda>a. cd_classification a \<noteq> Matched) ms))"
proof (rule match_transactions_eq[OF assms, of lib policy])
  fix ms assume ms: "distinct_ids left" "distinct_ids right"
    "best_assignment (candidates_of lib left right policy) ms"
    "match_transactions lib left right policy = Some (Inr (report_of lib left right policy ms))"
  then show ?thesis by (auto simp: report_of_def Let_def o_def intro!: exI[of _ ms])
qed auto

text \<open>
  C34: no transaction is lost or counted twice. In the result of a reconciliation every identifier
  of a side occurs exactly once: in one matched or differing pair, among the unmatched rows, or as
  a duplicate of the canonical row of its group; and nothing else occurs.
\<close>

theorem reconciliation_accounts_for_all:
  assumes "list_all valid_transaction left" and "list_all valid_transaction right"
    and "match_transactions lib left right policy = Some (Inr r)"
  shows "accounted_ids LeftSide pe_left_transaction_id r = mset (map tx_transaction_id left) \<and>
    accounted_ids RightSide pe_right_transaction_id r = mset (map tx_transaction_id right)"
proof (rule match_transactions_eq[OF assms(1,2), of lib policy])
  fix ms assume "distinct_ids left" "distinct_ids right"
    "best_assignment (candidates_of lib left right policy) ms"
    "match_transactions lib left right policy = Some (Inr (report_of lib left right policy ms))"
  then show ?thesis using report_accounts assms(3) by auto
qed (use assms(3) in simp)

text \<open>The result does not depend on the order in which the transactions are given.\<close>

lemma reconciliation_order_independent:
  assumes "mset left' = mset left" and "mset right' = mset right"
  shows "match_transactions lib left' right' policy = match_transactions lib left right policy"
  unfolding match_transactions_def normalize_permuted[OF assms(1)] normalize_permuted[OF assms(2)] by (rule refl)

section \<open>A concrete reconciliation\<close>

definition sample_transaction :: "string \<Rightarrow> int \<Rightarrow> int \<Rightarrow> string \<Rightarrow> transaction" where
  "sample_transaction ident amount day reference =
     \<lparr>tx_transaction_id = ident, tx_source = ''bank'', tx_amount = amount, tx_currency = ''THB'',
      tx_transaction_date = day, tx_reference = Some reference, tx_counterparty_key = None,
      tx_document_state = ''paid'', tx_evidence_refs = [ident]\<rparr>"

definition sample_left :: "transaction list" where
  "sample_left = [sample_transaction ''L2'' 50 1 ''a'', sample_transaction ''L1'' 50 1 ''a'', sample_transaction ''L3'' 52 1 ''a'']"

definition sample_right :: "transaction list" where
  "sample_right = [sample_transaction ''R1'' 52 1 ''a'', sample_transaction ''R2'' 51 2 ''a'']"

definition sample_policy :: policy where
  "sample_policy = \<lparr>po_amount_tolerance = 1, po_difference_tolerance = 2, po_date_tolerance_days = 1,
     po_require_document_state_match = True, po_require_identity_match = True\<rparr>"

definition sample_pylib :: pylib where
  "sample_pylib = \<lparr>sha256_hexdigest = id, casefold = id\<rparr>"

lemma sample_valid: "list_all valid_transaction sample_left" "list_all valid_transaction sample_right"
    "distinct_ids sample_left" "distinct_ids sample_right"
  by (simp_all add: sample_left_def sample_right_def sample_transaction_def valid_transaction_def
      validate_canonical_data_def distinct_ids_def)

theorem reconciliation_best_witness:
  "\<exists>ms r. match_transactions sample_pylib sample_left sample_right sample_policy = Some (Inr r) \<and>
     best_assignment (candidates_of sample_pylib sample_left sample_right sample_policy) ms \<and>
     map pair_ids (rr_matched r) = map cd_pair (filter (\<lambda>a. cd_classification a = Matched) ms)"
  using reconciliation_best[OF sample_valid(1,2), of sample_pylib sample_policy] sample_valid(3,4)
  by (auto split: option.splits sum.splits)

theorem reconciliation_accounts_for_all_witness:
  "\<exists>r. match_transactions sample_pylib sample_left sample_right sample_policy = Some (Inr r) \<and>
     accounted_ids LeftSide pe_left_transaction_id r = {#''L1'', ''L2'', ''L3''#}"
proof (rule match_transactions_eq[OF sample_valid(1,2), of sample_pylib sample_policy])
  fix ms
  let ?r = "report_of sample_pylib sample_left sample_right sample_policy ms"
  assume "match_transactions sample_pylib sample_left sample_right sample_policy = Some (Inr ?r)"
  then show ?thesis
    using reconciliation_accounts_for_all[OF sample_valid(1,2), of sample_pylib sample_policy ?r]
    by (auto simp: sample_left_def sample_transaction_def add_mset_commute)
qed (use sample_valid(3,4) in simp)

end
