(* ===== verification/Hosted_Text.thy ===== *)
theory Hosted_Text
  imports Text_Tools
begin

text \<open>
  Model of \<open>execution/hosted/sanitization.py\<close>: the projection of display texts of hosted previews.
  A regular expression is a value of \<open>regex\<close> over the characters of a text; \<open>match_ends\<close> gives the
  lengths of its matches in the order in which Python's backtracking tries them, and \<open>re_sub\<close> is
  \<open>pattern.sub\<close> of a pattern that starts with \<open>(?<!\d)\<close>. The property: whatever is redacted before,
  the projected text contains neither a Thai tax identifier nor a Thai phone number.
\<close>

text \<open>
  The library of the hosted components: \<open>redact_public\<close> is \<open>redact_text\<close> of \<open>safety/redaction.py\<close>,
  \<open>control_or_format\<close> tells the Unicode categories Cc and Cf, \<open>iso_day\<close> is
  \<open>date.fromisoformat(text).isoformat()\<close>, whose texts are ordered as their dates, \<open>iso_instant\<close> the
  text pydantic and \<open>isoformat\<close> give an aware timestamp, \<open>load_json\<close> is \<open>json.loads\<close> of UTF-8 bytes
  (\<open>None\<close> is its \<open>ValueError\<close>).
\<close>

record hosted_lib = value_lib +
  redact_public :: "string \<Rightarrow> string"
  control_or_format :: "string \<Rightarrow> bool"
  iso_day :: "string \<Rightarrow> string option"
  iso_instant :: "instant \<Rightarrow> string"
  load_json :: "string \<Rightarrow> json option"

section \<open>Regular expressions\<close>

text \<open>\<open>\d\<close>: a decimal digit of any script.\<close>

definition decimal_digit :: "'a value_lib_scheme \<Rightarrow> string \<Rightarrow> bool" where
  "decimal_digit lib ch =
     (case ch of [c] \<Rightarrow> digit_char c | _ \<Rightarrow> unicode_digit lib ch \<noteq> None)"

datatype regex =
    Digit
  | OneOf "string list"
  | Optional regex
  | Seq regex regex
  | Alt regex regex
  | NoDigitAhead

fun repeated :: "nat \<Rightarrow> regex \<Rightarrow> regex \<Rightarrow> regex" where
  "repeated 0 r s = s"
| "repeated (Suc n) r s = Seq r (repeated n r s)"

definition starts_digit :: "'a value_lib_scheme \<Rightarrow> string list \<Rightarrow> bool" where
  "starts_digit lib cs = (case cs of [] \<Rightarrow> False | c # _ \<Rightarrow> decimal_digit lib c)"

fun match_ends :: "'a value_lib_scheme \<Rightarrow> regex \<Rightarrow> string list \<Rightarrow> nat list" where
  "match_ends lib Digit cs = (if starts_digit lib cs then [1] else [])"
| "match_ends lib (OneOf xs) cs =
     (case cs of [] \<Rightarrow> [] | c # _ \<Rightarrow> if c \<in> set xs then [1] else [])"
| "match_ends lib (Optional r) cs = match_ends lib r cs @ [0]"
| "match_ends lib (Seq r s) cs =
     concat (map (\<lambda>n. map ((+) n) (match_ends lib s (drop n cs))) (match_ends lib r cs))"
| "match_ends lib (Alt r s) cs = match_ends lib r cs @ match_ends lib s cs"
| "match_ends lib NoDigitAhead cs = (if starts_digit lib cs then [] else [0])"

text \<open>
  \<open>pattern.sub(marker, text)\<close>: scanning from the left, a match that is not preceded by a digit is
  replaced by the marker. The patterns here never match the empty text.
\<close>

function re_sub ::
    "'a value_lib_scheme \<Rightarrow> regex \<Rightarrow> string list \<Rightarrow> bool \<Rightarrow> string list \<Rightarrow> string list" where
  "re_sub lib r marker after_digit [] = []"
| "re_sub lib r marker after_digit (c # cs) =
     (case (if after_digit then [] else match_ends lib r (c # cs)) of
        Suc n # _ \<Rightarrow> marker @ re_sub lib r marker (decimal_digit lib ((c # cs) ! n)) (drop n cs)
      | _ \<Rightarrow> c # re_sub lib r marker (decimal_digit lib c) cs)"
  by pat_completeness auto
termination
  by (relation "measure (\<lambda>(lib, r, marker, after_digit, cs). length cs)") auto

definition chars :: "string \<Rightarrow> string list" where
  "chars s = map (\<lambda>c. [c]) s"

definition separator :: regex where
  "separator = Optional (OneOf [''-'', '' ''])"

text \<open>\<open>(?<!\d)(?:\d[- ]?){13}(?!\d)\<close>\<close>

definition thai_tax_identifier :: regex where
  "thai_tax_identifier = repeated 13 (Seq Digit separator) NoDigitAhead"

definition area_code :: regex where
  "area_code = Alt (Seq (OneOf (chars ''689'')) Digit) (OneOf (chars ''234567''))"

definition local_number :: regex where
  "local_number =
     Seq area_code (Seq separator (repeated 3 Digit (Seq separator (repeated 4 Digit NoDigitAhead))))"

text \<open>
  \<open>(?<!\d)(?:\+?66[- ]?(?:[689]\d|[2-7])[- ]?\d{3}[- ]?\d{4}|0(?:[689]\d|[2-7])[- ]?\d{3}[- ]?\d{4})(?!\d)\<close>
\<close>

definition phone_identifier :: regex where
  "phone_identifier =
     Alt (Seq (Optional (OneOf [''+''])) (Seq (OneOf [''6'']) (Seq (OneOf [''6''])
            (Seq separator local_number))))
         (Seq (OneOf [''0'']) local_number)"

section \<open>The projection\<close>

text \<open>\<open>re.compile(r"\[REDACTED(?:_[A-Z]+)?\]").search(text) is not None\<close>\<close>

fun marker_tail :: "string \<Rightarrow> bool" where
  "marker_tail [] = False"
| "marker_tail (c # cs) =
     (if c = CHR '']'' then True
      else c = CHR ''_'' \<and> (let rest = dropWhile upper_char cs
        in rest \<noteq> cs \<and> rest \<noteq> [] \<and> hd rest = CHR '']''))"

fun has_redaction_marker :: "string \<Rightarrow> bool" where
  "has_redaction_marker [] = False"
| "has_redaction_marker (c # cs) =
     (take 9 (c # cs) = ''[REDACTED'' \<and> marker_tail (drop 9 (c # cs)) \<or> has_redaction_marker cs)"

definition sanitize_public_text :: "'a hosted_lib_scheme \<Rightarrow> string \<Rightarrow> string \<Rightarrow> string result" where
  "sanitize_public_text lib code value =
     ebind (raise_if (value = [] \<or> list_ex (control_or_format lib) (utf8_chars value))
              (ValueError code)) (\<lambda>_.
     let projected = utf8_chars (redact_public lib value);
         untaxed = re_sub lib thai_tax_identifier (chars ''[REDACTED_TAX_ID]'') False projected
     in Inr (concat (re_sub lib phone_identifier (chars ''[REDACTED_PHONE]'') False untaxed)))"

definition require_safe_public_identifier ::
    "'a hosted_lib_scheme \<Rightarrow> string \<Rightarrow> string \<Rightarrow> string result" where
  "require_safe_public_identifier lib code value =
     ebind (sanitize_public_text lib code value) (\<lambda>projected.
     ebind (raise_if (projected \<noteq> value \<or> has_redaction_marker projected) (ValueError code)) (\<lambda>_.
       Inr value))"

section \<open>The patterns of identifiers\<close>

definition identifier_char :: "char \<Rightarrow> bool" where
  "identifier_char c \<longleftrightarrow> alpha_char c \<or> digit_char c \<or> c \<in> set ''._:-''"

definition is_identifier :: "string \<Rightarrow> bool" where
  "is_identifier s \<longleftrightarrow>
     head_tail_pattern (\<lambda>c. alpha_char c \<or> digit_char c) identifier_char 199 s"

definition is_environment :: "string \<Rightarrow> bool" where
  "is_environment s \<longleftrightarrow>
     head_tail_pattern lower_char (\<lambda>c. lower_char c \<or> digit_char c \<or> c = CHR ''_'' \<or> c = CHR ''-'') 63 s"

definition is_document_type :: "string \<Rightarrow> bool" where
  "is_document_type s \<longleftrightarrow>
     head_tail_pattern lower_char (\<lambda>c. lower_char c \<or> digit_char c \<or> c = CHR ''_'') 63 s"

definition is_currency :: "string \<Rightarrow> bool" where
  "is_currency s \<longleftrightarrow> length s = 3 \<and> list_all upper_char s"

fun split_dots :: "string \<Rightarrow> string list" where
  "split_dots [] = [[]]"
| "split_dots (c # cs) =
     (if c = CHR ''.'' then [] # split_dots cs
      else (case split_dots cs of [] \<Rightarrow> [[c]] | p # ps \<Rightarrow> (c # p) # ps))"

definition capability_part :: "string \<Rightarrow> bool" where
  "capability_part p \<longleftrightarrow>
     p \<noteq> [] \<and> lower_char (hd p) \<and> list_all (\<lambda>c. lower_char c \<or> digit_char c \<or> c = CHR ''_'') p"

definition is_capability :: "string \<Rightarrow> bool" where
  "is_capability s \<longleftrightarrow> 2 \<le> length (split_dots s) \<and> list_all capability_part (split_dots s)"

end
