(* ===== verification/Hosted_Money.thy ===== *)
theory Hosted_Money
  imports Hosted_Text "HOL-Library.Code_Target_Nat"
begin

text \<open>
  The money of hosted previews: the decimal fields and the cross checks of \<open>DocumentLineAmounts\<close> and
  \<open>DocumentFinancials\<close> (\<open>execution/hosted/models.py\<close>). A \<open>Decimal\<close> is its sign, coefficient and
  exponent, as it is printed and hashed; the checks compute with its value in units of
  \<open>10\<^sup>-\<^sup>4\<close> (a field has at most four decimals), every operation rounded to the 28 digits of the default
  context. \<open>quantize\<close> to more than 28 digits is \<open>InvalidOperation\<close>, which is no \<open>ValueError\<close>.
\<close>

section \<open>Decimal fields\<close>

text \<open>The text of \<open>format(value, "f")\<close>.\<close>

fun decimal_text :: "decimal \<Rightarrow> string" where
  "decimal_text NotFinite = ''NaN''"
| "decimal_text (Finite neg k e) =
     (if neg then ''-'' else []) @
     (if 0 \<le> e then (if k = 0 then ''0'' else show_nat k @ replicate (nat e) CHR ''0'')
      else let n = nat (- e); ds = show_nat k;
               padded = replicate (n + 1 - length ds) CHR ''0'' @ ds
           in take (length padded - n) padded @ ''.'' @ drop (length padded - n) padded)"

text \<open>\<open>_MAX_DECIMAL\<close> in units of \<open>10\<^sup>-\<^sup>4\<close>.\<close>

definition max_decimal :: nat where
  "max_decimal = 9999999999999999999"

fun units :: "decimal \<Rightarrow> int" where
  "units NotFinite = 0"
| "units (Finite neg k e) = (if neg then - 1 else 1) * int (k * 10 ^ nat (e + 4))"

text \<open>\<open>_parse_decimal_string\<close> of a \<open>Decimal\<close>.\<close>

definition decimal_field :: "decimal \<Rightarrow> bool" where
  "decimal_field d =
     (case d of
        NotFinite \<Rightarrow> False
      | Finite neg k e \<Rightarrow> -4 \<le> e \<and> \<bar>units d\<bar> \<le> int max_decimal)"

definition nonnegative_field :: "decimal \<Rightarrow> bool" where
  "nonnegative_field d \<longleftrightarrow> decimal_field d \<and> 0 \<le> units d"

definition positive_field :: "decimal \<Rightarrow> bool" where
  "positive_field d \<longleftrightarrow> decimal_field d \<and> 0 < units d"

definition rate_field :: "decimal \<Rightarrow> bool" where
  "rate_field d \<longleftrightarrow> decimal_field d \<and> 0 \<le> units d \<and> units d \<le> 1000000"

section \<open>Arithmetic\<close>

text \<open>The result of an operation in the default context.\<close>

definition in_context :: "int \<Rightarrow> int" where
  "in_context x = sgn x * int (context_round (nat \<bar>x\<bar>))"

abbreviation (input) invalid_operation :: mercury_error where
  "invalid_operation \<equiv> UnexpectedError ''InvalidOperation''"

text \<open>\<open>_round_money\<close> of a value in units of \<open>10\<^sup>-\<^sup>s\<close>, in units of \<open>10\<^sup>-\<^sup>4\<close>.\<close>

definition round_money :: "nat \<Rightarrow> nat \<Rightarrow> int \<Rightarrow> int result" where
  "round_money s minor_units x =
     (let rounded = round_half_up (nat \<bar>x\<bar>) (10 ^ (s - minor_units))
      in if rounded < 10 ^ 28 then Inr (sgn x * int rounded * 10 ^ (4 - minor_units))
         else Inl invalid_operation)"

text \<open>\<open>sum(values, Decimal("0"))\<close>\<close>

definition decimal_add :: "int \<Rightarrow> int \<Rightarrow> int" where
  "decimal_add x y = in_context (x + y)"

definition decimal_sum :: "int list \<Rightarrow> int" where
  "decimal_sum xs = foldl decimal_add 0 xs"

text \<open>
  Pydantic validates every field of a model before its own check and reports all their
  \<open>ValueError\<close>s together; any other exception of a nested check comes out at once.
\<close>

definition fields_valid :: "bool \<Rightarrow> 'a result \<Rightarrow> 'a result" where
  "fields_valid ok r =
     (case r of
        Inl e \<Rightarrow> if is_value_error e then Inl (ValueError ''validation_error'') else Inl e
      | Inr x \<Rightarrow> if ok then Inr x else Inl (ValueError ''validation_error''))"

fun validate_all :: "('a \<Rightarrow> 'b result) \<Rightarrow> 'a list \<Rightarrow> 'b list result" where
  "validate_all f [] = Inr []"
| "validate_all f (x # xs) =
     (case f x of
        Inl e \<Rightarrow> if is_value_error e then fields_valid False (validate_all f xs) else Inl e
      | Inr y \<Rightarrow> ebind (validate_all f xs) (\<lambda>ys. Inr (y # ys)))"

section \<open>One line\<close>

record line_amounts =
  li_currency :: string
  li_minor_units :: nat
  li_quantity :: decimal
  li_unit_price :: decimal
  li_discount_amount :: decimal
  li_vat_rate :: decimal
  li_vat_amount :: decimal
  li_withholding_rate :: decimal
  li_withholding_amount :: decimal
  li_line_total :: decimal

definition line_fields_valid :: "line_amounts \<Rightarrow> bool" where
  "line_fields_valid l \<longleftrightarrow>
     is_currency (li_currency l) \<and> li_minor_units l \<le> 4 \<and>
     positive_field (li_quantity l) \<and> nonnegative_field (li_unit_price l) \<and>
     nonnegative_field (li_discount_amount l) \<and>
     rate_field (li_vat_rate l) \<and> nonnegative_field (li_vat_amount l) \<and>
     rate_field (li_withholding_rate l) \<and> nonnegative_field (li_withholding_amount l) \<and>
     decimal_field (li_line_total l)"

text \<open>\<open>quantity * unit_price\<close>, in units of \<open>10\<^sup>-\<^sup>8\<close>.\<close>

definition line_product :: "line_amounts \<Rightarrow> int" where
  "line_product l = in_context (units (li_quantity l) * units (li_unit_price l))"

text \<open>\<open>_round_money(taxable * rate / Decimal("100"), minor_units)\<close>\<close>

definition tax_of :: "nat \<Rightarrow> int \<Rightarrow> decimal \<Rightarrow> int result" where
  "tax_of minor_units taxable rate =
     round_money 10 minor_units (in_context (taxable * units rate))"

definition cross_check_line :: "line_amounts \<Rightarrow> unit result" where
  "cross_check_line l =
     (let m = li_minor_units l; discount = units (li_discount_amount l) in
      ebind (round_money 8 m (line_product l)) (\<lambda>subtotal.
      ebind (round_money 4 m discount) (\<lambda>rounded_discount.
      ebind (raise_if (discount \<noteq> rounded_discount) (ValueError ''line_currency_precision_invalid'')) (\<lambda>_.
      ebind (raise_if (discount > subtotal) (ValueError ''line_discount_mismatch'')) (\<lambda>_.
      let taxable = in_context (subtotal - discount) in
      ebind (tax_of m taxable (li_vat_rate l)) (\<lambda>expected_vat.
      ebind (tax_of m taxable (li_withholding_rate l)) (\<lambda>expected_withholding.
      ebind (round_money 4 m (in_context (in_context (taxable + expected_vat) - expected_withholding)))
        (\<lambda>expected_total.
      ebind (raise_if (units (li_vat_amount l) \<noteq> expected_vat) (ValueError ''line_vat_mismatch'')) (\<lambda>_.
      ebind (raise_if (units (li_withholding_amount l) \<noteq> expected_withholding)
              (ValueError ''line_withholding_mismatch'')) (\<lambda>_.
      raise_if (units (li_line_total l) \<noteq> expected_total) (ValueError ''line_total_mismatch'')))))))))))"

definition validate_line :: "line_amounts \<Rightarrow> line_amounts result" where
  "validate_line l =
     ebind (raise_if (\<not> line_fields_valid l) (ValueError ''validation_error'')) (\<lambda>_.
     ebind (cross_check_line l) (\<lambda>_. Inr l))"

section \<open>A document\<close>

record financials =
  fi_currency :: string
  fi_minor_units :: nat
  fi_lines :: "line_amounts list"
  fi_subtotal :: decimal
  fi_discount_total :: decimal
  fi_vat_total :: decimal
  fi_withholding_tax_total :: decimal
  fi_grand_total :: decimal

definition financials_fields_valid :: "financials \<Rightarrow> bool" where
  "financials_fields_valid f \<longleftrightarrow>
     is_currency (fi_currency f) \<and> fi_minor_units f \<le> 4 \<and>
     fi_lines f \<noteq> [] \<and> length (fi_lines f) \<le> 2500 \<and>
     nonnegative_field (fi_subtotal f) \<and> nonnegative_field (fi_discount_total f) \<and>
     nonnegative_field (fi_vat_total f) \<and> nonnegative_field (fi_withholding_tax_total f) \<and>
     decimal_field (fi_grand_total f)"

text \<open>\<open>_round_money(sum((value(line) for line in self.lines), Decimal("0")), self.minor_units)\<close>\<close>

definition expected_total :: "nat \<Rightarrow> (line_amounts \<Rightarrow> int) \<Rightarrow> financials \<Rightarrow> int result" where
  "expected_total s f fin =
     round_money s (fi_minor_units fin) (decimal_sum (map f (fi_lines fin)))"

definition cross_check_document :: "financials \<Rightarrow> unit result" where
  "cross_check_document f =
     ebind (raise_if (list_ex (\<lambda>l. li_currency l \<noteq> fi_currency f \<or> li_minor_units l \<noteq> fi_minor_units f)
              (fi_lines f)) (ValueError ''document_currency_mismatch'')) (\<lambda>_.
     ebind (expected_total 8 line_product f) (\<lambda>subtotal.
     ebind (expected_total 4 (units \<circ> li_discount_amount) f) (\<lambda>discount_total.
     ebind (expected_total 4 (units \<circ> li_vat_amount) f) (\<lambda>vat_total.
     ebind (expected_total 4 (units \<circ> li_withholding_amount) f) (\<lambda>withholding_total.
     ebind (expected_total 4 (units \<circ> li_line_total) f) (\<lambda>grand_total.
     ebind (raise_if (units (fi_subtotal f) \<noteq> subtotal) (ValueError ''document_subtotal_mismatch'')) (\<lambda>_.
     ebind (raise_if (units (fi_discount_total f) \<noteq> discount_total)
              (ValueError ''document_discount_mismatch'')) (\<lambda>_.
     ebind (raise_if (units (fi_vat_total f) \<noteq> vat_total) (ValueError ''document_vat_mismatch'')) (\<lambda>_.
     ebind (raise_if (units (fi_withholding_tax_total f) \<noteq> withholding_total)
              (ValueError ''document_withholding_mismatch'')) (\<lambda>_.
     ebind (raise_if (units (fi_grand_total f) \<noteq> grand_total)
              (ValueError ''document_grand_total_mismatch'')) (\<lambda>_.
     ebind (round_money 4 (fi_minor_units f)
              (in_context (in_context (in_context (units (fi_subtotal f) - units (fi_discount_total f))
                 + units (fi_vat_total f)) - units (fi_withholding_tax_total f)))) (\<lambda>calculated_total.
     raise_if (units (fi_grand_total f) \<noteq> calculated_total)
       (ValueError ''document_grand_total_mismatch'')))))))))))))"

definition validate_financials :: "financials \<Rightarrow> financials result" where
  "validate_financials f =
     ebind (fields_valid (financials_fields_valid f) (validate_all validate_line (fi_lines f))) (\<lambda>_.
     ebind (cross_check_document f) (\<lambda>_. Inr f))"

text \<open>Equality of the models: decimals are compared by value.\<close>

definition line_values :: "line_amounts \<Rightarrow> string \<times> nat \<times> int list" where
  "line_values l =
     (li_currency l, li_minor_units l,
      map units [li_quantity l, li_unit_price l, li_discount_amount l, li_vat_rate l, li_vat_amount l,
        li_withholding_rate l, li_withholding_amount l, li_line_total l])"

definition financials_values ::
    "financials \<Rightarrow> string \<times> nat \<times> (string \<times> nat \<times> int list) list \<times> int list" where
  "financials_values f =
     (fi_currency f, fi_minor_units f, map line_values (fi_lines f),
      map units [fi_subtotal f, fi_discount_total f, fi_vat_total f, fi_withholding_tax_total f,
        fi_grand_total f])"

text \<open>\<open>financials.model_dump(mode="json")\<close>: \<open>minor_units\<close> is excluded.\<close>

definition decimal_json :: "decimal \<Rightarrow> json" where
  "decimal_json d = JStr (decimal_text d)"

definition line_json :: "line_amounts \<Rightarrow> json" where
  "line_json l = JObj
     [(''currency'', JStr (li_currency l)),
      (''quantity'', decimal_json (li_quantity l)),
      (''unit_price'', decimal_json (li_unit_price l)),
      (''discount_amount'', decimal_json (li_discount_amount l)),
      (''vat_rate'', decimal_json (li_vat_rate l)),
      (''vat_amount'', decimal_json (li_vat_amount l)),
      (''withholding_rate'', decimal_json (li_withholding_rate l)),
      (''withholding_amount'', decimal_json (li_withholding_amount l)),
      (''line_total'', decimal_json (li_line_total l))]"

definition financials_json :: "financials \<Rightarrow> json" where
  "financials_json f = JObj
     [(''currency'', JStr (fi_currency f)),
      (''lines'', JArr (map line_json (fi_lines f))),
      (''subtotal'', decimal_json (fi_subtotal f)),
      (''discount_total'', decimal_json (fi_discount_total f)),
      (''vat_total'', decimal_json (fi_vat_total f)),
      (''withholding_tax_total'', decimal_json (fi_withholding_tax_total f)),
      (''grand_total'', decimal_json (fi_grand_total f))]"

section \<open>Line totals and the totals of a document\<close>

text \<open>Half a unit at one hundredth: the line rounds to one hundredth.\<close>

definition half_cent_line :: line_amounts where
  "half_cent_line =
     \<lparr>li_currency = ''THB'', li_minor_units = 2, li_quantity = Finite False 5 (- 1),
      li_unit_price = Finite False 1 (- 2), li_discount_amount = Finite False 0 0,
      li_vat_rate = Finite False 0 0, li_vat_amount = Finite False 0 0,
      li_withholding_rate = Finite False 0 0, li_withholding_amount = Finite False 0 0,
      li_line_total = Finite False 1 (- 2)\<rparr>"

lemma half_cent_line_parts:
  "line_fields_valid half_cent_line" "cross_check_line half_cent_line = Inr ()"
  "line_product half_cent_line = 500000" "li_minor_units half_cent_line = 2"
  by code_simp+

lemma half_cent_units:
  "map (units \<circ> f) [half_cent_line, half_cent_line] = [units (f half_cent_line), units (f half_cent_line)]"
  "units (li_discount_amount half_cent_line) = 0" "units (li_vat_amount half_cent_line) = 0"
  "units (li_withholding_amount half_cent_line) = 0" "units (li_line_total half_cent_line) = 100"
  by (simp_all add: half_cent_line_def)

lemma half_cent_sums:
  "round_money 8 2 (decimal_sum [500000, 500000]) = Inr 100"
  "round_money 4 2 (decimal_sum [0, 0]) = Inr 0" "round_money 4 2 (decimal_sum [100, 100]) = Inr 200"
  "round_money 4 2 (in_context (in_context (in_context 100))) = Inr 100"
  by code_simp+

text \<open>
  C38: Every line is rounded on its own but the subtotal only as a whole, so a document of two valid
  lines can have no totals at all: with two lines of half a unit at one hundredth each, every choice of
  currency and totals is rejected.
\<close>

theorem rounded_lines_admit_no_totals:
  "validate_line half_cent_line = Inr half_cent_line \<and>
   \<not> is_ok (validate_financials (f\<lparr>fi_lines := [half_cent_line, half_cent_line]\<rparr>))"
proof
  show "validate_line half_cent_line = Inr half_cent_line"
    by (simp add: validate_line_def half_cent_line_parts)
  define g where "g = f\<lparr>fi_lines := [half_cent_line, half_cent_line]\<rparr>"
  have lines: "fi_lines g = [half_cent_line, half_cent_line]" by (simp add: g_def)
  have "cross_check_document g \<noteq> Inr u" for u
  proof (cases "fi_minor_units g = 2")
    case True
    then show ?thesis
      by (auto simp: cross_check_document_def expected_total_def lines half_cent_line_parts half_cent_sums
          half_cent_units)
  next
    case False
    then show ?thesis by (simp add: cross_check_document_def lines half_cent_line_parts)
  qed
  then show "\<not> is_ok (validate_financials g)"
    by (auto simp: validate_financials_def is_ok_def outcome_simps split: sum.splits)
qed

end
