(* ===== verification/Provider_Authority.thy ===== *)
theory Provider_Authority
  imports Hosted_Text
begin

text \<open>
  What a hosted call is authorised by: \<open>ProviderConnection\<close> (\<open>providers/models.py\<close>) and
  \<open>ProviderMCPQualification\<close> (\<open>catalog/models.py\<close>), with all their validators. The scan of a
  qualification for credentials is the parameter \<open>safe\<close>. A timestamp is aware after validation.
\<close>

record tenant_scope =
  tenant_id :: uuid
  workspace_id :: uuid
  auth_user_id :: uuid

datatype provider_id = FlowAccount | Peak

fun provider_value :: "provider_id \<Rightarrow> string" where
  "provider_value FlowAccount = ''flowaccount''"
| "provider_value Peak = ''peak''"

datatype authorization_method = OAuth2PKCE | ProviderCredentials

datatype connection_readiness =
  RequiresValidation | Ready | ValidationFailed | RequiresReauthorization | Disconnected

fun readiness_value :: "connection_readiness \<Rightarrow> string" where
  "readiness_value RequiresValidation = ''requires_validation''"
| "readiness_value Ready = ''ready''"
| "readiness_value ValidationFailed = ''validation_failed''"
| "readiness_value RequiresReauthorization = ''requires_reauthorization''"
| "readiness_value Disconnected = ''disconnected''"

section \<open>Connections\<close>

record provider_connection = tenant_scope +
  pc_id :: uuid
  pc_provider :: provider_id
  pc_environment :: string
  pc_provider_account_id :: string
  pc_account_display_name :: string
  pc_authorization_method :: authorization_method
  pc_granted_permissions :: "string list"
  pc_readiness :: connection_readiness
  pc_revision :: int
  pc_last_validated_at :: "datetime option"
  pc_credential_envelope_ids :: "uuid list"
  pc_provider_revocation_required :: bool
  pc_disconnected_at :: "datetime option"
  pc_created_at :: datetime
  pc_updated_at :: datetime

text \<open>\<open>^[a-z][a-z0-9]*(?:[._-][a-z0-9]+)*$\<close>: after the first letter, no separator follows another or ends.\<close>

fun identifier_tail :: "bool \<Rightarrow> string \<Rightarrow> bool" where
  "identifier_tail after_separator [] = (\<not> after_separator)"
| "identifier_tail after_separator (c # cs) =
     (if lower_char c \<or> digit_char c then identifier_tail False cs
      else c \<in> set ''._-'' \<and> \<not> after_separator \<and> identifier_tail True cs)"

definition is_lower_identifier :: "string \<Rightarrow> bool" where
  "is_lower_identifier s \<longleftrightarrow>
     (case s of [] \<Rightarrow> False | c # cs \<Rightarrow> lower_char c \<and> identifier_tail False cs)"

definition is_permission :: "string \<Rightarrow> bool" where
  "is_permission s \<longleftrightarrow>
     head_tail_pattern (\<lambda>c. alpha_char c \<or> digit_char c)
       (\<lambda>c. alpha_char c \<or> digit_char c \<or> c \<in> set '':._/-'') 199 s"

definition is_aware :: "datetime \<Rightarrow> bool" where
  "is_aware d = (case d of Aware _ \<Rightarrow> True | Naive _ \<Rightarrow> False)"

fun instant_of :: "datetime \<Rightarrow> instant" where
  "instant_of (Aware t) = t"
| "instant_of (Naive t) = t"

definition text_length :: "string \<Rightarrow> nat" where
  "text_length s = length (utf8_chars s)"

definition bounded_text :: "nat \<Rightarrow> nat \<Rightarrow> string \<Rightarrow> bool" where
  "bounded_text lo hi s \<longleftrightarrow> lo \<le> text_length s \<and> text_length s \<le> hi"

definition display_safe :: "'a hosted_lib_scheme \<Rightarrow> string \<Rightarrow> bool" where
  "display_safe lib s \<longleftrightarrow> \<not> list_ex (control_or_format lib) (utf8_chars s)"

definition strictly_sorted :: "string list \<Rightarrow> bool" where
  "strictly_sorted xs \<longleftrightarrow> distinct xs \<and> sorted xs"

definition connection_fields_valid :: "'a hosted_lib_scheme \<Rightarrow> 'b provider_connection_scheme \<Rightarrow> bool" where
  "connection_fields_valid lib c \<longleftrightarrow>
     bounded_text 1 64 (pc_environment c) \<and> is_lower_identifier (pc_environment c) \<and>
     bounded_text 1 512 (pc_provider_account_id c) \<and> display_safe lib (pc_provider_account_id c) \<and>
     bounded_text 1 200 (pc_account_display_name c) \<and> display_safe lib (pc_account_display_name c) \<and>
     strictly_sorted (pc_granted_permissions c) \<and> list_all is_permission (pc_granted_permissions c) \<and>
     1 \<le> pc_revision c \<and> length (pc_credential_envelope_ids c) \<le> 16 \<and>
     list_all is_aware (List.map_filter id [pc_last_validated_at c, pc_disconnected_at c]) \<and>
     is_aware (pc_created_at c) \<and> is_aware (pc_updated_at c)"

definition connection_state_valid :: "'b provider_connection_scheme \<Rightarrow> bool" where
  "connection_state_valid c \<longleftrightarrow>
     pc_id c \<noteq> 0 \<and> tenant_id c \<noteq> 0 \<and> workspace_id c \<noteq> 0 \<and> auth_user_id c \<noteq> 0 \<and>
     distinct (pc_credential_envelope_ids c) \<and>
     instant_of (pc_created_at c) \<le> instant_of (pc_updated_at c) \<and>
     (pc_readiness c = Ready \<longrightarrow> pc_last_validated_at c \<noteq> None) \<and>
     (if pc_readiness c = Disconnected
      then pc_disconnected_at c \<noteq> None \<and> pc_credential_envelope_ids c = []
      else pc_disconnected_at c = None \<and> pc_credential_envelope_ids c \<noteq> [])"

definition validate_connection ::
    "'a hosted_lib_scheme \<Rightarrow> provider_connection \<Rightarrow> provider_connection result" where
  "validate_connection lib c =
     (if connection_fields_valid lib c \<and> connection_state_valid c then Inr c
      else Inl (ValueError ''provider_connection_invalid''))"

section \<open>Qualifications\<close>

datatype qualification_state =
  DiscoveredUnreviewed | SchemaValidated | NonproductionQualified | Enabled | Disabled | Superseded

record qualification =
  qu_id :: "uuid option"
  qu_provider :: string
  qu_environment :: string
  qu_provider_tool_name :: string
  qu_normalized_capability :: string
  qu_input_schema :: json
  qu_output_schema :: json
  qu_public_output_field_paths :: "string list option"
  qu_schema_hash :: string
  qu_response_shape_hash :: string
  qu_required_permissions :: "string list"
  qu_capability_version_sha256 :: string
  qu_state :: qualification_state
  qu_company_sha256 :: "string option"
  qu_evidence_revision_sha256 :: "string option"
  qu_qualification_evidence_uri :: "string option"
  qu_evidence_evaluated_at :: "datetime option"
  qu_evidence_expires_at :: "datetime option"
  qu_nonproduction_evidence_revision_sha256 :: "string option"
  qu_nonproduction_company_sha256 :: "string option"
  qu_production_canary_at :: "datetime option"
  qu_owner_authorized_by :: "string option"
  qu_disable_reason :: "string option"

definition qualification_schema_hash :: "'a pylib_scheme \<Rightarrow> json \<Rightarrow> json \<Rightarrow> string result" where
  "qualification_schema_hash lib input_schema output_schema =
     ebind (canonical_json (JObj [(''input_schema'', input_schema), (''output_schema'', output_schema)]))
       (\<lambda>text. Inr (sha256_hexdigest lib text))"

definition capability_version_payload :: "qualification \<Rightarrow> json" where
  "capability_version_payload q = JObj
     ([(''provider'', JStr (qu_provider q)),
       (''environment'', JStr (qu_environment q)),
       (''provider_tool_name'', JStr (qu_provider_tool_name q)),
       (''normalized_capability'', JStr (qu_normalized_capability q)),
       (''input_schema'', qu_input_schema q),
       (''output_schema'', qu_output_schema q),
       (''schema_hash'', JStr (qu_schema_hash q)),
       (''response_shape_hash'', JStr (qu_response_shape_hash q)),
       (''required_permissions'', jstrings (qu_required_permissions q))] @
      (case qu_public_output_field_paths q of
         None \<Rightarrow> []
       | Some paths \<Rightarrow> [(''public_output_field_paths'', jstrings paths)]))"

definition capability_version_sha256 :: "'a pylib_scheme \<Rightarrow> qualification \<Rightarrow> string result" where
  "capability_version_sha256 lib q =
     ebind (canonical_json (capability_version_payload q)) (\<lambda>text. Inr (sha256_hexdigest lib text))"

definition qualification_evidence_uri :: "string \<Rightarrow> string \<Rightarrow> string \<Rightarrow> string" where
  "qualification_evidence_uri provider version revision =
     ''catalog://global/'' @ provider @ ''/qualifications/'' @ version @ ''-'' @ revision @ ''.json''"

fun escapes_valid :: "string \<Rightarrow> bool" where
  "escapes_valid [] = True"
| "escapes_valid (c # cs) =
     (if c \<noteq> CHR ''~'' then escapes_valid cs
      else (case cs of [] \<Rightarrow> False | d # ds \<Rightarrow> (d = CHR ''0'' \<or> d = CHR ''1'') \<and> escapes_valid ds))"

fun split_slashes :: "string \<Rightarrow> string list" where
  "split_slashes [] = [[]]"
| "split_slashes (c # cs) =
     (if c = CHR ''/'' then [] # split_slashes cs
      else (case split_slashes cs of [] \<Rightarrow> [[c]] | p # ps \<Rightarrow> (c # p) # ps))"

definition valid_public_output_field_path :: "string \<Rightarrow> bool" where
  "valid_public_output_field_path path \<longleftrightarrow>
     path \<noteq> [] \<and> hd path = CHR ''/'' \<and> path \<noteq> ''/'' \<and>
     list_all (\<lambda>p. p \<noteq> [] \<and> (CHR ''*'' \<in> set p \<longrightarrow> p = ''*'') \<and> escapes_valid p)
       (split_slashes (tl path))"

definition optional_sha256 :: "string option \<Rightarrow> bool" where
  "optional_sha256 v = (case v of None \<Rightarrow> True | Some s \<Rightarrow> sha256_hex s)"

definition qualification_fields_valid :: "qualification \<Rightarrow> bool" where
  "qualification_fields_valid q \<longleftrightarrow>
     qu_provider q \<in> {''flowaccount'', ''peak''} \<and> is_environment (qu_environment q) \<and>
     is_identifier (qu_provider_tool_name q) \<and> is_capability (qu_normalized_capability q) \<and>
     sha256_hex (qu_schema_hash q) \<and> sha256_hex (qu_response_shape_hash q) \<and>
     sha256_hex (qu_capability_version_sha256 q) \<and> optional_sha256 (qu_company_sha256 q) \<and>
     optional_sha256 (qu_evidence_revision_sha256 q) \<and>
     optional_sha256 (qu_nonproduction_evidence_revision_sha256 q) \<and>
     optional_sha256 (qu_nonproduction_company_sha256 q)"

definition field_paths_valid :: "string list option \<Rightarrow> bool" where
  "field_paths_valid v =
     (case v of None \<Rightarrow> True
      | Some paths \<Rightarrow> strictly_sorted paths \<and> list_all valid_public_output_field_path paths)"

definition permissions_valid :: "string list \<Rightarrow> bool" where
  "permissions_valid ps \<longleftrightarrow> ps \<noteq> [] \<and> strictly_sorted ps \<and> list_all is_identifier ps"

definition requires_evidence :: "qualification \<Rightarrow> bool" where
  "requires_evidence q \<longleftrightarrow> qu_state q \<notin> {DiscoveredUnreviewed, SchemaValidated}"

definition evidence_present :: "qualification \<Rightarrow> bool" where
  "evidence_present q =
     (case (qu_evidence_revision_sha256 q, qu_qualification_evidence_uri q) of
        (Some revision, Some uri) \<Rightarrow>
          qu_company_sha256 q \<noteq> None \<and>
          uri = qualification_evidence_uri (qu_provider q) (qu_capability_version_sha256 q) revision \<and>
          qu_evidence_evaluated_at q \<noteq> None \<and> qu_evidence_expires_at q \<noteq> None
      | _ \<Rightarrow> False)"

definition evidence_absent :: "qualification \<Rightarrow> bool" where
  "evidence_absent q \<longleftrightarrow>
     qu_company_sha256 q = None \<and> qu_evidence_revision_sha256 q = None \<and>
     qu_qualification_evidence_uri q = None \<and> qu_evidence_evaluated_at q = None \<and>
     qu_evidence_expires_at q = None \<and> qu_nonproduction_evidence_revision_sha256 q = None \<and>
     qu_nonproduction_company_sha256 q = None"

definition nonproduction_reference_valid :: "qualification \<Rightarrow> bool" where
  "nonproduction_reference_valid q =
     (if qu_environment q = ''production'' \<and> requires_evidence q
      then qu_nonproduction_evidence_revision_sha256 q \<noteq> None \<and>
           qu_nonproduction_company_sha256 q \<noteq> None
      else qu_nonproduction_evidence_revision_sha256 q = None \<and>
           qu_nonproduction_company_sha256 q = None)"

definition canary_present :: "qualification \<Rightarrow> bool" where
  "canary_present q \<longleftrightarrow>
     qu_production_canary_at q \<noteq> None \<and>
     (case qu_owner_authorized_by q of None \<Rightarrow> False | Some owner \<Rightarrow> is_identifier owner)"

definition canary_absent :: "qualification \<Rightarrow> bool" where
  "canary_absent q \<longleftrightarrow> qu_production_canary_at q = None \<and> qu_owner_authorized_by q = None"

definition canary_valid :: "qualification \<Rightarrow> bool" where
  "canary_valid q =
     (if qu_state q \<in> {Enabled, Disabled, Superseded} \<and> qu_environment q = ''production''
      then canary_present q else canary_absent q)"

definition disable_reason_valid :: "qualification \<Rightarrow> bool" where
  "disable_reason_valid q =
     (if qu_state q \<in> {Disabled, Superseded}
      then (case qu_disable_reason q of None \<Rightarrow> False | Some reason \<Rightarrow> is_identifier reason)
      else qu_disable_reason q = None)"

definition validate_qualification ::
    "'a pylib_scheme \<Rightarrow> (qualification \<Rightarrow> bool) \<Rightarrow> qualification \<Rightarrow> qualification result" where
  "validate_qualification lib safe q =
     ebind (raise_if (\<not> safe q \<or> \<not> qualification_fields_valid q) (ValueError ''validation_error'')) (\<lambda>_.
     ebind (raise_if (\<not> field_paths_valid (qu_public_output_field_paths q))
              (ValueError ''provider_mcp_public_output_field_paths_invalid'')) (\<lambda>_.
     ebind (raise_if (\<not> permissions_valid (qu_required_permissions q))
              (ValueError ''provider_mcp_qualification_invalid'')) (\<lambda>_.
     ebind (qualification_schema_hash lib (qu_input_schema q) (qu_output_schema q)) (\<lambda>expected_schema_hash.
     ebind (raise_if (qu_schema_hash q \<noteq> expected_schema_hash)
              (ValueError ''provider_mcp_qualification_schema_hash_invalid'')) (\<lambda>_.
     ebind (capability_version_sha256 lib q) (\<lambda>expected_version.
     ebind (raise_if (qu_capability_version_sha256 q \<noteq> expected_version)
              (ValueError ''provider_mcp_qualification_version_invalid'')) (\<lambda>_.
     ebind (raise_if (\<not> list_all is_aware (List.map_filter id
              [qu_evidence_evaluated_at q, qu_evidence_expires_at q, qu_production_canary_at q]))
              (ValueError ''provider_mcp_qualification_timestamp_invalid'')) (\<lambda>_.
     ebind (raise_if (if requires_evidence q then \<not> evidence_present q else \<not> evidence_absent q)
              (ValueError ''provider_mcp_qualification_evidence'')) (\<lambda>_.
     ebind (raise_if (\<not> nonproduction_reference_valid q)
              (ValueError ''provider_mcp_qualification_nonproduction_reference'')) (\<lambda>_.
     ebind (raise_if (\<not> canary_valid q) (ValueError ''provider_mcp_qualification_canary'')) (\<lambda>_.
     ebind (raise_if (\<not> disable_reason_valid q)
              (ValueError ''provider_mcp_qualification_disable_reason'')) (\<lambda>_.
     Inr q))))))))))))"

end
