(* ===== verification/Credential_Vault.thy ===== *)
theory Credential_Vault
  imports Provider_Authority "HOL-Library.Code_Target_Nat"
begin

text \<open>
  Model of \<open>credentials/models.py\<close> and of \<open>CredentialVault\<close> (\<open>credentials/vault.py\<close>): sealed
  envelopes and the identity they are bound to. AES-256-GCM is a parameter (\<open>aead_encrypt\<close>,
  \<open>aead_decrypt\<close>, \<open>None\<close> where the library raises), as are the clock, the random nonce and the new
  identifier of a call. Bytes are a \<open>string\<close>. The properties: what is sealed under a binding is opened
  under it, also after a rotation, and under no other binding.
\<close>

record aead =
  aead_encrypt :: "string \<Rightarrow> string \<Rightarrow> string \<Rightarrow> string \<Rightarrow> string option"
  aead_decrypt :: "string \<Rightarrow> string \<Rightarrow> string \<Rightarrow> string \<Rightarrow> string option"

section \<open>Bindings and envelopes\<close>

record binding = tenant_scope +
  bi_connection_id :: uuid
  bi_provider :: string
  bi_company_or_merchant_id :: string
  bi_environment :: string
  bi_credential_type :: string

definition short_identifier :: "string \<Rightarrow> bool" where
  "short_identifier s \<longleftrightarrow> length s \<le> 64 \<and> is_lower_identifier s"

definition binding_valid :: "'a hosted_lib_scheme \<Rightarrow> binding \<Rightarrow> bool" where
  "binding_valid lib b \<longleftrightarrow>
     short_identifier (bi_provider b) \<and> bounded_text 1 512 (bi_company_or_merchant_id b) \<and>
     display_safe lib (bi_company_or_merchant_id b) \<and> short_identifier (bi_environment b) \<and>
     short_identifier (bi_credential_type b) \<and>
     tenant_id b \<noteq> 0 \<and> workspace_id b \<noteq> 0 \<and> auth_user_id b \<noteq> 0 \<and> bi_connection_id b \<noteq> 0"

record envelope = tenant_scope +
  en_id :: uuid
  en_connection_id :: uuid
  en_provider :: string
  en_environment :: string
  en_credential_type :: string
  en_key_version :: string
  en_nonce :: string
  en_ciphertext :: string
  en_aad_hash :: string
  en_created_at :: instant
  en_rotated_at :: "instant option"
  en_revoked_at :: "instant option"

definition not_before :: "instant option \<Rightarrow> instant \<Rightarrow> bool" where
  "not_before later t = (case later of None \<Rightarrow> True | Some u \<Rightarrow> t \<le> u)"

definition envelope_valid :: "envelope \<Rightarrow> bool" where
  "envelope_valid e \<longleftrightarrow>
     short_identifier (en_provider e) \<and> short_identifier (en_environment e) \<and>
     short_identifier (en_credential_type e) \<and> short_identifier (en_key_version e) \<and>
     length (en_nonce e) = 12 \<and> 16 \<le> length (en_ciphertext e) \<and> length (en_aad_hash e) = 32 \<and>
     en_id e \<noteq> 0 \<and> tenant_id e \<noteq> 0 \<and> workspace_id e \<noteq> 0 \<and> auth_user_id e \<noteq> 0 \<and>
     en_connection_id e \<noteq> 0 \<and>
     not_before (en_rotated_at e) (en_created_at e) \<and> not_before (en_revoked_at e) (en_created_at e)"

section \<open>The authenticated data\<close>

text \<open>The text of a UUID: five groups of hexadecimal digits.\<close>

fun hex_digits :: "nat \<Rightarrow> nat \<Rightarrow> string" where
  "hex_digits 0 n = []"
| "hex_digits (Suc k) n = hex_digits k (n div 16) @ [hex_digit (n mod 16)]"

definition uuid_text :: "uuid \<Rightarrow> string" where
  "uuid_text u =
     (let h = hex_digits 32 u in
      take 8 h @ ''-'' @ take 4 (drop 8 h) @ ''-'' @ take 4 (drop 12 h) @ ''-'' @
      take 4 (drop 16 h) @ ''-'' @ drop 20 h)"

text \<open>\<open>json.dumps\<close> of a string with \<open>ensure_ascii=True\<close>.\<close>

fun code_point :: "string \<Rightarrow> nat" where
  "code_point [a] = of_char a"
| "code_point [a, b] = (of_char a mod 32) * 64 + of_char b mod 64"
| "code_point [a, b, c] = ((of_char a mod 16) * 64 + of_char b mod 64) * 64 + of_char c mod 64"
| "code_point [a, b, c, d] =
     (((of_char a mod 8) * 64 + of_char b mod 64) * 64 + of_char c mod 64) * 64 + of_char d mod 64"
| "code_point _ = 0"

definition unicode_escape :: "nat \<Rightarrow> string" where
  "unicode_escape n = [CHR 0x5C, CHR ''u''] @ hex_digits 4 n"

definition ascii_escape :: "string \<Rightarrow> string" where
  "ascii_escape ch =
     (let n = code_point ch in
      if n < 127 then concat (map escape_char ch)
      else if n < 0x10000 then unicode_escape n
      else unicode_escape (0xD800 + (n - 0x10000) div 1024) @
           unicode_escape (0xDC00 + (n - 0x10000) mod 1024))"

definition ascii_string :: "string \<Rightarrow> string" where
  "ascii_string s = [CHR 0x22] @ concat (map ascii_escape (utf8_chars s)) @ [CHR 0x22]"

text \<open>The pairs are written in the order of their keys.\<close>

definition credential_aad_fields :: "binding \<Rightarrow> string \<Rightarrow> (string \<times> string) list" where
  "credential_aad_fields b key_version =
     [(''aad_version'', ''mercury-provider-credential-aad-v1''),
      (''auth_user_id'', uuid_text (auth_user_id b)),
      (''company_or_merchant_id'', bi_company_or_merchant_id b),
      (''connection_id'', uuid_text (bi_connection_id b)),
      (''credential_type'', bi_credential_type b),
      (''environment'', bi_environment b),
      (''key_version'', key_version),
      (''provider'', bi_provider b),
      (''tenant_id'', uuid_text (tenant_id b)),
      (''workspace_id'', uuid_text (workspace_id b))]"

definition ascii_object :: "(string \<times> string) list \<Rightarrow> string" where
  "ascii_object kvs =
     ''{'' @ join '','' (map (\<lambda>(k, v). ascii_string k @ '':'' @ ascii_string v) kvs) @ ''}''"

definition credential_aad :: "'a hosted_lib_scheme \<Rightarrow> binding \<Rightarrow> string \<Rightarrow> string result" where
  "credential_aad lib b key_version =
     ebind (raise_if (\<not> short_identifier key_version) (ValueError ''credential_key_version_invalid'')) (\<lambda>_.
     ebind (raise_if (\<not> binding_valid lib b) (ValueError ''credential_binding_invalid'')) (\<lambda>_.
       Inr (ascii_object (credential_aad_fields b key_version))))"

text \<open>\<open>hashlib.sha256(aad).digest()\<close>: \<open>sha256_digest\<close> is the digest as bytes.\<close>

definition credential_aad_hash ::
    "'a hosted_lib_scheme \<Rightarrow> (string \<Rightarrow> string) \<Rightarrow> binding \<Rightarrow> string \<Rightarrow> string result" where
  "credential_aad_hash lib sha256_digest b key_version =
     ebind (credential_aad lib b key_version) (\<lambda>aad. Inr (sha256_digest aad))"

section \<open>The vault\<close>

record vault =
  va_active_key_version :: string
  va_ciphers :: "(string \<times> string) list"

text \<open>\<open>CredentialVault.__init__\<close>; the keys are a dictionary.\<close>

definition new_vault :: "string \<Rightarrow> (string \<times> string) list \<Rightarrow> vault result" where
  "new_vault active keys =
     (if keys \<noteq> [] \<and> short_identifier active \<and> active \<in> set (map fst keys) \<and>
         list_all (\<lambda>(version, key). short_identifier version \<and> length key = 32) keys
      then Inr \<lparr>va_active_key_version = active, va_ciphers = keys\<rparr>
      else Inl (ValueError ''credential_vault_configuration_invalid''))"

text \<open>What a call takes from outside: the primitives, the clock, the nonce and a fresh identifier.\<close>

record vault_env =
  ve_aead :: aead
  ve_sha256_digest :: "string \<Rightarrow> string"
  ve_clock :: datetime
  ve_nonce :: string
  ve_new_id :: uuid

abbreviation (input) vault_error :: "string \<Rightarrow> 'a result" where
  "vault_error code \<equiv> Inl (CredentialVaultError code)"

definition checked_binding :: "'a hosted_lib_scheme \<Rightarrow> binding \<Rightarrow> binding result" where
  "checked_binding lib b =
     (if binding_valid lib b then Inr b else vault_error ''credential_binding_invalid'')"

definition checked_envelope :: "envelope \<Rightarrow> envelope result" where
  "checked_envelope e =
     (if envelope_valid e then Inr e else vault_error ''credential_envelope_invalid'')"

definition vault_timestamp :: "vault_env \<Rightarrow> instant result" where
  "vault_timestamp env = aware_instant (ValueError ''credential_vault_clock_invalid'') (ve_clock env)"

text \<open>
  \<open>_seal\<close>. A missing cipher for the active key version is the dictionary's \<open>KeyError\<close>; a vault made
  by \<open>new_vault\<close> has it.
\<close>

definition seal_envelope ::
    "'a hosted_lib_scheme \<Rightarrow> vault_env \<Rightarrow> vault \<Rightarrow> binding \<Rightarrow> string \<Rightarrow> uuid option \<Rightarrow>
     instant option \<Rightarrow> instant option \<Rightarrow> envelope result" where
  "seal_envelope lib env v b plaintext envelope_id created_at rotated_at =
     (let version = va_active_key_version v; nonce = ve_nonce env in
      ebind (raise_if (length nonce \<noteq> 12) (CredentialVaultError ''credential_envelope_invalid'')) (\<lambda>_.
      ebind (credential_aad lib b version) (\<lambda>aad.
      case map_of (va_ciphers v) version of
        None \<Rightarrow> Inl (UnexpectedError ''KeyError'')
      | Some key \<Rightarrow>
          (case aead_encrypt (ve_aead env) key nonce plaintext aad of
             None \<Rightarrow> vault_error ''credential_plaintext_invalid''
           | Some ciphertext \<Rightarrow>
               ebind (case created_at of Some t \<Rightarrow> Inr t | None \<Rightarrow> vault_timestamp env) (\<lambda>timestamp.
               ebind (credential_aad_hash lib (ve_sha256_digest env) b version) (\<lambda>aad_hash.
               checked_envelope
                 \<lparr>tenant_id = tenant_id b, workspace_id = workspace_id b, auth_user_id = auth_user_id b,
                  en_id = (case envelope_id of Some i \<Rightarrow> i | None \<Rightarrow> ve_new_id env),
                  en_connection_id = bi_connection_id b, en_provider = bi_provider b,
                  en_environment = bi_environment b, en_credential_type = bi_credential_type b,
                  en_key_version = version, en_nonce = nonce, en_ciphertext = ciphertext,
                  en_aad_hash = aad_hash, en_created_at = timestamp, en_rotated_at = rotated_at,
                  en_revoked_at = None\<rparr>))))))"

definition vault_seal ::
    "'a hosted_lib_scheme \<Rightarrow> vault_env \<Rightarrow> vault \<Rightarrow> binding \<Rightarrow> string \<Rightarrow> envelope result" where
  "vault_seal lib env v b plaintext =
     ebind (checked_binding lib b) (\<lambda>b.
     ebind (raise_if (plaintext = []) (CredentialVaultError ''credential_plaintext_invalid'')) (\<lambda>_.
       seal_envelope lib env v b plaintext None None None))"

definition metadata_matches :: "binding \<Rightarrow> envelope \<Rightarrow> bool" where
  "metadata_matches b e \<longleftrightarrow>
     tenant_id e = tenant_id b \<and> workspace_id e = workspace_id b \<and>
     auth_user_id e = auth_user_id b \<and> en_connection_id e = bi_connection_id b \<and>
     en_provider e = bi_provider b \<and> en_environment e = bi_environment b \<and>
     en_credential_type e = bi_credential_type b"

definition vault_open ::
    "'a hosted_lib_scheme \<Rightarrow> vault_env \<Rightarrow> vault \<Rightarrow> binding \<Rightarrow> envelope \<Rightarrow> string result" where
  "vault_open lib env v b e =
     ebind (checked_binding lib b) (\<lambda>b.
     ebind (checked_envelope e) (\<lambda>e.
     ebind (raise_if (en_revoked_at e \<noteq> None) (CredentialVaultError ''credential_revoked'')) (\<lambda>_.
     ebind (raise_if (\<not> metadata_matches b e) (CredentialVaultError ''credential_binding_mismatch'')) (\<lambda>_.
     case map_of (va_ciphers v) (en_key_version e) of
       None \<Rightarrow> vault_error ''credential_key_version_unknown''
     | Some key \<Rightarrow>
         ebind (credential_aad lib b (en_key_version e)) (\<lambda>aad.
         ebind (credential_aad_hash lib (ve_sha256_digest env) b (en_key_version e)) (\<lambda>expected_hash.
         ebind (raise_if (expected_hash \<noteq> en_aad_hash e)
                  (CredentialVaultError ''credential_decryption_failed'')) (\<lambda>_.
         case aead_decrypt (ve_aead env) key (en_nonce e) (en_ciphertext e) aad of
           None \<Rightarrow> vault_error ''credential_decryption_failed''
         | Some plaintext \<Rightarrow> Inr plaintext)))))))"

definition vault_rotate ::
    "'a hosted_lib_scheme \<Rightarrow> vault_env \<Rightarrow> vault \<Rightarrow> binding \<Rightarrow> envelope \<Rightarrow> envelope result" where
  "vault_rotate lib env v b e =
     ebind (checked_binding lib b) (\<lambda>b.
     ebind (checked_envelope e) (\<lambda>e.
     ebind (vault_open lib env v b e) (\<lambda>plaintext.
     ebind (vault_timestamp env) (\<lambda>now.
       seal_envelope lib env v b plaintext (Some (en_id e)) (Some (en_created_at e)) (Some now)))))"

section \<open>The authenticated data identify the binding\<close>

text \<open>Valid UTF-8: every character is the encoding of its code point, a Unicode scalar value.\<close>

definition utf8_encode :: "nat \<Rightarrow> string" where
  "utf8_encode n =
     (if n < 0x80 then [char_of n]
      else if n < 0x800 then [char_of (0xC0 + n div 64), char_of (0x80 + n mod 64)]
      else if n < 0x10000 then
        [char_of (0xE0 + n div 4096), char_of (0x80 + n div 64 mod 64), char_of (0x80 + n mod 64)]
      else [char_of (0xF0 + n div 262144), char_of (0x80 + n div 4096 mod 64),
            char_of (0x80 + n div 64 mod 64), char_of (0x80 + n mod 64)])"

definition scalar_value :: "nat \<Rightarrow> bool" where
  "scalar_value n \<longleftrightarrow> n < 0x110000 \<and> \<not> (0xD800 \<le> n \<and> n < 0xE000)"

definition valid_text :: "string \<Rightarrow> bool" where
  "valid_text s \<longleftrightarrow>
     list_all (\<lambda>ch. scalar_value (code_point ch) \<and> utf8_encode (code_point ch) = ch) (utf8_chars s)"

definition point_word :: "nat \<Rightarrow> string" where
  "point_word n =
     (if n < 127 then escape_char (char_of n)
      else if n < 0x10000 then unicode_escape n
      else unicode_escape (0xD800 + (n - 0x10000) div 1024) @
           unicode_escape (0xDC00 + (n - 0x10000) mod 1024))"

lemma length_hex_digits [simp]: "length (hex_digits k n) = k"
  by (induction k arbitrary: n) auto

lemma hex_digit_inj: "a < 16 \<Longrightarrow> b < 16 \<Longrightarrow> hex_digit a = hex_digit b \<Longrightarrow> a = b"
proof -
  have "distinct (map hex_digit [0..<16])" by code_simp
  then have "inj_on hex_digit {0..<16}" by (simp add: distinct_map)
  then show "a < 16 \<Longrightarrow> b < 16 \<Longrightarrow> hex_digit a = hex_digit b \<Longrightarrow> a = b"
    by (auto dest: inj_onD)
qed

lemma hex_digits_inj:
  "n < 16 ^ k \<Longrightarrow> m < 16 ^ k \<Longrightarrow> hex_digits k n = hex_digits k m \<Longrightarrow> n = m"
proof (induction k arbitrary: n m)
  case 0
  then show ?case by simp
next
  case (Suc k)
  then have "n div 16 < 16 ^ k" "m div 16 < 16 ^ k"
    by (simp_all add: div_less_iff_less_mult mult.commute)
  moreover have "hex_digits k (n div 16) = hex_digits k (m div 16)" "hex_digit (n mod 16) = hex_digit (m mod 16)"
    using Suc.prems(3) by simp_all
  ultimately have "n div 16 = m div 16" "n mod 16 = m mod 16"
    using Suc.IH hex_digit_inj[of "n mod 16" "m mod 16"] by simp_all
  then show ?case by (metis div_mult_mod_eq)
qed

lemma unicode_escape_append_inj:
  assumes "unicode_escape n @ r = unicode_escape m @ s" and "n < 0x10000" and "m < 0x10000"
  shows "n = m \<and> r = s"
  using assms hex_digits_inj[of n 4 m] by (auto simp: unicode_escape_def)

text \<open>The word of a character below 127: itself, a short escape or a numeric one.\<close>

definition short_escapes :: "(nat \<times> char) list" where
  "short_escapes =
     [(34, CHR 0x22), (92, CHR 0x5C), (10, CHR ''n''), (13, CHR ''r''), (9, CHR ''t''),
      (12, CHR ''f''), (8, CHR ''b'')]"

definition word_class :: "nat \<Rightarrow> bool" where
  "word_class n \<longleftrightarrow>
     (case map_of short_escapes n of
        Some c \<Rightarrow> escape_char (char_of n) = [CHR 0x5C, c]
      | None \<Rightarrow> if n < 32 then escape_char (char_of n) = unicode_escape n
                else escape_char (char_of n) = [char_of n] \<and> char_of n \<noteq> CHR 0x5C)"

lemma word_classes: "n < 127 \<Longrightarrow> word_class n"
proof -
  have "list_all word_class [0..<127]" by code_simp
  then show "n < 127 \<Longrightarrow> word_class n" by (simp add: list_all_iff)
qed

datatype word_shape = Plain char | Short char | Numeric nat "nat option"

fun shape_word :: "word_shape \<Rightarrow> string" where
  "shape_word (Plain c) = [c]"
| "shape_word (Short c) = [CHR 0x5C, c]"
| "shape_word (Numeric n None) = unicode_escape n"
| "shape_word (Numeric n (Some m)) = unicode_escape n @ unicode_escape m"

definition point_shape :: "nat \<Rightarrow> word_shape" where
  "point_shape n =
     (case map_of short_escapes n of
        Some c \<Rightarrow> Short c
      | None \<Rightarrow>
          if n < 32 \<or> 127 \<le> n \<and> n < 0x10000 then Numeric n None
          else if n < 127 then Plain (char_of n)
          else Numeric (0xD800 + (n - 0x10000) div 1024) (Some (0xDC00 + (n - 0x10000) mod 1024)))"

lemma short_escapes_small: "map_of short_escapes n = Some c \<Longrightarrow> n < 127 \<and> c \<noteq> CHR ''u''"
  by (auto simp: short_escapes_def split: if_splits)

lemma point_word_shape: "point_word n = shape_word (point_shape n)"
proof (cases "n < 127")
  case True
  then show ?thesis
    using word_classes[OF True]
    by (auto simp: point_word_def point_shape_def word_class_def split: option.splits if_splits)
next
  case False
  then have "map_of short_escapes n = None"
    using short_escapes_small[of n] by (cases "map_of short_escapes n") auto
  with False show ?thesis by (auto simp: point_word_def point_shape_def)
qed

fun shape_wf :: "word_shape \<Rightarrow> bool" where
  "shape_wf (Plain c) = (c \<noteq> CHR 0x5C)"
| "shape_wf (Short c) = (c \<noteq> CHR ''u'')"
| "shape_wf (Numeric n None) = (n < 0x10000 \<and> \<not> (0xD800 \<le> n \<and> n < 0xE000))"
| "shape_wf (Numeric n (Some m)) = (0xD800 \<le> n \<and> n < 0xDC00 \<and> m < 0x10000)"

lemma shape_word_append_inj:
  assumes "shape_word a @ r = shape_word b @ s" and "shape_wf a" and "shape_wf b"
  shows "a = b \<and> r = s"
proof -
  note inj = unicode_escape_append_inj
  have u: "unicode_escape n = CHR 0x5C # CHR ''u'' # hex_digits 4 n" for n
    by (simp add: unicode_escape_def)
  consider (numeric) n x m y where "a = Numeric n x" "b = Numeric m y"
    | (other) "(\<forall>n x. a \<noteq> Numeric n x) \<or> (\<forall>n x. b \<noteq> Numeric n x)"
    by (metis word_shape.exhaust)
  then show ?thesis
  proof cases
    case numeric
    define rest where "rest z = (case z of None \<Rightarrow> [] | Some k \<Rightarrow> unicode_escape k)" for z
    have w: "shape_word (Numeric k z) = unicode_escape k @ rest z" for k z
      by (cases z) (simp_all add: rest_def)
    have "unicode_escape n @ (rest x @ r) = unicode_escape m @ (rest y @ s)"
      using assms(1) by (simp only: numeric w append_assoc)
    moreover have "n < 0x10000" "m < 0x10000"
      using assms(2,3) by (cases x; cases y; simp add: numeric)+
    ultimately have nm: "n = m" and rest: "rest x @ r = rest y @ s"
      using inj by blast+
    show ?thesis
    proof (cases x)
      case None
      with assms(2,3) nm have "y = None" by (cases y) (auto simp: numeric)
      with None nm rest show ?thesis by (simp add: numeric rest_def)
    next
      case (Some i)
      with assms(2,3) nm obtain j where j: "y = Some j" by (cases y) (auto simp: numeric)
      have "i < 0x10000" "j < 0x10000" using assms(2,3) by (simp_all add: numeric Some j)
      moreover have "unicode_escape i @ r = unicode_escape j @ s"
        using rest by (simp add: rest_def Some j)
      ultimately have "i = j \<and> r = s" by (intro inj)
      with nm show ?thesis by (simp add: numeric Some j)
    qed
  next
    case other
    then show ?thesis using assms
      by (cases a rule: shape_wf.cases; cases b rule: shape_wf.cases) (auto simp: u)
  qed
qed

lemma point_shape_wf: "scalar_value n \<Longrightarrow> shape_wf (point_shape n)"
proof (cases "map_of short_escapes n")
  case None
  assume sc: "scalar_value n"
  show ?thesis
  proof (cases "32 \<le> n \<and> n < 127")
    case True
    then show ?thesis using word_classes[of n] None by (simp add: point_shape_def word_class_def)
  next
    case False
    with sc None show ?thesis
      by (auto simp: point_shape_def scalar_value_def div_less_iff_less_mult intro!: less_trans[OF mod_less_divisor])
  qed
qed (auto simp: point_shape_def dest: short_escapes_small)

text \<open>The code point that a word stands for.\<close>

fun shape_point :: "word_shape \<Rightarrow> nat" where
  "shape_point (Plain c) = of_char c"
| "shape_point (Short c) =
     (case find (\<lambda>p. snd p = c) short_escapes of Some p \<Rightarrow> fst p | None \<Rightarrow> 0)"
| "shape_point (Numeric n None) = n"
| "shape_point (Numeric n (Some m)) = 0x10000 + (n - 0xD800) * 1024 + (m - 0xDC00)"

lemma shape_point_short: "map_of short_escapes n = Some c \<Longrightarrow> shape_point (Short c) = n"
  by (auto simp: short_escapes_def split: if_splits)

lemma shape_point_inverse: "shape_point (point_shape n) = n"
proof (cases "map_of short_escapes n")
  case None
  consider "n < 32 \<or> 127 \<le> n \<and> n < 0x10000" | "32 \<le> n" "n < 127" | "0x10000 \<le> n" by linarith
  then show ?thesis
  proof cases
    case 1
    with None show ?thesis by (simp add: point_shape_def)
  next
    case 2
    with None show ?thesis by (simp add: point_shape_def)
  next
    case 3
    define k where "k = n - 0x10000"
    have n: "n = 0x10000 + k" using 3 by (simp add: k_def)
    have "point_shape n = Numeric (0xD800 + k div 1024) (Some (0xDC00 + k mod 1024))"
      using None 3 by (simp add: point_shape_def k_def)
    then show ?thesis by (simp add: n)
  qed
next
  case (Some c)
  then show ?thesis by (simp add: point_shape_def shape_point_short del: shape_point.simps)
qed

lemma point_shape_inj: "point_shape n = point_shape m \<Longrightarrow> n = m"
  by (metis shape_point_inverse)

lemma ascii_escape_word:
  assumes "scalar_value (code_point ch)" and "utf8_encode (code_point ch) = ch"
  shows "ascii_escape ch = shape_word (point_shape (code_point ch))"
proof -
  have "concat (map escape_char ch) = escape_char (char_of (code_point ch))" if "code_point ch < 127"
  proof -
    from that have "utf8_encode (code_point ch) = [char_of (code_point ch)]"
      by (simp add: utf8_encode_def)
    with assms(2) have "ch = [char_of (code_point ch)]" by simp
    then have "concat (map escape_char ch) = concat (map escape_char [char_of (code_point ch)])"
      by (rule arg_cong)
    then show ?thesis by simp
  qed
  then show ?thesis
    unfolding point_word_shape[symmetric] by (simp add: ascii_escape_def point_word_def Let_def)
qed

definition escaped :: "string list \<Rightarrow> string" where
  "escaped cs = concat (map (\<lambda>ch. shape_word (point_shape (code_point ch))) cs)"

definition valid_chars :: "string list \<Rightarrow> bool" where
  "valid_chars cs \<longleftrightarrow>
     list_all (\<lambda>ch. scalar_value (code_point ch) \<and> utf8_encode (code_point ch) = ch) cs"

lemma shape_word_nonempty: "shape_word sh \<noteq> []"
  by (cases sh rule: shape_word.cases) (simp_all add: unicode_escape_def)

lemma escaped_chars_inj: "valid_chars cs \<Longrightarrow> valid_chars ds \<Longrightarrow> escaped cs = escaped ds \<Longrightarrow> cs = ds"
proof (induction cs arbitrary: ds)
  case Nil
  then show ?case by (cases ds) (simp_all add: escaped_def shape_word_nonempty)
next
  case (Cons c cs)
  then obtain d ds' where ds: "ds = d # ds'"
    by (cases ds) (auto simp: escaped_def shape_word_nonempty)
  have c: "scalar_value (code_point c)" "utf8_encode (code_point c) = c"
    and d: "scalar_value (code_point d)" "utf8_encode (code_point d) = d"
    using Cons.prems(1,2) by (simp_all add: valid_chars_def ds)
  have "shape_word (point_shape (code_point c)) @ escaped cs
      = shape_word (point_shape (code_point d)) @ escaped ds'"
    using Cons.prems(3) by (simp add: escaped_def ds)
  then have same: "point_shape (code_point c) = point_shape (code_point d) \<and> escaped cs = escaped ds'"
    using c(1) d(1) by (intro shape_word_append_inj point_shape_wf)
  then have "c = d" using point_shape_inj c d by metis
  moreover have "cs = ds'"
    using Cons.IH[of ds'] Cons.prems(1,2) same by (simp add: valid_chars_def ds)
  ultimately show ?case by (simp add: ds)
qed

lemma ascii_string_inj:
  assumes "valid_text a" and "valid_text b" and "ascii_string a = ascii_string b"
  shows "a = b"
proof -
  have esc: "concat (map ascii_escape (utf8_chars s)) = escaped (utf8_chars s)" if "valid_text s" for s
    using that unfolding escaped_def valid_text_def list_all_iff
    by (intro arg_cong[of _ _ concat] map_cong) (auto intro: ascii_escape_word)
  have "escaped (utf8_chars a) = escaped (utf8_chars b)"
    using assms(3) esc[OF assms(1)] esc[OF assms(2)] by (simp add: ascii_string_def)
  then have "utf8_chars a = utf8_chars b"
    using assms(1,2) by (intro escaped_chars_inj) (simp_all add: valid_text_def valid_chars_def)
  then show ?thesis by (metis concat_utf8_chars)
qed

lemma ascii_object_split:
  "ascii_object (kvs @ (k, v) # rest) =
     ascii_object_prefix kvs k @ ascii_string v @ ascii_object_suffix rest"
  if "ascii_object_prefix = (\<lambda>kvs k. ''{'' @ concat (map (\<lambda>(k, v). ascii_string k @ '':'' @ ascii_string v @ '','') kvs)
        @ ascii_string k @ '':'')"
    and "ascii_object_suffix = (\<lambda>rest. concat (map (\<lambda>(k, v). '','' @ ascii_string k @ '':'' @ ascii_string v) rest) @ ''}'')"
proof -
  define f where "f = (\<lambda>(k, v). ascii_string k @ '':'' @ ascii_string v)"
  have cons: "join '','' (x # xs) = x @ concat (map (\<lambda>y. '','' @ y) xs)" for x :: string and xs
    by (induction xs arbitrary: x) simp_all
  have snoc: "join '','' (xs @ y # ys) = concat (map (\<lambda>x. x @ '','') xs) @ join '','' (y # ys)" for xs y ys
  proof (induction xs)
    case (Cons x xs)
    have "join '','' ((x # xs) @ y # ys) = x @ '','' @ join '','' (xs @ y # ys)" by (cases xs) simp_all
    with Cons show ?case by simp
  qed simp
  show ?thesis
    unfolding ascii_object_def f_def[symmetric] that
    by (simp add: snoc cons del: join.simps) (simp add: f_def comp_def split_def)
qed

text \<open>Bindings that an envelope cannot tell apart by its columns differ in their authenticated data.\<close>

lemma credential_aad_identifies:
  assumes "credential_aad lib b version = Inr aad" and "credential_aad lib b' version = Inr aad"
    and "metadata_matches b e" and "metadata_matches b' e"
    and "valid_text (bi_company_or_merchant_id b)" and "valid_text (bi_company_or_merchant_id b')"
  shows "b = b'"
proof -
  have eq: "ascii_object (credential_aad_fields b version) = ascii_object (credential_aad_fields b' version)"
    using assms(1,2) by (auto simp: credential_aad_def outcome_simps split: if_splits)
  define kvs where "kvs = take 2 (credential_aad_fields b version)"
  define rest where "rest = drop 3 (credential_aad_fields b version)"
  have f: "credential_aad_fields b version =
        kvs @ (''company_or_merchant_id'', bi_company_or_merchant_id b) # rest"
    by (simp add: kvs_def rest_def credential_aad_fields_def)
  have f': "credential_aad_fields b' version =
        kvs @ (''company_or_merchant_id'', bi_company_or_merchant_id b') # rest"
    using assms(3,4) by (simp add: kvs_def rest_def credential_aad_fields_def metadata_matches_def)
  have "ascii_string (bi_company_or_merchant_id b) = ascii_string (bi_company_or_merchant_id b')"
    using eq unfolding f f' by (simp add: ascii_object_split[OF refl refl])
  then have "bi_company_or_merchant_id b = bi_company_or_merchant_id b'"
    using ascii_string_inj assms(5,6) by blast
  with assms(3,4) show ?thesis by (simp add: metadata_matches_def)
qed

section \<open>What an envelope opens to\<close>

text \<open>
  The laws of authenticated encryption: a ciphertext decrypts, under the key and nonce that made it,
  to its plaintext with the authenticated data it was made with, and to nothing with other data.
\<close>

definition aead_laws :: "aead \<Rightarrow> bool" where
  "aead_laws a \<longleftrightarrow>
     (\<forall>key nonce plaintext aad ciphertext aad'.
        aead_encrypt a key nonce plaintext aad = Some ciphertext \<longrightarrow>
        aead_decrypt a key nonce ciphertext aad' = (if aad' = aad then Some plaintext else None))"

text \<open>A vault that uses the given primitives and holds keys of a given key ring.\<close>

definition uses :: "aead \<Rightarrow> (string \<Rightarrow> string) \<Rightarrow> (string \<rightharpoonup> string) \<Rightarrow> vault_env \<Rightarrow> vault \<Rightarrow> bool" where
  "uses a h ring env v \<longleftrightarrow>
     ve_aead env = a \<and> ve_sha256_digest env = h \<and> map_of (va_ciphers v) \<subseteq>\<^sub>m ring"

text \<open>The envelopes that sealing and any later rotations make of a plaintext.\<close>

inductive sealed_as ::
    "'a hosted_lib_scheme \<Rightarrow> aead \<Rightarrow> (string \<Rightarrow> string) \<Rightarrow> (string \<rightharpoonup> string) \<Rightarrow>
     binding \<Rightarrow> string \<Rightarrow> envelope \<Rightarrow> bool"
  for lib a h ring b plaintext where
    seal: "uses a h ring env v \<Longrightarrow> vault_seal lib env v b plaintext = Inr e \<Longrightarrow>
      sealed_as lib a h ring b plaintext e"
  | rotate: "sealed_as lib a h ring b plaintext e \<Longrightarrow> uses a h ring env v \<Longrightarrow>
      valid_text (bi_company_or_merchant_id b') \<Longrightarrow> vault_rotate lib env v b' e = Inr e' \<Longrightarrow>
      sealed_as lib a h ring b plaintext e'"

text \<open>What an envelope of a plaintext records.\<close>

definition records ::
    "'a hosted_lib_scheme \<Rightarrow> aead \<Rightarrow> (string \<Rightarrow> string) \<Rightarrow> (string \<rightharpoonup> string) \<Rightarrow>
     binding \<Rightarrow> string \<Rightarrow> envelope \<Rightarrow> bool" where
  "records lib a h ring b plaintext e \<longleftrightarrow>
     binding_valid lib b \<and> envelope_valid e \<and> metadata_matches b e \<and> en_revoked_at e = None \<and>
     (\<exists>key aad. ring (en_key_version e) = Some key \<and>
        credential_aad lib b (en_key_version e) = Inr aad \<and> en_aad_hash e = h aad \<and>
        aead_encrypt a key (en_nonce e) plaintext aad = Some (en_ciphertext e))"

lemma seal_envelope_records:
  assumes u: "uses a h ring env v"
    and "seal_envelope lib env v b plaintext i c r = Inr e"
  shows "records lib a h ring b plaintext e \<and> (\<forall>j. i = Some j \<longrightarrow> en_id e = j)"
proof -
  note chain = seal_envelope_def credential_aad_hash_def Let_def outcome_simps
  obtain aad where aad: "credential_aad lib b (va_active_key_version v) = Inr aad"
    using assms(2) by (auto simp: chain split: if_splits)
  obtain key where key: "map_of (va_ciphers v) (va_active_key_version v) = Some key"
    using assms(2) by (cases "map_of (va_ciphers v) (va_active_key_version v)") (auto simp: chain split: if_splits)
  obtain ciphertext where ct: "aead_encrypt (ve_aead env) key (ve_nonce env) plaintext aad = Some ciphertext"
    using assms(2)
    by (cases "aead_encrypt (ve_aead env) key (ve_nonce env) plaintext aad")
      (auto simp: chain aad key split: if_splits)
  obtain t where
    e: "checked_envelope
                 \<lparr>tenant_id = tenant_id b, workspace_id = workspace_id b, auth_user_id = auth_user_id b,
                  en_id = (case i of Some i \<Rightarrow> i | None \<Rightarrow> ve_new_id env),
                  en_connection_id = bi_connection_id b, en_provider = bi_provider b,
                  en_environment = bi_environment b, en_credential_type = bi_credential_type b,
                  en_key_version = va_active_key_version v, en_nonce = ve_nonce env,
                  en_ciphertext = ciphertext, en_aad_hash = ve_sha256_digest env aad,
                  en_created_at = t, en_rotated_at = r, en_revoked_at = None\<rparr> = Inr e"
    using assms(2) by (auto simp: chain aad key ct split: if_splits)
  have "ring (va_active_key_version v) = Some key"
    using u key by (auto simp: uses_def map_le_def dom_def)
  moreover have "binding_valid lib b"
    using aad by (auto simp: credential_aad_def outcome_simps split: if_splits)
  ultimately show ?thesis
    using u aad ct e
    by (auto simp: records_def checked_envelope_def uses_def metadata_matches_def split: if_splits)
qed

text \<open>Opening an envelope of a plaintext with a key of the ring.\<close>

lemma open_records:
  assumes "aead_laws a" and u: "uses a h ring env v"
    and r: "records lib a h ring b plaintext e"
    and key: "en_key_version e \<in> dom (map_of (va_ciphers v))"
  shows "vault_open lib env v b e = Inr plaintext"
    and "vault_open lib env v b' e = Inr opened \<Longrightarrow>
      valid_text (bi_company_or_merchant_id b) \<Longrightarrow> valid_text (bi_company_or_merchant_id b') \<Longrightarrow> b' = b"
proof -
  from r obtain k aad where
    k: "ring (en_key_version e) = Some k"
    and aad: "credential_aad lib b (en_key_version e) = Inr aad" "en_aad_hash e = h aad"
    and ct: "aead_encrypt a k (en_nonce e) plaintext aad = Some (en_ciphertext e)"
    and other: "binding_valid lib b" "envelope_valid e" "metadata_matches b e" "en_revoked_at e = None"
    by (auto simp: records_def)
  have key': "map_of (va_ciphers v) (en_key_version e) = Some k"
    using u key k by (auto simp: uses_def map_le_def dom_def)
  have dec: "aead_decrypt a k (en_nonce e) (en_ciphertext e) aad' = (if aad' = aad then Some plaintext else None)"
    for aad'
    using assms(1) ct unfolding aead_laws_def by blast
  show "vault_open lib env v b e = Inr plaintext"
    using u aad other key' dec
    by (simp add: vault_open_def checked_binding_def checked_envelope_def credential_aad_hash_def uses_def)
  assume "vault_open lib env v b' e = Inr opened"
    and valid: "valid_text (bi_company_or_merchant_id b)" "valid_text (bi_company_or_merchant_id b')"
  then obtain aad' where aad': "credential_aad lib b' (en_key_version e) = Inr aad'"
      "metadata_matches b' e" "aead_decrypt a k (en_nonce e) (en_ciphertext e) aad' = Some opened"
    using u key'
    by (auto simp: vault_open_def checked_binding_def checked_envelope_def outcome_simps uses_def
        split: if_splits option.splits)
  then have "aad' = aad" by (auto simp: dec split: if_splits)
  then show "b' = b"
    using credential_aad_identifies[OF aad(1) _ other(3) aad'(2) valid] aad'(1) by simp
qed

lemma vault_seal_records:
  "uses a h ring env v \<Longrightarrow> vault_seal lib env v b plaintext = Inr e \<Longrightarrow> records lib a h ring b plaintext e"
  by (auto simp: vault_seal_def checked_binding_def split: if_splits dest: seal_envelope_records)

lemma vault_rotate_parts:
  assumes "vault_rotate lib env v b e = Inr e'"
  obtains plaintext now where "vault_open lib env v b e = Inr plaintext"
    and "seal_envelope lib env v b plaintext (Some (en_id e)) (Some (en_created_at e)) (Some now) = Inr e'"
  using assms
  by (auto simp: vault_rotate_def checked_binding_def checked_envelope_def outcome_simps split: if_splits)

lemma vault_open_key:
  "vault_open lib env v b e = Inr p \<Longrightarrow> en_key_version e \<in> dom (map_of (va_ciphers v))"
  by (auto simp: vault_open_def checked_binding_def checked_envelope_def outcome_simps
      split: if_splits option.splits)

lemma vault_rotate_records:
  assumes "aead_laws a" and "uses a h ring env v" and "records lib a h ring b plaintext e"
    and "valid_text (bi_company_or_merchant_id b)" and "valid_text (bi_company_or_merchant_id b')"
    and "vault_rotate lib env v b' e = Inr e'"
  shows "records lib a h ring b plaintext e' \<and> en_id e' = en_id e \<and> b' = b"
proof -
  from vault_rotate_parts[OF assms(6)] obtain p now where o: "vault_open lib env v b' e = Inr p"
    and seal: "seal_envelope lib env v b' p (Some (en_id e)) (Some (en_created_at e)) (Some now) = Inr e'" .
  note facts = open_records[OF assms(1,2,3) vault_open_key[OF o]]
  from facts(2)[OF o assms(4,5)] have "b' = b" .
  moreover from this facts(1) o have "p = plaintext" by simp
  ultimately show ?thesis using seal_envelope_records[OF assms(2) seal] by simp
qed

lemma sealed_as_records:
  assumes "aead_laws a" and "valid_text (bi_company_or_merchant_id b)"
  shows "sealed_as lib a h ring b plaintext e \<Longrightarrow> records lib a h ring b plaintext e"
proof (induction rule: sealed_as.induct)
  case (seal env v e)
  then show ?case by (rule vault_seal_records)
next
  case (rotate e env v b' e')
  then show ?case using vault_rotate_records[OF assms(1) rotate(2) rotate.IH assms(2)] by blast
qed

section \<open>Properties\<close>

text \<open>A vault with a key, an envelope call and a transparent cipher, to run the model on.\<close>

definition sample_hosted_lib :: hosted_lib where
  "sample_hosted_lib =
     \<lparr>sha256_hexdigest = (\<lambda>s. replicate 64 CHR ''0''), casefold = (\<lambda>s. s), py_repr = (\<lambda>v. []),
      unicode_digit = (\<lambda>s. None), lower_text = (\<lambda>s. s), int_of_text = (\<lambda>s. None),
      int_of_float = (\<lambda>s. None), redact_public = (\<lambda>s. s), control_or_format = (\<lambda>ch. ch = [CHR 0x07]),
      iso_day = (\<lambda>s. if length s = 10 then Some s else None), iso_instant = (\<lambda>t. show_int t),
      load_json = (\<lambda>s. None)\<rparr>"

definition transparent_cipher :: aead where
  "transparent_cipher =
     \<lparr>aead_encrypt = (\<lambda>key nonce p aad.
        Some (replicate 16 CHR ''0'' @ replicate (length p) CHR ''1'' @ [CHR ''0''] @ p @ aad)),
      aead_decrypt = (\<lambda>key nonce c aad.
        let n = length (takeWhile (\<lambda>x. x = CHR ''1'') (drop 16 c)); body = drop (17 + n) c
        in if drop n body = aad then Some (take n body) else None)\<rparr>"

definition sample_binding :: binding where
  "sample_binding =
     \<lparr>tenant_id = 1, workspace_id = 2, auth_user_id = 3, bi_connection_id = 4, bi_provider = ''peak'',
      bi_company_or_merchant_id = ''acme 1'', bi_environment = ''sandbox'',
      bi_credential_type = ''api_key''\<rparr>"

definition sample_vault_env :: vault_env where
  "sample_vault_env =
     \<lparr>ve_aead = transparent_cipher, ve_sha256_digest = (\<lambda>s. replicate 32 CHR ''h''),
      ve_clock = Aware 0, ve_nonce = replicate 12 CHR ''n'', ve_new_id = 9\<rparr>"

definition sample_vault :: vault where
  "sample_vault =
     \<lparr>va_active_key_version = ''k1'', va_ciphers = [(''k1'', replicate 32 CHR ''k'')]\<rparr>"

lemma transparent_cipher_laws: "aead_laws transparent_cipher"
  by (auto simp: aead_laws_def transparent_cipher_def Let_def takeWhile_append)

text \<open>
  C35: An envelope that sealing made of a plaintext, after any number of rotations under any bindings
  and keys of the ring, opens under the binding it was sealed for, to exactly that plaintext, and
  under no other binding.
\<close>

theorem sealed_opens_only_under_its_binding:
  assumes "aead_laws a" and "sealed_as lib a h ring b plaintext e"
    and "uses a h ring env v" and "en_key_version e \<in> dom (map_of (va_ciphers v))"
    and "valid_text (bi_company_or_merchant_id b)" and "valid_text (bi_company_or_merchant_id b')"
  shows "vault_open lib env v b' e = Inr opened \<longleftrightarrow> b' = b \<and> opened = plaintext"
proof -
  note facts = open_records[OF assms(1,3) sealed_as_records[OF assms(1,5,2)] assms(4)]
  show ?thesis
  proof
    assume o: "vault_open lib env v b' e = Inr opened"
    from facts(2)[OF o assms(5,6)] have "b' = b" .
    with o facts(1) show "b' = b \<and> opened = plaintext" by simp
  qed (simp add: facts(1))
qed

theorem sealed_opens_only_under_its_binding_witness:
  "\<exists>e. vault_seal sample_hosted_lib sample_vault_env sample_vault sample_binding ''token'' = Inr e \<and>
       vault_open sample_hosted_lib sample_vault_env sample_vault sample_binding e = Inr ''token'' \<and>
       vault_open sample_hosted_lib sample_vault_env sample_vault
         (sample_binding\<lparr>bi_company_or_merchant_id := ''acme 2''\<rparr>) e \<noteq> Inr ''token''"
proof -
  define ring where "ring = map_of (va_ciphers sample_vault)"
  have "is_ok (vault_seal sample_hosted_lib sample_vault_env sample_vault sample_binding ''token'')"
    by code_simp
  then obtain e where e: "vault_seal sample_hosted_lib sample_vault_env sample_vault sample_binding ''token'' = Inr e"
    by (auto simp: is_ok_def split: sum.splits)
  have u: "uses transparent_cipher (\<lambda>s. replicate 32 CHR ''h'') ring sample_vault_env sample_vault"
    by (simp add: uses_def sample_vault_env_def ring_def)
  have "(case vault_seal sample_hosted_lib sample_vault_env sample_vault sample_binding ''token'' of
           Inl e \<Rightarrow> False | Inr e \<Rightarrow> en_key_version e = ''k1'')"
    by code_simp
  then have "en_key_version e = ''k1''" unfolding e by simp
  then have k: "en_key_version e \<in> dom (map_of (va_ciphers sample_vault))"
    by (simp add: sample_vault_def)
  have t: "valid_text ''acme 1''" "valid_text ''acme 2''" by code_simp+
  note main = sealed_opens_only_under_its_binding[OF transparent_cipher_laws sealed_as.seal[OF u e] u k]
  have "vault_open sample_hosted_lib sample_vault_env sample_vault sample_binding e = Inr ''token''"
    using main[of sample_binding "''token''"] t by (simp add: sample_binding_def)
  moreover have "vault_open sample_hosted_lib sample_vault_env sample_vault
      (sample_binding\<lparr>bi_company_or_merchant_id := ''acme 2''\<rparr>) e \<noteq> Inr ''token''"
    using main[of "sample_binding\<lparr>bi_company_or_merchant_id := ''acme 2''\<rparr>" "''token''"] t
    by (simp add: sample_binding_def)
  ultimately show ?thesis using e by blast
qed

end
