(* ===== verification/Hosted_Preview.thy ===== *)
theory Hosted_Preview
  imports Hosted_Money Credential_Vault
begin

text \<open>
  Model of the previews of \<open>execution/hosted/models.py\<close>: \<open>StoredPreviewItem\<close>, \<open>DocumentPreview\<close> with
  its validators and transitions, the hashes that bind a preview, and the binding of a sealed
  payload. Timestamps of a model are instants (every model converts them to UTC), dates are their
  ISO texts. Validation returns the model, because it projects the display texts.
\<close>

section \<open>Data\<close>

definition preview_ttl :: instant where
  "preview_ttl = seconds 1800"

definition max_batch_documents :: nat where
  "max_batch_documents = 25"

definition unconfirmed_payload_retention :: instant where
  "unconfirmed_payload_retention = seconds 86400"

definition confirmed_payload_retention :: instant where
  "confirmed_payload_retention = seconds 2592000"

definition hosted_preview_payload :: string where
  "hosted_preview_payload = ''hosted_preview_payload''"

datatype preview_state =
  PreviewPrepared | PreviewAwaitingConfirmation | PreviewConfirmed | PreviewExpired | PreviewCancelled

fun preview_value :: "preview_state \<Rightarrow> string" where
  "preview_value PreviewPrepared = ''prepared''"
| "preview_value PreviewAwaitingConfirmation = ''awaiting_confirmation''"
| "preview_value PreviewConfirmed = ''confirmed''"
| "preview_value PreviewExpired = ''expired''"
| "preview_value PreviewCancelled = ''cancelled''"

fun preview_transitions :: "preview_state \<Rightarrow> preview_state set" where
  "preview_transitions PreviewPrepared =
     {PreviewAwaitingConfirmation, PreviewExpired, PreviewCancelled}"
| "preview_transitions PreviewAwaitingConfirmation =
     {PreviewConfirmed, PreviewExpired, PreviewCancelled}"
| "preview_transitions _ = {}"

record hosted_scope = tenant_scope +
  connection_id :: uuid

record preview_item = hosted_scope +
  pi_preview_item_id :: uuid
  pi_preview_id :: uuid
  pi_item_index :: nat
  pi_client_item_id :: string
  pi_provider_call_hash :: string
  pi_preview_integrity_hash :: string
  pi_document_type :: string
  pi_counterparty_display :: string
  pi_issue_date :: string
  pi_due_date :: string
  pi_financials :: financials
  pi_warnings :: "string list"
  pi_review_points :: "string list"
  pi_payload_envelope :: envelope
  pi_created_at :: instant
  pi_payload_purge_after :: instant

record document_preview = hosted_scope +
  dp_preview_id :: uuid
  dp_provider :: provider_id
  dp_provider_account_sha256 :: string
  dp_account_display_name :: string
  dp_environment :: string
  dp_qualification_id :: uuid
  dp_provider_tool_name :: string
  dp_capability_id :: string
  dp_capability_version :: string
  dp_schema_hash :: string
  dp_response_shape_hash :: string
  dp_evidence_revision_sha256 :: string
  dp_projector_id :: string
  dp_projector_version :: string
  dp_connection_revision :: int
  dp_connection_readiness :: connection_readiness
  dp_provider_call_hash :: string
  dp_preview_integrity_hash :: string
  dp_state :: preview_state
  dp_state_version :: nat
  dp_currency :: string
  dp_subtotal :: decimal
  dp_discount_total :: decimal
  dp_vat_total :: decimal
  dp_withholding_tax_total :: decimal
  dp_grand_total :: decimal
  dp_warnings :: "string list"
  dp_review_points :: "string list"
  dp_items :: "preview_item list"
  dp_supersedes_preview_id :: "uuid option"
  dp_created_at :: instant
  dp_expires_at :: instant
  dp_payload_purge_after :: instant
  dp_confirmed_at :: "instant option"
  dp_cancelled_at :: "instant option"

definition same_scope :: "'a hosted_scope_scheme \<Rightarrow> 'b hosted_scope_scheme \<Rightarrow> bool" where
  "same_scope a b \<longleftrightarrow>
     tenant_id a = tenant_id b \<and> auth_user_id a = auth_user_id b \<and>
     workspace_id a = workspace_id b \<and> connection_id a = connection_id b"

definition scope_non_nil :: "'a hosted_scope_scheme \<Rightarrow> bool" where
  "scope_non_nil a \<longleftrightarrow>
     tenant_id a \<noteq> 0 \<and> auth_user_id a \<noteq> 0 \<and> workspace_id a \<noteq> 0 \<and> connection_id a \<noteq> 0"

section \<open>The hashes\<close>

definition payload_hash_of :: "'a pylib_scheme \<Rightarrow> json \<Rightarrow> string result" where
  "payload_hash_of lib payload = canonical_payload_hash (sha256_hexdigest lib) payload"

definition preview_item_integrity_payload ::
    "string \<Rightarrow> string \<Rightarrow> string \<Rightarrow> string \<Rightarrow> string \<Rightarrow> string \<Rightarrow> string \<Rightarrow> string \<Rightarrow>
     financials \<Rightarrow> string list \<Rightarrow> string list \<Rightarrow> json" where
  "preview_item_integrity_payload client_item_id call_hash projector_id projector_version
       document_type counterparty issue_date due_date fin warnings points = JObj
     [(''client_item_id'', JStr client_item_id),
      (''provider_call_hash'', JStr call_hash),
      (''projector_id'', JStr projector_id),
      (''projector_version'', JStr projector_version),
      (''document_type'', JStr document_type),
      (''counterparty_display'', JStr counterparty),
      (''issue_date'', JStr issue_date),
      (''due_date'', JStr due_date),
      (''financials'', financials_json fin),
      (''warnings'', jstrings warnings),
      (''accountant_review_points'', jstrings points)]"

definition preview_item_integrity_hash ::
    "'a pylib_scheme \<Rightarrow> string \<Rightarrow> string \<Rightarrow> preview_item \<Rightarrow> string result" where
  "preview_item_integrity_hash lib projector_id projector_version i =
     payload_hash_of lib (preview_item_integrity_payload (pi_client_item_id i)
       (pi_provider_call_hash i) projector_id projector_version (pi_document_type i)
       (pi_counterparty_display i) (pi_issue_date i) (pi_due_date i) (pi_financials i)
       (pi_warnings i) (pi_review_points i))"

definition preview_provider_call_payload :: "document_preview \<Rightarrow> string list \<Rightarrow> json" where
  "preview_provider_call_payload p hashes = JObj
     [(''provider'', JStr (provider_value (dp_provider p))),
      (''environment'', JStr (dp_environment p)),
      (''provider_tool_name'', JStr (dp_provider_tool_name p)),
      (''capability_id'', JStr (dp_capability_id p)),
      (''capability_version'', JStr (dp_capability_version p)),
      (''schema_hash'', JStr (dp_schema_hash p)),
      (''item_provider_call_hashes'', jstrings hashes)]"

definition preview_provider_call_hash :: "'a pylib_scheme \<Rightarrow> document_preview \<Rightarrow> string result" where
  "preview_provider_call_hash lib p =
     payload_hash_of lib (preview_provider_call_payload p (map pi_provider_call_hash (dp_items p)))"

definition preview_integrity_payload :: "document_preview \<Rightarrow> string list \<Rightarrow> json" where
  "preview_integrity_payload p hashes = JObj
     [(''provider_call_hash'', JStr (dp_provider_call_hash p)),
      (''account_display_name'', JStr (dp_account_display_name p)),
      (''projector_id'', JStr (dp_projector_id p)),
      (''projector_version'', JStr (dp_projector_version p)),
      (''item_preview_integrity_hashes'', jstrings hashes),
      (''warnings'', jstrings (dp_warnings p)),
      (''accountant_review_points'', jstrings (dp_review_points p))]"

definition preview_integrity_hash :: "'a pylib_scheme \<Rightarrow> document_preview \<Rightarrow> string result" where
  "preview_integrity_hash lib p = 
     payload_hash_of lib (preview_integrity_payload p (map pi_preview_integrity_hash (dp_items p)))"

section \<open>Validation of an item\<close>

definition review_codes_valid :: "nat \<Rightarrow> string list \<Rightarrow> bool" where
  "review_codes_valid limit codes \<longleftrightarrow>
     length codes \<le> limit \<and> distinct codes \<and> list_all is_identifier codes"

definition item_fields_valid :: "preview_item \<Rightarrow> bool" where
  "item_fields_valid i \<longleftrightarrow>
     pi_item_index i < max_batch_documents \<and> is_identifier (pi_client_item_id i) \<and>
     sha256_hex (pi_provider_call_hash i) \<and> sha256_hex (pi_preview_integrity_hash i) \<and>
     is_document_type (pi_document_type i) \<and> bounded_text 1 200 (pi_counterparty_display i) \<and>
     review_codes_valid 100 (pi_warnings i) \<and> review_codes_valid 100 (pi_review_points i) \<and>
     envelope_valid (pi_payload_envelope i)"

definition item_envelope_valid :: "preview_item \<Rightarrow> bool" where
  "item_envelope_valid i \<longleftrightarrow>
     (let e = pi_payload_envelope i in
      envelope_valid e \<and> tenant_id e = tenant_id i \<and> auth_user_id e = auth_user_id i \<and>
      workspace_id e = workspace_id i \<and> en_connection_id e = connection_id i \<and>
      en_credential_type e = hosted_preview_payload \<and> en_revoked_at e = None)"

text \<open>\<open>StoredPreviewItem.validate_item\<close>\<close>

definition check_item :: "preview_item \<Rightarrow> unit result" where
  "check_item i =
     ebind (raise_if (pi_preview_item_id i = 0 \<or> pi_preview_id i = 0 \<or> \<not> scope_non_nil i)
              (ValueError ''preview_item_binding_invalid'')) (\<lambda>_.
     ebind (raise_if (pi_due_date i < pi_issue_date i) (ValueError ''preview_item_binding_invalid'')) (\<lambda>_.
     ebind (raise_if
              (\<not> (pi_created_at i + preview_ttl + unconfirmed_payload_retention \<le> pi_payload_purge_after i \<and>
                  pi_payload_purge_after i \<le> pi_created_at i + preview_ttl + confirmed_payload_retention))
              (ValueError ''preview_item_retention_invalid'')) (\<lambda>_.
     raise_if (\<not> item_envelope_valid i) (ValueError ''preview_item_envelope_invalid''))))"

text \<open>\<open>StoredPreviewItem.model_validate\<close>\<close>

definition validate_item :: "'a hosted_lib_scheme \<Rightarrow> preview_item \<Rightarrow> preview_item result" where
  "validate_item lib i =
     ebind (fields_valid (item_fields_valid i) (validate_financials (pi_financials i))) (\<lambda>_.
     ebind (require_safe_public_identifier lib ''preview_item_binding_invalid'' (pi_client_item_id i)) (\<lambda>_.
     ebind (sanitize_public_text lib ''preview_item_binding_invalid'' (pi_counterparty_display i))
       (\<lambda>counterparty.
     let i = i\<lparr>pi_counterparty_display := counterparty\<rparr> in
     ebind (check_item i) (\<lambda>_. Inr i))))"

section \<open>Validation of a preview\<close>

definition preview_fields_valid :: "document_preview \<Rightarrow> bool" where
  "preview_fields_valid p \<longleftrightarrow>
     sha256_hex (dp_provider_account_sha256 p) \<and> bounded_text 1 200 (dp_account_display_name p) \<and>
     is_environment (dp_environment p) \<and> is_identifier (dp_provider_tool_name p) \<and>
     is_capability (dp_capability_id p) \<and> sha256_hex (dp_capability_version p) \<and>
     sha256_hex (dp_schema_hash p) \<and> sha256_hex (dp_response_shape_hash p) \<and>
     sha256_hex (dp_evidence_revision_sha256 p) \<and> is_identifier (dp_projector_id p) \<and>
     sha256_hex (dp_projector_version p) \<and> 1 \<le> dp_connection_revision p \<and>
     sha256_hex (dp_provider_call_hash p) \<and> sha256_hex (dp_preview_integrity_hash p) \<and>
     1 \<le> dp_state_version p \<and> is_currency (dp_currency p) \<and>
     nonnegative_field (dp_subtotal p) \<and> nonnegative_field (dp_discount_total p) \<and>
     nonnegative_field (dp_vat_total p) \<and> nonnegative_field (dp_withholding_tax_total p) \<and>
     decimal_field (dp_grand_total p) \<and>
     review_codes_valid 2500 (dp_warnings p) \<and> review_codes_valid 2500 (dp_review_points p) \<and>
     dp_items p \<noteq> [] \<and> length (dp_items p) \<le> max_batch_documents"

text \<open>The checks on the identifiers, the time to live and the state of \<open>validate_preview\<close>.\<close>

definition state_version_valid :: "document_preview \<Rightarrow> bool" where
  "state_version_valid p =
     (case dp_state p of
        PreviewPrepared \<Rightarrow> dp_state_version p = 1
      | PreviewAwaitingConfirmation \<Rightarrow> dp_state_version p \<in> {1, 2}
      | _ \<Rightarrow> dp_state_version p \<in> {2, 3})"

definition state_times_valid :: "document_preview \<Rightarrow> bool" where
  "state_times_valid p =
     (let unconfirmed_purge = dp_expires_at p + unconfirmed_payload_retention in
      case dp_state p of
        PreviewConfirmed \<Rightarrow>
          (case dp_confirmed_at p of
             None \<Rightarrow> False
           | Some t \<Rightarrow> dp_cancelled_at p = None \<and> unconfirmed_purge \<le> dp_payload_purge_after p \<and>
                dp_payload_purge_after p \<le> t + confirmed_payload_retention)
      | PreviewCancelled \<Rightarrow>
          dp_cancelled_at p \<noteq> None \<and> dp_confirmed_at p = None \<and>
          dp_payload_purge_after p = unconfirmed_purge
      | _ \<Rightarrow>
          dp_confirmed_at p = None \<and> dp_cancelled_at p = None \<and>
          dp_payload_purge_after p = unconfirmed_purge)"

definition check_preview_state :: "document_preview \<Rightarrow> unit result" where
  "check_preview_state p =
     ebind (raise_if (dp_preview_id p = 0 \<or> \<not> scope_non_nil p \<or> dp_qualification_id p = 0 \<or>
              dp_supersedes_preview_id p = Some 0) (ValueError ''preview_binding_invalid'')) (\<lambda>_.
     ebind (raise_if (dp_expires_at p \<noteq> dp_created_at p + preview_ttl)
              (ValueError ''preview_ttl_invalid'')) (\<lambda>_.
     ebind (raise_if (dp_connection_readiness p \<noteq> Ready) (ValueError ''preview_binding_invalid'')) (\<lambda>_.
     raise_if (\<not> state_version_valid p \<or> \<not> state_times_valid p) (ValueError ''preview_state_invalid''))))"

definition item_bound :: "document_preview \<Rightarrow> preview_item \<Rightarrow> bool" where
  "item_bound p i \<longleftrightarrow>
     pi_preview_id i = dp_preview_id p \<and> same_scope i p \<and> pi_created_at i = dp_created_at p \<and>
     pi_payload_purge_after i = dp_payload_purge_after p \<and>
     en_provider (pi_payload_envelope i) = provider_value (dp_provider p) \<and>
     en_environment (pi_payload_envelope i) = dp_environment p"

text \<open>The loop over the items: their binding and their own hash.\<close>

definition check_bound_item :: "'a pylib_scheme \<Rightarrow> document_preview \<Rightarrow> preview_item \<Rightarrow> unit result" where
  "check_bound_item lib p i =
     ebind (raise_if (\<not> item_bound p i) (ValueError ''preview_item_binding_invalid'')) (\<lambda>_.
     ebind (preview_item_integrity_hash lib (dp_projector_id p) (dp_projector_version p) i) (\<lambda>expected.
     raise_if (pi_preview_integrity_hash i \<noteq> expected) (ValueError ''preview_item_integrity_hash_invalid'')))"

definition check_preview_items :: "'a pylib_scheme \<Rightarrow> document_preview \<Rightarrow> unit result" where
  "check_preview_items lib p =
     (let items = dp_items p in
      ebind (raise_if (\<not> (distinct (map pi_client_item_id items) \<and> distinct (map pi_preview_item_id items) \<and>
                distinct (map pi_provider_call_hash items) \<and>
                distinct (map pi_preview_integrity_hash items)))
              (ValueError ''preview_items_not_unique'')) (\<lambda>_.
      ebind (raise_if (map pi_item_index items \<noteq> [0..<length items])
              (ValueError ''preview_item_order_invalid'')) (\<lambda>_.
      ebind (emap (check_bound_item lib p) items) (\<lambda>_.
      raise_if (list_ex (\<lambda>i. fi_currency (pi_financials i) \<noteq> dp_currency p) items)
        (ValueError ''document_currency_mismatch'')))))"

definition items_total :: "(financials \<Rightarrow> decimal) \<Rightarrow> document_preview \<Rightarrow> int" where
  "items_total f p = decimal_sum (map (units \<circ> f \<circ> pi_financials) (dp_items p))"

definition check_preview_totals :: "document_preview \<Rightarrow> unit result" where
  "check_preview_totals p =
     raise_if (units (dp_subtotal p) \<noteq> items_total fi_subtotal p \<or>
       units (dp_discount_total p) \<noteq> items_total fi_discount_total p \<or>
       units (dp_vat_total p) \<noteq> items_total fi_vat_total p \<or>
       units (dp_withholding_tax_total p) \<noteq> items_total fi_withholding_tax_total p \<or>
       units (dp_grand_total p) \<noteq> items_total fi_grand_total p)
       (ValueError ''preview_total_mismatch'')"

definition check_preview_hashes :: "'a pylib_scheme \<Rightarrow> document_preview \<Rightarrow> unit result" where
  "check_preview_hashes lib p =
     ebind (preview_provider_call_hash lib p) (\<lambda>call_hash.
     ebind (raise_if (dp_provider_call_hash p \<noteq> call_hash)
              (ValueError ''preview_provider_call_hash_invalid'')) (\<lambda>_.
     ebind (preview_integrity_hash lib p) (\<lambda>integrity.
     raise_if (dp_preview_integrity_hash p \<noteq> integrity) (ValueError ''preview_integrity_hash_invalid''))))"

text \<open>\<open>DocumentPreview.validate_preview\<close>, the check after the fields.\<close>

definition check_preview :: "'a pylib_scheme \<Rightarrow> document_preview \<Rightarrow> unit result" where
  "check_preview lib p =
     ebind (check_preview_state p) (\<lambda>_.
     ebind (check_preview_items lib p) (\<lambda>_.
     ebind (check_preview_totals p) (\<lambda>_.
     check_preview_hashes lib p)))"

text \<open>\<open>DocumentPreview.model_validate\<close>\<close>

definition validate_document_preview :: "'a hosted_lib_scheme \<Rightarrow> document_preview \<Rightarrow> document_preview result" where
  "validate_document_preview lib p =
     ebind (fields_valid (preview_fields_valid p) (validate_all (validate_item lib) (dp_items p))) (\<lambda>items.
     ebind (sanitize_public_text lib ''preview_binding_invalid'' (dp_account_display_name p)) (\<lambda>account.
     let p = p\<lparr>dp_account_display_name := account, dp_items := items\<rparr> in
     ebind (check_preview lib p) (\<lambda>_. Inr p)))"

section \<open>Transitions\<close>

text \<open>\<open>DocumentPreview.transition\<close>; the purge time of the items follows that of the preview.\<close>

definition moved_preview ::
    "document_preview \<Rightarrow> preview_state \<Rightarrow> instant \<Rightarrow> instant \<Rightarrow> document_preview" where
  "moved_preview p target timestamp purge_after =
     p\<lparr>dp_state := target, dp_state_version := dp_state_version p + 1,
       dp_confirmed_at := (if target = PreviewConfirmed then Some timestamp else None),
       dp_cancelled_at := (if target = PreviewCancelled then Some timestamp else None),
       dp_payload_purge_after := purge_after,
       dp_items := map (\<lambda>i. i\<lparr>pi_payload_purge_after := purge_after\<rparr>) (dp_items p)\<rparr>"

definition transition_purge_after ::
    "document_preview \<Rightarrow> preview_state \<Rightarrow> datetime option \<Rightarrow> instant result" where
  "transition_purge_after p target confirmed_purge =
     (case confirmed_purge of
        None \<Rightarrow> Inr (dp_payload_purge_after p)
      | Some t \<Rightarrow>
          if target = PreviewConfirmed then aware_instant (ValueError ''preview_timestamp_invalid'') t
          else Inl (ValueError ''preview_state_invalid''))"

definition preview_transition ::
    "'a hosted_lib_scheme \<Rightarrow> document_preview \<Rightarrow> preview_state \<Rightarrow> datetime \<Rightarrow> datetime option \<Rightarrow>
     document_preview result" where
  "preview_transition lib p target occurred_at confirmed_purge =
     ebind (raise_if (target \<notin> preview_transitions (dp_state p)) (ValueError ''preview_state_invalid'')) (\<lambda>_.
     ebind (aware_instant (ValueError ''preview_timestamp_invalid'') occurred_at) (\<lambda>timestamp.
     ebind (raise_if (timestamp < dp_created_at p) (ValueError ''preview_timestamp_invalid'')) (\<lambda>_.
     ebind (raise_if (target = PreviewConfirmed \<and> dp_expires_at p \<le> timestamp)
              (ValueError ''preview_expired'')) (\<lambda>_.
     ebind (raise_if (target = PreviewExpired \<and> timestamp < dp_expires_at p)
              (ValueError ''preview_state_invalid'')) (\<lambda>_.
     ebind (transition_purge_after p target confirmed_purge) (\<lambda>purge_after.
     validate_document_preview lib (moved_preview p target timestamp purge_after)))))))"

section \<open>The binding of a sealed payload\<close>

text \<open>\<open>PreviewPayloadBinding\<close> as \<open>payload_binding\<close> makes it, in its JSON form.\<close>

definition payload_binding_json ::
    "'a hosted_lib_scheme \<Rightarrow> document_preview \<Rightarrow> uuid \<Rightarrow> string \<Rightarrow> string \<Rightarrow> string \<Rightarrow> json" where
  "payload_binding_json lib p item_id client_item_id call_hash integrity_hash = JObj
     [(''preview_id'', JStr (uuid_text (dp_preview_id p))),
      (''preview_item_id'', JStr (uuid_text item_id)),
      (''tenant_id'', JStr (uuid_text (tenant_id p))),
      (''auth_user_id'', JStr (uuid_text (auth_user_id p))),
      (''workspace_id'', JStr (uuid_text (workspace_id p))),
      (''connection_id'', JStr (uuid_text (connection_id p))),
      (''provider'', JStr (provider_value (dp_provider p))),
      (''provider_account_sha256'', JStr (dp_provider_account_sha256 p)),
      (''environment'', JStr (dp_environment p)),
      (''qualification_id'', JStr (uuid_text (dp_qualification_id p))),
      (''provider_tool_name'', JStr (dp_provider_tool_name p)),
      (''capability_id'', JStr (dp_capability_id p)),
      (''capability_version'', JStr (dp_capability_version p)),
      (''schema_hash'', JStr (dp_schema_hash p)),
      (''evidence_revision_sha256'', JStr (dp_evidence_revision_sha256 p)),
      (''projector_id'', JStr (dp_projector_id p)),
      (''projector_version'', JStr (dp_projector_version p)),
      (''connection_revision'', JInt (dp_connection_revision p)),
      (''connection_readiness'', JStr (readiness_value (dp_connection_readiness p))),
      (''preview_state_version'', JInt 1),
      (''client_item_id'', JStr client_item_id),
      (''provider_call_hash'', JStr call_hash),
      (''preview_integrity_hash'', JStr integrity_hash),
      (''created_at'', JStr (iso_instant lib (dp_created_at p))),
      (''expires_at'', JStr (iso_instant lib (dp_expires_at p)))]"

definition payload_binding_valid ::
    "document_preview \<Rightarrow> uuid \<Rightarrow> string \<Rightarrow> string \<Rightarrow> string \<Rightarrow> bool" where
  "payload_binding_valid p item_id client_item_id call_hash integrity_hash \<longleftrightarrow>
     sha256_hex (dp_provider_account_sha256 p) \<and> is_environment (dp_environment p) \<and>
     is_identifier (dp_provider_tool_name p) \<and> is_capability (dp_capability_id p) \<and>
     sha256_hex (dp_capability_version p) \<and> sha256_hex (dp_schema_hash p) \<and>
     sha256_hex (dp_evidence_revision_sha256 p) \<and> is_identifier (dp_projector_id p) \<and>
     sha256_hex (dp_projector_version p) \<and> 1 \<le> dp_connection_revision p \<and>
     is_identifier client_item_id \<and> sha256_hex call_hash \<and>
     sha256_hex integrity_hash \<and>
     dp_preview_id p \<noteq> 0 \<and> item_id \<noteq> 0 \<and> scope_non_nil p \<and> dp_qualification_id p \<noteq> 0 \<and>
     dp_expires_at p = dp_created_at p + preview_ttl"

text \<open>\<open>HostedPayloadVault._credential_binding\<close> of the binding with these parts\<close>

definition item_binding ::
    "'a hosted_lib_scheme \<Rightarrow> document_preview \<Rightarrow> uuid \<Rightarrow> string \<Rightarrow> string \<Rightarrow> string \<Rightarrow> binding result" where
  "item_binding lib p item_id client_item_id call_hash integrity_hash =
     ebind (raise_if (\<not> payload_binding_valid p item_id client_item_id call_hash integrity_hash)
              (ValueError ''preview_payload_binding_invalid'')) (\<lambda>_.
     ebind (payload_hash_of lib
              (payload_binding_json lib p item_id client_item_id call_hash integrity_hash)) (\<lambda>company.
       Inr \<lparr>tenant_id = tenant_id p, workspace_id = workspace_id p, auth_user_id = auth_user_id p,
            bi_connection_id = connection_id p, bi_provider = provider_value (dp_provider p),
            bi_company_or_merchant_id = company, bi_environment = dp_environment p,
            bi_credential_type = hosted_preview_payload\<rparr>))"

text \<open>\<open>DocumentPreview.payload_binding\<close> of an item, as the binding of its envelope\<close>

definition payload_binding ::
    "'a hosted_lib_scheme \<Rightarrow> document_preview \<Rightarrow> preview_item \<Rightarrow> binding result" where
  "payload_binding lib p i =
     ebind (raise_if (i \<notin> set (dp_items p)) (ValueError ''preview_item_binding_invalid'')) (\<lambda>_.
     item_binding lib p (pi_preview_item_id i) (pi_client_item_id i) (pi_provider_call_hash i)
       (pi_preview_integrity_hash i))"

end
