(* ===== verification/Transitions.thy ===== *)
theory Transitions
  imports Mercury_Prelude
begin

text \<open>
  Model of \<open>execution/hosted/transitions.py\<close>: the state machines of a hosted operation (the
  parent) and of its items (the children), the two guards of a transition and the coherence
  predicate on persisted states. A \<open>StrEnum\<close> is a datatype with the string of each member
  (\<open>parent_value\<close>, \<open>item_value\<close>); the coercions look a string up, as the enum's call does.
  Each public predicate takes strings, as in the code, and calls its \<open>_checked\<close> part on the
  coerced members. The lemmas: the guards keep parent and children coherent, every run is
  finite, an item is dispatched at most once, and which operations can no longer move.
\<close>

section \<open>States\<close>

datatype parent_state =
    ParentPrepared
  | ParentAwaitingConfirmation
  | ParentDispatching
  | ParentSucceeded
  | ParentFailedPreDispatch
  | ParentProviderRejected
  | ParentOutcomeUnknown
  | ParentNeedsManualReview
  | ParentExpired
  | ParentCancelled

datatype item_state =
    ItemPrepared
  | ItemAwaitingConfirmation
  | ItemDispatching
  | ItemSucceeded
  | ItemFailedPreDispatch
  | ItemProviderRejected
  | ItemOutcomeUnknown
  | ItemNeedsManualReview
  | ItemNotDispatched
  | ItemExpired
  | ItemCancelled

fun parent_value :: "parent_state \<Rightarrow> string" where
  "parent_value ParentPrepared = ''prepared''"
| "parent_value ParentAwaitingConfirmation = ''awaiting_confirmation''"
| "parent_value ParentDispatching = ''dispatching''"
| "parent_value ParentSucceeded = ''succeeded''"
| "parent_value ParentFailedPreDispatch = ''failed_pre_dispatch''"
| "parent_value ParentProviderRejected = ''provider_rejected''"
| "parent_value ParentOutcomeUnknown = ''outcome_unknown''"
| "parent_value ParentNeedsManualReview = ''needs_manual_review''"
| "parent_value ParentExpired = ''expired''"
| "parent_value ParentCancelled = ''cancelled''"

fun item_value :: "item_state \<Rightarrow> string" where
  "item_value ItemPrepared = ''prepared''"
| "item_value ItemAwaitingConfirmation = ''awaiting_confirmation''"
| "item_value ItemDispatching = ''dispatching''"
| "item_value ItemSucceeded = ''succeeded''"
| "item_value ItemFailedPreDispatch = ''failed_pre_dispatch''"
| "item_value ItemProviderRejected = ''provider_rejected''"
| "item_value ItemOutcomeUnknown = ''outcome_unknown''"
| "item_value ItemNeedsManualReview = ''needs_manual_review''"
| "item_value ItemNotDispatched = ''not_dispatched''"
| "item_value ItemExpired = ''expired''"
| "item_value ItemCancelled = ''cancelled''"

definition parent_members :: "parent_state list" where
  "parent_members =
     [ParentPrepared, ParentAwaitingConfirmation, ParentDispatching, ParentSucceeded,
      ParentFailedPreDispatch, ParentProviderRejected, ParentOutcomeUnknown,
      ParentNeedsManualReview, ParentExpired, ParentCancelled]"

definition item_members :: "item_state list" where
  "item_members =
     [ItemPrepared, ItemAwaitingConfirmation, ItemDispatching, ItemSucceeded,
      ItemFailedPreDispatch, ItemProviderRejected, ItemOutcomeUnknown, ItemNeedsManualReview,
      ItemNotDispatched, ItemExpired, ItemCancelled]"

definition coerce_parent :: "string \<Rightarrow> parent_state option" where
  "coerce_parent v = find (\<lambda>s. parent_value s = v) parent_members"

definition coerce_item :: "string \<Rightarrow> item_state option" where
  "coerce_item v = find (\<lambda>s. item_value s = v) item_members"

fun parent_transitions :: "parent_state \<Rightarrow> parent_state set" where
  "parent_transitions ParentPrepared =
     {ParentAwaitingConfirmation, ParentExpired, ParentCancelled}"
| "parent_transitions ParentAwaitingConfirmation =
     {ParentDispatching, ParentFailedPreDispatch, ParentExpired, ParentCancelled}"
| "parent_transitions ParentFailedPreDispatch = {ParentDispatching, ParentCancelled}"
| "parent_transitions ParentDispatching =
     {ParentSucceeded, ParentProviderRejected, ParentOutcomeUnknown, ParentNeedsManualReview}"
| "parent_transitions ParentOutcomeUnknown = {ParentSucceeded, ParentNeedsManualReview}"
| "parent_transitions ParentSucceeded = {}"
| "parent_transitions ParentProviderRejected = {}"
| "parent_transitions ParentNeedsManualReview = {}"
| "parent_transitions ParentExpired = {}"
| "parent_transitions ParentCancelled = {}"

fun item_transitions :: "item_state \<Rightarrow> item_state set" where
  "item_transitions ItemPrepared = {ItemAwaitingConfirmation, ItemExpired, ItemCancelled}"
| "item_transitions ItemAwaitingConfirmation =
     {ItemDispatching, ItemFailedPreDispatch, ItemNotDispatched, ItemCancelled, ItemExpired}"
| "item_transitions ItemFailedPreDispatch = {ItemDispatching, ItemCancelled}"
| "item_transitions ItemDispatching =
     {ItemSucceeded, ItemProviderRejected, ItemOutcomeUnknown}"
| "item_transitions ItemOutcomeUnknown = {ItemSucceeded, ItemNeedsManualReview}"
| "item_transitions ItemSucceeded = {}"
| "item_transitions ItemProviderRejected = {}"
| "item_transitions ItemNeedsManualReview = {}"
| "item_transitions ItemNotDispatched = {}"
| "item_transitions ItemExpired = {}"
| "item_transitions ItemCancelled = {}"

definition item_terminal :: "item_state set" where
  "item_terminal =
     {ItemSucceeded, ItemProviderRejected, ItemOutcomeUnknown, ItemNeedsManualReview,
      ItemNotDispatched, ItemExpired, ItemCancelled}"

definition dispatch_recovery_states :: "item_state set" where
  "dispatch_recovery_states =
     {ItemSucceeded, ItemProviderRejected, ItemOutcomeUnknown, ItemNeedsManualReview,
      ItemNotDispatched}"

section \<open>The guards\<close>

fun parent_transition_checked ::
    "parent_state \<Rightarrow> parent_state \<Rightarrow> item_state list \<Rightarrow> bool" where
  "parent_transition_checked source destination children =
     (if destination \<notin> parent_transitions source then False
      else (case destination of
        ParentAwaitingConfirmation \<Rightarrow> list_all (\<lambda>i. i = ItemPrepared) children
      | ParentDispatching \<Rightarrow>
          list_all (\<lambda>i. i \<in> {ItemAwaitingConfirmation, ItemFailedPreDispatch}) children
      | ParentFailedPreDispatch \<Rightarrow>
          children \<noteq> [] \<and>
          list_all (\<lambda>i. i \<in> {ItemFailedPreDispatch, ItemNotDispatched}) children
      | ParentSucceeded \<Rightarrow> children \<noteq> [] \<and> list_all (\<lambda>i. i = ItemSucceeded) children
      | ParentProviderRejected \<Rightarrow>
          children \<noteq> [] \<and> list_all (\<lambda>i. i \<in> item_terminal) children \<and>
          list_ex (\<lambda>i. i = ItemProviderRejected) children
      | ParentOutcomeUnknown \<Rightarrow>
          children \<noteq> [] \<and> list_all (\<lambda>i. i \<in> item_terminal) children \<and>
          list_ex (\<lambda>i. i = ItemOutcomeUnknown) children
      | ParentNeedsManualReview \<Rightarrow>
          children \<noteq> [] \<and> list_all (\<lambda>i. i \<in> item_terminal) children \<and>
          list_ex (\<lambda>i. i \<in> {ItemNeedsManualReview, ItemOutcomeUnknown}) children
      | ParentExpired \<Rightarrow> children \<noteq> [] \<and> list_all (\<lambda>i. i = ItemExpired) children
      | ParentCancelled \<Rightarrow>
          children \<noteq> [] \<and>
          list_all (\<lambda>i. i \<in> {ItemCancelled, ItemNotDispatched}) children
      | ParentPrepared \<Rightarrow> True))"

definition parent_operation_transition_allowed ::
    "string \<Rightarrow> string \<Rightarrow> string list \<Rightarrow> bool" where
  "parent_operation_transition_allowed current target child_states =
     (case (coerce_parent current, coerce_parent target) of
        (Some source, Some destination) \<Rightarrow>
          (if list_ex (\<lambda>c. coerce_item c = None) child_states then False
           else parent_transition_checked source destination
                  (List.map_filter coerce_item child_states))
      | _ \<Rightarrow> False)"

fun children_compatible_checked :: "parent_state \<Rightarrow> item_state list \<Rightarrow> bool" where
  "children_compatible_checked ParentPrepared checked =
     list_all (\<lambda>i. i \<in> {ItemPrepared, ItemCancelled, ItemExpired}) checked"
| "children_compatible_checked ParentAwaitingConfirmation checked =
     list_all (\<lambda>i. i \<in> {ItemPrepared, ItemAwaitingConfirmation, ItemFailedPreDispatch,
       ItemNotDispatched, ItemExpired, ItemCancelled}) checked"
| "children_compatible_checked ParentFailedPreDispatch checked =
     list_all (\<lambda>i. i \<in> {ItemFailedPreDispatch, ItemNotDispatched, ItemCancelled}) checked"
| "children_compatible_checked ParentDispatching checked =
     list_all (\<lambda>i. i \<in> {ItemAwaitingConfirmation, ItemFailedPreDispatch, ItemDispatching}
       \<union> dispatch_recovery_states) checked"
| "children_compatible_checked ParentSucceeded checked =
     list_all (\<lambda>i. i = ItemSucceeded) checked"
| "children_compatible_checked ParentProviderRejected checked =
     (list_all (\<lambda>i. i \<in> item_terminal) checked \<and>
      list_ex (\<lambda>i. i = ItemProviderRejected) checked)"
| "children_compatible_checked ParentOutcomeUnknown checked =
     (list_all (\<lambda>i. i \<in> item_terminal) checked \<and>
      list_ex (\<lambda>i. i \<in> {ItemSucceeded, ItemOutcomeUnknown, ItemNeedsManualReview}) checked)"
| "children_compatible_checked ParentNeedsManualReview checked =
     (list_all (\<lambda>i. i \<in> item_terminal) checked \<and>
      list_ex (\<lambda>i. i \<in> {ItemNeedsManualReview, ItemOutcomeUnknown}) checked)"
| "children_compatible_checked ParentExpired checked =
     list_all (\<lambda>i. i = ItemExpired) checked"
| "children_compatible_checked ParentCancelled checked =
     list_all (\<lambda>i. i \<in> {ItemCancelled, ItemNotDispatched}) checked"

definition parent_operation_children_compatible :: "string \<Rightarrow> string list \<Rightarrow> bool" where
  "parent_operation_children_compatible parent_state child_states =
     (case coerce_parent parent_state of
        None \<Rightarrow> False
      | Some parent \<Rightarrow>
          (if child_states = [] \<or> list_ex (\<lambda>c. coerce_item c = None) child_states then False
           else children_compatible_checked parent
                  (List.map_filter coerce_item child_states)))"

fun item_transition_checked :: "item_state \<Rightarrow> item_state \<Rightarrow> parent_state \<Rightarrow> bool" where
  "item_transition_checked source destination parent =
     (if destination \<notin> item_transitions source then False
      else (case source of
        ItemPrepared \<Rightarrow>
          (if destination = ItemAwaitingConfirmation then parent = ParentAwaitingConfirmation
           else parent = ParentPrepared)
      | ItemAwaitingConfirmation \<Rightarrow>
          (if destination = ItemDispatching then parent = ParentDispatching
           else if destination = ItemNotDispatched
             then parent \<in> {ParentAwaitingConfirmation, ParentDispatching}
           else parent = ParentAwaitingConfirmation)
      | ItemFailedPreDispatch \<Rightarrow>
          (if destination = ItemDispatching then parent = ParentDispatching
           else parent = ParentFailedPreDispatch)
      | ItemDispatching \<Rightarrow> parent = ParentDispatching
      | ItemOutcomeUnknown \<Rightarrow> parent = ParentOutcomeUnknown
      | _ \<Rightarrow> False))"

definition item_operation_transition_allowed :: "string \<Rightarrow> string \<Rightarrow> string \<Rightarrow> bool" where
  "item_operation_transition_allowed current target parent_state =
     (case (coerce_item current, coerce_item target, coerce_parent parent_state) of
        (Some source, Some destination, Some parent) \<Rightarrow>
          item_transition_checked source destination parent
      | _ \<Rightarrow> False)"

lemmas guard_simps = parent_transition_checked.simps item_transition_checked.simps

declare guard_simps [simp del]

section \<open>Strings and members\<close>

lemma coerce_parent_value [simp]: "coerce_parent (parent_value s) = Some s"
  by (cases s) (simp_all add: coerce_parent_def parent_members_def)

lemma coerce_item_value [simp]: "coerce_item (item_value s) = Some s"
  by (cases s) (simp_all add: coerce_item_def item_members_def)

lemma coerce_parent_Some: "coerce_parent v = Some s \<longleftrightarrow> v = parent_value s"
proof
  assume "coerce_parent v = Some s"
  then show "v = parent_value s" by (auto simp: coerce_parent_def find_Some_iff)
qed simp

lemma coerce_item_Some: "coerce_item v = Some s \<longleftrightarrow> v = item_value s"
proof
  assume "coerce_item v = Some s"
  then show "v = item_value s" by (auto simp: coerce_item_def find_Some_iff)
qed simp

lemma all_coerced:
  "\<not> list_ex (\<lambda>c. coerce_item c = None) vs \<Longrightarrow> \<exists>cs. vs = map item_value cs"
proof (induction vs)
  case Nil
  then show ?case by simp
next
  case (Cons v vs)
  then obtain c cs where "coerce_item v = Some c" and "vs = map item_value cs"
    by auto
  then have "v # vs = map item_value (c # cs)" by (simp add: coerce_item_Some)
  then show ?case by (rule exI)
qed

lemma coerced_children [simp]:
  "List.map_filter coerce_item (map item_value cs) = cs"
  "list_ex (\<lambda>c. coerce_item c = None) (map item_value cs) = False"
  by (induction cs) (simp_all add: List.map_filter_simps)

lemma parent_transition_allowed_values [simp]:
  "parent_operation_transition_allowed (parent_value s) (parent_value d) (map item_value cs)
     = parent_transition_checked s d cs"
  by (simp add: parent_operation_transition_allowed_def)

lemma children_compatible_values [simp]:
  "parent_operation_children_compatible (parent_value p) (map item_value cs)
     = (cs \<noteq> [] \<and> children_compatible_checked p cs)"
  by (simp add: parent_operation_children_compatible_def)

lemma item_transition_allowed_values [simp]:
  "item_operation_transition_allowed (item_value s) (item_value d) (parent_value p)
     = item_transition_checked s d p"
  by (simp add: item_operation_transition_allowed_def)

section \<open>Parent and children stay coherent\<close>

lemma parent_transition_compatible:
  assumes "parent_transition_checked source destination cs" and "cs \<noteq> []"
  shows "children_compatible_checked destination cs"
  using assms
  by (cases source; cases destination)
    (auto simp: guard_simps list_all_iff list_ex_iff item_terminal_def split: if_splits)

text \<open>
  Coherence as two sets: every child is in \<open>allowed_children\<close>, and one of them is in
  \<open>required_child\<close> (no requirement where that is everything).
\<close>

fun allowed_children :: "parent_state \<Rightarrow> item_state set" where
  "allowed_children ParentPrepared = {ItemPrepared, ItemCancelled, ItemExpired}"
| "allowed_children ParentAwaitingConfirmation =
     {ItemPrepared, ItemAwaitingConfirmation, ItemFailedPreDispatch, ItemNotDispatched,
      ItemExpired, ItemCancelled}"
| "allowed_children ParentFailedPreDispatch =
     {ItemFailedPreDispatch, ItemNotDispatched, ItemCancelled}"
| "allowed_children ParentDispatching =
     {ItemAwaitingConfirmation, ItemFailedPreDispatch, ItemDispatching}
       \<union> dispatch_recovery_states"
| "allowed_children ParentSucceeded = {ItemSucceeded}"
| "allowed_children ParentExpired = {ItemExpired}"
| "allowed_children ParentCancelled = {ItemCancelled, ItemNotDispatched}"
| "allowed_children _ = item_terminal"

fun required_child :: "parent_state \<Rightarrow> item_state set" where
  "required_child ParentProviderRejected = {ItemProviderRejected}"
| "required_child ParentOutcomeUnknown =
     {ItemSucceeded, ItemOutcomeUnknown, ItemNeedsManualReview}"
| "required_child ParentNeedsManualReview = {ItemNeedsManualReview, ItemOutcomeUnknown}"
| "required_child _ = UNIV"

lemma children_compatible_sets:
  "cs \<noteq> [] \<Longrightarrow> children_compatible_checked p cs \<longleftrightarrow>
     set cs \<subseteq> allowed_children p \<and> (\<exists>c \<in> set cs. c \<in> required_child p)"
  by (cases p) (auto simp: list_all_iff list_ex_iff ex_in_conv)

lemma item_transition_target:
  "item_transition_checked source target parent \<Longrightarrow>
     target \<in> allowed_children parent \<inter> required_child parent"
  by (cases source; cases target)
    (auto simp: guard_simps dispatch_recovery_states_def item_terminal_def)

lemma item_transition_compatible:
  assumes step: "item_transition_checked (cs ! i) target parent" and i: "i < length cs"
    and compatible: "children_compatible_checked parent cs"
  shows "children_compatible_checked parent (cs[i := target])"
proof -
  have ne: "cs \<noteq> []" "cs[i := target] \<noteq> []" using i by auto
  have "set (cs[i := target]) \<subseteq> insert target (set cs)"
    by (rule set_update_subset_insert)
  moreover have "target \<in> set (cs[i := target])" using i by (rule set_update_memI)
  ultimately show ?thesis
    using item_transition_target [OF step] compatible
    unfolding children_compatible_sets [OF ne(1)] children_compatible_sets [OF ne(2)]
    by blast
qed

section \<open>Runs of one operation\<close>

text \<open>
  A configuration is the parent's state and its items' states. A step moves the parent
  (\<open>HostedOperation.transition\<close>) or one item (\<open>HostedOperation.transition_item\<close>) through
  its guard.
\<close>

type_synonym op_config = "parent_state \<times> item_state list"

inductive op_step :: "op_config \<Rightarrow> op_config \<Rightarrow> bool" where
  parent_moves: "parent_transition_checked p d cs \<Longrightarrow> op_step (p, cs) (d, cs)"
| item_moves: "i < length cs \<Longrightarrow> item_transition_checked (cs ! i) t p \<Longrightarrow>
    op_step (p, cs) (p, cs[i := t])"

inductive_cases op_stepE: "op_step (p, cs) st"

definition coherent :: "op_config \<Rightarrow> bool" where
  "coherent st \<longleftrightarrow> snd st \<noteq> [] \<and> children_compatible_checked (fst st) (snd st)"

lemma op_step_coherent: "op_step st st' \<Longrightarrow> coherent st \<Longrightarrow> coherent st'"
  by (induction rule: op_step.induct)
    (auto simp: coherent_def parent_transition_compatible item_transition_compatible)

lemma op_run_coherent: "op_step\<^sup>*\<^sup>* st st' \<Longrightarrow> coherent st \<Longrightarrow> coherent st'"
  by (induction rule: rtranclp_induct) (auto intro: op_step_coherent)

lemma op_step_length: "op_step st st' \<Longrightarrow> length (snd st') = length (snd st)"
  by (induction rule: op_step.induct) auto

lemma op_run_length: "op_step\<^sup>*\<^sup>* st st' \<Longrightarrow> length (snd st') = length (snd st)"
  by (induction rule: rtranclp_induct) (auto simp: op_step_length)

subsection \<open>Every run is finite\<close>

fun parent_rank :: "parent_state \<Rightarrow> nat" where
  "parent_rank ParentPrepared = 5"
| "parent_rank ParentAwaitingConfirmation = 4"
| "parent_rank ParentFailedPreDispatch = 3"
| "parent_rank ParentDispatching = 2"
| "parent_rank ParentOutcomeUnknown = 1"
| "parent_rank _ = 0"

fun item_rank :: "item_state \<Rightarrow> nat" where
  "item_rank ItemPrepared = 5"
| "item_rank ItemAwaitingConfirmation = 4"
| "item_rank ItemFailedPreDispatch = 3"
| "item_rank ItemDispatching = 2"
| "item_rank ItemOutcomeUnknown = 1"
| "item_rank _ = 0"

definition op_rank :: "op_config \<Rightarrow> nat" where
  "op_rank st = parent_rank (fst st) + sum_list (map item_rank (snd st))"

lemma parent_transition_rank:
  "parent_transition_checked s d cs \<Longrightarrow> parent_rank d < parent_rank s"
  by (cases s; cases d) (auto simp: guard_simps)

lemma item_transition_rank:
  "item_transition_checked s d p \<Longrightarrow> item_rank d < item_rank s"
  by (cases s; cases d) (auto simp: guard_simps)

lemma op_step_rank: "op_step st st' \<Longrightarrow> op_rank st' < op_rank st"
proof (induction rule: op_step.induct)
  case (parent_moves p d cs)
  then show ?case using parent_transition_rank [OF parent_moves] by (simp add: op_rank_def)
next
  case (item_moves i cs t p)
  then show ?case
    using item_transition_rank [OF item_moves(2)]
      sum_list_update_nat [OF item_moves(1), of item_rank t]
    by (simp add: op_rank_def)
qed

lemma op_steps_rank: "(op_step ^^ n) st st' \<Longrightarrow> n + op_rank st' \<le> op_rank st"
proof (induction n arbitrary: st')
  case 0
  then show ?case by simp
next
  case (Suc n)
  then obtain mid where "(op_step ^^ n) st mid" and step: "op_step mid st'" by auto
  then have "n + op_rank mid \<le> op_rank st" using Suc.IH by blast
  with op_step_rank [OF step] show ?case by simp
qed

lemma item_rank_le: "item_rank s \<le> 5"
  by (cases s) auto

lemma op_rank_le: "op_rank st \<le> 5 + 5 * length (snd st)"
proof -
  have "sum_list (map item_rank cs) \<le> 5 * length cs" for cs
    by (induction cs) (auto intro: add_mono [OF item_rank_le, simplified])
  moreover have "parent_rank (fst st) \<le> 5" by (cases "fst st") auto
  ultimately show ?thesis by (simp add: op_rank_def add_mono)
qed

subsection \<open>Dispatch\<close>

definition settled :: "item_state set" where
  "settled =
     {ItemSucceeded, ItemProviderRejected, ItemOutcomeUnknown, ItemNeedsManualReview}"

lemma op_step_item:
  "op_step st st' \<Longrightarrow> snd st' ! i = snd st ! i \<or>
     item_transition_checked (snd st ! i) (snd st' ! i) (fst st)"
proof (induction rule: op_step.induct)
  case (parent_moves p d cs)
  then show ?case by simp
next
  case (item_moves j cs t p)
  then show ?case by (cases "i = j") (simp_all)
qed

lemma item_transition_settles:
  "item_transition_checked s t p \<Longrightarrow> s \<in> insert ItemDispatching settled \<Longrightarrow> t \<in> settled"
  by (cases s; cases t) (auto simp: guard_simps settled_def)

lemma op_run_dispatched:
  assumes "op_step\<^sup>*\<^sup>* st st'" and "snd st ! i \<in> insert ItemDispatching settled"
  shows "snd st' ! i \<in> insert ItemDispatching settled"
  using assms
proof (induction rule: rtranclp_induct)
  case base
  then show ?case by simp
next
  case (step y z)
  then show ?case
    using op_step_item [OF step(2), of i] item_transition_settles by (metis insertCI)
qed

lemma op_run_settled:
  assumes "op_step\<^sup>*\<^sup>* st st'" and "snd st ! i \<in> settled"
  shows "snd st' ! i \<in> settled"
  using assms
proof (induction rule: rtranclp_induct)
  case base
  then show ?case by simp
next
  case (step y z)
  then show ?case
    using op_step_item [OF step(2), of i] item_transition_settles by (metis insertCI)
qed

subsection \<open>Operations that cannot move\<close>

definition stuck :: "op_config \<Rightarrow> bool" where
  "stuck st \<longleftrightarrow> (\<nexists>st'. op_step st st')"

lemma stuck_iff:
  "stuck (p, cs) \<longleftrightarrow>
     (\<forall>d. \<not> parent_transition_checked p d cs) \<and>
     (\<forall>i < length cs. \<forall>t. \<not> item_transition_checked (cs ! i) t p)"
proof
  assume "stuck (p, cs)"
  then show "(\<forall>d. \<not> parent_transition_checked p d cs) \<and>
      (\<forall>i < length cs. \<forall>t. \<not> item_transition_checked (cs ! i) t p)"
    unfolding stuck_def using parent_moves item_moves by blast
next
  assume none: "(\<forall>d. \<not> parent_transition_checked p d cs) \<and>
      (\<forall>i < length cs. \<forall>t. \<not> item_transition_checked (cs ! i) t p)"
  show "stuck (p, cs)"
    unfolding stuck_def
  proof
    assume "\<exists>st'. op_step (p, cs) st'"
    then obtain st' where "op_step (p, cs) st'" ..
    then show False using none by (cases rule: op_stepE) blast+
  qed
qed

lemma no_item_move_dispatching:
  "(\<forall>t. \<not> item_transition_checked c t ParentDispatching) \<longleftrightarrow>
     c \<notin> {ItemAwaitingConfirmation, ItemFailedPreDispatch, ItemDispatching}"
  by (cases c) (auto simp: guard_simps all_conj_distrib)

lemma no_parent_move_dispatching:
  assumes "cs \<noteq> []" and "set cs \<subseteq> dispatch_recovery_states"
  shows "(\<forall>d. \<not> parent_transition_checked ParentDispatching d cs) \<longleftrightarrow>
     set cs \<subseteq> {ItemSucceeded, ItemNotDispatched} \<and> ItemNotDispatched \<in> set cs"
proof -
  have terminal: "list_all (\<lambda>i. i \<in> item_terminal) cs"
    using assms(2) by (auto simp: list_all_iff item_terminal_def dispatch_recovery_states_def)
  have "(\<forall>d. \<not> parent_transition_checked ParentDispatching d cs) \<longleftrightarrow>
    \<not> parent_transition_checked ParentDispatching ParentSucceeded cs \<and>
    \<not> parent_transition_checked ParentDispatching ParentProviderRejected cs \<and>
    \<not> parent_transition_checked ParentDispatching ParentOutcomeUnknown cs \<and>
    \<not> parent_transition_checked ParentDispatching ParentNeedsManualReview cs"
    by (auto simp: guard_simps)
  also have "\<dots> \<longleftrightarrow> set cs \<subseteq> {ItemSucceeded, ItemNotDispatched} \<and> ItemNotDispatched \<in> set cs"
    using assms terminal
    by (auto simp: guard_simps list_all_iff list_ex_iff dispatch_recovery_states_def)
  finally show ?thesis .
qed

section \<open>Properties\<close>

text \<open>
  the guards keep an operation coherent. If the persisted states are coherent
  (\<open>parent_operation_children_compatible\<close>), an allowed transition of the parent leaves them
  coherent under its new state, and an allowed transition of one child leaves them coherent
  with that child's state replaced. Stated over arbitrary strings, as the code takes them.
\<close>

lemma allowed_transitions_stay_coherent:
  assumes "parent_operation_children_compatible parent children"
  shows "(\<forall>target. parent_operation_transition_allowed parent target children \<longrightarrow>
            parent_operation_children_compatible target children) \<and>
         (\<forall>i target. i < length children \<longrightarrow>
            item_operation_transition_allowed (children ! i) target parent \<longrightarrow>
            parent_operation_children_compatible parent (children[i := target]))"
proof -
  obtain p where p: "parent = parent_value p"
    using assms
    by (auto simp: parent_operation_children_compatible_def coerce_parent_Some
        split: option.splits)
  obtain cs where cs: "children = map item_value cs"
    using assms all_coerced
    by (auto simp: parent_operation_children_compatible_def split: option.splits if_splits)
  have coh: "cs \<noteq> []" "children_compatible_checked p cs"
    using assms by (simp_all add: p cs)
  show ?thesis
  proof (intro conjI allI impI)
    fix target
    assume allowed: "parent_operation_transition_allowed parent target children"
    then obtain d where d: "target = parent_value d"
      by (auto simp: parent_operation_transition_allowed_def coerce_parent_Some
          split: option.splits)
    show "parent_operation_children_compatible target children"
      using allowed coh parent_transition_compatible unfolding p cs d by simp
  next
    fix i target
    assume i: "i < length children"
      and allowed: "item_operation_transition_allowed (children ! i) target parent"
    then obtain t where t: "target = item_value t"
      by (auto simp: item_operation_transition_allowed_def coerce_item_Some
          split: option.splits)
    have "children_compatible_checked p (cs[i := t])"
      using allowed i coh item_transition_compatible unfolding p cs t by simp
    then show "parent_operation_children_compatible parent (children[i := target])"
      using i coh(1) unfolding p cs t by (simp flip: map_update)
  qed
qed

text \<open>
  C14: an operation cannot move for ever. Whatever order the parent and the items move in, a run
  has no more steps than the rank of its start exceeds the rank of its end; the rank of an operation
  with \<open>m\<close> items is at most \<open>5 + 5 * m\<close>.
\<close>

theorem operation_run_bounded:
  assumes "(op_step ^^ n) (p, cs) st"
  shows "n + op_rank st \<le> op_rank (p, cs) \<and> op_rank (p, cs) \<le> 5 + 5 * length cs"
  using op_steps_rank [OF assms] op_rank_le [of "(p, cs)"] by simp

theorem operation_run_bounded_witness:
  "(op_step ^^ 1) (ParentDispatching, [ItemDispatching]) (ParentDispatching, [ItemSucceeded]) \<and>
   1 + op_rank (ParentDispatching, [ItemSucceeded]) \<le> op_rank (ParentDispatching, [ItemDispatching]) \<and>
   op_rank (ParentDispatching, [ItemDispatching]) \<le> 5 + 5 * length [ItemDispatching]"
proof -
  have "op_step (ParentDispatching, [ItemDispatching]) (ParentDispatching, [ItemSucceeded])"
    using op_step.item_moves [of 0 "[ItemDispatching]" ItemSucceeded ParentDispatching]
    by (simp add: guard_simps)
  then have run: "(op_step ^^ 1) (ParentDispatching, [ItemDispatching])
      (ParentDispatching, [ItemSucceeded])"
    by (simp add: eq_OO)
  show ?thesis using run operation_run_bounded [OF run] by blast
qed

text \<open>
  an item is dispatched at most once, and only under a dispatching parent. In a run from a
  coherent operation, while an item is dispatching its parent is dispatching; once it has left
  that state it holds an outcome in every later state and never dispatches again.
\<close>

lemma item_dispatched_at_most_once:
  assumes "coherent st" and "op_step\<^sup>*\<^sup>* st (p, cs)" and "i < length cs"
    and "cs ! i = ItemDispatching"
  shows "p = ParentDispatching \<and>
    (\<forall>st1 st2. op_step\<^sup>*\<^sup>* (p, cs) st1 \<longrightarrow> snd st1 ! i \<noteq> ItemDispatching \<longrightarrow> op_step\<^sup>*\<^sup>* st1 st2 \<longrightarrow>
       snd st2 ! i \<in> settled)"
proof (intro conjI allI impI)
  have "coherent (p, cs)" using assms(2,1) by (rule op_run_coherent)
  then have "cs ! i \<in> allowed_children p"
    using nth_mem [OF assms(3)] by (auto simp: coherent_def children_compatible_sets)
  with assms(4) show "p = ParentDispatching"
    by (cases p) (auto simp: dispatch_recovery_states_def item_terminal_def)
next
  fix st1 st2
  assume "op_step\<^sup>*\<^sup>* (p, cs) st1" and "snd st1 ! i \<noteq> ItemDispatching" and "op_step\<^sup>*\<^sup>* st1 st2"
  then show "snd st2 ! i \<in> settled"
    using op_run_dispatched [of "(p, cs)" st1 i] op_run_settled [of st1 st2 i] assms(4) by simp
qed

text \<open>
  C15: which dispatching operations can no longer move. A coherent operation in state
  dispatching has no step left, of its parent or of any item, exactly when every item has
  succeeded or was not dispatched and at least one was not dispatched: no guard of the parent
  accepts that mixture, and both item states are final.
\<close>

theorem dispatching_stuck_iff:
  assumes "coherent (ParentDispatching, cs)"
  shows "stuck (ParentDispatching, cs) \<longleftrightarrow>
    set cs \<subseteq> {ItemSucceeded, ItemNotDispatched} \<and> ItemNotDispatched \<in> set cs"
proof -
  have ne: "cs \<noteq> []" using assms by (simp add: coherent_def)
  then have sub: "set cs \<subseteq> allowed_children ParentDispatching"
    using assms children_compatible_sets [OF ne, of ParentDispatching]
    by (simp add: coherent_def del: children_compatible_checked.simps allowed_children.simps)
  have "(\<forall>i < length cs. \<forall>t. \<not> item_transition_checked (cs ! i) t ParentDispatching)
      \<longleftrightarrow> (\<forall>c \<in> set cs. \<forall>t. \<not> item_transition_checked c t ParentDispatching)"
    by (simp only: all_set_conv_all_nth)
  also have "\<dots> \<longleftrightarrow> set cs \<subseteq> dispatch_recovery_states"
    using sub unfolding no_item_move_dispatching by (auto simp: dispatch_recovery_states_def)
  finally have items: "(\<forall>i < length cs. \<forall>t.
      \<not> item_transition_checked (cs ! i) t ParentDispatching) \<longleftrightarrow>
      set cs \<subseteq> dispatch_recovery_states" .
  show ?thesis
    unfolding stuck_iff items using no_parent_move_dispatching [OF ne]
    by (auto simp: dispatch_recovery_states_def)
qed

theorem dispatching_stuck_witness:
  "coherent (ParentDispatching, [ItemSucceeded, ItemNotDispatched]) \<and>
   stuck (ParentDispatching, [ItemSucceeded, ItemNotDispatched])"
proof -
  have coh: "coherent (ParentDispatching, [ItemSucceeded, ItemNotDispatched])"
    by (simp add: coherent_def dispatch_recovery_states_def)
  show ?thesis using coh dispatching_stuck_iff [OF coh] by simp
qed

end
