(* ===== verification/Hosted_Operation.thy ===== *)
theory Hosted_Operation
  imports Hosted_Preview Transitions
begin

text \<open>
  Model of the operations of \<open>execution/hosted/models.py\<close>: \<open>OperationItem\<close>, \<open>OperationEvent\<close> and
  \<open>HostedOperation\<close> with their validators, the operation of a confirmed preview and the two kinds of
  transition. An event keeps the strings of its states, as in the code. The lemmas: the guards of
  \<open>Transitions\<close> decide the moves, so an operation refines the state machine there, and the log of
  events always replays to the current states.
\<close>

record operation_item =
  oi_operation_item_id :: uuid
  oi_preview_item_id :: uuid
  oi_item_index :: nat
  oi_client_item_id :: string
  oi_provider_call_hash :: string
  oi_preview_integrity_hash :: string
  oi_state :: item_state
  oi_state_version :: nat
  oi_result_identifier :: "string option"
  oi_created_at :: instant
  oi_updated_at :: instant

record operation_event =
  ev_event_id :: uuid
  ev_operation_id :: uuid
  ev_operation_item_id :: "uuid option"
  ev_from_state :: "string option"
  ev_to_state :: string
  ev_state_version :: nat
  ev_sanitized_reason :: string
  ev_occurred_at :: instant

record hosted_operation = hosted_scope +
  ho_operation_id :: uuid
  ho_preview_id :: uuid
  ho_provider :: provider_id
  ho_environment :: string
  ho_capability_id :: string
  ho_capability_version :: string
  ho_connection_revision :: int
  ho_provider_call_hash :: string
  ho_preview_integrity_hash :: string
  ho_state :: parent_state
  ho_state_version :: nat
  ho_items :: "operation_item list"
  ho_events :: "operation_event list"
  ho_created_at :: instant
  ho_updated_at :: instant
  ho_payload_purge_after :: instant

section \<open>Validation\<close>

definition operation_item_fields_valid :: "operation_item \<Rightarrow> bool" where
  "operation_item_fields_valid i \<longleftrightarrow>
     oi_item_index i < max_batch_documents \<and> is_identifier (oi_client_item_id i) \<and>
     sha256_hex (oi_provider_call_hash i) \<and> sha256_hex (oi_preview_integrity_hash i) \<and>
     1 \<le> oi_state_version i"

definition sanitized_identifier ::
    "'a hosted_lib_scheme \<Rightarrow> string option \<Rightarrow> string option result" where
  "sanitized_identifier lib v =
     (case v of
        None \<Rightarrow> Inr None
      | Some s \<Rightarrow>
          ebind (sanitize_public_text lib ''operation_transition_invalid'' s) (\<lambda>projected.
          ebind (raise_if (\<not> bounded_text 1 200 projected) (ValueError ''validation_error'')) (\<lambda>_.
            Inr (Some projected))))"

text \<open>\<open>OperationItem.validate_item\<close>\<close>

definition check_operation_item :: "operation_item \<Rightarrow> unit result" where
  "check_operation_item i =
     ebind (raise_if (oi_operation_item_id i = 0 \<or> oi_preview_item_id i = 0)
              (ValueError ''operation_items_invalid'')) (\<lambda>_.
     ebind (raise_if (oi_updated_at i < oi_created_at i) (ValueError ''operation_timestamp_invalid'')) (\<lambda>_.
     raise_if ((oi_state i = ItemSucceeded) \<noteq> (oi_result_identifier i \<noteq> None))
       (ValueError ''operation_transition_invalid'')))"

definition validate_operation_item ::
    "'a hosted_lib_scheme \<Rightarrow> operation_item \<Rightarrow> operation_item result" where
  "validate_operation_item lib i =
     ebind (raise_if (\<not> operation_item_fields_valid i) (ValueError ''validation_error'')) (\<lambda>_.
     ebind (sanitized_identifier lib (oi_result_identifier i)) (\<lambda>identifier.
     let i = i\<lparr>oi_result_identifier := identifier\<rparr> in
     ebind (check_operation_item i) (\<lambda>_. Inr i)))"

definition state_values :: "string list" where
  "state_values = map parent_value parent_members @ map item_value item_members"

definition validate_event :: "'a hosted_lib_scheme \<Rightarrow> operation_event \<Rightarrow> operation_event result" where
  "validate_event lib ev =
     ebind (require_safe_public_identifier lib ''operation_transition_invalid'' (ev_sanitized_reason ev)) (\<lambda>_.
     ebind (raise_if (\<not> is_identifier (ev_sanitized_reason ev) \<or> ev_state_version ev < 1)
              (ValueError ''validation_error'')) (\<lambda>_.
     ebind (raise_if (ev_to_state ev \<notin> set state_values \<or>
              (case ev_from_state ev of None \<Rightarrow> False | Some s \<Rightarrow> s \<notin> set state_values))
              (ValueError ''operation_event_invalid'')) (\<lambda>_. Inr ev)))"

definition operation_fields_valid :: "hosted_operation \<Rightarrow> bool" where
  "operation_fields_valid p \<longleftrightarrow>
     is_environment (ho_environment p) \<and> is_capability (ho_capability_id p) \<and>
     sha256_hex (ho_capability_version p) \<and> 1 \<le> ho_connection_revision p \<and>
     sha256_hex (ho_provider_call_hash p) \<and> sha256_hex (ho_preview_integrity_hash p) \<and>
     1 \<le> ho_state_version p \<and> ho_items p \<noteq> [] \<and> length (ho_items p) \<le> max_batch_documents \<and>
     ho_events p \<noteq> []"

definition parent_events :: "hosted_operation \<Rightarrow> operation_event list" where
  "parent_events p = filter (\<lambda>ev. ev_operation_item_id ev = None) (ho_events p)"

definition item_events :: "hosted_operation \<Rightarrow> uuid \<Rightarrow> operation_event list" where
  "item_events p i = filter (\<lambda>ev. ev_operation_item_id ev = Some i) (ho_events p)"

definition last_event_is :: "operation_event list \<Rightarrow> nat \<Rightarrow> string \<Rightarrow> bool" where
  "last_event_is evs version state \<longleftrightarrow>
     ev_state_version (last evs) = version \<and> ev_to_state (last evs) = state"

definition events_valid :: "hosted_operation \<Rightarrow> bool" where
  "events_valid p \<longleftrightarrow>
     list_all (\<lambda>ev. ev_operation_id ev = ho_operation_id p \<and> ho_created_at p \<le> ev_occurred_at ev)
       (ho_events p) \<and>
     parent_events p \<noteq> [] \<and>
     last_event_is (parent_events p) (ho_state_version p) (parent_value (ho_state p)) \<and>
     list_all (\<lambda>ev. case ev_operation_item_id ev of None \<Rightarrow> True
                     | Some i \<Rightarrow> i \<in> set (map oi_operation_item_id (ho_items p))) (ho_events p) \<and>
     list_all (\<lambda>i. item_events p (oi_operation_item_id i) = [] \<or>
                   last_event_is (item_events p (oi_operation_item_id i)) (oi_state_version i)
                     (item_value (oi_state i))) (ho_items p)"

text \<open>\<open>HostedOperation.validate_operation\<close>\<close>

definition check_operation :: "hosted_operation \<Rightarrow> unit result" where
  "check_operation p =
     ebind (raise_if (ho_operation_id p = 0 \<or> ho_preview_id p = 0 \<or> \<not> scope_non_nil p)
              (ValueError ''operation_binding_invalid'')) (\<lambda>_.
     ebind (raise_if (ho_updated_at p < ho_created_at p) (ValueError ''operation_timestamp_invalid'')) (\<lambda>_.
     ebind (raise_if (\<not> (ho_created_at p < ho_payload_purge_after p \<and>
                ho_payload_purge_after p \<le> ho_created_at p + confirmed_payload_retention))
              (ValueError ''operation_retention_invalid'')) (\<lambda>_.
     ebind (raise_if (\<not> distinct (map oi_operation_item_id (ho_items p)) \<or>
              map oi_item_index (ho_items p) \<noteq> [0..<length (ho_items p)])
              (ValueError ''operation_items_invalid'')) (\<lambda>_.
     ebind (raise_if (\<not> events_valid p) (ValueError ''operation_event_invalid'')) (\<lambda>_.
     raise_if (\<not> parent_operation_children_compatible (parent_value (ho_state p))
                (map (item_value \<circ> oi_state) (ho_items p)))
       (ValueError ''operation_transition_invalid''))))))"

definition validate_operation :: "'a hosted_lib_scheme \<Rightarrow> hosted_operation \<Rightarrow> hosted_operation result" where
  "validate_operation lib p =
     ebind (raise_if (\<not> operation_fields_valid p) (ValueError ''validation_error'')) (\<lambda>_.
     ebind (emap (validate_operation_item lib) (ho_items p)) (\<lambda>items.
     ebind (emap (validate_event lib) (ho_events p)) (\<lambda>events.
     let p = p\<lparr>ho_items := items, ho_events := events\<rparr> in
     ebind (check_operation p) (\<lambda>_. Inr p))))"

section \<open>Creation\<close>

definition first_item :: "instant \<Rightarrow> uuid \<times> preview_item \<times> nat \<Rightarrow> operation_item" where
  "first_item timestamp x = (case x of (item_id, i, index) \<Rightarrow>
     \<lparr>oi_operation_item_id = item_id, oi_preview_item_id = pi_preview_item_id i, oi_item_index = index,
      oi_client_item_id = pi_client_item_id i, oi_provider_call_hash = pi_provider_call_hash i,
      oi_preview_integrity_hash = pi_preview_integrity_hash i, oi_state = ItemAwaitingConfirmation,
      oi_state_version = 1, oi_result_identifier = None, oi_created_at = timestamp,
      oi_updated_at = timestamp\<rparr>)"

definition first_event :: "uuid \<Rightarrow> uuid \<Rightarrow> instant \<Rightarrow> operation_event" where
  "first_event event_id operation_id timestamp =
     \<lparr>ev_event_id = event_id, ev_operation_id = operation_id, ev_operation_item_id = None,
      ev_from_state = None, ev_to_state = parent_value ParentAwaitingConfirmation,
      ev_state_version = 1, ev_sanitized_reason = ''explicit_confirmation'',
      ev_occurred_at = timestamp\<rparr>"

text \<open>\<open>HostedOperation.from_preview\<close>\<close>

definition operation_from_preview ::
    "'a hosted_lib_scheme \<Rightarrow> document_preview \<Rightarrow> uuid \<Rightarrow> uuid list \<Rightarrow> uuid \<Rightarrow> datetime \<Rightarrow>
     hosted_operation result" where
  "operation_from_preview lib p operation_id item_ids event_id now =
     ebind (validate_document_preview lib p) (\<lambda>checked.
     ebind (aware_instant (ValueError ''operation_timestamp_invalid'') now) (\<lambda>timestamp.
     ebind (raise_if (length item_ids \<noteq> length (dp_items checked)) (ValueError ''operation_items_invalid'')) (\<lambda>_.
     ebind (emap (validate_operation_item lib \<circ> first_item timestamp)
              (zip item_ids (zip (dp_items checked) [0..<length (dp_items checked)]))) (\<lambda>items.
     ebind (validate_event lib (first_event event_id operation_id timestamp)) (\<lambda>event.
     validate_operation lib
       \<lparr>tenant_id = tenant_id checked, workspace_id = workspace_id checked,
        auth_user_id = auth_user_id checked, connection_id = connection_id checked,
        ho_operation_id = operation_id, ho_preview_id = dp_preview_id checked,
        ho_provider = dp_provider checked, ho_environment = dp_environment checked,
        ho_capability_id = dp_capability_id checked, ho_capability_version = dp_capability_version checked,
        ho_connection_revision = dp_connection_revision checked,
        ho_provider_call_hash = dp_provider_call_hash checked,
        ho_preview_integrity_hash = dp_preview_integrity_hash checked,
        ho_state = ParentAwaitingConfirmation, ho_state_version = 1, ho_items = items,
        ho_events = [event], ho_created_at = timestamp, ho_updated_at = timestamp,
        ho_payload_purge_after = timestamp + confirmed_payload_retention\<rparr>)))))"

section \<open>Transitions\<close>

text \<open>\<open>HostedOperation.transition\<close>\<close>

definition operation_transition ::
    "'a hosted_lib_scheme \<Rightarrow> hosted_operation \<Rightarrow> parent_state \<Rightarrow> uuid \<Rightarrow> datetime \<Rightarrow> string \<Rightarrow>
     hosted_operation result" where
  "operation_transition lib p target event_id occurred_at reason =
     ebind (raise_if (\<not> parent_operation_transition_allowed (parent_value (ho_state p))
              (parent_value target) (map (item_value \<circ> oi_state) (ho_items p)))
              (ValueError ''operation_transition_invalid'')) (\<lambda>_.
     ebind (aware_instant (ValueError ''operation_timestamp_invalid'') occurred_at) (\<lambda>timestamp.
     ebind (raise_if (timestamp < ho_updated_at p) (ValueError ''operation_timestamp_invalid'')) (\<lambda>_.
     let next_version = ho_state_version p + 1 in
     ebind (validate_event lib
       \<lparr>ev_event_id = event_id, ev_operation_id = ho_operation_id p, ev_operation_item_id = None,
        ev_from_state = Some (parent_value (ho_state p)), ev_to_state = parent_value target,
        ev_state_version = next_version, ev_sanitized_reason = reason,
        ev_occurred_at = timestamp\<rparr>) (\<lambda>event.
     validate_operation lib
       (p\<lparr>ho_state := target, ho_state_version := next_version, ho_events := ho_events p @ [event],
          ho_updated_at := timestamp\<rparr>)))))"

text \<open>\<open>OperationItem.transition\<close>\<close>

definition item_transition ::
    "'a hosted_lib_scheme \<Rightarrow> operation_item \<Rightarrow> item_state \<Rightarrow> datetime \<Rightarrow> string option \<Rightarrow>
     parent_state \<Rightarrow> operation_item result" where
  "item_transition lib i target occurred_at identifier parent =
     ebind (raise_if (\<not> item_operation_transition_allowed (item_value (oi_state i)) (item_value target)
              (parent_value parent)) (ValueError ''operation_transition_invalid'')) (\<lambda>_.
     ebind (aware_instant (ValueError ''operation_timestamp_invalid'') occurred_at) (\<lambda>timestamp.
     ebind (raise_if (timestamp < oi_updated_at i) (ValueError ''operation_timestamp_invalid'')) (\<lambda>_.
     ebind (raise_if ((target = ItemSucceeded) \<noteq> (identifier \<noteq> None))
              (ValueError ''operation_transition_invalid'')) (\<lambda>_.
     validate_operation_item lib
       (i\<lparr>oi_state := target, oi_state_version := oi_state_version i + 1,
          oi_result_identifier := identifier, oi_updated_at := timestamp\<rparr>)))))"

text \<open>\<open>HostedOperation.transition_item\<close>\<close>

definition matching_indices :: "hosted_operation \<Rightarrow> uuid \<Rightarrow> nat list" where
  "matching_indices p item_id =
     filter (\<lambda>n. oi_operation_item_id (ho_items p ! n) = item_id) [0..<length (ho_items p)]"

definition operation_transition_item ::
    "'a hosted_lib_scheme \<Rightarrow> hosted_operation \<Rightarrow> uuid \<Rightarrow> item_state \<Rightarrow> uuid \<Rightarrow> datetime \<Rightarrow>
     string \<Rightarrow> string option \<Rightarrow> hosted_operation result" where
  "operation_transition_item lib p item_id target event_id occurred_at reason identifier =
     (case matching_indices p item_id of
        [index] \<Rightarrow>
          (let current = ho_items p ! index in
           ebind (item_transition lib current target occurred_at identifier (ho_state p)) (\<lambda>moved.
           ebind (validate_event lib
             \<lparr>ev_event_id = event_id, ev_operation_id = ho_operation_id p,
              ev_operation_item_id = Some item_id, ev_from_state = Some (item_value (oi_state current)),
              ev_to_state = item_value (oi_state moved), ev_state_version = oi_state_version moved,
              ev_sanitized_reason = reason, ev_occurred_at = oi_updated_at moved\<rparr>) (\<lambda>event.
           validate_operation lib
             (p\<lparr>ho_items := (ho_items p)[index := moved], ho_events := ho_events p @ [event],
                ho_updated_at := max (ho_updated_at p) (oi_updated_at moved)\<rparr>))))
      | _ \<Rightarrow> Inl (ValueError ''operation_transition_invalid''))"

section \<open>What validation keeps\<close>

lemma validate_event_id: "validate_event lib ev = Inr ev' \<Longrightarrow> ev' = ev"
  by (auto simp: validate_event_def outcome_simps split: if_splits)

text \<open>Validation of an item only projects its result identifier.\<close>

definition core :: "operation_item \<Rightarrow> operation_item" where
  "core i = i\<lparr>oi_result_identifier := None\<rparr>"

lemma core_fields [simp]:
  "oi_operation_item_id (core i) = oi_operation_item_id i" "oi_preview_item_id (core i) = oi_preview_item_id i"
  "oi_item_index (core i) = oi_item_index i" "oi_client_item_id (core i) = oi_client_item_id i"
  "oi_provider_call_hash (core i) = oi_provider_call_hash i"
  "oi_preview_integrity_hash (core i) = oi_preview_integrity_hash i"
  "oi_state (core i) = oi_state i" "oi_state_version (core i) = oi_state_version i"
  "oi_created_at (core i) = oi_created_at i" "oi_updated_at (core i) = oi_updated_at i"
  by (simp_all add: core_def)

lemma core_eq:
  assumes "core i = core j"
  shows "oi_operation_item_id i = oi_operation_item_id j \<and> oi_item_index i = oi_item_index j \<and>
    oi_provider_call_hash i = oi_provider_call_hash j \<and> oi_state i = oi_state j \<and>
    oi_state_version i = oi_state_version j \<and> oi_updated_at i = oi_updated_at j"
  using arg_cong[OF assms, of oi_operation_item_id] arg_cong[OF assms, of oi_item_index]
    arg_cong[OF assms, of oi_provider_call_hash] arg_cong[OF assms, of oi_state]
    arg_cong[OF assms, of oi_state_version] arg_cong[OF assms, of oi_updated_at] by simp

lemma validate_operation_item_core: "validate_operation_item lib i = Inr j \<Longrightarrow> core j = core i"
  by (auto simp: validate_operation_item_def outcome_simps core_def Let_def split: if_splits)

lemma emap_cores:
  "emap (validate_operation_item lib) xs = Inr ys \<Longrightarrow> map core ys = map core xs"
  by (induction xs arbitrary: ys) (auto simp: outcome_simps validate_operation_item_core)

lemma emap_events: "emap (validate_event lib) xs = Inr ys \<Longrightarrow> ys = xs"
  by (induction xs arbitrary: ys) (auto simp: outcome_simps dest: validate_event_id)

lemma validate_operation_Inr:
  assumes "validate_operation lib p = Inr q"
  obtains items where "q = p\<lparr>ho_items := items\<rparr>" and "map core items = map core (ho_items p)"
    and "check_operation q = Inr ()"
proof -
  from assms obtain items events where items: "emap (validate_operation_item lib) (ho_items p) = Inr items"
    and events: "emap (validate_event lib) (ho_events p) = Inr events"
    and q: "q = p\<lparr>ho_items := items, ho_events := events\<rparr>" and check: "check_operation q = Inr ()"
    by (auto simp: validate_operation_def outcome_simps Let_def split: if_splits)
  have "q = p\<lparr>ho_items := items\<rparr>" using emap_events[OF events] by (simp add: q)
  with that emap_cores[OF items] check show ?thesis by blast
qed

lemma cores_map:
  assumes "map core xs = map core ys" and "\<And>i. f (core i) = f i"
  shows "map f xs = map f ys"
  using arg_cong[OF assms(1), of "map f"] by (simp add: comp_def assms(2))

section \<open>The state machine of an operation\<close>

definition configuration :: "hosted_operation \<Rightarrow> op_config" where
  "configuration p = (ho_state p, map oi_state (ho_items p))"

lemma check_operation_coherent: "check_operation p = Inr () \<Longrightarrow> coherent (configuration p)"
  by (auto simp: check_operation_def outcome_simps coherent_def configuration_def
      simp flip: map_map split: if_splits)

lemma check_operation_distinct:
  "check_operation p = Inr () \<Longrightarrow> distinct (map oi_operation_item_id (ho_items p))"
  by (auto simp: check_operation_def outcome_simps split: if_splits)

text \<open>The fields of an operation that no transition changes.\<close>

definition same_identity :: "hosted_operation \<Rightarrow> hosted_operation \<Rightarrow> bool" where
  "same_identity p q \<longleftrightarrow>
     same_scope q p \<and> ho_operation_id q = ho_operation_id p \<and> ho_preview_id q = ho_preview_id p \<and>
     map oi_operation_item_id (ho_items q) = map oi_operation_item_id (ho_items p) \<and>
     map oi_provider_call_hash (ho_items q) = map oi_provider_call_hash (ho_items p)"

lemma same_identity_refl [simp]: "same_identity p p"
  by (simp add: same_identity_def same_scope_def)

lemma validate_operation_keeps:
  assumes "validate_operation lib p = Inr q"
  shows "same_identity p q" and "configuration q = configuration p" and "ho_events q = ho_events p"
    and "ho_state_version q = ho_state_version p"
    and "map oi_state_version (ho_items q) = map oi_state_version (ho_items p)"
    and "coherent (configuration q)"
proof -
  from validate_operation_Inr[OF assms] obtain items where
    q: "q = p\<lparr>ho_items := items\<rparr>" and c: "map core items = map core (ho_items p)"
    and check: "check_operation q = Inr ()" .
  note m = cores_map[OF c]
  show "same_identity p q" by (simp add: q same_identity_def same_scope_def m)
  show "configuration q = configuration p" by (simp add: q configuration_def m)
  show "ho_events q = ho_events p" "ho_state_version q = ho_state_version p" by (simp_all add: q)
  show "map oi_state_version (ho_items q) = map oi_state_version (ho_items p)" by (simp add: q m)
  show "coherent (configuration q)" by (rule check_operation_coherent[OF check])
qed

text \<open>A move: what a transition adds to the log, and how it changes states and versions.\<close>

lemma operation_transition_Inr:
  assumes "operation_transition lib p target event_id occurred_at reason = Inr q"
  obtains ev where "parent_transition_checked (ho_state p) target (map oi_state (ho_items p))"
    and "ev_operation_item_id ev = None" and "ev_from_state ev = Some (parent_value (ho_state p))"
    and "ev_to_state ev = parent_value target" and "ev_state_version ev = ho_state_version p + 1"
    and "ho_events q = ho_events p @ [ev]" and "ho_state q = target"
    and "ho_state_version q = ho_state_version p + 1" and "same_identity p q"
    and "map oi_state (ho_items q) = map oi_state (ho_items p)"
    and "map oi_state_version (ho_items q) = map oi_state_version (ho_items p)"
    and "coherent (configuration q)"
proof -
  from assms obtain t where guard: "parent_transition_checked (ho_state p) target (map oi_state (ho_items p))"
    and v: "validate_operation lib (p\<lparr>ho_state := target, ho_state_version := ho_state_version p + 1,
      ho_events := ho_events p @
        [\<lparr>ev_event_id = event_id, ev_operation_id = ho_operation_id p, ev_operation_item_id = None,
          ev_from_state = Some (parent_value (ho_state p)), ev_to_state = parent_value target,
          ev_state_version = ho_state_version p + 1, ev_sanitized_reason = reason, ev_occurred_at = t\<rparr>],
      ho_updated_at := t\<rparr>) = Inr q"
    by (auto simp: operation_transition_def outcome_simps Let_def simp flip: map_map
        split: if_splits dest!: validate_event_id)
  note k = validate_operation_keeps[OF v]
  define ev where "ev = last (ho_events q)"
  have ev: "ev_operation_item_id ev = None"
      "ev_from_state ev = Some (parent_value (ho_state p))" "ev_to_state ev = parent_value target"
      "ev_state_version ev = ho_state_version p + 1" "ho_events q = ho_events p @ [ev]"
    using k(3) by (simp_all add: ev_def)
  show ?thesis
    using k by (intro that[OF guard ev]) (simp_all add: configuration_def same_identity_def same_scope_def)
qed

lemma matching_indices_single:
  "matching_indices p item_id = [n] \<Longrightarrow> n < length (ho_items p) \<and> oi_operation_item_id (ho_items p ! n) = item_id"
proof -
  assume "matching_indices p item_id = [n]"
  then have "n \<in> set (matching_indices p item_id)" by simp
  then show ?thesis by (simp add: matching_indices_def)
qed

lemma item_transition_Inr:
  assumes "item_transition lib i target occurred_at identifier parent = Inr j"
  shows "item_transition_checked (oi_state i) target parent" and "oi_state j = target"
    and "oi_state_version j = oi_state_version i + 1"
    and "oi_operation_item_id j = oi_operation_item_id i"
    and "oi_provider_call_hash j = oi_provider_call_hash i"
proof -
  from assms obtain t where g: "item_transition_checked (oi_state i) target parent"
    and v: "validate_operation_item lib (i\<lparr>oi_state := target, oi_state_version := oi_state_version i + 1,
      oi_result_identifier := identifier, oi_updated_at := t\<rparr>) = Inr j"
    by (auto simp: item_transition_def outcome_simps split: if_splits)
  note c = core_eq[OF validate_operation_item_core[OF v]]
  show "item_transition_checked (oi_state i) target parent" by (rule g)
  show "oi_state j = target" "oi_state_version j = oi_state_version i + 1"
    "oi_operation_item_id j = oi_operation_item_id i" "oi_provider_call_hash j = oi_provider_call_hash i"
    using c by simp_all
qed

lemma operation_transition_item_Inr:
  assumes "operation_transition_item lib p item_id target event_id occurred_at reason identifier = Inr q"
  obtains n ev where "n < length (ho_items p)" and "oi_operation_item_id (ho_items p ! n) = item_id"
    and "item_transition_checked (oi_state (ho_items p ! n)) target (ho_state p)"
    and "ev_operation_item_id ev = Some item_id"
    and "ev_from_state ev = Some (item_value (oi_state (ho_items p ! n)))"
    and "ev_to_state ev = item_value target"
    and "ev_state_version ev = oi_state_version (ho_items p ! n) + 1"
    and "ho_events q = ho_events p @ [ev]" and "ho_state q = ho_state p"
    and "ho_state_version q = ho_state_version p" and "same_identity p q"
    and "map oi_state (ho_items q) = (map oi_state (ho_items p))[n := target]"
    and "map oi_state_version (ho_items q) =
      (map oi_state_version (ho_items p))[n := oi_state_version (ho_items p ! n) + 1]"
    and "coherent (configuration q)"
proof -
  from assms obtain n where n: "matching_indices p item_id = [n]"
    by (auto simp: operation_transition_item_def split: list.splits)
  note at = matching_indices_single[OF n]
  from assms obtain moved t where
    m: "item_transition lib (ho_items p ! n) target occurred_at identifier (ho_state p) = Inr moved"
    and v: "validate_operation lib (p\<lparr>ho_items := (ho_items p)[n := moved],
      ho_events := ho_events p @
        [\<lparr>ev_event_id = event_id, ev_operation_id = ho_operation_id p,
          ev_operation_item_id = Some item_id,
          ev_from_state = Some (item_value (oi_state (ho_items p ! n))),
          ev_to_state = item_value (oi_state moved), ev_state_version = oi_state_version moved,
          ev_sanitized_reason = reason, ev_occurred_at = oi_updated_at moved\<rparr>],
      ho_updated_at := t\<rparr>) = Inr q"
    by (auto simp: operation_transition_item_def n Let_def outcome_simps split: if_splits
        dest!: validate_event_id)
  note i = item_transition_Inr[OF m]
  note k = validate_operation_keeps[OF v]
  have "same_identity p q"
    using k(1) at i(4,5) by (simp add: same_identity_def same_scope_def map_update list_update_same_conv)
  moreover define ev where "ev = last (ho_events q)"
  have "ev_operation_item_id ev = Some item_id"
      "ev_from_state ev = Some (item_value (oi_state (ho_items p ! n)))" "ev_to_state ev = item_value target"
      "ev_state_version ev = oi_state_version (ho_items p ! n) + 1" "ho_events q = ho_events p @ [ev]"
    using k(3) i(2,3) by (simp_all add: ev_def)
  ultimately show ?thesis
    using k at i by (intro that[of n ev]) (simp_all add: configuration_def map_update)
qed

lemma operation_transition_step:
  "operation_transition lib p target event_id occurred_at reason = Inr q \<Longrightarrow>
     op_step (configuration p) (configuration q)"
  by (erule operation_transition_Inr) (simp add: configuration_def op_step.parent_moves)

lemma operation_transition_item_step:
  "operation_transition_item lib p item_id target event_id occurred_at reason identifier = Inr q \<Longrightarrow>
     op_step (configuration p) (configuration q)"
proof (erule operation_transition_item_Inr)
  fix n assume n: "n < length (ho_items p)"
    "item_transition_checked (oi_state (ho_items p ! n)) target (ho_state p)"
    and q: "ho_state q = ho_state p" "map oi_state (ho_items q) = (map oi_state (ho_items p))[n := target]"
  show "op_step (configuration p) (configuration q)"
    using op_step.item_moves[of n "map oi_state (ho_items p)" target "ho_state p"] n q
    by (simp add: configuration_def)
qed

section \<open>The log of events\<close>

text \<open>A sequence of events as a chain of moves from a state and version.\<close>

fun replay :: "string \<Rightarrow> nat \<Rightarrow> operation_event list \<Rightarrow> (string \<times> nat) option" where
  "replay state version [] = Some (state, version)"
| "replay state version (ev # evs) =
     (if ev_from_state ev = Some state \<and> ev_state_version ev = version + 1
      then replay (ev_to_state ev) (version + 1) evs else None)"

lemma replay_append:
  "replay s v evs = Some (s', v') \<Longrightarrow>
     replay s v (evs @ [ev]) =
       (if ev_from_state ev = Some s' \<and> ev_state_version ev = v' + 1 then Some (ev_to_state ev, v' + 1) else None)"
  by (induction evs arbitrary: s v) (auto split: if_splits)

text \<open>
  The log of an operation: its first event created it, the events of the parent lead to its state
  and version, the events of every item to that item's.
\<close>

definition log_complete :: "hosted_operation \<Rightarrow> bool" where
  "log_complete p \<longleftrightarrow>
     (\<exists>first rest. parent_events p = first # rest \<and> ev_from_state first = None \<and>
        ev_to_state first = parent_value ParentAwaitingConfirmation \<and> ev_state_version first = 1 \<and>
        replay (parent_value ParentAwaitingConfirmation) 1 rest
          = Some (parent_value (ho_state p), ho_state_version p)) \<and>
     (\<forall>i \<in> set (ho_items p).
        replay (item_value ItemAwaitingConfirmation) 1 (item_events p (oi_operation_item_id i))
          = Some (item_value (oi_state i), oi_state_version i))"

lemma item_log_iff:
  "(\<forall>i \<in> set (ho_items p).
        replay s v (item_events p (oi_operation_item_id i)) = Some (item_value (oi_state i), oi_state_version i)) \<longleftrightarrow>
   (\<forall>n < length (ho_items p).
        replay s v (item_events p (map oi_operation_item_id (ho_items p) ! n)) =
          Some (item_value (map oi_state (ho_items p) ! n), map oi_state_version (ho_items p) ! n))"
  by (auto simp: all_set_conv_all_nth)

lemma log_complete_items:
  "log_complete p \<Longrightarrow> \<forall>i \<in> set (ho_items p).
     replay (item_value ItemAwaitingConfirmation) 1 (item_events p (oi_operation_item_id i))
       = Some (item_value (oi_state i), oi_state_version i)"
  unfolding log_complete_def by (rule conjunct2)

lemma same_identity_length: "same_identity p q \<Longrightarrow> length (ho_items q) = length (ho_items p)"
  by (metis length_map same_identity_def)

lemma log_complete_transition:
  assumes "operation_transition lib p target event_id occurred_at reason = Inr q" and "log_complete p"
  shows "log_complete q"
proof -
  from operation_transition_Inr[OF assms(1)] obtain ev where
    ev: "ev_operation_item_id ev = None" "ev_from_state ev = Some (parent_value (ho_state p))"
      "ev_to_state ev = parent_value target" "ev_state_version ev = ho_state_version p + 1"
    and log: "ho_events q = ho_events p @ [ev]"
    and q: "ho_state q = target" "ho_state_version q = ho_state_version p + 1" "same_identity p q"
      "map oi_state (ho_items q) = map oi_state (ho_items p)"
      "map oi_state_version (ho_items q) = map oi_state_version (ho_items p)" .
  have ids: "map oi_operation_item_id (ho_items q) = map oi_operation_item_id (ho_items p)"
    using q(3) by (simp add: same_identity_def)
  have items: "item_events q i = item_events p i" for i by (simp add: item_events_def log ev)
  from assms(2) obtain first rest where r: "parent_events p = first # rest" "ev_from_state first = None"
      "ev_to_state first = parent_value ParentAwaitingConfirmation" "ev_state_version first = 1"
      "replay (parent_value ParentAwaitingConfirmation) 1 rest
          = Some (parent_value (ho_state p), ho_state_version p)"
    unfolding log_complete_def by blast
  have "parent_events q = first # (rest @ [ev])"
    using r(1) by (simp add: parent_events_def log ev)
  moreover have "replay (parent_value ParentAwaitingConfirmation) 1 (rest @ [ev])
      = Some (parent_value (ho_state q), ho_state_version q)"
    unfolding replay_append[OF r(5)] by (simp add: ev q)
  moreover have "\<forall>i \<in> set (ho_items q).
      replay (item_value ItemAwaitingConfirmation) 1 (item_events q (oi_operation_item_id i))
        = Some (item_value (oi_state i), oi_state_version i)"
    using log_complete_items[OF assms(2)]
    unfolding item_log_iff unfolding items ids q(4,5) same_identity_length[OF q(3)] .
  ultimately show ?thesis using r(2,3,4) unfolding log_complete_def by blast
qed

lemma log_complete_transition_item:
  assumes "operation_transition_item lib p item_id target event_id occurred_at reason identifier = Inr q"
    and "log_complete p" and distinct: "distinct (map oi_operation_item_id (ho_items p))"
  shows "log_complete q"
proof -
  from operation_transition_item_Inr[OF assms(1)] obtain n ev where
    n: "n < length (ho_items p)" "oi_operation_item_id (ho_items p ! n) = item_id"
    and ev: "ev_operation_item_id ev = Some item_id"
      "ev_from_state ev = Some (item_value (oi_state (ho_items p ! n)))"
      "ev_to_state ev = item_value target" "ev_state_version ev = oi_state_version (ho_items p ! n) + 1"
    and log: "ho_events q = ho_events p @ [ev]"
    and q: "ho_state q = ho_state p" "ho_state_version q = ho_state_version p" "same_identity p q"
      "map oi_state (ho_items q) = (map oi_state (ho_items p))[n := target]"
      "map oi_state_version (ho_items q) =
        (map oi_state_version (ho_items p))[n := oi_state_version (ho_items p ! n) + 1]" .
  have ids: "map oi_operation_item_id (ho_items q) = map oi_operation_item_id (ho_items p)"
    using q(3) by (simp add: same_identity_def)
  have items: "item_events q i = (if i = item_id then item_events p i @ [ev] else item_events p i)" for i
    by (simp add: item_events_def log ev)
  have parents: "parent_events q = parent_events p" by (simp add: parent_events_def log ev)
  have old: "replay (item_value ItemAwaitingConfirmation) 1
        (item_events p (map oi_operation_item_id (ho_items p) ! m)) =
      Some (item_value (map oi_state (ho_items p) ! m), map oi_state_version (ho_items p) ! m)"
    if "m < length (ho_items p)" for m
    using log_complete_items[OF assms(2)] that unfolding item_log_iff by simp
  have "replay (item_value ItemAwaitingConfirmation) 1
        (item_events q (map oi_operation_item_id (ho_items q) ! m)) =
      Some (item_value (map oi_state (ho_items q) ! m), map oi_state_version (ho_items q) ! m)"
    if m: "m < length (ho_items q)" for m
  proof (cases "m = n")
    case True
    have "replay (item_value ItemAwaitingConfirmation) 1 (item_events p item_id) =
        Some (item_value (oi_state (ho_items p ! n)), oi_state_version (ho_items p ! n))"
      using old[OF n(1)] n by simp
    from replay_append[OF this, of ev] show ?thesis
      unfolding ids items q(4,5) using True n by (simp add: ev)
  next
    case False
    have m': "m < length (ho_items p)" using m same_identity_length[OF q(3)] by simp
    have "map oi_operation_item_id (ho_items p) ! m \<noteq> map oi_operation_item_id (ho_items p) ! n"
      using nth_eq_iff_index_eq[OF distinct, of m n] m' n(1) False by simp
    then have "map oi_operation_item_id (ho_items p) ! m \<noteq> item_id" using n by simp
    with old[OF m'] False show ?thesis
      unfolding ids items q(4,5) by simp
  qed
  then have "\<forall>i \<in> set (ho_items q).
      replay (item_value ItemAwaitingConfirmation) 1 (item_events q (oi_operation_item_id i))
        = Some (item_value (oi_state i), oi_state_version i)"
    unfolding item_log_iff by simp
  with assms(2) show ?thesis unfolding log_complete_def parents q(1,2) by blast
qed

text \<open>An item in one of these states has been dispatched.\<close>

definition dispatched_item :: "operation_item \<Rightarrow> bool" where
  "dispatched_item i \<longleftrightarrow> oi_state i \<in> insert ItemDispatching settled"

end
