(* ===== verification/Hosted_Projector.thy ===== *)
theory Hosted_Projector
  imports Hosted_Preview
begin

text \<open>
  Model of \<open>execution/hosted/projectors.py\<close>: the reviewed projection of the exact arguments of a
  provider call to the document a person sees, the registry of projectors and the hash of a provider
  call.
\<close>

record projected_document =
  pd_document_type :: string
  pd_counterparty_display :: string
  pd_issue_date :: string
  pd_due_date :: string
  pd_financials :: financials

record projector =
  rp_projector_id :: string
  rp_projector_version :: string
  rp_provider :: string
  rp_environment :: string
  rp_provider_tool_name :: string
  rp_capability_id :: string
  rp_capability_version :: string
  rp_schema_hash :: string
  rp_currency_minor_units :: "(string \<times> int) list"

section \<open>Fields\<close>

abbreviation (input) projector_error :: "string \<Rightarrow> 'a result" where
  "projector_error code \<equiv> Inl (ProjectorError code)"

definition currency_of :: "json \<Rightarrow> string result" where
  "currency_of v =
     (case v of JStr s \<Rightarrow> if is_currency s then Inr s else projector_error ''projector_currency_invalid''
      | _ \<Rightarrow> projector_error ''projector_currency_invalid'')"

definition date_of :: "'a hosted_lib_scheme \<Rightarrow> json \<Rightarrow> string result" where
  "date_of lib v =
     (case v of
        JStr s \<Rightarrow> (case iso_day lib s of None \<Rightarrow> projector_error ''projector_date_invalid'' | Some d \<Rightarrow> Inr d)
      | _ \<Rightarrow> projector_error ''projector_date_invalid'')"

text \<open>\<open>^-?(?:0|[1-9][0-9]*)(?:\.[0-9]{1,4})?$\<close> and the decimal it denotes.\<close>

definition fraction_of :: "string \<Rightarrow> string option" where
  "fraction_of rest =
     (case rest of
        [] \<Rightarrow> Some []
      | c # ds \<Rightarrow> if c = CHR ''.'' \<and> ds \<noteq> [] \<and> length ds \<le> 4 \<and> list_all digit_char ds then Some ds else None)"

definition decimal_of_text :: "string \<Rightarrow> decimal option" where
  "decimal_of_text s =
     (let neg = (s \<noteq> [] \<and> hd s = CHR ''-''); u = (if neg then tl s else s); whole = take_digits u
      in if whole = [] \<or> (hd whole = CHR ''0'' \<and> whole \<noteq> ''0'') then None
         else (case fraction_of (drop_digits u) of
                 None \<Rightarrow> None
               | Some frac \<Rightarrow> Some (Finite neg (digits_value (whole @ frac)) (- int (length frac)))))"

definition decimal_of :: "json \<Rightarrow> decimal result" where
  "decimal_of v =
     (case v of
        JStr s \<Rightarrow> (case decimal_of_text s of None \<Rightarrow> projector_error ''projector_decimal_invalid'' | Some d \<Rightarrow> Inr d)
      | _ \<Rightarrow> projector_error ''projector_decimal_invalid'')"

definition nonempty_text :: "json \<Rightarrow> string result" where
  "nonempty_text v =
     (case v of JStr s \<Rightarrow> if s = [] then projector_error ''projector_text_invalid'' else Inr s
      | _ \<Rightarrow> projector_error ''projector_text_invalid'')"

definition display_text :: "'a hosted_lib_scheme \<Rightarrow> json \<Rightarrow> string result" where
  "display_text lib v =
     ebind (nonempty_text v) (\<lambda>s.
     case sanitize_public_text lib ''projector_text_invalid'' s of
       Inl e \<Rightarrow> if is_value_error e then projector_error ''projector_text_invalid'' else Inl e
     | Inr t \<Rightarrow> Inr t)"

definition counterparty_of :: "'a hosted_lib_scheme \<Rightarrow> json \<Rightarrow> string result" where
  "counterparty_of lib v = ebind (display_text lib v) (\<lambda>_. Inr ''[REDACTED_COUNTERPARTY]'')"

section \<open>Lines and documents\<close>

definition line_keys :: "string list" where
  "line_keys =
     [''description'', ''currency'', ''quantity'', ''unit_price'', ''discount_amount'', ''vat_rate'',
      ''vat_amount'', ''withholding_rate'', ''withholding_amount'', ''line_total'']"

definition document_keys :: "string list" where
  "document_keys =
     [''reference'', ''counterparty_name'', ''issue_date'', ''due_date'', ''currency'', ''lines'',
      ''subtotal'', ''discount_total'', ''vat_total'', ''withholding_tax_total'', ''grand_total'']"

definition has_exactly :: "string list \<Rightarrow> json_dict \<Rightarrow> bool" where
  "has_exactly keys d \<longleftrightarrow> set (map fst d) = set keys"

definition project_line :: "'a hosted_lib_scheme \<Rightarrow> string \<Rightarrow> nat \<Rightarrow> json \<Rightarrow> line_amounts result" where
  "project_line lib currency minor_units raw =
     (case raw of
        JObj d \<Rightarrow>
          (let at = (\<lambda>k. decimal_of (jget d k JNull)) in
           ebind (raise_if (\<not> has_exactly line_keys d) (ProjectorError ''projector_line_invalid'')) (\<lambda>_.
           ebind (display_text lib (jget d ''description'' JNull)) (\<lambda>_.
           ebind (currency_of (jget d ''currency'' JNull)) (\<lambda>line_currency.
           ebind (raise_if (line_currency \<noteq> currency) (ProjectorError ''projector_currency_invalid'')) (\<lambda>_.
           ebind (at ''quantity'') (\<lambda>quantity.
           ebind (at ''unit_price'') (\<lambda>unit_price.
           ebind (at ''discount_amount'') (\<lambda>discount.
           ebind (at ''vat_rate'') (\<lambda>vat_rate.
           ebind (at ''vat_amount'') (\<lambda>vat.
           ebind (at ''withholding_rate'') (\<lambda>withholding_rate.
           ebind (at ''withholding_amount'') (\<lambda>withholding.
           ebind (at ''line_total'') (\<lambda>total.
           validate_line
             \<lparr>li_currency = currency, li_minor_units = minor_units, li_quantity = quantity,
              li_unit_price = unit_price, li_discount_amount = discount, li_vat_rate = vat_rate,
              li_vat_amount = vat, li_withholding_rate = withholding_rate,
              li_withholding_amount = withholding, li_line_total = total\<rparr>)))))))))))))
      | _ \<Rightarrow> projector_error ''projector_line_invalid'')"

text \<open>\<open>self.currency_minor_units.get(currency)\<close> and its check.\<close>

definition minor_units_of :: "projector \<Rightarrow> string \<Rightarrow> nat result" where
  "minor_units_of pr currency =
     (case map_of (rp_currency_minor_units pr) currency of
        None \<Rightarrow> projector_error ''projector_currency_invalid''
      | Some n \<Rightarrow> if 0 \<le> n \<and> n \<le> 4 then Inr (nat n) else projector_error ''projector_currency_invalid'')"

definition project_lines :: "'a hosted_lib_scheme \<Rightarrow> string \<Rightarrow> nat \<Rightarrow> json \<Rightarrow> line_amounts list result" where
  "project_lines lib currency minor_units raw =
     (case raw of
        JArr xs \<Rightarrow> if xs = [] then projector_error ''projector_lines_invalid''
                   else emap (project_line lib currency minor_units) xs
      | _ \<Rightarrow> projector_error ''projector_lines_invalid'')"

text \<open>\<open>ReviewedInvoiceProjector.project\<close>; only invoices have a projection.\<close>

definition project ::
    "'a hosted_lib_scheme \<Rightarrow> projector \<Rightarrow> json \<Rightarrow> projected_document result" where
  "project lib pr arguments =
     (case arguments of
        JObj d \<Rightarrow>
          (let at = (\<lambda>k. jget d k JNull) in
           ebind (raise_if (\<not> has_exactly document_keys d) (ProjectorError ''projector_payload_invalid'')) (\<lambda>_.
           ebind (raise_if (rp_capability_id pr \<noteq> ''documents.invoice.create'')
                    (ProjectorError ''projector_identity_invalid'')) (\<lambda>_.
           ebind (currency_of (at ''currency'')) (\<lambda>currency.
           ebind (minor_units_of pr currency) (\<lambda>minor_units.
           ebind (date_of lib (at ''issue_date'')) (\<lambda>issue_date.
           ebind (date_of lib (at ''due_date'')) (\<lambda>due_date.
           ebind (raise_if (due_date < issue_date) (ProjectorError ''projector_date_invalid'')) (\<lambda>_.
           ebind (counterparty_of lib (at ''counterparty_name'')) (\<lambda>counterparty.
           ebind (nonempty_text (at ''reference'')) (\<lambda>_.
           ebind (project_lines lib currency minor_units (at ''lines'')) (\<lambda>lines.
           ebind (decimal_of (at ''subtotal'')) (\<lambda>subtotal.
           ebind (decimal_of (at ''discount_total'')) (\<lambda>discount_total.
           ebind (decimal_of (at ''vat_total'')) (\<lambda>vat_total.
           ebind (decimal_of (at ''withholding_tax_total'')) (\<lambda>withholding_total.
           ebind (decimal_of (at ''grand_total'')) (\<lambda>grand_total.
           ebind (validate_financials
             \<lparr>fi_currency = currency, fi_minor_units = minor_units, fi_lines = lines,
              fi_subtotal = subtotal, fi_discount_total = discount_total, fi_vat_total = vat_total,
              fi_withholding_tax_total = withholding_total, fi_grand_total = grand_total\<rparr>) (\<lambda>fin.
           Inr \<lparr>pd_document_type = ''invoice'', pd_counterparty_display = counterparty,
                pd_issue_date = issue_date, pd_due_date = due_date, pd_financials = fin\<rparr>)))))))))))))))))
      | _ \<Rightarrow> projector_error ''projector_payload_invalid'')"

section \<open>The registry\<close>

definition projector_matches :: "projector \<Rightarrow> qualification \<Rightarrow> bool" where
  "projector_matches pr q \<longleftrightarrow>
     rp_provider pr = qu_provider q \<and> rp_environment pr = qu_environment q \<and>
     rp_provider_tool_name pr = qu_provider_tool_name q \<and>
     rp_capability_id pr = qu_normalized_capability q \<and>
     rp_capability_version pr = qu_capability_version_sha256 q \<and>
     rp_schema_hash pr = qu_schema_hash q"

definition projector_identity ::
    "projector \<Rightarrow> string \<times> string \<times> string \<times> string \<times> string \<times> string" where
  "projector_identity pr =
     (rp_provider pr, rp_environment pr, rp_provider_tool_name pr, rp_capability_id pr,
      rp_capability_version pr, rp_schema_hash pr)"

text \<open>\<open>DocumentProjectorRegistry.__init__\<close>\<close>

definition new_projector_registry :: "projector list \<Rightarrow> projector list result" where
  "new_projector_registry prs =
     (if distinct (map projector_identity prs) then Inr prs
      else Inl (ValueError ''projector_identity_duplicate''))"

definition resolve_projector :: "projector list \<Rightarrow> qualification \<Rightarrow> projector option" where
  "resolve_projector prs q =
     (case filter (\<lambda>pr. projector_matches pr q) prs of [pr] \<Rightarrow> Some pr | _ \<Rightarrow> None)"

definition provider_call_payload :: "document_preview \<Rightarrow> json \<Rightarrow> json" where
  "provider_call_payload p arguments = JObj
     [(''provider'', JStr (provider_value (dp_provider p))),
      (''environment'', JStr (dp_environment p)),
      (''provider_tool_name'', JStr (dp_provider_tool_name p)),
      (''capability_id'', JStr (dp_capability_id p)),
      (''capability_version'', JStr (dp_capability_version p)),
      (''schema_hash'', JStr (dp_schema_hash p)),
      (''provider_arguments'', arguments)]"

text \<open>\<open>provider_call_hash\<close>, always of the call of a preview.\<close>

definition provider_call_hash ::
    "'a pylib_scheme \<Rightarrow> document_preview \<Rightarrow> json \<Rightarrow> string result" where
  "provider_call_hash lib p arguments = payload_hash_of lib (provider_call_payload p arguments)"

end
