(* ===== verification/Hosted_Store.thy ===== *)
theory Hosted_Store
  imports Hosted_Operation Hosted_Projector Effects
begin

text \<open>
  Model of \<open>execution/hosted/store.py\<close>: the store of hosted previews and operations
  (\<open>InMemoryHostedPreviewStore\<close>), the check of the authority behind a call and the opening of a
  confirmable preview. The store is its five dictionaries. A method is an effect on it; it holds the
  lock throughout, so calls are atomic. What a call asks outside (the vault, the resolver of the
  authority, the clock) is the record \<open>store_env\<close>, which may differ from call to call.
\<close>

record hosted_store =
  hs_previews :: "uuid \<Rightarrow> document_preview option"
  hs_preview_calls :: "uuid \<times> uuid \<times> string \<Rightarrow> uuid option"
  hs_item_calls :: "(uuid \<times> uuid \<times> string) set"
  hs_operations :: "uuid \<Rightarrow> hosted_operation option"
  hs_operation_by_preview :: "uuid \<Rightarrow> uuid option"

definition empty_hosted_store :: hosted_store where
  "empty_hosted_store =
     \<lparr>hs_previews = Map.empty, hs_preview_calls = Map.empty, hs_item_calls = {},
      hs_operations = Map.empty, hs_operation_by_preview = Map.empty\<rparr>"

text \<open>The clock may be read twice in a call; \<open>None\<close> as the resolver is a store built without one.\<close>

record store_env =
  se_lib :: hosted_lib
  se_safe :: "qualification \<Rightarrow> bool"
  se_vault :: vault
  se_vault_env :: vault_env
  se_projectors :: "projector list"
  se_resolver :: "(document_preview \<Rightarrow> (provider_connection \<times> qualification) result) option"
  se_clock :: "nat \<Rightarrow> datetime"

abbreviation hosted_error :: "string \<Rightarrow> mercury_error" where
  "hosted_error \<equiv> HostedPreviewError"

text \<open>\<open>except (TypeError, ValueError, ValidationError)\<close>\<close>

definition validation_caught :: "mercury_error \<Rightarrow> bool" where
  "validation_caught e \<longleftrightarrow> is_value_error e \<or> e = UnexpectedError ''TypeError''"

definition recoded :: "(mercury_error \<Rightarrow> string) \<Rightarrow> 'a result \<Rightarrow> 'a result" where
  "recoded code r =
     (case r of
        Inl e \<Rightarrow> if validation_caught e then Inl (hosted_error (code e)) else Inl e
      | Inr x \<Rightarrow> Inr x)"

section \<open>The authority behind a preview\<close>

definition timestamp_of :: "string \<Rightarrow> datetime \<Rightarrow> instant result" where
  "timestamp_of code d = aware_instant (hosted_error code) d"

definition check_scope :: "'a tenant_scope_scheme \<Rightarrow> uuid \<Rightarrow> uuid \<Rightarrow> uuid \<Rightarrow> bool" where
  "check_scope p tenant user workspace \<longleftrightarrow>
     tenant_id p = tenant \<and> auth_user_id p = user \<and> workspace_id p = workspace"

definition connection_matches :: "'a pylib_scheme \<Rightarrow> document_preview \<Rightarrow> provider_connection \<Rightarrow> bool" where
  "connection_matches lib p c \<longleftrightarrow>
     pc_id c = connection_id p \<and> tenant_id c = tenant_id p \<and> auth_user_id c = auth_user_id p \<and>
     workspace_id c = workspace_id p \<and> pc_provider c = dp_provider p \<and>
     pc_environment c = dp_environment p \<and> pc_revision c = dp_connection_revision p \<and>
     pc_readiness c = Ready \<and> pc_readiness c = dp_connection_readiness p \<and>
     sha256_hexdigest lib (pc_provider_account_id c) = dp_provider_account_sha256 p"

definition qualification_identity_matches :: "document_preview \<Rightarrow> qualification \<Rightarrow> bool" where
  "qualification_identity_matches p q \<longleftrightarrow>
     qu_id q = Some (dp_qualification_id p) \<and> qu_provider q = provider_value (dp_provider p) \<and>
     qu_environment q = dp_environment p \<and> qu_provider_tool_name q = dp_provider_tool_name p \<and>
     qu_normalized_capability q = dp_capability_id p \<and>
     qu_capability_version_sha256 q = dp_capability_version p \<and>
     qu_schema_hash q = dp_schema_hash p \<and> qu_response_shape_hash q = dp_response_shape_hash p \<and>
     qu_evidence_revision_sha256 q = Some (dp_evidence_revision_sha256 p) \<and>
     qu_company_sha256 q = Some (dp_provider_account_sha256 p)"

definition qualification_is_current :: "qualification \<Rightarrow> provider_connection \<Rightarrow> instant \<Rightarrow> bool" where
  "qualification_is_current q c now \<longleftrightarrow>
     qu_state q = Enabled \<and>
     (case (qu_evidence_evaluated_at q, qu_evidence_expires_at q) of
        (Some evaluated, Some expires) \<Rightarrow> instant_of evaluated \<le> now \<and> now < instant_of expires
      | _ \<Rightarrow> False) \<and>
     set (qu_required_permissions q) \<subseteq> set (pc_granted_permissions c)"

text \<open>\<open>_validate_authority\<close>\<close>

definition validate_authority ::
    "store_env \<Rightarrow> document_preview \<Rightarrow> provider_connection \<Rightarrow> qualification \<Rightarrow> instant \<Rightarrow>
     (qualification \<times> projector) result" where
  "validate_authority env p connection qualification now =
     (let changed = (\<lambda>e. ''preview_binding_changed'') in
      ebind (recoded changed (validate_connection (se_lib env) connection)) (\<lambda>c.
      ebind (recoded changed (validate_qualification (se_lib env) (se_safe env) qualification)) (\<lambda>q.
      ebind (raise_if (\<not> connection_matches (se_lib env) p c) (hosted_error ''preview_binding_changed'')) (\<lambda>_.
      ebind (raise_if (\<not> qualification_identity_matches p q) (hosted_error ''preview_binding_changed'')) (\<lambda>_.
      ebind (raise_if (\<not> qualification_is_current q c now) (hosted_error ''capability_unavailable'')) (\<lambda>_.
      case resolve_projector (se_projectors env) q of
        None \<Rightarrow> Inl (hosted_error ''capability_unavailable'')
      | Some pr \<Rightarrow>
          if rp_projector_id pr = dp_projector_id p \<and> rp_projector_version pr = dp_projector_version p
          then Inr (q, pr) else Inl (hosted_error ''capability_unavailable'')))))))"

text \<open>\<open>_revalidate_operation_authority\<close>\<close>

definition is_hosted_error :: "mercury_error \<Rightarrow> bool" where
  "is_hosted_error e = (case e of HostedPreviewError _ \<Rightarrow> True | _ \<Rightarrow> False)"

definition revalidate_operation_authority :: "store_env \<Rightarrow> document_preview \<Rightarrow> unit result" where
  "revalidate_operation_authority env p =
     (case se_resolver env of
        None \<Rightarrow> Inl (hosted_error ''preview_binding_changed'')
      | Some resolver \<Rightarrow>
          (case resolver p of
             Inl e \<Rightarrow> if is_hosted_error e then Inl e else Inl (hosted_error ''preview_binding_changed'')
           | Inr (connection, qualification) \<Rightarrow>
               ebind (timestamp_of ''preview_state_invalid'' (se_clock env 0)) (\<lambda>now.
               ebind (validate_authority env p connection qualification now) (\<lambda>_. Inr ()))))"

section \<open>Opening a preview for confirmation\<close>

record opened_item =
  op_preview_item_id :: uuid
  op_client_item_id :: string
  op_provider_arguments :: json

text \<open>\<open>HostedPayloadVault.open\<close>\<close>

definition payload_open :: "store_env \<Rightarrow> document_preview \<Rightarrow> preview_item \<Rightarrow> string result" where
  "payload_open env p i =
     ebind (payload_binding (se_lib env) p i) (\<lambda>b.
     case vault_open (se_lib env) (se_vault_env env) (se_vault env) b (pi_payload_envelope i) of
       Inl e \<Rightarrow>
         (if is_value_error e \<or> e = UnexpectedError ''TypeError'' \<or> (case e of CredentialVaultError _ \<Rightarrow> True | _ \<Rightarrow> False)
          then Inl (hosted_error ''preview_payload_changed'') else Inl e)
     | Inr plaintext \<Rightarrow> Inr plaintext)"

text \<open>The body of the loop of \<open>_load_confirmable\<close>, before its \<open>except\<close> clauses.\<close>

definition open_item_body ::
    "store_env \<Rightarrow> document_preview \<Rightarrow> projector \<Rightarrow> preview_item \<Rightarrow> opened_item result" where
  "open_item_body env p pr i =
     (let lib = se_lib env; changed = ValueError ''preview_payload_changed'' in
      ebind (payload_open env p i) (\<lambda>plaintext.
      ebind (case load_json lib plaintext of Some (JObj d) \<Rightarrow> Inr (JObj d) | _ \<Rightarrow> Inl changed) (\<lambda>arguments.
      ebind (project lib pr arguments) (\<lambda>projection.
      ebind (provider_call_hash lib p arguments) (\<lambda>expected_call_hash.
      ebind (payload_hash_of lib (preview_item_integrity_payload (pi_client_item_id i) expected_call_hash
               (dp_projector_id p) (dp_projector_version p) (pd_document_type projection)
               (pd_counterparty_display projection) (pd_issue_date projection) (pd_due_date projection)
               (pd_financials projection) (pi_warnings i) (pi_review_points i))) (\<lambda>expected_integrity.
      ebind (raise_if
               (expected_call_hash \<noteq> pi_provider_call_hash i \<or>
                expected_integrity \<noteq> pi_preview_integrity_hash i \<or>
                pd_document_type projection \<noteq> pi_document_type i \<or>
                pd_counterparty_display projection \<noteq> pi_counterparty_display i \<or>
                pd_issue_date projection \<noteq> pi_issue_date i \<or> pd_due_date projection \<noteq> pi_due_date i \<or>
                financials_values (pd_financials projection) \<noteq> financials_values (pi_financials i)) changed) (\<lambda>_.
      if non_finite arguments then Inl changed
      else Inr \<lparr>op_preview_item_id = pi_preview_item_id i, op_client_item_id = pi_client_item_id i,
                op_provider_arguments = sort_keys arguments\<rparr>)))))))"

definition open_item ::
    "store_env \<Rightarrow> document_preview \<Rightarrow> projector \<Rightarrow> preview_item \<Rightarrow> opened_item result" where
  "open_item env p pr i = recoded (\<lambda>e. ''preview_payload_changed'') (open_item_body env p pr i)"

definition load_confirmable_preview ::
    "store_env \<Rightarrow> document_preview \<Rightarrow> uuid \<Rightarrow> uuid \<Rightarrow> uuid \<Rightarrow> nat \<Rightarrow> provider_connection \<Rightarrow>
     qualification \<Rightarrow> datetime \<Rightarrow> (document_preview \<times> opened_item list) result" where
  "load_confirmable_preview env p tenant user workspace expected_version connection qualification now =
     ebind (raise_if (\<not> check_scope p tenant user workspace) (hosted_error ''preview_not_found'')) (\<lambda>_.
     ebind (timestamp_of ''preview_state_invalid'' now) (\<lambda>checked_now.
     ebind (raise_if (expected_version \<noteq> dp_state_version p) (hosted_error ''preview_state_stale'')) (\<lambda>_.
     ebind (raise_if (dp_state p \<notin> {PreviewPrepared, PreviewAwaitingConfirmation})
              (hosted_error ''preview_state_invalid'')) (\<lambda>_.
     ebind (raise_if (dp_expires_at p \<le> checked_now) (hosted_error ''preview_expired'')) (\<lambda>_.
     ebind (validate_authority env p connection qualification checked_now) (\<lambda>(_, pr).
     ebind (emap (open_item env p pr) (dp_items p)) (\<lambda>opened.
     ebind (validate_document_preview (se_lib env) p) (\<lambda>checked.
       Inr (checked, opened)))))))))"

section \<open>The methods of the store\<close>

type_synonym 'a hosted_method = "(hosted_store, 'a) eff"

definition call_key :: "'a hosted_scope_scheme \<Rightarrow> string \<Rightarrow> uuid \<times> uuid \<times> string" where
  "call_key p hash = (workspace_id p, connection_id p, hash)"

definition item_keys :: "document_preview \<Rightarrow> (uuid \<times> uuid \<times> string) set" where
  "item_keys p = (\<lambda>i. call_key p (pi_provider_call_hash i)) ` set (dp_items p)"

definition revalidated :: "store_env \<Rightarrow> document_preview \<Rightarrow> document_preview hosted_method" where
  "revalidated env p = elift (validate_document_preview (se_lib env) p)"

definition key_error :: mercury_error where
  "key_error = UnexpectedError ''KeyError''"

definition lookup_or :: "mercury_error \<Rightarrow> 'a option \<Rightarrow> 'a hosted_method" where
  "lookup_or e v = (case v of None \<Rightarrow> efail e | Some x \<Rightarrow> eret x)"

definition insert_preview :: "document_preview \<Rightarrow> hosted_store \<Rightarrow> hosted_store" where
  "insert_preview p s =
     s\<lparr>hs_previews := (hs_previews s)(dp_preview_id p \<mapsto> p),
       hs_preview_calls := (hs_preview_calls s)(call_key p (dp_provider_call_hash p) \<mapsto> dp_preview_id p),
       hs_item_calls := hs_item_calls s \<union> item_keys p\<rparr>"

definition create_hosted_preview :: "store_env \<Rightarrow> document_preview \<Rightarrow> document_preview hosted_method" where
  "create_hosted_preview env preview =
     eseq (elift (recoded (\<lambda>e. ''preview_conflict'') (validate_document_preview (se_lib env) preview))) (\<lambda>checked.
     eseq (eget (\<lambda>s. hs_preview_calls s (call_key checked (dp_provider_call_hash checked)))) (\<lambda>existing_id.
     case existing_id of
       Some i \<Rightarrow>
         eseq (eget (\<lambda>s. hs_previews s i)) (\<lambda>found.
         eseq (lookup_or key_error found) (\<lambda>existing.
         if dp_preview_integrity_hash existing = dp_preview_integrity_hash checked
         then revalidated env existing else efail (hosted_error ''duplicate_provider_call'')))
     | None \<Rightarrow>
         eseq (eget (\<lambda>s. hs_previews s (dp_preview_id checked))) (\<lambda>clash.
         eseq (eguard (clash \<noteq> None) (hosted_error ''preview_conflict'')) (\<lambda>_.
         eseq (eget (\<lambda>s. item_keys checked \<inter> hs_item_calls s)) (\<lambda>taken.
         eseq (eguard (taken \<noteq> {}) (hosted_error ''duplicate_provider_call'')) (\<lambda>_.
         eseq (eput (insert_preview checked)) (\<lambda>_.
         revalidated env checked)))))))"

definition find_preview_by_provider_call ::
    "store_env \<Rightarrow> uuid \<Rightarrow> uuid \<Rightarrow> uuid \<Rightarrow> uuid \<Rightarrow> string \<Rightarrow> document_preview option hosted_method" where
  "find_preview_by_provider_call env tenant user workspace connection hash =
     eseq (eget (\<lambda>s. hs_preview_calls s (workspace, connection, hash))) (\<lambda>found.
     case found of
       None \<Rightarrow> eret None
     | Some i \<Rightarrow>
         eseq (eget (\<lambda>s. hs_previews s i)) (\<lambda>stored.
         eseq (lookup_or key_error stored) (\<lambda>p.
         eseq (eguard (\<not> check_scope p tenant user workspace) (hosted_error ''preview_not_found'')) (\<lambda>_.
         eseq (revalidated env p) (\<lambda>q. eret (Some q))))))"

definition get_hosted_preview ::
    "store_env \<Rightarrow> uuid \<Rightarrow> uuid \<Rightarrow> uuid \<Rightarrow> uuid \<Rightarrow> document_preview hosted_method" where
  "get_hosted_preview env tenant user workspace preview_id =
     eseq (eget (\<lambda>s. hs_previews s preview_id)) (\<lambda>found.
     eseq (lookup_or (hosted_error ''preview_not_found'') found) (\<lambda>p.
     eseq (eguard (\<not> check_scope p tenant user workspace) (hosted_error ''preview_not_found'')) (\<lambda>_.
     revalidated env p)))"

definition load_confirmable ::
    "store_env \<Rightarrow> uuid \<Rightarrow> uuid \<Rightarrow> uuid \<Rightarrow> uuid \<Rightarrow> nat \<Rightarrow> provider_connection \<Rightarrow> qualification \<Rightarrow>
     datetime \<Rightarrow> (document_preview \<times> opened_item list) hosted_method" where
  "load_confirmable env tenant user workspace preview_id expected_version connection qualification now =
     eseq (get_hosted_preview env tenant user workspace preview_id) (\<lambda>p.
     elift (load_confirmable_preview env p tenant user workspace expected_version connection
              qualification now))"

definition transition_code :: "string \<Rightarrow> mercury_error \<Rightarrow> string" where
  "transition_code other e = (if e = ValueError ''preview_expired'' then ''preview_expired'' else other)"

definition transition_hosted_preview ::
    "store_env \<Rightarrow> uuid \<Rightarrow> uuid \<Rightarrow> uuid \<Rightarrow> uuid \<Rightarrow> nat \<Rightarrow> preview_state \<Rightarrow> datetime \<Rightarrow>
     document_preview hosted_method" where
  "transition_hosted_preview env tenant user workspace preview_id expected_version target occurred_at =
     eseq (get_hosted_preview env tenant user workspace preview_id) (\<lambda>p.
     eseq (eguard (dp_state_version p \<noteq> expected_version) (hosted_error ''preview_state_stale'')) (\<lambda>_.
     eseq (eguard (target = PreviewConfirmed) (hosted_error ''preview_state_invalid'')) (\<lambda>_.
     eseq (elift (recoded (transition_code ''preview_state_invalid'')
             (preview_transition (se_lib env) p target occurred_at None))) (\<lambda>moved.
     eseq (eput (\<lambda>s. s\<lparr>hs_previews := (hs_previews s)(preview_id \<mapsto> moved)\<rparr>)) (\<lambda>_.
     revalidated env moved)))))"

section \<open>Operations\<close>

definition operation_item_matches :: "hosted_operation \<Rightarrow> operation_item \<times> preview_item \<Rightarrow> bool" where
  "operation_item_matches p x = (case x of (oi, pi) \<Rightarrow>
     oi_preview_item_id oi = pi_preview_item_id pi \<and> oi_item_index oi = pi_item_index pi \<and>
     oi_client_item_id oi = pi_client_item_id pi \<and>
     oi_provider_call_hash oi = pi_provider_call_hash pi \<and>
     oi_preview_integrity_hash oi = pi_preview_integrity_hash pi \<and>
     oi_state oi = ItemAwaitingConfirmation \<and> oi_state_version oi = 1 \<and>
     oi_result_identifier oi = None \<and> oi_created_at oi = ho_created_at p \<and>
     oi_updated_at oi = ho_created_at p)"

text \<open>\<open>_operation_matches_preview\<close>\<close>

definition first_event_matches :: "hosted_operation \<Rightarrow> bool" where
  "first_event_matches p =
     (case ho_events p of
        [ev] \<Rightarrow> ev_operation_item_id ev = None \<and> ev_from_state ev = None \<and>
          ev_to_state ev = parent_value ParentAwaitingConfirmation \<and> ev_state_version ev = 1 \<and>
          ev_occurred_at ev = ho_created_at p
      | _ \<Rightarrow> False)"

definition operation_matches_preview :: "hosted_operation \<Rightarrow> document_preview \<Rightarrow> bool" where
  "operation_matches_preview p d \<longleftrightarrow>
     ho_preview_id p = dp_preview_id d \<and> same_scope p d \<and> ho_provider p = dp_provider d \<and>
     ho_environment p = dp_environment d \<and> ho_capability_id p = dp_capability_id d \<and>
     ho_capability_version p = dp_capability_version d \<and>
     ho_connection_revision p = dp_connection_revision d \<and>
     ho_provider_call_hash p = dp_provider_call_hash d \<and>
     ho_preview_integrity_hash p = dp_preview_integrity_hash d \<and>
     ho_state p = ParentAwaitingConfirmation \<and> ho_state_version p = 1 \<and>
     dp_created_at d \<le> ho_created_at p \<and> ho_created_at p < dp_expires_at d \<and>
     ho_updated_at p = ho_created_at p \<and> dp_payload_purge_after d \<le> ho_payload_purge_after p \<and>
     length (ho_items p) = length (dp_items d) \<and> first_event_matches p \<and>
     list_all (operation_item_matches p) (zip (ho_items p) (dp_items d))"

definition confirmed_item :: "operation_item \<Rightarrow> nat \<times> uuid \<times> string \<times> string \<times> string" where
  "confirmed_item i =
     (oi_item_index i, oi_preview_item_id i, oi_client_item_id i, oi_provider_call_hash i,
      oi_preview_integrity_hash i)"

definition same_confirmation_identity :: "hosted_operation \<Rightarrow> hosted_operation \<Rightarrow> bool" where
  "same_confirmation_identity a b \<longleftrightarrow>
     ho_preview_id a = ho_preview_id b \<and> same_scope a b \<and> ho_provider a = ho_provider b \<and>
     ho_environment a = ho_environment b \<and> ho_capability_id a = ho_capability_id b \<and>
     ho_capability_version a = ho_capability_version b \<and>
     ho_connection_revision a = ho_connection_revision b \<and>
     ho_provider_call_hash a = ho_provider_call_hash b \<and>
     ho_preview_integrity_hash a = ho_preview_integrity_hash b \<and>
     map confirmed_item (ho_items a) = map confirmed_item (ho_items b)"

definition revalidated_operation :: "store_env \<Rightarrow> hosted_operation \<Rightarrow> hosted_operation hosted_method" where
  "revalidated_operation env p = elift (validate_operation (se_lib env) p)"

definition insert_operation ::
    "document_preview \<Rightarrow> hosted_operation \<Rightarrow> hosted_store \<Rightarrow> hosted_store" where
  "insert_operation confirmed p s =
     s\<lparr>hs_previews := (hs_previews s)(dp_preview_id confirmed \<mapsto> confirmed),
       hs_operations := (hs_operations s)(ho_operation_id p \<mapsto> p),
       hs_operation_by_preview := (hs_operation_by_preview s)(ho_preview_id p \<mapsto> ho_operation_id p)\<rparr>"

text \<open>The part of \<open>create_operation\<close> for a preview without an operation.\<close>

definition confirm_preview ::
    "store_env \<Rightarrow> document_preview \<Rightarrow> hosted_operation \<Rightarrow> nat \<Rightarrow> hosted_operation hosted_method" where
  "confirm_preview env preview checked expected_version =
     eseq (elift (revalidate_operation_authority env preview)) (\<lambda>_.
     eseq (eguard (\<not> operation_matches_preview checked preview) (hosted_error ''operation_conflict'')) (\<lambda>_.
     eseq (eget (\<lambda>s. hs_operations s (ho_operation_id checked))) (\<lambda>clash.
     eseq (eguard (clash \<noteq> None) (hosted_error ''operation_conflict'')) (\<lambda>_.
     eseq (eguard (dp_state_version preview \<noteq> expected_version) (hosted_error ''preview_state_stale'')) (\<lambda>_.
     eseq (elift (timestamp_of ''preview_state_invalid'' (se_clock env 1))) (\<lambda>now.
     eseq (eguard (dp_expires_at preview \<le> now) (hosted_error ''preview_expired'')) (\<lambda>_.
     eseq (elift (recoded (transition_code ''operation_conflict'')
             (preview_transition (se_lib env) preview PreviewConfirmed (Aware (ho_created_at checked))
                (Some (Aware (ho_payload_purge_after checked)))))) (\<lambda>confirmed.
     eseq (eput (insert_operation confirmed checked)) (\<lambda>_.
     revalidated_operation env checked)))))))))"

definition create_operation ::
    "store_env \<Rightarrow> hosted_operation \<Rightarrow> nat \<Rightarrow> hosted_operation hosted_method" where
  "create_operation env operation expected_version =
     eseq (elift (recoded (\<lambda>e. ''operation_conflict'') (validate_operation (se_lib env) operation))) (\<lambda>checked.
     eseq (eget (\<lambda>s. hs_previews s (ho_preview_id checked))) (\<lambda>found.
     eseq (lookup_or (hosted_error ''operation_conflict'') found) (\<lambda>preview.
     eseq (eget (\<lambda>s. hs_operation_by_preview s (ho_preview_id checked))) (\<lambda>existing_id.
     case existing_id of
       Some i \<Rightarrow>
         eseq (eget (\<lambda>s. hs_operations s i)) (\<lambda>stored.
         eseq (lookup_or key_error stored) (\<lambda>existing.
         eseq (eguard (\<not> same_confirmation_identity existing checked) (hosted_error ''operation_conflict'')) (\<lambda>_.
         revalidated_operation env existing)))
     | None \<Rightarrow> confirm_preview env preview checked expected_version))))"

definition get_operation ::
    "store_env \<Rightarrow> uuid \<Rightarrow> uuid \<Rightarrow> uuid \<Rightarrow> uuid \<Rightarrow> hosted_operation hosted_method" where
  "get_operation env tenant user workspace operation_id =
     eseq (eget (\<lambda>s. hs_operations s operation_id)) (\<lambda>found.
     eseq (lookup_or (hosted_error ''operation_not_found'') found) (\<lambda>p.
     eseq (eguard (\<not> check_scope p tenant user workspace) (hosted_error ''operation_not_found'')) (\<lambda>_.
     revalidated_operation env p)))"

definition put_operation :: "uuid \<Rightarrow> hosted_operation \<Rightarrow> hosted_store \<Rightarrow> hosted_store" where
  "put_operation operation_id p s = s\<lparr>hs_operations := (hs_operations s)(operation_id \<mapsto> p)\<rparr>"

definition dispatch_authority :: "store_env \<Rightarrow> hosted_operation \<Rightarrow> parent_state \<Rightarrow> unit hosted_method" where
  "dispatch_authority env p target =
     (if target = ParentDispatching
      then eseq (eget (\<lambda>s. hs_previews s (ho_preview_id p))) (\<lambda>found.
           eseq (lookup_or (hosted_error ''operation_not_found'') found) (\<lambda>preview.
           elift (revalidate_operation_authority env preview)))
      else eret ())"

definition transition_operation ::
    "store_env \<Rightarrow> uuid \<Rightarrow> uuid \<Rightarrow> uuid \<Rightarrow> uuid \<Rightarrow> nat \<Rightarrow> parent_state \<Rightarrow> uuid \<Rightarrow> datetime \<Rightarrow> string \<Rightarrow>
     hosted_operation hosted_method" where
  "transition_operation env tenant user workspace operation_id expected_version target event_id
       occurred_at reason =
     eseq (get_operation env tenant user workspace operation_id) (\<lambda>p.
     eseq (eguard (ho_state_version p \<noteq> expected_version) (hosted_error ''operation_state_stale'')) (\<lambda>_.
     eseq (dispatch_authority env p target) (\<lambda>_.
     eseq (elift (recoded (\<lambda>e. ''operation_transition_invalid'')
             (operation_transition (se_lib env) p target event_id occurred_at reason))) (\<lambda>moved.
     eseq (eput (put_operation operation_id moved)) (\<lambda>_.
     revalidated_operation env moved)))))"

definition transition_operation_item ::
    "store_env \<Rightarrow> uuid \<Rightarrow> uuid \<Rightarrow> uuid \<Rightarrow> uuid \<Rightarrow> uuid \<Rightarrow> nat \<Rightarrow> item_state \<Rightarrow> uuid \<Rightarrow> datetime \<Rightarrow>
     string \<Rightarrow> string option \<Rightarrow> hosted_operation hosted_method" where
  "transition_operation_item env tenant user workspace operation_id item_id expected_version target
       event_id occurred_at reason identifier =
     eseq (get_operation env tenant user workspace operation_id) (\<lambda>p.
     case filter (\<lambda>i. oi_operation_item_id i = item_id) (ho_items p) of
       [item] \<Rightarrow>
         eseq (eguard (oi_state_version item \<noteq> expected_version) (hosted_error ''operation_state_stale'')) (\<lambda>_.
         eseq (elift (recoded (\<lambda>e. ''operation_transition_invalid'')
                 (operation_transition_item (se_lib env) p item_id target event_id occurred_at reason
                    identifier))) (\<lambda>moved.
         eseq (eput (put_operation operation_id moved)) (\<lambda>_.
         revalidated_operation env moved)))
     | _ \<Rightarrow> efail (hosted_error ''operation_not_found''))"

end
