(* ===== verification/Hosted_Sample.thy ===== *)
theory Hosted_Sample
  imports Hosted_Store
begin

text \<open>
  An invoice of one line, previewed, confirmed and dispatched: the concrete inputs on which the
  hosted components are evaluated. The library of \<open>Credential_Vault\<close> is used; the JSON
  parser knows the one payload.
\<close>

definition sample_sha :: string where
  "sample_sha = replicate 64 CHR ''0''"

definition sample_line_args :: json where
  "sample_line_args = JObj
     [(''description'', JStr ''Consulting''), (''currency'', JStr ''THB''), (''quantity'', JStr ''2''),
      (''unit_price'', JStr ''50.00''), (''discount_amount'', JStr ''0''), (''vat_rate'', JStr ''7''),
      (''vat_amount'', JStr ''7.00''), (''withholding_rate'', JStr ''0''),
      (''withholding_amount'', JStr ''0''), (''line_total'', JStr ''107.00'')]"

definition sample_arguments :: json where
  "sample_arguments = JObj
     [(''reference'', JStr ''INV-1''), (''counterparty_name'', JStr ''Acme''),
      (''issue_date'', JStr ''2026-01-01''), (''due_date'', JStr ''2026-01-31''),
      (''currency'', JStr ''THB''), (''lines'', JArr [sample_line_args]),
      (''subtotal'', JStr ''100.00''), (''discount_total'', JStr ''0''), (''vat_total'', JStr ''7.00''),
      (''withholding_tax_total'', JStr ''0''), (''grand_total'', JStr ''107.00'')]"

definition invoice_lib :: hosted_lib where
  "invoice_lib = sample_hosted_lib
     \<lparr>load_json := (\<lambda>s. if s = ''payload'' then Some sample_arguments else None)\<rparr>"

definition sample_qualification :: qualification where
  "sample_qualification =
     \<lparr>qu_id = Some 7, qu_provider = ''peak'', qu_environment = ''sandbox'',
      qu_provider_tool_name = ''create_invoice'', qu_normalized_capability = ''documents.invoice.create'',
      qu_input_schema = JObj [], qu_output_schema = JObj [], qu_public_output_field_paths = None,
      qu_schema_hash = sample_sha, qu_response_shape_hash = sample_sha,
      qu_required_permissions = [''invoice:write''], qu_capability_version_sha256 = sample_sha,
      qu_state = Enabled, qu_company_sha256 = Some sample_sha,
      qu_evidence_revision_sha256 = Some sample_sha,
      qu_qualification_evidence_uri = Some (qualification_evidence_uri ''peak'' sample_sha sample_sha),
      qu_evidence_evaluated_at = Some (Aware 0), qu_evidence_expires_at = Some (Aware (seconds 86400)),
      qu_nonproduction_evidence_revision_sha256 = None, qu_nonproduction_company_sha256 = None,
      qu_production_canary_at = None, qu_owner_authorized_by = None, qu_disable_reason = None\<rparr>"

definition sample_connection :: provider_connection where
  "sample_connection =
     \<lparr>tenant_id = 1, workspace_id = 2, auth_user_id = 3, pc_id = 4, pc_provider = Peak,
      pc_environment = ''sandbox'', pc_provider_account_id = ''acme'', pc_account_display_name = ''Acme'',
      pc_authorization_method = OAuth2PKCE, pc_granted_permissions = [''invoice:write''],
      pc_readiness = Ready, pc_revision = 1, pc_last_validated_at = Some (Aware 0),
      pc_credential_envelope_ids = [9], pc_provider_revocation_required = False,
      pc_disconnected_at = None, pc_created_at = Aware 0, pc_updated_at = Aware 0\<rparr>"

definition sample_projector :: projector where
  "sample_projector =
     \<lparr>rp_projector_id = ''invoice'', rp_projector_version = sample_sha, rp_provider = ''peak'',
      rp_environment = ''sandbox'', rp_provider_tool_name = ''create_invoice'',
      rp_capability_id = ''documents.invoice.create'', rp_capability_version = sample_sha,
      rp_schema_hash = sample_sha, rp_currency_minor_units = [(''THB'', 2)]\<rparr>"

definition invoice_line :: line_amounts where
  "invoice_line =
     \<lparr>li_currency = ''THB'', li_minor_units = 2, li_quantity = Finite False 2 0,
      li_unit_price = Finite False 5000 (- 2), li_discount_amount = Finite False 0 0,
      li_vat_rate = Finite False 7 0, li_vat_amount = Finite False 700 (- 2),
      li_withholding_rate = Finite False 0 0, li_withholding_amount = Finite False 0 0,
      li_line_total = Finite False 10700 (- 2)\<rparr>"

definition sample_financials :: financials where
  "sample_financials =
     \<lparr>fi_currency = ''THB'', fi_minor_units = 2, fi_lines = [invoice_line],
      fi_subtotal = Finite False 10000 (- 2), fi_discount_total = Finite False 0 0,
      fi_vat_total = Finite False 700 (- 2), fi_withholding_tax_total = Finite False 0 0,
      fi_grand_total = Finite False 10700 (- 2)\<rparr>"

text \<open>A cipher that hides nothing, and the payload under it.\<close>

definition plain_vault_env :: vault_env where
  "plain_vault_env = sample_vault_env
     \<lparr>ve_aead := \<lparr>aead_encrypt = (\<lambda>key nonce p aad. Some (replicate 16 CHR ''x'' @ p)),
                  aead_decrypt = (\<lambda>key nonce c aad. Some (drop 16 c))\<rparr>\<rparr>"

definition sample_envelope :: envelope where
  "sample_envelope =
     \<lparr>tenant_id = 1, workspace_id = 2, auth_user_id = 3, en_id = 9, en_connection_id = 4,
      en_provider = ''peak'', en_environment = ''sandbox'', en_credential_type = hosted_preview_payload,
      en_key_version = ''k1'', en_nonce = replicate 12 CHR ''n'',
      en_ciphertext = replicate 16 CHR ''x'' @ ''payload'', en_aad_hash = replicate 32 CHR ''h'',
      en_created_at = 0, en_rotated_at = None, en_revoked_at = None\<rparr>"

definition sample_purge :: instant where
  "sample_purge = preview_ttl + unconfirmed_payload_retention"

definition sample_item :: preview_item where
  "sample_item =
     \<lparr>tenant_id = 1, workspace_id = 2, auth_user_id = 3, connection_id = 4,
      pi_preview_item_id = 11, pi_preview_id = 10, pi_item_index = 0, pi_client_item_id = ''row-1'',
      pi_provider_call_hash = sample_sha, pi_preview_integrity_hash = sample_sha,
      pi_document_type = ''invoice'', pi_counterparty_display = ''[REDACTED_COUNTERPARTY]'',
      pi_issue_date = ''2026-01-01'', pi_due_date = ''2026-01-31'', pi_financials = sample_financials,
      pi_warnings = [], pi_review_points = [], pi_payload_envelope = sample_envelope,
      pi_created_at = 0, pi_payload_purge_after = sample_purge\<rparr>"

definition sample_preview :: document_preview where
  "sample_preview =
     \<lparr>tenant_id = 1, workspace_id = 2, auth_user_id = 3, connection_id = 4,
      dp_preview_id = 10, dp_provider = Peak, dp_provider_account_sha256 = sample_sha,
      dp_account_display_name = ''Acme'', dp_environment = ''sandbox'', dp_qualification_id = 7,
      dp_provider_tool_name = ''create_invoice'', dp_capability_id = ''documents.invoice.create'',
      dp_capability_version = sample_sha, dp_schema_hash = sample_sha,
      dp_response_shape_hash = sample_sha, dp_evidence_revision_sha256 = sample_sha,
      dp_projector_id = ''invoice'', dp_projector_version = sample_sha, dp_connection_revision = 1,
      dp_connection_readiness = Ready, dp_provider_call_hash = sample_sha,
      dp_preview_integrity_hash = sample_sha, dp_state = PreviewAwaitingConfirmation,
      dp_state_version = 1, dp_currency = ''THB'', dp_subtotal = Finite False 10000 (- 2),
      dp_discount_total = Finite False 0 0, dp_vat_total = Finite False 700 (- 2),
      dp_withholding_tax_total = Finite False 0 0, dp_grand_total = Finite False 10700 (- 2),
      dp_warnings = [], dp_review_points = [], dp_items = [sample_item],
      dp_supersedes_preview_id = None, dp_created_at = 0, dp_expires_at = preview_ttl,
      dp_payload_purge_after = sample_purge, dp_confirmed_at = None, dp_cancelled_at = None\<rparr>"

definition sample_store_env :: store_env where
  "sample_store_env =
     \<lparr>se_lib = invoice_lib, se_safe = (\<lambda>q. True), se_vault = sample_vault,
      se_vault_env = plain_vault_env, se_projectors = [sample_projector],
      se_resolver = Some (\<lambda>p. Inr (sample_connection, sample_qualification)), se_clock = (\<lambda>n. Aware 1)\<rparr>"

definition sample_operation :: hosted_operation where
  "sample_operation =
     \<lparr>tenant_id = 1, workspace_id = 2, auth_user_id = 3, connection_id = 4,
      ho_operation_id = 20, ho_preview_id = 10, ho_provider = Peak, ho_environment = ''sandbox'',
      ho_capability_id = ''documents.invoice.create'', ho_capability_version = sample_sha,
      ho_connection_revision = 1, ho_provider_call_hash = sample_sha,
      ho_preview_integrity_hash = sample_sha, ho_state = ParentAwaitingConfirmation,
      ho_state_version = 1, ho_items = [first_item 1 (21, sample_item, 0)],
      ho_events = [first_event 22 20 1], ho_created_at = 1, ho_updated_at = 1,
      ho_payload_purge_after = 1 + confirmed_payload_retention\<rparr>"

section \<open>The sample is valid\<close>

lemma invoice_texts:
  "sanitize_public_text invoice_lib c ''[REDACTED_COUNTERPARTY]'' = Inr ''[REDACTED_COUNTERPARTY]''"
  "sanitize_public_text invoice_lib c ''row-1'' = Inr ''row-1''"
  "sanitize_public_text invoice_lib c ''Acme'' = Inr ''Acme''"
  by code_simp+

lemma sample_item_fields [simp]:
  "pi_financials sample_item = sample_financials" "pi_client_item_id sample_item = ''row-1''"
  "pi_counterparty_display sample_item = ''[REDACTED_COUNTERPARTY]''"
  "sample_item\<lparr>pi_counterparty_display := ''[REDACTED_COUNTERPARTY]''\<rparr> = sample_item"
  by (simp_all add: sample_item_def)

lemma sample_item_parts: "item_fields_valid sample_item" "check_item sample_item = Inr ()"
  by code_simp+

lemma sample_financials_parts:
  "line_fields_valid invoice_line" "cross_check_line invoice_line = Inr ()"
  "financials_fields_valid sample_financials" "cross_check_document sample_financials = Inr ()"
  by code_simp+

lemma sample_financials_valid: "validate_financials sample_financials = Inr sample_financials"
proof -
  have "fi_lines sample_financials = [invoice_line]" by (simp add: sample_financials_def)
  then show ?thesis
    by (simp add: validate_financials_def validate_line_def sample_financials_parts fields_valid_def)
qed

lemma sample_item_valid: "validate_item invoice_lib sample_item = Inr sample_item"
  using sample_financials_valid
  by (simp add: validate_item_def sample_item_parts invoice_texts fields_valid_def Let_def
      require_safe_public_identifier_def raise_if_def)

lemma sample_preview_fields [simp]:
  "dp_items sample_preview = [sample_item]" "dp_account_display_name sample_preview = ''Acme''"
  "sample_preview\<lparr>dp_account_display_name := ''Acme'', dp_items := [sample_item]\<rparr> = sample_preview"
  by (simp_all add: sample_preview_def)

lemma sample_preview_parts:
  "preview_fields_valid sample_preview" "check_preview_state sample_preview = Inr ()"
  "check_preview_items invoice_lib sample_preview = Inr ()" "check_preview_totals sample_preview = Inr ()"
  "check_preview_hashes invoice_lib sample_preview = Inr ()"
  by code_simp+

lemma sample_preview_valid: "validate_document_preview invoice_lib sample_preview = Inr sample_preview"
  by (simp add: validate_document_preview_def sample_preview_parts sample_item_valid invoice_texts fields_valid_def
      check_preview_def)

lemma sample_operation_valid: "validate_operation invoice_lib sample_operation = Inr sample_operation"
  by code_simp

lemma sample_operation_matches: "operation_matches_preview sample_operation sample_preview"
  by code_simp

definition sample_confirmed :: document_preview where
  "sample_confirmed = moved_preview sample_preview PreviewConfirmed 1 (1 + confirmed_payload_retention)"

lemma sample_confirmed_parts:
  "preview_fields_valid sample_confirmed" "check_preview_state sample_confirmed = Inr ()"
  "check_preview_items invoice_lib sample_confirmed = Inr ()" "check_preview_totals sample_confirmed = Inr ()"
  "check_preview_hashes invoice_lib sample_confirmed = Inr ()"
  by code_simp+

section \<open>The sample is stored, confirmed and dispatched\<close>

definition sample_confirmed_item :: preview_item where
  "sample_confirmed_item = sample_item\<lparr>pi_payload_purge_after := 1 + confirmed_payload_retention\<rparr>"

lemma sample_confirmed_item_fields [simp]:
  "pi_financials sample_confirmed_item = sample_financials" "pi_client_item_id sample_confirmed_item = ''row-1''"
  "pi_counterparty_display sample_confirmed_item = ''[REDACTED_COUNTERPARTY]''"
  "sample_confirmed_item\<lparr>pi_counterparty_display := ''[REDACTED_COUNTERPARTY]''\<rparr> = sample_confirmed_item"
  by (simp_all add: sample_confirmed_item_def sample_item_def)

lemma sample_confirmed_item_parts:
  "item_fields_valid sample_confirmed_item" "check_item sample_confirmed_item = Inr ()"
  by code_simp+

lemma sample_confirmed_fields [simp]:
  "dp_items sample_confirmed = [sample_confirmed_item]" "dp_account_display_name sample_confirmed = ''Acme''"
  "dp_preview_id sample_confirmed = 10"
  "sample_confirmed\<lparr>dp_account_display_name := ''Acme'', dp_items := [sample_confirmed_item]\<rparr> = sample_confirmed"
  by (simp_all add: sample_confirmed_def moved_preview_def sample_preview_def sample_confirmed_item_def)

lemma sample_confirmed_valid: "validate_document_preview invoice_lib sample_confirmed = Inr sample_confirmed"
proof -
  have "validate_item invoice_lib sample_confirmed_item = Inr sample_confirmed_item"
    using sample_financials_valid
    by (simp add: validate_item_def sample_confirmed_item_parts invoice_texts fields_valid_def Let_def
        require_safe_public_identifier_def raise_if_def)
  then show ?thesis
    by (simp add: validate_document_preview_def sample_confirmed_parts invoice_texts fields_valid_def
        check_preview_def)
qed

lemma sample_confirms:
  "preview_transition invoice_lib sample_preview PreviewConfirmed (Aware 1)
     (Some (Aware (1 + confirmed_payload_retention))) = Inr sample_confirmed"
  using sample_confirmed_valid
  by (simp add: preview_transition_def sample_confirmed_def transition_purge_after_def raise_if_def
      sample_preview_def preview_ttl_def)

definition sample_event :: "nat \<Rightarrow> uuid option \<Rightarrow> string \<Rightarrow> string \<Rightarrow> operation_event" where
  "sample_event n item source target =
     \<lparr>ev_event_id = 30, ev_operation_id = 20, ev_operation_item_id = item, ev_from_state = Some source,
      ev_to_state = target, ev_state_version = n, ev_sanitized_reason = ''start'', ev_occurred_at = 2\<rparr>"

definition sample_started :: hosted_operation where
  "sample_started = sample_operation
     \<lparr>ho_state := ParentDispatching, ho_state_version := 2, ho_updated_at := 2,
      ho_events := [first_event 22 20 1, sample_event 2 None ''awaiting_confirmation'' ''dispatching'']\<rparr>"

definition sample_sent :: hosted_operation where
  "sample_sent = sample_started
     \<lparr>ho_items := [(first_item 1 (21, sample_item, 0))
        \<lparr>oi_state := ItemDispatching, oi_state_version := 2, oi_updated_at := 2\<rparr>],
      ho_events := [first_event 22 20 1, sample_event 2 None ''awaiting_confirmation'' ''dispatching'',
        sample_event 2 (Some 21) ''awaiting_confirmation'' ''dispatching'']\<rparr>"

lemma sample_starts:
  "operation_transition invoice_lib sample_operation ParentDispatching 30 (Aware 2) ''start'' = Inr sample_started"
  by code_simp

lemma sample_started_valid: "validate_operation invoice_lib sample_started = Inr sample_started"
  by code_simp

lemma sample_sends:
  "operation_transition_item invoice_lib sample_started 21 ItemDispatching 30 (Aware 2) ''start'' None
     = Inr sample_sent"
  by code_simp

definition sample_stored :: hosted_store where
  "sample_stored = insert_preview sample_preview empty_hosted_store"

definition sample_ordered :: hosted_store where
  "sample_ordered = insert_operation sample_confirmed sample_operation sample_stored"

lemma sample_env [simp]: "se_lib sample_store_env = invoice_lib" "se_clock sample_store_env n = Aware 1"
  by (simp_all add: sample_store_env_def)

lemma sample_operation_fields [simp]:
  "ho_preview_id sample_operation = 10" "ho_operation_id sample_operation = 20"
  "ho_created_at sample_operation = 1" "ho_payload_purge_after sample_operation = 1 + confirmed_payload_retention"
  "ho_state_version sample_operation = 1" "check_scope sample_operation (Suc 0) 3 2"
  "check_scope sample_started (Suc 0) 3 2" "ho_preview_id sample_started = 10"
  "filter (\<lambda>i. oi_operation_item_id i = 21) (ho_items sample_started) = [first_item 1 (21, sample_item, 0)]"
  by (simp_all add: sample_started_def sample_operation_def check_scope_def first_item_def)

lemma sample_preview_ids [simp]:
  "dp_preview_id sample_preview = 10" "dp_state_version sample_preview = 1"
  "dp_expires_at sample_preview = seconds 1800"
  by (simp_all add: sample_preview_def preview_ttl_def)

lemma sample_authority_parts:
  "is_ok (validate_qualification invoice_lib (\<lambda>q. True) sample_qualification)"
  "connection_fields_valid invoice_lib sample_connection" "connection_state_valid sample_connection"
  "connection_matches invoice_lib sample_preview sample_connection"
  "qualification_identity_matches sample_preview sample_qualification"
  "qualification_is_current sample_qualification sample_connection 1"
  "projector_matches sample_projector sample_qualification"
  by code_simp+

lemma validate_qualification_id: "validate_qualification lib safe q = Inr r \<Longrightarrow> r = q"
  unfolding validate_qualification_def by (auto simp: outcome_simps split: if_splits)

lemma sample_authority:
  assumes "p = sample_preview \<or> p = sample_confirmed"
  shows "revalidate_operation_authority sample_store_env p = Inr ()"
proof -
  have q: "validate_qualification invoice_lib (\<lambda>q. True) sample_qualification = Inr sample_qualification"
    using sample_authority_parts(1) validate_qualification_id by (fastforce simp: is_ok_def split: sum.splits)
  have "connection_matches invoice_lib p sample_connection" "qualification_identity_matches p sample_qualification"
    "dp_projector_id p = rp_projector_id sample_projector"
    "dp_projector_version p = rp_projector_version sample_projector"
    using assms sample_authority_parts(4,5)
    by (auto simp: connection_matches_def qualification_identity_matches_def sample_confirmed_def
        moved_preview_def sample_preview_def sample_projector_def)
  then show ?thesis
    using q sample_authority_parts(2,3,6,7)
    by (auto simp: revalidate_operation_authority_def validate_authority_def validate_connection_def
        timestamp_of_def recoded_def raise_if_def sample_store_env_def resolve_projector_def)
qed

lemma sample_preview_created:
  "final (create_hosted_preview sample_store_env sample_preview) empty_hosted_store = sample_stored"
  by (simp add: sample_stored_def final_def create_hosted_preview_def eseq_def recoded_def revalidated_def
      sample_preview_valid empty_hosted_store_def)

lemma sample_operation_created:
  "final (create_operation sample_store_env sample_operation 1) sample_stored = sample_ordered"
proof -
  have "hs_previews sample_stored 10 = Some sample_preview"
    "hs_operation_by_preview sample_stored 10 = None" "hs_operations sample_stored 20 = None"
    by (simp_all add: sample_stored_def insert_preview_def empty_hosted_store_def)
  then show ?thesis
    by (simp add: sample_authority sample_ordered_def final_def create_operation_def confirm_preview_def eseq_def recoded_def
        lookup_or_def revalidated_operation_def timestamp_of_def sample_operation_valid
        sample_operation_matches sample_confirms)
qed

lemma sample_operation_started:
  "final (transition_operation sample_store_env 1 3 2 20 1 ParentDispatching 30 (Aware 2) ''start'')
     sample_ordered = put_operation 20 sample_started sample_ordered"
proof -
  have "hs_operations sample_ordered 20 = Some sample_operation" "hs_previews sample_ordered 10 = Some sample_confirmed"
    by (simp_all add: sample_ordered_def insert_operation_def)
  then show ?thesis
    by (simp add: sample_authority final_def transition_operation_def get_operation_def dispatch_authority_def eseq_def
        recoded_def lookup_or_def revalidated_operation_def sample_operation_valid sample_starts)
qed

lemma sample_item_sent:
  "final (transition_operation_item sample_store_env 1 3 2 20 21 1 ItemDispatching 30 (Aware 2) ''start'' None)
     (put_operation 20 sample_started sample_ordered)
   = put_operation 20 sample_sent (put_operation 20 sample_started sample_ordered)"
  by (simp add: final_def transition_operation_item_def get_operation_def eseq_def recoded_def lookup_or_def
      revalidated_operation_def sample_started_valid sample_sends put_operation_def first_item_def)

end
