(* ===== verification/Hosted_Safety.thy ===== *)
theory Hosted_Safety
  imports Hosted_Sample One_Shot
begin

text \<open>
  What the hosted store guarantees in any sequence of calls, by any callers, with any answers of the
  vault, the clock and the resolver. The invariant ties the five dictionaries together: a provider
  call belongs to one preview, a preview to at most one operation, an operation to the confirmed
  preview it was made of, and its log of events leads to its states. It makes the store an instance
  of \<open>One_Shot\<close>: a provider call of a connection is dispatched at most once.
\<close>

section \<open>Calls\<close>

datatype hosted_op =
    CreatePreview document_preview
  | FindPreview uuid uuid uuid uuid string
  | GetPreview uuid uuid uuid uuid
  | LoadConfirmable uuid uuid uuid uuid nat provider_connection qualification datetime
  | TransitionPreview uuid uuid uuid uuid nat preview_state datetime
  | CreateOperation hosted_operation nat
  | GetOperation uuid uuid uuid uuid
  | TransitionOperation uuid uuid uuid uuid nat parent_state uuid datetime string
  | TransitionItem uuid uuid uuid uuid uuid nat item_state uuid datetime string "string option"

definition hosted_step :: "store_env \<times> hosted_op \<Rightarrow> hosted_store \<Rightarrow> hosted_store" where
  "hosted_step x = (case x of (env, call) \<Rightarrow> (case call of
     CreatePreview p \<Rightarrow> final (create_hosted_preview env p)
   | FindPreview t u w c h \<Rightarrow> final (find_preview_by_provider_call env t u w c h)
   | GetPreview t u w i \<Rightarrow> final (get_hosted_preview env t u w i)
   | LoadConfirmable t u w i v c q now \<Rightarrow> final (load_confirmable env t u w i v c q now)
   | TransitionPreview t u w i v target at \<Rightarrow> final (transition_hosted_preview env t u w i v target at)
   | CreateOperation p v \<Rightarrow> final (create_operation env p v)
   | GetOperation t u w i \<Rightarrow> final (get_operation env t u w i)
   | TransitionOperation t u w i v target ev at reason \<Rightarrow>
       final (transition_operation env t u w i v target ev at reason)
   | TransitionItem t u w i k v target ev at reason identifier \<Rightarrow>
       final (transition_operation_item env t u w i k v target ev at reason identifier)))"

section \<open>What a call may do to the store\<close>

text \<open>The part of a preview that the store's keys depend on.\<close>

definition same_calls :: "document_preview \<Rightarrow> document_preview \<Rightarrow> bool" where
  "same_calls p q \<longleftrightarrow>
     same_scope q p \<and> dp_preview_id q = dp_preview_id p \<and>
     dp_provider_call_hash q = dp_provider_call_hash p \<and>
     map pi_provider_call_hash (dp_items q) = map pi_provider_call_hash (dp_items p)"

definition preview_calls_distinct :: "document_preview \<Rightarrow> bool" where
  "preview_calls_distinct p \<longleftrightarrow> distinct (map pi_provider_call_hash (dp_items p))"

definition made_of :: "hosted_operation \<Rightarrow> document_preview \<Rightarrow> bool" where
  "made_of p d \<longleftrightarrow>
     ho_preview_id p = dp_preview_id d \<and> same_scope p d \<and>
     map oi_provider_call_hash (ho_items p) = map pi_provider_call_hash (dp_items d)"

definition fresh_operation :: "hosted_operation \<Rightarrow> bool" where
  "fresh_operation p \<longleftrightarrow>
     configuration p = (ParentAwaitingConfirmation, replicate (length (ho_items p)) ItemAwaitingConfirmation)"

definition operation_ok :: "hosted_operation \<Rightarrow> bool" where
  "operation_ok p \<longleftrightarrow>
     coherent (configuration p) \<and> distinct (map oi_operation_item_id (ho_items p)) \<and> log_complete p"

inductive store_move :: "hosted_store \<Rightarrow> hosted_store \<Rightarrow> bool" where
  stays: "store_move s s"
| preview_added: "hs_preview_calls s (call_key p (dp_provider_call_hash p)) = None \<Longrightarrow>
    hs_previews s (dp_preview_id p) = None \<Longrightarrow> item_keys p \<inter> hs_item_calls s = {} \<Longrightarrow>
    preview_calls_distinct p \<Longrightarrow>
    store_move s (insert_preview p s)"
| preview_moved: "hs_previews s i = Some p \<Longrightarrow> same_calls p q \<Longrightarrow> dp_state p \<noteq> PreviewConfirmed \<Longrightarrow>
    dp_state q \<noteq> PreviewConfirmed \<Longrightarrow> store_move s (s\<lparr>hs_previews := (hs_previews s)(i \<mapsto> q)\<rparr>)"
| operation_added: "hs_previews s (ho_preview_id o') = Some p \<Longrightarrow>
    hs_operation_by_preview s (ho_preview_id o') = None \<Longrightarrow> hs_operations s (ho_operation_id o') = None \<Longrightarrow>
    same_calls p q \<Longrightarrow> dp_state q = PreviewConfirmed \<Longrightarrow> made_of o' p \<Longrightarrow> fresh_operation o' \<Longrightarrow>
    operation_ok o' \<Longrightarrow> store_move s (insert_operation q o' s)"
| operation_moved: "hs_operations s i = Some p \<Longrightarrow> same_identity p q \<Longrightarrow>
    op_step (configuration p) (configuration q) \<Longrightarrow> (operation_ok p \<Longrightarrow> operation_ok q) \<Longrightarrow>
    store_move s (put_operation i q s)"

section \<open>Validation and transitions keep the identity of a preview and an operation\<close>

lemma same_calls_refl [simp]: "same_calls p p"
  by (simp add: same_calls_def same_scope_def)

lemma same_calls_trans: "same_calls p q \<Longrightarrow> same_calls q r \<Longrightarrow> same_calls p r"
  by (simp add: same_calls_def same_scope_def)

lemma validate_item_call:
  "validate_item lib i = Inr j \<Longrightarrow> pi_provider_call_hash j = pi_provider_call_hash i"
  by (auto simp: validate_item_def outcome_simps Let_def)

lemma fields_valid_Inr: "fields_valid ok r = Inr x \<longleftrightarrow> ok \<and> r = Inr x"
  by (cases r) (auto simp: fields_valid_def)

lemma validate_all_map:
  "validate_all f xs = Inr ys \<Longrightarrow> (\<And>x y. f x = Inr y \<Longrightarrow> g y = g x) \<Longrightarrow> map g ys = map g xs"
proof (induction xs arbitrary: ys)
  case (Cons x xs)
  then show ?case
    by (cases "f x") (auto simp: outcome_simps fields_valid_Inr split: if_splits)
qed simp

lemma validate_document_preview_Inr:
  assumes "validate_document_preview lib p = Inr q"
  shows "same_calls p q" and "dp_state q = dp_state p" and "preview_calls_distinct q"
    and "check_preview lib q = Inr ()"
proof -
  from assms obtain items account where
    items: "validate_all (validate_item lib) (dp_items p) = Inr items"
    and q: "q = p\<lparr>dp_account_display_name := account, dp_items := items\<rparr>"
    and check: "check_preview lib q = Inr ()"
    by (auto simp: validate_document_preview_def outcome_simps fields_valid_Inr Let_def)
  show "same_calls p q"
    using validate_all_map[OF items validate_item_call] by (simp add: q same_calls_def same_scope_def)
  show "dp_state q = dp_state p" by (simp add: q)
  show "check_preview lib q = Inr ()" by (rule check)
  then show "preview_calls_distinct q"
    by (auto simp: check_preview_def check_preview_items_def preview_calls_distinct_def outcome_simps Let_def
        split: if_splits)
qed

lemma preview_transition_Inr:
  assumes "preview_transition lib p target at purge = Inr q"
  shows "same_calls p q" and "dp_state q = target" and "dp_state p \<noteq> PreviewConfirmed"
proof -
  from assms obtain t t' where g: "target \<in> preview_transitions (dp_state p)"
    and v: "validate_document_preview lib (moved_preview p target t t') = Inr q"
    by (auto simp: preview_transition_def outcome_simps split: if_splits)
  note k = validate_document_preview_Inr[OF v]
  show "same_calls p q"
    using k(1) by (simp add: same_calls_def same_scope_def moved_preview_def comp_def)
  show "dp_state q = target" using k(2) by (simp add: moved_preview_def)
  show "dp_state p \<noteq> PreviewConfirmed" using g by auto
qed

lemma same_identity_trans: "same_identity p q \<Longrightarrow> same_identity q r \<Longrightarrow> same_identity p r"
  by (simp add: same_identity_def same_scope_def)

lemma validate_operation_ok:
  assumes "validate_operation lib p = Inr q" and "log_complete p"
  shows "operation_ok q"
proof -
  note k = validate_operation_keeps[OF assms(1)]
  from validate_operation_Inr[OF assms(1)] have d: "distinct (map oi_operation_item_id (ho_items q))"
    by (metis check_operation_distinct)
  have ids: "map oi_operation_item_id (ho_items q) = map oi_operation_item_id (ho_items p)"
    using k(1) by (simp add: same_identity_def)
  have c: "ho_state q = ho_state p" "map oi_state (ho_items q) = map oi_state (ho_items p)"
    using k(2) by (simp_all add: configuration_def)
  have ev: "item_events q i = item_events p i" "parent_events q = parent_events p" for i
    by (simp_all add: item_events_def parent_events_def k(3))
  have "\<forall>i \<in> set (ho_items q).
      replay (item_value ItemAwaitingConfirmation) 1 (item_events q (oi_operation_item_id i))
        = Some (item_value (oi_state i), oi_state_version i)"
    using log_complete_items[OF assms(2)]
    unfolding item_log_iff unfolding ev ids c(2) k(5) same_identity_length[OF k(1)] .
  with assms(2) have "log_complete q" unfolding log_complete_def ev c(1) k(4) by blast
  with d k(6) show ?thesis by (simp add: operation_ok_def)
qed

lemma transition_ok:
  assumes "operation_transition lib p target event_id at reason = Inr q" and "operation_ok p"
  shows "operation_ok q"
proof -
  from operation_transition_Inr[OF assms(1)] have "same_identity p q" "coherent (configuration q)"
    by blast+
  with assms(2) log_complete_transition[OF assms(1)] show ?thesis
    by (simp add: operation_ok_def same_identity_def)
qed

lemma transition_item_ok:
  assumes "operation_transition_item lib p item_id target event_id at reason identifier = Inr q"
    and "operation_ok p"
  shows "operation_ok q"
proof -
  from operation_transition_item_Inr[OF assms(1)] have "same_identity p q" "coherent (configuration q)"
    by blast+
  with assms(2) log_complete_transition_item[OF assms(1)] show ?thesis
    by (simp add: operation_ok_def same_identity_def)
qed

lemma fresh_operation_log:
  assumes "validate_operation lib o' = Inr p" and "operation_matches_preview p d"
  shows "fresh_operation p" and "log_complete p" and "made_of p d"
proof -
  have len: "length (ho_items p) = length (dp_items d)" and fe: "first_event_matches p"
    and match: "list_all (operation_item_matches p) (zip (ho_items p) (dp_items d))"
    and st: "ho_state p = ParentAwaitingConfirmation" "ho_state_version p = 1"
    and sc: "ho_preview_id p = dp_preview_id d" "same_scope p d"
    using assms(2) by (simp_all add: operation_matches_preview_def)
  have all: "operation_item_matches p (ho_items p ! n, dp_items d ! n)" if "n < length (ho_items p)" for n
    using match that len by (auto simp: list_all_length)
  have awaiting: "oi_state i = ItemAwaitingConfirmation \<and> oi_state_version i = 1" if "i \<in> set (ho_items p)" for i
  proof -
    from that obtain n where "n < length (ho_items p)" "i = ho_items p ! n" by (auto simp: in_set_conv_nth)
    with all[of n] show ?thesis by (simp add: operation_item_matches_def)
  qed
  have "map oi_state (ho_items p) = replicate (length (ho_items p)) ItemAwaitingConfirmation"
    using awaiting by (intro nth_equalityI) simp_all
  then show "fresh_operation p" by (simp add: fresh_operation_def configuration_def st)
  from fe obtain ev where ev: "ho_events p = [ev]" "ev_operation_item_id ev = None"
      "ev_from_state ev = None" "ev_to_state ev = parent_value ParentAwaitingConfirmation"
      "ev_state_version ev = 1"
    by (auto simp: first_event_matches_def split: list.splits)
  show "log_complete p"
    using awaiting by (auto simp: log_complete_def parent_events_def item_events_def ev st)
  have "map oi_provider_call_hash (ho_items p) = map pi_provider_call_hash (dp_items d)"
    using all len by (intro nth_equalityI) (auto simp: operation_item_matches_def)
  with sc show "made_of p d" by (simp add: made_of_def)
qed

section \<open>Every call is one move\<close>

lemma wp_lookup [simp]:
  "wp (lookup_or e v) Q s = (case v of None \<Rightarrow> Q (Inl e) s | Some x \<Rightarrow> Q (Inr x) s)"
  by (simp add: lookup_or_def split: option.split)

lemma wp_revalidated [simp]: "wp (revalidated env p) Q s = Q (validate_document_preview (se_lib env) p) s"
  by (simp add: revalidated_def)

lemma wp_revalidated_operation [simp]:
  "wp (revalidated_operation env p) Q s = Q (validate_operation (se_lib env) p) s"
  by (simp add: revalidated_operation_def)

lemma recoded_Inr [simp]: "recoded code r = Inr x \<longleftrightarrow> r = Inr x"
  by (cases r) (auto simp: recoded_def)

text \<open>Reading a preview or an operation: the state stays, and what is returned was stored.\<close>

lemma wp_get_hosted_preview:
  assumes "\<And>e. Q (Inl e) s"
    and "\<And>p q. hs_previews s i = Some p \<Longrightarrow> check_scope p t u w \<Longrightarrow>
      validate_document_preview (se_lib env) p = Inr q \<Longrightarrow> Q (Inr q) s"
  shows "wp (get_hosted_preview env t u w i) Q s"
  using assms
  by (cases "hs_previews s i"; cases "validate_document_preview (se_lib env) (the (hs_previews s i))")
    (auto simp: get_hosted_preview_def)

lemma wp_get_operation:
  assumes "\<And>e. Q (Inl e) s"
    and "\<And>p q. hs_operations s i = Some p \<Longrightarrow> check_scope p t u w \<Longrightarrow>
      validate_operation (se_lib env) p = Inr q \<Longrightarrow> Q (Inr q) s"
  shows "wp (get_operation env t u w i) Q s"
  using assms
  by (cases "hs_operations s i"; cases "validate_operation (se_lib env) (the (hs_operations s i))")
    (auto simp: get_operation_def)

abbreviation moves :: "hosted_store \<Rightarrow> 'a hosted_method \<Rightarrow> bool" where
  "moves s m \<equiv> wp m (\<lambda>r. store_move s) s"

lemma create_preview_moves: "moves s (create_hosted_preview env p)"
proof (cases "validate_document_preview (se_lib env) p")
  case (Inl e)
  then show ?thesis by (simp add: create_hosted_preview_def recoded_def stays)
next
  case (Inr q)
  note k = validate_document_preview_Inr[OF Inr]
  show ?thesis
    using preview_added[OF _ _ _ k(3)]
    by (simp add: create_hosted_preview_def Inr recoded_def stays split: option.split sum.split)
qed

lemma find_preview_moves: "moves s (find_preview_by_provider_call env t u w c h)"
  by (auto simp: find_preview_by_provider_call_def stays split: option.split sum.split)

lemma get_preview_moves: "moves s (get_hosted_preview env t u w i)"
  by (rule wp_get_hosted_preview) (simp_all add: stays)

lemma load_confirmable_moves: "moves s (load_confirmable env t u w i v c q now)"
  unfolding load_confirmable_def wp_eseq
  by (rule wp_get_hosted_preview) (simp_all add: stays)

lemma transition_preview_rest:
  assumes p: "hs_previews s i = Some p" and q: "validate_document_preview (se_lib env) p = Inr q"
  shows "moves s
    (eseq (eguard (dp_state_version q \<noteq> v) (hosted_error ''preview_state_stale'')) (\<lambda>_.
     eseq (eguard (target = PreviewConfirmed) (hosted_error ''preview_state_invalid'')) (\<lambda>_.
     eseq (elift (recoded (transition_code ''preview_state_invalid'')
             (preview_transition (se_lib env) q target at None))) (\<lambda>moved.
     eseq (eput (\<lambda>s. s\<lparr>hs_previews := (hs_previews s)(i \<mapsto> moved)\<rparr>)) (\<lambda>_.
     revalidated env moved)))))"
proof (cases "preview_transition (se_lib env) q target at None")
  case (Inr m)
  note k = validate_document_preview_Inr[OF q] and t = preview_transition_Inr[OF Inr]
  have "target \<noteq> PreviewConfirmed \<Longrightarrow> store_move s (s\<lparr>hs_previews := (hs_previews s)(i \<mapsto> m)\<rparr>)"
    using t k by (intro preview_moved[OF p same_calls_trans]) auto
  then show ?thesis by (auto simp: Inr recoded_def stays)
qed (simp add: recoded_def stays)

lemma wp_get_preview_then:
  assumes "\<And>e. Q (Inl e) s"
    and "\<And>p q. hs_previews s i = Some p \<Longrightarrow> check_scope p t u w \<Longrightarrow>
      validate_document_preview (se_lib env) p = Inr q \<Longrightarrow> wp (f q) Q s"
  shows "wp (eseq (get_hosted_preview env t u w i) f) Q s"
  unfolding wp_eseq using assms by (intro wp_get_hosted_preview) simp_all

lemma wp_get_operation_then:
  assumes "\<And>e. Q (Inl e) s"
    and "\<And>p q. hs_operations s i = Some p \<Longrightarrow> check_scope p t u w \<Longrightarrow>
      validate_operation (se_lib env) p = Inr q \<Longrightarrow> wp (f q) Q s"
  shows "wp (eseq (get_operation env t u w i) f) Q s"
  unfolding wp_eseq using assms by (intro wp_get_operation) simp_all

lemma transition_preview_moves: "moves s (transition_hosted_preview env t u w i v target at)"
  unfolding transition_hosted_preview_def
  by (rule wp_get_preview_then) (simp_all only: stays transition_preview_rest)


section \<open>Operations\<close>

lemma confirm_preview_moves:
  assumes p: "hs_previews s (ho_preview_id o') = Some p" and none: "hs_operation_by_preview s (ho_preview_id o') = None"
    and valid: "validate_operation (se_lib env) o0 = Inr o'"
  shows "moves s (confirm_preview env p o' v)"
proof (cases "preview_transition (se_lib env) p PreviewConfirmed (Aware (ho_created_at o'))
                (Some (Aware (ho_payload_purge_after o')))")
  case (Inl e)
  then show ?thesis
    by (auto simp: confirm_preview_def recoded_def stays split: sum.split)
next
  case (Inr c)
  note t = preview_transition_Inr[OF Inr]
  have "store_move s (insert_operation c o' s)"
    if "hs_operations s (ho_operation_id o') = None" and m: "operation_matches_preview o' p"
  proof -
    note f = fresh_operation_log[OF valid m]
    have "distinct (map oi_operation_item_id (ho_items o'))"
      using validate_operation_Inr[OF valid] by (metis check_operation_distinct)
    then have "operation_ok o'"
      using f(2) validate_operation_keeps(6)[OF valid] by (simp add: operation_ok_def)
    with f t that show ?thesis by (intro operation_added[OF p none]) simp_all
  qed
  then show ?thesis
    by (auto simp: confirm_preview_def Inr recoded_def stays split: sum.split)
qed

lemma create_operation_moves: "moves s (create_operation env o' v)"
proof (cases "validate_operation (se_lib env) o'")
  case (Inl e)
  then show ?thesis by (simp add: create_operation_def recoded_def stays)
next
  case (Inr q)
  show ?thesis
  proof (cases "hs_previews s (ho_preview_id q)")
    case (Some p)
    then show ?thesis
    proof (cases "hs_operation_by_preview s (ho_preview_id q)")
      case None
      from confirm_preview_moves[OF Some None Inr] Some None show ?thesis
        by (simp add: create_operation_def Inr recoded_def)
    qed (simp add: create_operation_def Inr recoded_def stays split: option.split sum.split)
  qed (simp add: create_operation_def Inr recoded_def stays)
qed

lemma get_operation_moves: "moves s (get_operation env t u w i)"
  by (rule wp_get_operation) (simp_all add: stays)

lemma wp_dispatch_authority:
  assumes "\<And>r. Q r s"
  shows "wp (dispatch_authority env p target) Q s"
  using assms by (auto simp: dispatch_authority_def split: option.split sum.split)

lemma operation_transition_moves:
  assumes p: "hs_operations s i = Some p" and q: "validate_operation (se_lib env) p = Inr q"
    and step: "same_identity q m" "op_step (configuration q) (configuration m)"
    and ok: "operation_ok q \<Longrightarrow> operation_ok m"
  shows "store_move s (put_operation i m s)"
proof (rule operation_moved[OF p])
  note k = validate_operation_keeps[OF q]
  show "same_identity p m" using k(1) step(1) by (rule same_identity_trans)
  show "op_step (configuration p) (configuration m)" using step(2) k(2) by simp
  show "operation_ok m" if "operation_ok p"
    using that ok validate_operation_ok[OF q] by (auto simp: operation_ok_def)
qed

lemma transition_operation_moves: "moves s (transition_operation env t u w i v target ev at reason)"
  unfolding transition_operation_def
proof (rule wp_get_operation_then)
  fix p q
  assume p: "hs_operations s i = Some p" and q: "validate_operation (se_lib env) p = Inr q"
  have m: "store_move s (put_operation i m s)"
    if "operation_transition (se_lib env) q target ev at reason = Inr m" for m
    using operation_transition_moves[OF p q] operation_transition_Inr[OF that] transition_ok[OF that]
      operation_transition_step[OF that] by blast
  show "moves s
    (eseq (eguard (ho_state_version q \<noteq> v) (hosted_error ''operation_state_stale'')) (\<lambda>_.
     eseq (dispatch_authority env q target) (\<lambda>_.
     eseq (elift (recoded (\<lambda>e. ''operation_transition_invalid'')
             (operation_transition (se_lib env) q target ev at reason))) (\<lambda>moved.
     eseq (eput (put_operation i moved)) (\<lambda>_.
     revalidated_operation env moved)))))"
    by (cases "operation_transition (se_lib env) q target ev at reason")
      (auto simp: recoded_def stays m intro!: wp_dispatch_authority split: sum.split)
qed (simp add: stays)

lemma transition_item_moves:
  "moves s (transition_operation_item env t u w i k v target ev at reason identifier)"
  unfolding transition_operation_item_def
proof (rule wp_get_operation_then)
  fix p q
  assume p: "hs_operations s i = Some p" and q: "validate_operation (se_lib env) p = Inr q"
  have m: "store_move s (put_operation i m s)"
    if "operation_transition_item (se_lib env) q k target ev at reason identifier = Inr m" for m
    using operation_transition_moves[OF p q] operation_transition_item_Inr[OF that] transition_item_ok[OF that]
      operation_transition_item_step[OF that] by blast
  show "moves s
    (case filter (\<lambda>i. oi_operation_item_id i = k) (ho_items q) of
       [item] \<Rightarrow>
         eseq (eguard (oi_state_version item \<noteq> v) (hosted_error ''operation_state_stale'')) (\<lambda>_.
         eseq (elift (recoded (\<lambda>e. ''operation_transition_invalid'')
                 (operation_transition_item (se_lib env) q k target ev at reason identifier))) (\<lambda>moved.
         eseq (eput (put_operation i moved)) (\<lambda>_.
         revalidated_operation env moved)))
     | _ \<Rightarrow> efail (hosted_error ''operation_not_found''))"
    by (cases "operation_transition_item (se_lib env) q k target ev at reason identifier")
      (auto simp: recoded_def stays m split: list.split)
qed (simp add: stays)

lemma moves_final: "moves s m \<Longrightarrow> store_move s (final m s)"
  by (simp add: wp_def)

lemma hosted_step_moves: "store_move s (hosted_step x s)"
  unfolding hosted_step_def
  by (auto split: prod.split hosted_op.split intro!: moves_final create_preview_moves find_preview_moves
      get_preview_moves load_confirmable_moves transition_preview_moves create_operation_moves
      get_operation_moves transition_operation_moves transition_item_moves)

section \<open>The invariant of the store\<close>

definition previews_ok :: "hosted_store \<Rightarrow> bool" where
  "previews_ok s \<longleftrightarrow>
     (\<forall>i p. hs_previews s i = Some p \<longrightarrow>
        dp_preview_id p = i \<and> preview_calls_distinct p \<and> item_keys p \<subseteq> hs_item_calls s) \<and>
     (\<forall>i j p q. hs_previews s i = Some p \<longrightarrow> hs_previews s j = Some q \<longrightarrow> i \<noteq> j \<longrightarrow>
        item_keys p \<inter> item_keys q = {})"

definition operations_ok :: "hosted_store \<Rightarrow> bool" where
  "operations_ok s \<longleftrightarrow>
     (\<forall>i p. hs_operations s i = Some p \<longrightarrow>
        ho_operation_id p = i \<and> hs_operation_by_preview s (ho_preview_id p) = Some i \<and> operation_ok p \<and>
        (\<exists>d. hs_previews s (ho_preview_id p) = Some d \<and> made_of p d \<and> dp_state d = PreviewConfirmed))"

definition indexes_ok :: "hosted_store \<Rightarrow> bool" where
  "indexes_ok s \<longleftrightarrow>
     ran (hs_preview_calls s) \<subseteq> dom (hs_previews s) \<and>
     ran (hs_operation_by_preview s) \<subseteq> dom (hs_operations s)"

definition hosted_inv :: "hosted_store \<Rightarrow> bool" where
  "hosted_inv s \<longleftrightarrow> previews_ok s \<and> operations_ok s \<and> indexes_ok s"

lemma hosted_inv_empty: "hosted_inv empty_hosted_store"
  by (simp add: hosted_inv_def previews_ok_def operations_ok_def indexes_ok_def empty_hosted_store_def)

lemma same_calls_keys:
  assumes "same_calls p q"
  shows "item_keys q = item_keys p" and "preview_calls_distinct q \<longleftrightarrow> preview_calls_distinct p"
proof -
  have m: "map pi_provider_call_hash (dp_items q) = map pi_provider_call_hash (dp_items p)"
    and sc: "workspace_id q = workspace_id p" "connection_id q = connection_id p"
    using assms by (simp_all add: same_calls_def same_scope_def)
  have keys: "item_keys r = call_key r ` set (map pi_provider_call_hash (dp_items r))" for r
    by (simp add: item_keys_def image_image)
  have "call_key q = call_key p" by (simp add: call_key_def sc fun_eq_iff)
  then show "item_keys q = item_keys p" unfolding keys m by simp
  show "preview_calls_distinct q \<longleftrightarrow> preview_calls_distinct p"
    by (simp add: preview_calls_distinct_def m)
qed

lemma previews_ok_upd:
  assumes "previews_ok s" and "hs_previews s i = Some p" and "same_calls p q"
    and "hs_previews s' = (hs_previews s)(i \<mapsto> q)" and "hs_item_calls s' = hs_item_calls s"
  shows "previews_ok s'"
proof -
  have "dp_preview_id q = i" using assms(1-3) by (auto simp: previews_ok_def same_calls_def)
  moreover from assms(1,2) have "preview_calls_distinct p" "item_keys p \<subseteq> hs_item_calls s"
    "\<And>j r. hs_previews s j = Some r \<Longrightarrow> i \<noteq> j \<Longrightarrow> item_keys p \<inter> item_keys r = {}"
    unfolding previews_ok_def by blast+
  ultimately show ?thesis
    using assms(1) same_calls_keys[OF assms(3)] unfolding previews_ok_def assms(4,5)
    by (simp add: Int_commute)
qed

lemma previews_ok_add:
  assumes "previews_ok s" and "item_keys p \<inter> hs_item_calls s = {}" and "preview_calls_distinct p"
  shows "previews_ok (insert_preview p s)"
  using assms unfolding previews_ok_def insert_preview_def by (simp, blast)

lemma operations_ok_upd:
  assumes "operations_ok s" and "hs_previews s i = Some p" and "same_calls p q"
    and "dp_state p \<noteq> PreviewConfirmed"
  shows "operations_ok (s\<lparr>hs_previews := (hs_previews s)(i \<mapsto> q)\<rparr>)"
  using assms unfolding operations_ok_def by (simp, metis option.sel)

lemma operations_ok_put:
  assumes ok: "operations_ok s" and p: "hs_operations s i = Some p" and id: "same_identity p q"
    and step: "operation_ok p \<Longrightarrow> operation_ok q"
  shows "operations_ok (put_operation i q s)"
proof -
  from ok p obtain d where "ho_operation_id p = i" "hs_operation_by_preview s (ho_preview_id p) = Some i"
    "operation_ok p" "hs_previews s (ho_preview_id p) = Some d" "made_of p d" "dp_state d = PreviewConfirmed"
    by (auto simp: operations_ok_def)
  moreover from this id have "made_of q d" by (simp add: made_of_def same_identity_def same_scope_def)
  ultimately have "ho_operation_id q = i \<and> hs_operation_by_preview s (ho_preview_id q) = Some i \<and> operation_ok q \<and>
      (\<exists>d. hs_previews s (ho_preview_id q) = Some d \<and> made_of q d \<and> dp_state d = PreviewConfirmed)"
    using id step by (simp add: same_identity_def)
  with ok show ?thesis by (simp add: operations_ok_def put_operation_def)
qed

lemma made_of_same_calls: "made_of p d \<Longrightarrow> same_calls d e \<Longrightarrow> made_of p e"
  by (simp add: made_of_def same_calls_def same_scope_def)

lemma operations_ok_add:
  assumes ok: "operations_ok s" and none: "hs_operation_by_preview s (ho_preview_id p) = None"
    and fresh: "hs_operations s (ho_operation_id p) = None" and made: "made_of p d" "same_calls d c"
    and c: "dp_state c = PreviewConfirmed" "operation_ok p"
  shows "operations_ok (insert_operation c p s)"
proof -
  have id: "dp_preview_id c = ho_preview_id p" using made by (simp add: made_of_def same_calls_def)
  have "ho_preview_id q \<noteq> ho_preview_id p" "i \<noteq> ho_operation_id p" if "hs_operations s i = Some q" for i q
    using that ok none fresh unfolding operations_ok_def by (metis option.distinct(1))+
  with ok c made_of_same_calls[OF made] show ?thesis
    by (auto simp: operations_ok_def insert_operation_def id)
qed

lemma store_move_inv:
  assumes "store_move s s'" and "hosted_inv s"
  shows "hosted_inv s'"
  using assms
proof (cases rule: store_move.cases)
  case (preview_added p)
  with assms(2) have "operations_ok s'"
    unfolding hosted_inv_def operations_ok_def insert_preview_def by (simp, metis option.distinct(1))
  moreover have "previews_ok s'" using preview_added previews_ok_add assms(2) by (simp add: hosted_inv_def)
  moreover have "indexes_ok s'"
    using preview_added assms(2) by (auto simp: hosted_inv_def indexes_ok_def insert_preview_def)
  ultimately show ?thesis by (simp add: hosted_inv_def)
next
  case (preview_moved i p q)
  then have "previews_ok s'"
    using previews_ok_upd[of s i p q s'] assms(2) by (simp add: hosted_inv_def)
  moreover have "operations_ok s'"
    using preview_moved operations_ok_upd[of s i p q] assms(2) by (simp add: hosted_inv_def)
  moreover have "indexes_ok s'" using preview_moved assms(2) by (auto simp: hosted_inv_def indexes_ok_def)
  ultimately show ?thesis by (simp add: hosted_inv_def)
next
  case (operation_added o' p q)
  then have i: "dp_preview_id q = ho_preview_id o'" by (simp add: made_of_def same_calls_def)
  have "previews_ok s'"
    using operation_added(1,2,5) i previews_ok_upd[of s "ho_preview_id o'" p q s'] assms(2)
    by (simp add: hosted_inv_def insert_operation_def)
  moreover have "operations_ok s'"
    using operation_added operations_ok_add[of s o' p q] assms(2) by (simp add: hosted_inv_def)
  moreover have "indexes_ok s'"
    using operation_added(1-4) i assms(2) by (auto simp: hosted_inv_def indexes_ok_def insert_operation_def)
  ultimately show ?thesis by (simp add: hosted_inv_def)
next
  case (operation_moved i p q)
  with assms(2) operations_ok_put[of s i p q] show ?thesis
    by (auto simp: hosted_inv_def indexes_ok_def put_operation_def previews_ok_def)
qed simp

lemma hosted_inv_step: "hosted_inv s \<Longrightarrow> hosted_inv (hosted_step x s)"
  by (rule store_move_inv[OF hosted_step_moves])

section \<open>Dispatching a provider call\<close>

text \<open>Item number \<open>n\<close> of operation \<open>i\<close> is for the provider call \<open>k\<close> and is in state \<open>st\<close>.\<close>

definition item_at :: "hosted_store \<Rightarrow> uuid \<Rightarrow> nat \<Rightarrow> uuid \<times> uuid \<times> string \<Rightarrow> item_state \<Rightarrow> bool" where
  "item_at s i n k st \<longleftrightarrow>
     (case hs_operations s i of
        None \<Rightarrow> False
      | Some p \<Rightarrow> n < length (ho_items p) \<and> k = call_key p (oi_provider_call_hash (ho_items p ! n)) \<and>
          st = oi_state (ho_items p ! n))"

text \<open>The call \<open>x\<close> begins to dispatch \<open>k\<close>: an item for it enters the state \<open>dispatching\<close>.\<close>

definition dispatches :: "store_env \<times> hosted_op \<Rightarrow> uuid \<times> uuid \<times> string \<Rightarrow> hosted_store \<Rightarrow> bool" where
  "dispatches x k s \<longleftrightarrow>
     (\<exists>i n. item_at (hosted_step x s) i n k ItemDispatching \<and> \<not> item_at s i n k ItemDispatching)"

definition dispatched :: "hosted_store \<Rightarrow> uuid \<times> uuid \<times> string \<Rightarrow> bool" where
  "dispatched s k \<longleftrightarrow> (\<exists>i n st. item_at s i n k st \<and> item_rank st \<le> item_rank ItemDispatching)"

lemma item_at_unique:
  assumes inv: "hosted_inv s" and a: "item_at s i n k st" and b: "item_at s j m k st'"
  shows "i = j" and "n = m" and "st = st'"
proof -
  from a obtain p where p: "hs_operations s i = Some p" "n < length (ho_items p)"
    "k = call_key p (oi_provider_call_hash (ho_items p ! n))" "st = oi_state (ho_items p ! n)"
    by (auto simp: item_at_def split: option.splits)
  from b obtain q where q: "hs_operations s j = Some q" "m < length (ho_items q)"
    "k = call_key q (oi_provider_call_hash (ho_items q ! m))" "st' = oi_state (ho_items q ! m)"
    by (auto simp: item_at_def split: option.splits)
  from inv p(1) obtain d where d: "hs_operation_by_preview s (ho_preview_id p) = Some i"
    "hs_previews s (ho_preview_id p) = Some d" "made_of p d"
    by (auto simp: hosted_inv_def operations_ok_def)
  from inv q(1) obtain e where e: "hs_operation_by_preview s (ho_preview_id q) = Some j"
    "hs_previews s (ho_preview_id q) = Some e" "made_of q e"
    by (auto simp: hosted_inv_def operations_ok_def)
  have key: "k' \<in> item_keys f"
    if "made_of r f" "l < length (ho_items r)" "k' = call_key r (oi_provider_call_hash (ho_items r ! l))" for r f l k'
  proof -
    have m: "map oi_provider_call_hash (ho_items r) = map pi_provider_call_hash (dp_items f)"
      and sc: "call_key r = call_key f"
      using that(1) by (simp_all add: made_of_def same_scope_def call_key_def fun_eq_iff)
    have "oi_provider_call_hash (ho_items r ! l) \<in> set (map oi_provider_call_hash (ho_items r))"
      using that(2) by simp
    then show ?thesis unfolding that(3) sc item_keys_def m by auto
  qed
  have "ho_preview_id p = ho_preview_id q"
    using inv d(2) e(2) key[OF d(3) p(2,3)] key[OF e(3) q(2,3)]
    unfolding hosted_inv_def previews_ok_def by blast
  then show ij: "i = j" using d e by simp
  then have pq: "q = p" using p q by simp
  have "preview_calls_distinct d" using inv d(2) by (auto simp: hosted_inv_def previews_ok_def)
  then have "distinct (map oi_provider_call_hash (ho_items p))"
    using d(3) by (simp add: made_of_def preview_calls_distinct_def)
  then show nm: "n = m"
    using p q by (simp add: pq call_key_def distinct_conv_nth) blast
  show "st = st'" using p(4) q(4) by (simp add: pq nm)
qed

lemma store_move_operations:
  assumes "store_move s s'" and "hs_operations s' i = Some q"
  shows "hs_operations s i = Some q \<or> fresh_operation q \<or>
    (\<exists>p. hs_operations s i = Some p \<and> same_identity p q \<and> op_step (configuration p) (configuration q))"
  using assms
  by (induction rule: store_move.induct)
    (auto simp: insert_preview_def insert_operation_def put_operation_def split: if_splits)

lemma store_move_keeps_operation:
  assumes "store_move s s'" and "hs_operations s i = Some p"
  obtains q where "hs_operations s' i = Some q" and "same_identity p q"
    and "p = q \<or> op_step (configuration p) (configuration q)"
  using assms
proof (induction rule: store_move.induct)
  case (operation_moved s j r q)
  then show ?case by (cases "i = j") (auto simp: put_operation_def)
next
  case (operation_added s o' r q)
  then show ?case by (cases "i = ho_operation_id o'") (auto simp: insert_operation_def)
qed (auto simp: insert_preview_def)

lemma step_item_rank:
  assumes id: "same_identity p q" and step: "p = q \<or> op_step (configuration p) (configuration q)"
    and n: "n < length (ho_items p)"
  shows "n < length (ho_items q)"
    and "call_key q (oi_provider_call_hash (ho_items q ! n)) = call_key p (oi_provider_call_hash (ho_items p ! n))"
    and "oi_state (ho_items q ! n) = oi_state (ho_items p ! n) \<or>
      item_rank (oi_state (ho_items q ! n)) < item_rank (oi_state (ho_items p ! n))"
proof -
  have len: "length (ho_items q) = length (ho_items p)" by (rule same_identity_length[OF id])
  with n show q: "n < length (ho_items q)" by simp
  have "map oi_provider_call_hash (ho_items q) ! n = map oi_provider_call_hash (ho_items p) ! n"
    using id by (simp add: same_identity_def)
  with n q show "call_key q (oi_provider_call_hash (ho_items q ! n))
      = call_key p (oi_provider_call_hash (ho_items p ! n))"
    using id by (simp add: same_identity_def same_scope_def call_key_def)
  show "oi_state (ho_items q ! n) = oi_state (ho_items p ! n) \<or>
      item_rank (oi_state (ho_items q ! n)) < item_rank (oi_state (ho_items p ! n))"
    using step
  proof
    assume "op_step (configuration p) (configuration q)"
    from op_step_item[OF this, of n] n q show ?thesis
      by (auto simp: configuration_def dest: item_transition_rank)
  qed simp
qed

lemma item_at_forward:
  assumes "store_move s s'" and "item_at s i n k st"
  shows "\<exists>st'. item_at s' i n k st' \<and> item_rank st' \<le> item_rank st"
proof -
  from assms(2) obtain p where p: "hs_operations s i = Some p" "n < length (ho_items p)"
    "k = call_key p (oi_provider_call_hash (ho_items p ! n))" "st = oi_state (ho_items p ! n)"
    by (auto simp: item_at_def split: option.splits)
  obtain q where q: "hs_operations s' i = Some q" "same_identity p q"
    "p = q \<or> op_step (configuration p) (configuration q)"
    by (rule store_move_keeps_operation[OF assms(1) p(1)])
  note r = step_item_rank[OF q(2,3) p(2)]
  from r(3) have "item_rank (oi_state (ho_items q ! n)) \<le> item_rank st" using p(4) by auto
  with q(1) r(1,2) p(3) show ?thesis by (auto simp: item_at_def)
qed

lemma item_at_back:
  assumes "store_move s s'" and "item_at s' i n k st'"
  shows "st' = ItemAwaitingConfirmation \<or>
    (\<exists>st. item_at s i n k st \<and> (st' = st \<or> item_rank st' < item_rank st))"
proof -
  from assms(2) obtain q where q: "hs_operations s' i = Some q" "n < length (ho_items q)"
    "k = call_key q (oi_provider_call_hash (ho_items q ! n))" "st' = oi_state (ho_items q ! n)"
    by (auto simp: item_at_def split: option.splits)
  from store_move_operations[OF assms(1) q(1)] show ?thesis
  proof (elim disjE exE conjE)
    assume "fresh_operation q"
    then have "map oi_state (ho_items q) ! n = ItemAwaitingConfirmation"
      using q(2) by (simp add: fresh_operation_def configuration_def)
    with q(2,4) show ?thesis by simp
  next
    fix p assume p: "hs_operations s i = Some p" "same_identity p q"
      "op_step (configuration p) (configuration q)"
    have "n < length (ho_items p)" using q(2) same_identity_length[OF p(2)] by simp
    note r = step_item_rank[OF p(2) disjI2[OF p(3)] this]
    have "item_at s i n k (oi_state (ho_items p ! n))"
      using p(1) r(2) q(3) \<open>n < length (ho_items p)\<close> by (simp add: item_at_def)
    with r(3) q(4) show ?thesis by blast
  qed (use q in \<open>auto simp: item_at_def\<close>)
qed

lemma dispatches_once:
  assumes inv: "hosted_inv s" and fires: "dispatches x k s"
  shows "\<not> dispatched s k \<and> dispatched (hosted_step x s) k"
proof -
  from fires obtain i n where after: "item_at (hosted_step x s) i n k ItemDispatching"
    and before: "\<not> item_at s i n k ItemDispatching"
    by (auto simp: dispatches_def)
  from item_at_back[OF hosted_step_moves after] before obtain st where
    st: "item_at s i n k st" "item_rank ItemDispatching < item_rank st" by auto
  have "\<not> dispatched s k"
  proof
    assume "dispatched s k"
    then obtain j m st' where o: "item_at s j m k st'" "item_rank st' \<le> item_rank ItemDispatching"
      by (auto simp: dispatched_def)
    from item_at_unique(3)[OF inv st(1) o(1)] st(2) o(2) show False by simp
  qed
  moreover have "dispatched (hosted_step x s) k"
    unfolding dispatched_def using after order_refl by blast
  ultimately show ?thesis ..
qed

interpretation hosted: one_shot hosted_step dispatches dispatched hosted_inv
proof
  show "hosted_inv s \<Longrightarrow> hosted_inv (hosted_step x s)" for s x by (rule hosted_inv_step)
  show "dispatched (hosted_step x s) k" if "dispatched s k" for s x k
    using that item_at_forward[OF hosted_step_moves] unfolding dispatched_def by (meson order_trans)
qed (rule dispatches_once)

section \<open>Properties\<close>

text \<open>
  C5: In any sequence of calls of the store, by any callers and whatever the vault, the clock and the
  resolver of the authority answer, at most one item is ever moved to \<open>dispatching\<close> for a provider
  call of a connection in a workspace, across all previews and operations.
\<close>

theorem hosted_call_dispatched_at_most_once:
  "fire_count hosted_step dispatches k calls empty_hosted_store \<le> 1"
  by (rule hosted.fires_at_most_once) (rule hosted_inv_empty)

definition sample_calls :: "(store_env \<times> hosted_op) list" where
  "sample_calls = map (Pair sample_store_env)
     [CreatePreview sample_preview, CreateOperation sample_operation 1,
      TransitionOperation 1 3 2 20 1 ParentDispatching 30 (Aware 2) ''start'',
      TransitionItem 1 3 2 20 21 1 ItemDispatching 30 (Aware 2) ''start'' None]"

theorem hosted_call_dispatched_at_most_once_witness:
  "fire_count hosted_step dispatches (2, 4, sample_sha) sample_calls empty_hosted_store = 1"
proof -
  have items: "item_at (put_operation 20 sample_sent s) 20 0 (2, 4, sample_sha) ItemDispatching"
    "\<not> item_at (put_operation 20 sample_started s) 20 0 k ItemDispatching" for s k
    by (simp_all add: item_at_def put_operation_def sample_sent_def sample_started_def sample_operation_def
        first_item_def call_key_def sample_item_def)
  have "dispatches (sample_store_env, TransitionItem 1 3 2 20 21 1 ItemDispatching 30 (Aware 2) ''start'' None)
      (2, 4, sample_sha) (put_operation 20 sample_started sample_ordered)"
    unfolding dispatches_def hosted_step_def using items sample_item_sent by fastforce
  then have "1 \<le> fire_count hosted_step dispatches (2, 4, sample_sha) sample_calls empty_hosted_store"
    using sample_preview_created sample_operation_created sample_operation_started
    by (simp add: sample_calls_def hosted_step_def)
  with hosted_call_dispatched_at_most_once[of "(2, 4, sample_sha)" sample_calls] show ?thesis by simp
qed

section \<open>Opening a preview\<close>

text \<open>
  The opened item \<open>o'\<close> carries arguments that the item \<open>i\<close> was previewed with: their hash is the
  hash of the previewed call and their projection is what the person was shown.
\<close>

definition opened_as :: "'a hosted_lib_scheme \<Rightarrow> document_preview \<Rightarrow> projector \<Rightarrow> preview_item \<Rightarrow> opened_item \<Rightarrow> bool" where
  "opened_as lib p pr i o' \<longleftrightarrow>
     op_preview_item_id o' = pi_preview_item_id i \<and>
     (\<exists>arguments shown.
        op_provider_arguments o' = sort_keys arguments \<and>
        provider_call_hash lib p arguments = Inr (pi_provider_call_hash i) \<and>
        project lib pr arguments = Inr shown \<and>
        pd_document_type shown = pi_document_type i \<and>
        pd_counterparty_display shown = pi_counterparty_display i \<and>
        pd_issue_date shown = pi_issue_date i \<and> pd_due_date shown = pi_due_date i \<and>
        financials_values (pd_financials shown) = financials_values (pi_financials i))"

definition authorised_now ::
    "store_env \<Rightarrow> document_preview \<Rightarrow> provider_connection \<Rightarrow> qualification \<Rightarrow> instant \<Rightarrow> projector \<Rightarrow> bool" where
  "authorised_now env p c q now pr \<longleftrightarrow>
     connection_matches (se_lib env) p c \<and> qualification_identity_matches p q \<and>
     qualification_is_current q c now \<and> resolve_projector (se_projectors env) q = Some pr \<and>
     rp_projector_id pr = dp_projector_id p \<and> rp_projector_version pr = dp_projector_version p"

lemma open_item_Inr:
  assumes "open_item env p pr i = Inr o'"
  shows "opened_as (se_lib env) p pr i o'"
proof -
  from assms have "open_item_body env p pr i = Inr o'" by (simp add: open_item_def)
  then obtain plaintext arguments shown call_hash integrity where
    "(case load_json (se_lib env) plaintext of Some (JObj d) \<Rightarrow> Inr (JObj d)
        | _ \<Rightarrow> Inl (ValueError ''preview_payload_changed'')) = Inr arguments"
    and "project (se_lib env) pr arguments = Inr shown"
    and "provider_call_hash (se_lib env) p arguments = Inr call_hash"
    and "\<not>
               (call_hash \<noteq> pi_provider_call_hash i \<or>
                integrity \<noteq> pi_preview_integrity_hash i \<or>
                pd_document_type shown \<noteq> pi_document_type i \<or>
                pd_counterparty_display shown \<noteq> pi_counterparty_display i \<or>
                pd_issue_date shown \<noteq> pi_issue_date i \<or> pd_due_date shown \<noteq> pi_due_date i \<or>
                financials_values (pd_financials shown) \<noteq> financials_values (pi_financials i))"
    and "(if non_finite arguments then Inl (ValueError ''preview_payload_changed'')
      else Inr \<lparr>op_preview_item_id = pi_preview_item_id i, op_client_item_id = pi_client_item_id i,
                op_provider_arguments = sort_keys arguments\<rparr>) = Inr o'"
    unfolding open_item_body_def Let_def ebind_eq_Inr raise_if_eq_Inr by blast
  then show ?thesis
    unfolding opened_as_def by (auto simp: raise_if_def split: if_splits)
qed

lemma validate_connection_id: "validate_connection lib c = Inr d \<Longrightarrow> d = c"
  by (simp add: validate_connection_def split: if_splits)

lemma validate_authority_Inr:
  assumes "validate_authority env p c q now = Inr (q', pr)"
  shows "authorised_now env p c q' now pr" and "validate_qualification (se_lib env) (se_safe env) q = Inr q'"
proof -
  from assms obtain c' q1 where c: "validate_connection (se_lib env) c = Inr c'"
    and q: "validate_qualification (se_lib env) (se_safe env) q = Inr q1"
    and m: "\<not> \<not> connection_matches (se_lib env) p c'" "\<not> \<not> qualification_identity_matches p q1"
      "\<not> \<not> qualification_is_current q1 c' now"
    and pr: "(case resolve_projector (se_projectors env) q1 of
        None \<Rightarrow> Inl (hosted_error ''capability_unavailable'')
      | Some pr \<Rightarrow>
          if rp_projector_id pr = dp_projector_id p \<and> rp_projector_version pr = dp_projector_version p
          then Inr (q1, pr) else Inl (hosted_error ''capability_unavailable'')) = Inr (q', pr)"
    unfolding validate_authority_def Let_def ebind_eq_Inr raise_if_eq_Inr recoded_Inr by blast
  from pr have "q1 = q'" by (auto split: option.splits if_splits)
  with q show "validate_qualification (se_lib env) (se_safe env) q = Inr q'" by simp
  from pr m validate_connection_id[OF c] \<open>q1 = q'\<close> show "authorised_now env p c q' now pr"
    by (auto simp: authorised_now_def split: option.splits if_splits)
qed

lemma load_confirmable_preview_Inr:
  assumes "load_confirmable_preview env p t u w v c q now = Inr (checked, opened)"
  obtains instant q' pr where "now = Aware instant" and "dp_state_version p = v" and "instant < dp_expires_at p"
    and "dp_state p \<in> {PreviewPrepared, PreviewAwaitingConfirmation}"
    and "validate_qualification (se_lib env) (se_safe env) q = Inr q'"
    and "authorised_now env p c q' instant pr"
    and "list_all2 (opened_as (se_lib env) p pr) (dp_items p) opened"
    and "validate_document_preview (se_lib env) p = Inr checked"
proof -
  from assms obtain instant where now: "timestamp_of ''preview_state_invalid'' now = Inr instant"
    by (auto simp: load_confirmable_preview_def outcome_simps split: if_splits)
  with assms obtain q' pr where a: "validate_authority env p c q instant = Inr (q', pr)"
    and o: "emap (open_item env p pr) (dp_items p) = Inr opened"
    and rest: "dp_state_version p = v" "instant < dp_expires_at p"
      "dp_state p \<in> {PreviewPrepared, PreviewAwaitingConfirmation}"
      "validate_document_preview (se_lib env) p = Inr checked"
    by (auto simp: load_confirmable_preview_def outcome_simps not_le split: if_splits)
  have "now = Aware instant" using now by (cases now) (simp_all add: timestamp_of_def)
  moreover have "list_all2 (opened_as (se_lib env) p pr) (dp_items p) opened"
    using o unfolding emap_eq_Inr_iff by (rule list_all2_mono) (rule open_item_Inr)
  ultimately show thesis using that rest validate_authority_Inr[OF a] by blast
qed

lemma confirmable_spec:
  assumes "hs_previews s i = Some stored" and "check_scope stored t u w"
    and "validate_document_preview (se_lib env) stored = Inr p"
  shows "wp (elift (load_confirmable_preview env p t u w v c q now)) (\<lambda>r s'. s' = s \<and>
     (case r of
        Inl e \<Rightarrow> True
      | Inr (checked, opened) \<Rightarrow>
          (\<exists>stored p instant q' pr.
             hs_previews s i = Some stored \<and> check_scope stored t u w \<and> same_calls stored p \<and>
             now = Aware instant \<and> dp_state_version p = v \<and> instant < dp_expires_at p \<and>
             dp_state p \<in> {PreviewPrepared, PreviewAwaitingConfirmation} \<and>
             validate_qualification (se_lib env) (se_safe env) q = Inr q' \<and>
             authorised_now env p c q' instant pr \<and>
             list_all2 (opened_as (se_lib env) p pr) (dp_items p) opened \<and>
             validate_document_preview (se_lib env) p = Inr checked))) s"
proof (cases "load_confirmable_preview env p t u w v c q now")
  case (Inr r)
  obtain checked opened where r: "r = (checked, opened)" by (cases r)
  have "same_calls stored p" by (rule validate_document_preview_Inr(1)[OF assms(3)])
  with assms(1,2) Inr show ?thesis
    by (simp add: r) (rule load_confirmable_preview_Inr[OF Inr[unfolded r]], blast)
qed simp

text \<open>
  C6: Whatever \<open>load_confirmable\<close> answers, the store is as before. When it returns arguments, they
  are those of the preview of that identifier in the caller's scope: their hash is the hash of the
  previewed call and they project to what the person was shown; the preview has the expected version,
  waits for confirmation and has not expired, and the connection and the qualification that bind it
  are current.
\<close>

theorem confirmable_arguments_were_previewed:
  "wp (load_confirmable env t u w i v c q now) (\<lambda>r s'. s' = s \<and>
     (case r of
        Inl e \<Rightarrow> True
      | Inr (checked, opened) \<Rightarrow>
          (\<exists>stored p instant q' pr.
             hs_previews s i = Some stored \<and> check_scope stored t u w \<and> same_calls stored p \<and>
             now = Aware instant \<and> dp_state_version p = v \<and> instant < dp_expires_at p \<and>
             dp_state p \<in> {PreviewPrepared, PreviewAwaitingConfirmation} \<and>
             validate_qualification (se_lib env) (se_safe env) q = Inr q' \<and>
             authorised_now env p c q' instant pr \<and>
             list_all2 (opened_as (se_lib env) p pr) (dp_items p) opened \<and>
             validate_document_preview (se_lib env) p = Inr checked))) s"
  unfolding load_confirmable_def
  by (rule wp_get_preview_then) (simp, rule confirmable_spec)

text \<open>
  C37: In any sequence of calls of the store, the parent of every stored operation fits its items, the
  items have distinct identifiers, and the log of events, replayed from the start, leads to exactly
  the state and version of the parent and of every item.
\<close>

theorem stored_operations_are_logged:
  "ran (hs_operations (run_all hosted_step calls empty_hosted_store)) \<subseteq> {p. operation_ok p}"
  using hosted.inv_run[OF hosted_inv_empty, of calls]
  by (auto simp: hosted_inv_def operations_ok_def ran_def)

text \<open>
  C36: Every operation of the store, after any sequence of calls, was made of a preview that is
  confirmed and whose calls are exactly its items, and it is the only operation of that preview.
\<close>

theorem operation_has_its_confirmed_preview:
  assumes "hs_operations (run_all hosted_step calls empty_hosted_store) i = Some p"
  shows "\<exists>d. hs_previews (run_all hosted_step calls empty_hosted_store) (ho_preview_id p) = Some d \<and>
           dp_state d = PreviewConfirmed \<and> made_of p d \<and>
           {j. \<exists>q. hs_operations (run_all hosted_step calls empty_hosted_store) j = Some q \<and>
                   ho_preview_id q = ho_preview_id p} = {i}"
proof -
  define s where "s = run_all hosted_step calls empty_hosted_store"
  have inv: "operations_ok s"
    using hosted.inv_run[OF hosted_inv_empty, of calls] by (simp add: s_def hosted_inv_def)
  have p: "hs_operations s i = Some p" using assms by (simp add: s_def)
  from inv p obtain d where d: "hs_previews s (ho_preview_id p) = Some d" "made_of p d"
    "dp_state d = PreviewConfirmed" "hs_operation_by_preview s (ho_preview_id p) = Some i"
    by (auto simp: operations_ok_def)
  have "j = i" if "hs_operations s j = Some q" "ho_preview_id q = ho_preview_id p" for j q
    using inv that d(4) unfolding operations_ok_def by (metis option.inject)
  with p have "{j. \<exists>q. hs_operations s j = Some q \<and> ho_preview_id q = ho_preview_id p} = {i}" by blast
  with d show ?thesis by (auto simp flip: s_def)
qed

theorem operation_has_its_confirmed_preview_witness:
  "\<exists>d. hs_previews (run_all hosted_step sample_calls empty_hosted_store) 10 = Some d \<and>
       dp_state d = PreviewConfirmed \<and> made_of sample_sent d"
proof -
  have "run_all hosted_step sample_calls empty_hosted_store
      = put_operation 20 sample_sent (put_operation 20 sample_started sample_ordered)"
    using sample_preview_created sample_operation_created sample_operation_started sample_item_sent
    by (simp add: run_all_def sample_calls_def hosted_step_def)
  then have "hs_operations (run_all hosted_step sample_calls empty_hosted_store) 20 = Some sample_sent"
    by (simp add: put_operation_def)
  moreover have "ho_preview_id sample_sent = 10" by (simp add: sample_sent_def)
  ultimately show ?thesis using operation_has_its_confirmed_preview[of sample_calls 20 sample_sent] by auto
qed

lemma store_move_keeps_call:
  assumes "store_move s s'" and "hs_preview_calls s k = Some i"
  shows "hs_preview_calls s' k = Some i"
  using assms
  by (induction rule: store_move.induct) (auto simp: insert_preview_def insert_operation_def put_operation_def)

lemma run_keeps_call:
  "hs_preview_calls s k = Some i \<Longrightarrow> hs_preview_calls (run_all hosted_step calls s) k = Some i"
  by (induction calls arbitrary: s) (simp_all add: run_all_def store_move_keeps_call[OF hosted_step_moves])

text \<open>
  C40: Once the provider call of a preview, the hash over all its documents, is recorded for a
  connection, it is never previewed anew: after any further calls, also those that expire or cancel
  that preview, the call still belongs to it, and creating a preview of the same call leaves the store
  as it is.
\<close>

theorem previewed_call_never_renewed:
  assumes "hs_preview_calls s (call_key p (dp_provider_call_hash p)) = Some i"
  shows "hs_preview_calls (run_all hosted_step calls s) (call_key p (dp_provider_call_hash p)) = Some i \<and>
    final (create_hosted_preview env p) (run_all hosted_step calls s) = run_all hosted_step calls s"
proof -
  define s' where "s' = run_all hosted_step calls s"
  have kept: "hs_preview_calls s' (call_key p (dp_provider_call_hash p)) = Some i"
    using run_keeps_call[OF assms] by (simp add: s'_def)
  have "final (create_hosted_preview env p) s' = s'"
  proof (cases "validate_document_preview (se_lib env) p")
    case (Inl e)
    then show ?thesis by (simp add: create_hosted_preview_def recoded_def final_def eseq_def)
  next
    case (Inr q)
    from validate_document_preview_Inr(1)[OF Inr]
    have "call_key q (dp_provider_call_hash q) = call_key p (dp_provider_call_hash p)"
      by (simp add: same_calls_def same_scope_def call_key_def)
    with kept Inr show ?thesis
      by (auto simp: create_hosted_preview_def recoded_def final_def eseq_def lookup_or_def revalidated_def
          split: option.splits)
  qed
  with kept show ?thesis by (simp add: s'_def)
qed

theorem previewed_call_never_renewed_witness:
  "final (create_hosted_preview sample_store_env sample_preview)
     (run_all hosted_step [(sample_store_env, TransitionPreview 1 3 2 10 1 PreviewExpired (Aware (seconds 1800)))]
       sample_stored)
   = run_all hosted_step [(sample_store_env, TransitionPreview 1 3 2 10 1 PreviewExpired (Aware (seconds 1800)))]
       sample_stored"
proof -
  have "hs_preview_calls sample_stored (call_key sample_preview (dp_provider_call_hash sample_preview)) = Some 10"
    by (simp add: sample_stored_def insert_preview_def)
  from previewed_call_never_renewed[OF this] show ?thesis by blast
qed

end
