(* ===== verification/Hosted_Service.thy ===== *)
theory Hosted_Service
  imports Hosted_Safety
begin

text \<open>
  Model of \<open>execution/hosted/preview_service.py\<close>: \<open>HostedPreviewService\<close>, which checks who calls and
  with what authority, projects and hashes the documents, seals their arguments and stores one
  preview. The resolvers, the JSON Schema library, the clock and the identifiers are the record
  \<open>service_env\<close>; while the service awaits the store, other tasks may call it (\<open>sv_others\<close>).
\<close>

section \<open>Requests\<close>

record document_draft =
  dd_client_item_id :: string
  dd_provider_arguments :: json
  dd_warnings :: "string list"
  dd_review_points :: "string list"

datatype document_request = SingleDocument document_draft | BatchDocuments "document_draft list"

record membership =
  wm_tenant_id :: uuid
  wm_tenant_display_name :: string
  wm_workspace_id :: uuid
  wm_workspace_display_name :: string
  wm_role :: string

record principal =
  mp_subject :: uuid
  mp_client_id :: string
  mp_scopes :: "string list"
  mp_token_id :: "string option"

definition membership_valid :: "membership \<Rightarrow> bool" where
  "membership_valid m \<longleftrightarrow>
     bounded_text 1 200 (wm_tenant_display_name m) \<and> bounded_text 1 200 (wm_workspace_display_name m) \<and>
     wm_role m \<in> {''owner'', ''admin'', ''member'', ''viewer''}"

text \<open>\<open>DocumentCreateDraft\<close>; the arguments are copied through JSON, with sorted keys.\<close>

definition review_codes_safe :: "'a hosted_lib_scheme \<Rightarrow> string list \<Rightarrow> bool" where
  "review_codes_safe lib codes \<longleftrightarrow>
     review_codes_valid 100 codes \<and>
     list_all (\<lambda>c. is_ok (require_safe_public_identifier lib ''document_review_metadata_invalid'' c)) codes"

definition validate_draft :: "'a hosted_lib_scheme \<Rightarrow> document_draft \<Rightarrow> document_draft result" where
  "validate_draft lib d =
     ebind (raise_if (\<not> is_identifier (dd_client_item_id d) \<or>
              \<not> is_ok (require_safe_public_identifier lib ''document_review_metadata_invalid''
                        (dd_client_item_id d)) \<or>
              \<not> review_codes_safe lib (dd_warnings d) \<or> \<not> review_codes_safe lib (dd_review_points d))
              (ValueError ''validation_error'')) (\<lambda>_.
     case dd_provider_arguments d of
       JObj kvs \<Rightarrow>
         if non_finite (JObj kvs) then Inl (ValueError ''document_payload_invalid'')
         else Inr (d\<lparr>dd_provider_arguments := sort_keys (JObj kvs)\<rparr>)
     | _ \<Rightarrow> Inl (ValueError ''document_payload_invalid''))"

text \<open>\<open>_request_documents\<close>\<close>

definition request_documents ::
    "'a hosted_lib_scheme \<Rightarrow> document_request \<Rightarrow> document_draft list result" where
  "request_documents lib request =
     recoded (\<lambda>e. ''document_payload_invalid'')
       (case request of
          SingleDocument d \<Rightarrow> ebind (validate_draft lib d) (\<lambda>d. Inr [d])
        | BatchDocuments ds \<Rightarrow>
            ebind (emap (validate_draft lib) ds) (\<lambda>ds.
            ebind (raise_if (\<not> (1 \<le> length ds \<and> length ds \<le> max_batch_documents))
                     (ValueError ''batch_size_invalid'')) (\<lambda>_.
            ebind (raise_if (\<not> distinct (map dd_client_item_id ds)) (ValueError ''duplicate_client_item_id'')) (\<lambda>_.
            Inr ds))))"

section \<open>The exact schema\<close>

definition constrained_integer_keywords :: "string list" where
  "constrained_integer_keywords =
     [''minLength'', ''maxLength'', ''minItems'', ''maxItems'', ''minContains'', ''maxContains'',
      ''minProperties'', ''maxProperties'']"

definition combinators :: "string list" where
  "combinators =
     [''$ref'', ''allOf'', ''anyOf'', ''oneOf'', ''not'', ''if'', ''then'', ''else'']"

definition constrained_integer :: "json_dict \<Rightarrow> string \<Rightarrow> bool" where
  "constrained_integer d k =
     (case map_of d k of
        None \<Rightarrow> True
      | Some (JInt n) \<Rightarrow> 0 \<le> n \<and> n \<le> 2147483647
      | _ \<Rightarrow> False)"

definition plain_schema :: "json_dict \<Rightarrow> bool" where
  "plain_schema d \<longleftrightarrow>
     d \<noteq> [] \<and> list_all (\<lambda>k. map_of d k = None) combinators \<and>
     list_all (constrained_integer d) constrained_integer_keywords"

definition closed_object :: "json_dict \<Rightarrow> json_dict \<Rightarrow> bool" where
  "closed_object d props \<longleftrightarrow>
     props \<noteq> [] \<and>
     (case map_of d ''required'' of
        Some (JArr names) \<Rightarrow>
          names \<noteq> [] \<and> list_all (\<lambda>n. case n of JStr s \<Rightarrow> s \<in> set (map fst props) | _ \<Rightarrow> False) names
      | _ \<Rightarrow> False) \<and>
     map_of d ''additionalProperties'' = Some (JBool False) \<and>
     jget d ''unevaluatedProperties'' (JBool False) = JBool False \<and>
     map_of d ''patternProperties'' = None"

definition bounded_array :: "json_dict \<Rightarrow> bool" where
  "bounded_array d = (case map_of d ''maxItems'' of Some (JInt n) \<Rightarrow> 1 \<le> n | _ \<Rightarrow> False)"

lemma size_value: "p \<in> set d \<Longrightarrow> size (snd p) < size (JObj d)"
  by (induction d) auto

lemma map_of_smaller: "map_of d k = Some v \<Longrightarrow> size v < size (JObj d)"
  using size_value[of "(k, v)" d] by (auto dest: map_of_SomeD)

text \<open>\<open>_require_closed_object_schemas\<close>, as a test: it raises the same error wherever it raises.\<close>

function closed_schema :: "bool \<Rightarrow> json \<Rightarrow> bool" where
  "closed_schema root (JObj d) =
     (plain_schema d \<and>
      (case map_of d ''type'' of
         Some (JStr t) \<Rightarrow>
           (root \<longrightarrow> t = ''object'') \<and>
           (if t = ''object'' then
              (case map_of d ''properties'' of
                 Some (JObj props) \<Rightarrow> closed_object d props \<and> (\<forall>p \<in> set props. closed_schema False (snd p))
               | _ \<Rightarrow> False)
            else if t = ''array'' then
              (case map_of d ''items'' of
                 Some (JObj items) \<Rightarrow> items \<noteq> [] \<and> bounded_array d \<and> closed_schema False (JObj items)
               | _ \<Rightarrow> False)
            else t \<in> {''string'', ''integer'', ''boolean'', ''null''})
       | _ \<Rightarrow> False))"
| "closed_schema root JNull = False"
| "closed_schema root (JBool b) = False"
| "closed_schema root (JInt n) = False"
| "closed_schema root (JFloat s) = False"
| "closed_schema root (JStr s) = False"
| "closed_schema root (JArr xs) = False"
  by pat_completeness auto

termination
  by (relation "measure (size \<circ> snd)") (auto dest!: map_of_smaller size_value)

fun has_float :: "json \<Rightarrow> bool" where
  "has_float (JFloat s) = True"
| "has_float (JArr xs) = list_ex has_float xs"
| "has_float (JObj kvs) = list_ex (\<lambda>(k, v). has_float v) kvs"
| "has_float _ = False"


section \<open>The service\<close>

record service_env =
  sv_store :: store_env
  sv_clock :: "datetime result"
  sv_uuid :: "nat \<Rightarrow> uuid result"
  sv_membership :: "principal \<Rightarrow> uuid \<Rightarrow> membership result"
  sv_connection :: "membership \<Rightarrow> principal \<Rightarrow> uuid \<Rightarrow> provider_connection result"
  sv_qualification :: "provider_connection \<Rightarrow> string \<Rightarrow> string \<Rightarrow> qualification result"
  sv_schema_ok :: "json \<Rightarrow> bool"
  sv_conforms :: "json \<Rightarrow> json \<Rightarrow> bool"
  sv_seal_env :: "nat \<Rightarrow> vault_env"
  sv_others :: "nat \<Rightarrow> (store_env \<times> hosted_op) list"

abbreviation sv_lib :: "service_env \<Rightarrow> hosted_lib" where
  "sv_lib env \<equiv> se_lib (sv_store env)"

text \<open>\<open>except HostedPreviewError: raise; except Exception: raise HostedPreviewError(code)\<close>\<close>

definition unless_hosted :: "string \<Rightarrow> 'a result \<Rightarrow> 'a result" where
  "unless_hosted code r =
     (case r of Inl e \<Rightarrow> Inl (if is_hosted_error e then e else hosted_error code) | Inr x \<Rightarrow> Inr x)"

text \<open>\<open>except Exception: raise HostedPreviewError(code)\<close>\<close>

definition closed_error :: "string \<Rightarrow> 'a result \<Rightarrow> 'a result" where
  "closed_error code r = (case r of Inl e \<Rightarrow> Inl (hosted_error code) | Inr x \<Rightarrow> Inr x)"

definition service_now :: "service_env \<Rightarrow> instant result" where
  "service_now env =
     ebind (closed_error ''preview_state_invalid'' (sv_clock env))
       (aware_instant (hosted_error ''preview_state_invalid''))"

definition next_uuid :: "service_env \<Rightarrow> nat \<Rightarrow> uuid result" where
  "next_uuid env n =
     ebind (closed_error ''preview_store_unavailable'' (sv_uuid env n)) (\<lambda>i.
     if i = 0 then Inl (hosted_error ''preview_store_unavailable'') else Inr i)"

definition resolve_membership :: "service_env \<Rightarrow> principal \<Rightarrow> uuid \<Rightarrow> membership result" where
  "resolve_membership env p workspace =
     closed_error ''workspace_access_denied''
       (ebind (sv_membership env p workspace) (\<lambda>m.
        ebind (raise_if (\<not> membership_valid m) (ValueError ''validation_error'')) (\<lambda>_. Inr m)))"

definition resolve_connection ::
    "service_env \<Rightarrow> principal \<Rightarrow> uuid \<Rightarrow> uuid \<Rightarrow> membership \<Rightarrow> provider_connection result" where
  "resolve_connection env p workspace connection m =
     unless_hosted ''preview_binding_changed''
       (ebind (sv_connection env m p connection) (\<lambda>c.
        ebind (recoded (\<lambda>e. ''preview_binding_changed'') (validate_connection (sv_lib env) c)) (\<lambda>c.
        ebind (raise_if
                 (wm_workspace_id m \<noteq> workspace \<or> pc_id c \<noteq> connection \<or>
                  tenant_id c \<noteq> wm_tenant_id m \<or> workspace_id c \<noteq> workspace \<or>
                  auth_user_id c \<noteq> mp_subject p \<or> pc_readiness c \<noteq> Ready)
                 (hosted_error ''preview_binding_changed'')) (\<lambda>_. Inr c))))"

text \<open>\<open>^documents\.([a-z][a-z0-9_]*)\.create$\<close>\<close>

definition is_document_create :: "string \<Rightarrow> bool" where
  "is_document_create s =
     (case split_dots s of
        [a, b, c] \<Rightarrow> a = ''documents'' \<and> capability_part b \<and> c = ''create''
      | _ \<Rightarrow> False)"

text \<open>\<open>_company_sha256\<close>\<close>

definition company_sha256 :: "'a pylib_scheme \<Rightarrow> provider_connection \<Rightarrow> string" where
  "company_sha256 lib c = sha256_hexdigest lib (pc_provider_account_id c)"

definition qualification_serves ::
    "'a pylib_scheme \<Rightarrow> provider_connection \<Rightarrow> string \<Rightarrow> string \<Rightarrow> instant \<Rightarrow> qualification \<Rightarrow> bool" where
  "qualification_serves lib c capability version now q \<longleftrightarrow>
     is_document_create capability \<and> qu_id q \<noteq> None \<and> qu_state q = Enabled \<and>
     qu_normalized_capability q = capability \<and> qu_capability_version_sha256 q = version \<and>
     qu_provider q = provider_value (pc_provider c) \<and> qu_environment q = pc_environment c \<and>
     qu_company_sha256 q = Some (company_sha256 lib c) \<and> qu_evidence_revision_sha256 q \<noteq> None \<and>
     (case (qu_evidence_evaluated_at q, qu_evidence_expires_at q) of
        (Some evaluated, Some expires) \<Rightarrow> instant_of evaluated \<le> now \<and> now < instant_of expires
      | _ \<Rightarrow> False) \<and>
     set (qu_required_permissions q) \<subseteq> set (pc_granted_permissions c)"

definition resolve_qualification ::
    "service_env \<Rightarrow> provider_connection \<Rightarrow> string \<Rightarrow> string \<Rightarrow> instant \<Rightarrow> qualification result" where
  "resolve_qualification env c capability version now =
     unless_hosted ''capability_unavailable''
       (ebind (sv_qualification env c capability version) (\<lambda>q.
        ebind (recoded (\<lambda>e. ''capability_unavailable'')
                 (validate_qualification (sv_lib env) (se_safe (sv_store env)) q)) (\<lambda>q.
        ebind (raise_if (non_finite (qu_input_schema q) \<or> \<not> closed_schema True (qu_input_schema q))
                 (hosted_error ''capability_unavailable'')) (\<lambda>_.
        ebind (raise_if (\<not> qualification_serves (sv_lib env) c capability version now q)
                 (hosted_error ''capability_unavailable'')) (\<lambda>_. Inr q)))))"

text \<open>\<open>_validate_exact_schema\<close>\<close>

definition document_conforms :: "service_env \<Rightarrow> json \<Rightarrow> document_draft \<Rightarrow> unit result" where
  "document_conforms env schema d =
     raise_if (has_float (dd_provider_arguments d) \<or> \<not> sv_conforms env schema (dd_provider_arguments d))
       (hosted_error ''document_schema_invalid'')"

definition validate_exact_schema :: "service_env \<Rightarrow> qualification \<Rightarrow> document_draft list \<Rightarrow> unit result" where
  "validate_exact_schema env q ds =
     (let schema = qu_input_schema q in
      ebind (raise_if (non_finite schema \<or> \<not> sv_schema_ok env schema \<or> \<not> closed_schema True schema)
               (hosted_error ''capability_unavailable'')) (\<lambda>_.
      ebind (emap (document_conforms env schema) ds) (\<lambda>_. Inr ())))"

text \<open>\<open>_project_documents\<close>\<close>

definition project_documents ::
    "service_env \<Rightarrow> projector \<Rightarrow> document_draft list \<Rightarrow> projected_document list result" where
  "project_documents env pr ds =
     recoded (\<lambda>e. ''document_schema_invalid'')
       (emap (\<lambda>d. project (sv_lib env) pr (dd_provider_arguments d)) ds)"


section \<open>Building a preview\<close>

text \<open>What the service has established about a request when it computes the hashes.\<close>

record checked_request =
  rq_now :: instant
  rq_membership :: membership
  rq_principal :: principal
  rq_connection :: provider_connection
  rq_qualification :: qualification
  rq_projector :: projector
  rq_documents :: "document_draft list"
  rq_projections :: "projected_document list"
  rq_supersedes :: "uuid option"

text \<open>The sum of decimal fields. At most 25 fields are added, so the context never rounds it.\<close>

fun decimal_plus :: "decimal \<Rightarrow> decimal \<Rightarrow> decimal" where
  "decimal_plus (Finite neg1 k1 e1) (Finite neg2 k2 e2) =
     (let e = min e1 e2;
          x = (if neg1 then - 1 else 1) * int (k1 * 10 ^ nat (e1 - e))
            + (if neg2 then - 1 else 1) * int (k2 * 10 ^ nat (e2 - e))
      in Finite (if x = 0 then neg1 \<and> neg2 else x < 0) (nat \<bar>x\<bar>) e)"
| "decimal_plus _ _ = NotFinite"

definition field_sum :: "(financials \<Rightarrow> decimal) \<Rightarrow> checked_request \<Rightarrow> decimal" where
  "field_sum f rq =
     foldl decimal_plus (Finite False 0 0) (map (f \<circ> pd_financials) (rq_projections rq))"

definition or_nil :: "uuid option \<Rightarrow> uuid" where
  "or_nil v = (case v of None \<Rightarrow> 0 | Some i \<Rightarrow> i)"

definition or_empty :: "string option \<Rightarrow> string" where
  "or_empty v = (case v of None \<Rightarrow> [] | Some s \<Rightarrow> s)"

definition all_codes :: "(document_draft \<Rightarrow> string list) \<Rightarrow> checked_request \<Rightarrow> string list" where
  "all_codes f rq = ordered_unique (concat (map f (rq_documents rq)))"

text \<open>The fields of the preview of a request, before its items and hashes are known.\<close>

definition preview_shell :: "'a pylib_scheme \<Rightarrow> checked_request \<Rightarrow> document_preview" where
  "preview_shell lib rq =
     (let c = rq_connection rq; q = rq_qualification rq; pr = rq_projector rq;
          expires_at = rq_now rq + preview_ttl in
      \<lparr>tenant_id = wm_tenant_id (rq_membership rq), workspace_id = wm_workspace_id (rq_membership rq),
       auth_user_id = mp_subject (rq_principal rq), connection_id = pc_id c,
       dp_preview_id = 0, dp_provider = pc_provider c, dp_provider_account_sha256 = company_sha256 lib c,
       dp_account_display_name = [], dp_environment = pc_environment c,
       dp_qualification_id = or_nil (qu_id q), dp_provider_tool_name = qu_provider_tool_name q,
       dp_capability_id = qu_normalized_capability q,
       dp_capability_version = qu_capability_version_sha256 q, dp_schema_hash = qu_schema_hash q,
       dp_response_shape_hash = qu_response_shape_hash q,
       dp_evidence_revision_sha256 = or_empty (qu_evidence_revision_sha256 q),
       dp_projector_id = rp_projector_id pr, dp_projector_version = rp_projector_version pr,
       dp_connection_revision = pc_revision c, dp_connection_readiness = pc_readiness c,
       dp_provider_call_hash = [], dp_preview_integrity_hash = [],
       dp_state = PreviewAwaitingConfirmation, dp_state_version = 1,
       dp_currency = (case rq_projections rq of [] \<Rightarrow> [] | d # _ \<Rightarrow> fi_currency (pd_financials d)),
       dp_subtotal = field_sum fi_subtotal rq, dp_discount_total = field_sum fi_discount_total rq,
       dp_vat_total = field_sum fi_vat_total rq,
       dp_withholding_tax_total = field_sum fi_withholding_tax_total rq,
       dp_grand_total = field_sum fi_grand_total rq,
       dp_warnings = all_codes dd_warnings rq, dp_review_points = all_codes dd_review_points rq,
       dp_items = [], dp_supersedes_preview_id = rq_supersedes rq, dp_created_at = rq_now rq,
       dp_expires_at = expires_at,
       dp_payload_purge_after = expires_at + unconfirmed_payload_retention,
       dp_confirmed_at = None, dp_cancelled_at = None\<rparr>)"

definition draft_call_hash :: "'a pylib_scheme \<Rightarrow> checked_request \<Rightarrow> document_draft \<Rightarrow> string result" where
  "draft_call_hash lib rq d = provider_call_hash lib (preview_shell lib rq) (dd_provider_arguments d)"

definition draft_integrity_hash ::
    "'a pylib_scheme \<Rightarrow> checked_request \<Rightarrow> document_draft \<times> projected_document \<times> string \<Rightarrow> string result" where
  "draft_integrity_hash lib rq x = (case x of (d, shown, call_hash) \<Rightarrow>
     payload_hash_of lib (preview_item_integrity_payload (dd_client_item_id d) call_hash
       (rp_projector_id (rq_projector rq)) (rp_projector_version (rq_projector rq))
       (pd_document_type shown) (pd_counterparty_display shown) (pd_issue_date shown)
       (pd_due_date shown) (pd_financials shown) (dd_warnings d) (dd_review_points d)))"

text \<open>\<open>HostedPayloadVault.seal\<close>\<close>

definition payload_seal ::
    "service_env \<Rightarrow> nat \<Rightarrow> document_preview \<Rightarrow> uuid \<Rightarrow> string \<Rightarrow> string \<Rightarrow> string \<Rightarrow> string \<Rightarrow> envelope result" where
  "payload_seal env n p item_id client_item_id call_hash integrity_hash plaintext =
     (case ebind (item_binding (sv_lib env) p item_id client_item_id call_hash integrity_hash)
            (\<lambda>b. vault_seal (sv_lib env) (sv_seal_env env n) (se_vault (sv_store env)) b plaintext) of
       Inl e \<Rightarrow>
         (if validation_caught e \<or> (case e of CredentialVaultError _ \<Rightarrow> True | _ \<Rightarrow> False)
          then Inl (hosted_error ''document_payload_invalid'') else Inl e)
     | Inr envelope \<Rightarrow> Inr envelope)"

text \<open>One round of the loop of \<open>_build_preview\<close>.\<close>

definition build_item ::
    "service_env \<Rightarrow> document_preview \<Rightarrow>
     nat \<times> document_draft \<times> projected_document \<times> string \<times> string \<Rightarrow> preview_item result" where
  "build_item env p x = (case x of (n, d, shown, call_hash, integrity_hash) \<Rightarrow>
     ebind (next_uuid env (Suc n)) (\<lambda>item_id.
     ebind (raise_if (\<not> payload_binding_valid p item_id (dd_client_item_id d) call_hash integrity_hash)
              (ValueError ''preview_payload_binding_invalid'')) (\<lambda>_.
     ebind (canonical_payload_bytes (dd_provider_arguments d)) (\<lambda>plaintext.
     ebind (payload_seal env n p item_id (dd_client_item_id d) call_hash integrity_hash plaintext) (\<lambda>envelope.
     validate_item (sv_lib env)
       \<lparr>tenant_id = tenant_id p, workspace_id = workspace_id p, auth_user_id = auth_user_id p,
        connection_id = connection_id p, pi_preview_item_id = item_id, pi_preview_id = dp_preview_id p,
        pi_item_index = n, pi_client_item_id = dd_client_item_id d, pi_provider_call_hash = call_hash,
        pi_preview_integrity_hash = integrity_hash, pi_document_type = pd_document_type shown,
        pi_counterparty_display = pd_counterparty_display shown, pi_issue_date = pd_issue_date shown,
        pi_due_date = pd_due_date shown, pi_financials = pd_financials shown,
        pi_warnings = dd_warnings d, pi_review_points = dd_review_points d,
        pi_payload_envelope = envelope, pi_created_at = dp_created_at p,
        pi_payload_purge_after = dp_payload_purge_after p\<rparr>)))))"

record request_hashes =
  hh_items :: "string list"
  hh_integrity :: "string list"
  hh_call :: string
  hh_preview :: string
  hh_account :: string

definition build_preview ::
    "service_env \<Rightarrow> checked_request \<Rightarrow> request_hashes \<Rightarrow> document_preview result" where
  "build_preview env rq h =
     ebind (next_uuid env 0) (\<lambda>preview_id.
     let p = (preview_shell (sv_lib env) rq)
           \<lparr>dp_preview_id := preview_id, dp_account_display_name := hh_account h,
            dp_provider_call_hash := hh_call h, dp_preview_integrity_hash := hh_preview h\<rparr> in
     ebind (emap (build_item env p)
              (zip [0..<length (rq_documents rq)]
                (zip (rq_documents rq) (zip (rq_projections rq) (zip (hh_items h) (hh_integrity h)))))) (\<lambda>items.
     validate_document_preview (sv_lib env) (p\<lparr>dp_items := items\<rparr>)))"


section \<open>The answer\<close>

record prepared_item =
  pri_client_item_id :: string
  pri_provider_call_hash :: string
  pri_preview_integrity_hash :: string
  pri_document_type :: string
  pri_counterparty_display :: string
  pri_issue_date :: string
  pri_due_date :: string
  pri_financials :: financials
  pri_warnings :: "string list"
  pri_review_points :: "string list"

record prepared_preview =
  pre_status :: preview_state
  pre_workspace_id :: uuid
  pre_preview_id :: uuid
  pre_state_version :: nat
  pre_connection_id :: uuid
  pre_provider :: provider_id
  pre_company_display_name :: string
  pre_environment :: string
  pre_capability_id :: string
  pre_capability_version :: string
  pre_document_count :: nat
  pre_currency :: string
  pre_subtotal :: decimal
  pre_discount_total :: decimal
  pre_vat_total :: decimal
  pre_withholding_tax_total :: decimal
  pre_grand_total :: decimal
  pre_warning_count :: nat
  pre_warnings :: "string list"
  pre_review_points :: "string list"
  pre_items :: "prepared_item list"
  pre_expires_at :: instant
  pre_next_allowed_actions :: "string list"

definition prepared_item_of :: "preview_item \<Rightarrow> prepared_item" where
  "prepared_item_of i =
     \<lparr>pri_client_item_id = pi_client_item_id i, pri_provider_call_hash = pi_provider_call_hash i,
      pri_preview_integrity_hash = pi_preview_integrity_hash i, pri_document_type = pi_document_type i,
      pri_counterparty_display = pi_counterparty_display i, pri_issue_date = pi_issue_date i,
      pri_due_date = pi_due_date i, pri_financials = pi_financials i, pri_warnings = pi_warnings i,
      pri_review_points = pi_review_points i\<rparr>"

text \<open>\<open>PreparedDocumentPreview.from_preview\<close>; the fields of a valid preview are valid here.\<close>

definition prepared_from_preview ::
    "'a hosted_lib_scheme \<Rightarrow> document_preview \<Rightarrow> prepared_preview result" where
  "prepared_from_preview lib p =
     ebind (validate_document_preview lib p) (\<lambda>p.
     ebind (sanitize_public_text lib ''preview_binding_invalid'' (dp_account_display_name p)) (\<lambda>company.
       Inr \<lparr>pre_status = dp_state p, pre_workspace_id = workspace_id p, pre_preview_id = dp_preview_id p,
            pre_state_version = dp_state_version p, pre_connection_id = connection_id p,
            pre_provider = dp_provider p, pre_company_display_name = company,
            pre_environment = dp_environment p, pre_capability_id = dp_capability_id p,
            pre_capability_version = dp_capability_version p, pre_document_count = length (dp_items p),
            pre_currency = dp_currency p, pre_subtotal = dp_subtotal p,
            pre_discount_total = dp_discount_total p, pre_vat_total = dp_vat_total p,
            pre_withholding_tax_total = dp_withholding_tax_total p, pre_grand_total = dp_grand_total p,
            pre_warning_count = length (dp_warnings p), pre_warnings = dp_warnings p,
            pre_review_points = dp_review_points p, pre_items = map prepared_item_of (dp_items p),
            pre_expires_at = dp_expires_at p,
            pre_next_allowed_actions =
              (if dp_state p = PreviewAwaitingConfirmation then [''render_document_preview''] else [])\<rparr>))"

section \<open>Preparing and editing\<close>

text \<open>The checks of \<open>prepare_document_create\<close> up to the projections.\<close>

definition check_request ::
    "service_env \<Rightarrow> principal \<Rightarrow> uuid \<Rightarrow> uuid \<Rightarrow> string \<Rightarrow> string \<Rightarrow> document_request \<Rightarrow> uuid option \<Rightarrow>
     checked_request result" where
  "check_request env p workspace connection capability version request supersedes =
     ebind (service_now env) (\<lambda>now.
     ebind (resolve_membership env p workspace) (\<lambda>m.
     ebind (raise_if (wm_workspace_id m \<noteq> workspace) (hosted_error ''workspace_access_denied'')) (\<lambda>_.
     ebind (resolve_connection env p workspace connection m) (\<lambda>c.
     ebind (resolve_qualification env c capability version now) (\<lambda>q.
     case resolve_projector (se_projectors (sv_store env)) q of
       None \<Rightarrow> Inl (hosted_error ''capability_unreviewed'')
     | Some pr \<Rightarrow>
         ebind (request_documents (sv_lib env) request) (\<lambda>ds.
         ebind (raise_if (\<not> distinct (map dd_client_item_id ds)) (hosted_error ''document_payload_invalid'')) (\<lambda>_.
         ebind (validate_exact_schema env q ds) (\<lambda>_.
         ebind (project_documents env pr ds) (\<lambda>shown.
         ebind (raise_if (length (remdups (map (fi_currency \<circ> pd_financials) shown)) \<noteq> 1)
                  (hosted_error ''document_schema_invalid'')) (\<lambda>_.
         Inr \<lparr>rq_now = now, rq_membership = m, rq_principal = p, rq_connection = c,
              rq_qualification = q, rq_projector = pr, rq_documents = ds, rq_projections = shown,
              rq_supersedes = supersedes\<rparr>))))))))))"

text \<open>Its hashes.\<close>

definition hash_request :: "'a hosted_lib_scheme \<Rightarrow> checked_request \<Rightarrow> request_hashes result" where
  "hash_request lib rq =
     ebind (emap (draft_call_hash lib rq) (rq_documents rq)) (\<lambda>call_hashes.
     ebind (raise_if (\<not> distinct call_hashes) (hosted_error ''duplicate_provider_call'')) (\<lambda>_.
     ebind (emap (draft_integrity_hash lib rq)
              (zip (rq_documents rq) (zip (rq_projections rq) call_hashes))) (\<lambda>integrity_hashes.
     ebind (payload_hash_of lib (preview_provider_call_payload (preview_shell lib rq) call_hashes)) (\<lambda>call.
     ebind (sanitize_public_text lib ''preview_binding_changed''
              (pc_account_display_name (rq_connection rq))) (\<lambda>account.
     ebind (payload_hash_of lib
              (preview_integrity_payload
                ((preview_shell lib rq)\<lparr>dp_provider_call_hash := call, dp_account_display_name := account\<rparr>)
                integrity_hashes)) (\<lambda>preview_hash.
     Inr \<lparr>hh_items = call_hashes, hh_integrity = integrity_hashes, hh_call = call,
          hh_preview = preview_hash, hh_account = account\<rparr>))))))"

text \<open>Other tasks use the store while the service awaits it.\<close>

definition others_step :: "service_env \<Rightarrow> nat \<Rightarrow> unit hosted_method" where
  "others_step env n = eput (run_all hosted_step (sv_others env n))"

text \<open>\<open>_find_existing\<close>\<close>

definition find_existing ::
    "service_env \<Rightarrow> nat \<Rightarrow> checked_request \<Rightarrow> string \<Rightarrow> document_preview option hosted_method" where
  "find_existing env n rq hash =
     eseq (others_step env n) (\<lambda>_.
     eseq (eattempt (find_preview_by_provider_call (sv_store env) (wm_tenant_id (rq_membership rq))
             (mp_subject (rq_principal rq)) (wm_workspace_id (rq_membership rq))
             (pc_id (rq_connection rq)) hash) (\<lambda>e. True)) (\<lambda>found.
     case found of
       Inl e \<Rightarrow> if is_hosted_error e \<and> e \<noteq> hosted_error ''preview_not_found'' then efail e else eret None
     | Inr None \<Rightarrow> eret None
     | Inr (Some p) \<Rightarrow>
         eseq (elift (recoded (\<lambda>e. ''preview_store_unavailable'')
                 (validate_document_preview (sv_lib env) p))) (\<lambda>p. eret (Some p))))"

text \<open>\<open>_recover_existing\<close>\<close>

definition recover_existing ::
    "service_env \<Rightarrow> document_preview \<Rightarrow> string \<Rightarrow> prepared_preview hosted_method" where
  "recover_existing env p integrity_hash =
     eseq (eguard (dp_preview_integrity_hash p \<noteq> integrity_hash)
             (hosted_error ''duplicate_provider_call'')) (\<lambda>_.
     elift (prepared_from_preview (sv_lib env) p))"

definition create_retried :: "mercury_error \<Rightarrow> bool" where
  "create_retried e \<longleftrightarrow>
     e \<in> {hosted_error ''preview_store_unavailable'', hosted_error ''preview_conflict'',
          hosted_error ''duplicate_provider_call''}"

definition store_new_preview ::
    "service_env \<Rightarrow> checked_request \<Rightarrow> request_hashes \<Rightarrow> prepared_preview hosted_method" where
  "store_new_preview env rq h =
     eseq (elift (build_preview env rq h)) (\<lambda>p.
     eseq (others_step env 1) (\<lambda>_.
     eseq (eattempt (create_hosted_preview (sv_store env) p) (\<lambda>e. True)) (\<lambda>created.
     case created of
       Inr stored \<Rightarrow> elift (prepared_from_preview (sv_lib env) stored)
     | Inl e \<Rightarrow>
         if \<not> is_hosted_error e then efail (hosted_error ''preview_store_unavailable'')
         else if \<not> create_retried e then efail e
         else eseq (find_existing env 2 rq (hh_call h)) (\<lambda>existing.
              case existing of
                Some p \<Rightarrow> recover_existing env p (hh_preview h)
              | None \<Rightarrow> efail e))))"

text \<open>\<open>HostedPreviewService.prepare_document_create\<close>\<close>

definition prepare_document_create ::
    "service_env \<Rightarrow> principal \<Rightarrow> uuid \<Rightarrow> uuid \<Rightarrow> string \<Rightarrow> string \<Rightarrow> document_request \<Rightarrow> uuid option \<Rightarrow>
     prepared_preview hosted_method" where
  "prepare_document_create env p workspace connection capability version request supersedes =
     eseq (elift (check_request env p workspace connection capability version request supersedes)) (\<lambda>rq.
     eseq (elift (hash_request (sv_lib env) rq)) (\<lambda>h.
     eseq (find_existing env 0 rq (hh_call h)) (\<lambda>existing.
     case existing of
       Some p \<Rightarrow> recover_existing env p (hh_preview h)
     | None \<Rightarrow> store_new_preview env rq h)))"

text \<open>\<open>HostedPreviewService.edit_document_preview\<close>\<close>

definition edit_document_preview ::
    "service_env \<Rightarrow> principal \<Rightarrow> uuid \<Rightarrow> uuid \<Rightarrow> string \<Rightarrow> string \<Rightarrow> uuid \<Rightarrow> document_request \<Rightarrow>
     prepared_preview hosted_method" where
  "edit_document_preview env p workspace connection capability version preview_id request =
     eseq (elift (resolve_membership env p workspace)) (\<lambda>m.
     eseq (others_step env 3) (\<lambda>_.
     eseq (ecatch (get_hosted_preview (sv_store env) (wm_tenant_id m) (mp_subject p) workspace preview_id)
             (\<lambda>e. \<not> is_hosted_error e) (\<lambda>e. efail (hosted_error ''preview_store_unavailable''))) (\<lambda>original.
     eseq (eguard (connection_id original \<noteq> connection \<or> dp_capability_id original \<noteq> capability \<or>
              dp_capability_version original \<noteq> version) (hosted_error ''preview_binding_changed'')) (\<lambda>_.
     prepare_document_create env p workspace connection capability version request
       (Some (dp_preview_id original))))))"

section \<open>What the service does to the store\<close>

text \<open>The store is used only through its methods.\<close>

definition by_calls :: "hosted_store \<Rightarrow> hosted_store \<Rightarrow> bool" where
  "by_calls s s' \<longleftrightarrow> (\<exists>calls. s' = run_all hosted_step calls s)"

lemma by_calls_refl [simp]: "by_calls s s"
  by (auto simp: by_calls_def run_all_def intro: exI[of _ "[]"])

lemma run_all_append: "run_all step (xs @ ys) s = run_all step ys (run_all step xs s)"
  by (simp add: run_all_def)

lemma by_others: "by_calls s s' \<Longrightarrow> by_calls s (run_all hosted_step calls s')"
  unfolding by_calls_def by (metis run_all_append)

lemma by_one_call: "by_calls s s' \<Longrightarrow> by_calls s (hosted_step x s')"
  using by_others[of s s' "[x]"] by (simp add: run_all_def)

lemma wp_others_step [simp]: "wp (others_step env n) Q s = Q (Inr ()) (run_all hosted_step (sv_others env n) s)"
  by (simp add: others_step_def)

lemma wp_eattempt_all [simp]: "wp (eattempt m (\<lambda>e. True)) Q s = wp m (\<lambda>r. Q (Inr r)) s"
  by (auto simp: eattempt_def wp_def outcome_def final_def ecatch_def eseq_def split: prod.splits sum.splits)

lemma wp_method:
  assumes "\<And>r. Q r (hosted_step x s)" and "final m s = hosted_step x s"
  shows "wp m Q s"
  using assms by (simp add: wp_def)

lemma wp_by_calls: "by_calls s0 s \<Longrightarrow> final m s = hosted_step x s \<Longrightarrow> wp m (\<lambda>r. by_calls s0) s"
  by (simp add: wp_def by_one_call)

text \<open>After a method that only makes calls, the rest is looked at for any outcome and any such state.\<close>

lemma wp_calls_then:
  assumes "wp m (\<lambda>r. by_calls s0) s" and "\<And>r s'. by_calls s0 s' \<Longrightarrow> Q r s'"
  shows "wp m Q s"
  using assms by (simp add: wp_def)

lemma find_existing_calls:
  assumes "by_calls s0 s"
  shows "wp (find_existing env n rq hash) (\<lambda>r. by_calls s0) s"
proof -
  have find: "wp (find_preview_by_provider_call e t u w c h) (\<lambda>r. by_calls s0) (run_all hosted_step (sv_others env n) s)"
    for e t u w c h
    by (rule wp_by_calls[where x = "(e, FindPreview t u w c h)"]) (simp_all add: assms by_others hosted_step_def)
  show ?thesis
    by (auto simp: find_existing_def intro!: wp_calls_then[OF find] split: sum.split option.split)
qed

lemma recover_existing_calls: "by_calls s0 s \<Longrightarrow> wp (recover_existing env p h) (\<lambda>r. by_calls s0) s"
  by (auto simp: recover_existing_def split: sum.split)

lemma store_new_calls:
  assumes "by_calls s0 s"
  shows "wp (store_new_preview env rq h) (\<lambda>r. by_calls s0) s"
proof -
  have create: "wp (create_hosted_preview (sv_store env) p) (\<lambda>r. by_calls s0)
      (run_all hosted_step (sv_others env (Suc 0)) s)" for p
    by (rule wp_by_calls[where x = "(sv_store env, CreatePreview p)"])
      (simp_all add: assms by_others hosted_step_def)
  have retry: "wp (find_existing env 2 rq (hh_call h)) (\<lambda>r s'. case r of Inl e \<Rightarrow> by_calls s0 s'
      | Inr x \<Rightarrow> wp (case x of None \<Rightarrow> efail e | Some p \<Rightarrow> recover_existing env p (hh_preview h)) (\<lambda>r. by_calls s0) s') s'"
    if "by_calls s0 s'" for s' e
    by (rule wp_calls_then[OF find_existing_calls[OF that]])
      (auto simp: recover_existing_calls split: sum.split option.split)
  show ?thesis
    by (auto simp: store_new_preview_def assms retry intro!: wp_calls_then[OF create] split: sum.split)
qed

lemma prepare_calls:
  assumes "by_calls s0 s"
  shows "wp (prepare_document_create env p w c capability version request supersedes) (\<lambda>r. by_calls s0) s"
  by (auto simp: prepare_document_create_def assms recover_existing_calls store_new_calls
      intro!: wp_calls_then[OF find_existing_calls] split: sum.split option.split)

lemma edit_calls:
  "wp (edit_document_preview env p w c capability version i request) (\<lambda>r. by_calls s) s"
proof -
  have get: "wp (get_hosted_preview (sv_store env) t u w i) (\<lambda>r. by_calls s)
      (run_all hosted_step (sv_others env 3) s)" for t u
    by (rule wp_by_calls[where x = "(sv_store env, GetPreview t u w i)"])
      (simp_all add: by_others hosted_step_def)
  show ?thesis
    by (auto simp: edit_document_preview_def prepare_calls intro!: wp_calls_then[OF get] split: sum.split)
qed

section \<open>What the service builds\<close>

lemma service_recoded_Inr [simp]:
  "unless_hosted code r = Inr x \<longleftrightarrow> r = Inr x" "closed_error code r = Inr x \<longleftrightarrow> r = Inr x"
  by (cases r; simp add: unless_hosted_def closed_error_def)+

text \<open>The item \<open>i\<close> of preview \<open>p\<close> seals the arguments of the draft \<open>d\<close> under its own binding.\<close>

definition seals :: "service_env \<Rightarrow> document_preview \<Rightarrow> document_draft \<Rightarrow> preview_item \<Rightarrow> bool" where
  "seals env p d i \<longleftrightarrow>
     pi_client_item_id i = dd_client_item_id d \<and>
     provider_call_hash (sv_lib env) p (dd_provider_arguments d) = Inr (pi_provider_call_hash i) \<and>
     (\<exists>n b plaintext.
        item_binding (sv_lib env) p (pi_preview_item_id i) (pi_client_item_id i) (pi_provider_call_hash i)
          (pi_preview_integrity_hash i) = Inr b \<and>
        canonical_payload_bytes (dd_provider_arguments d) = Inr plaintext \<and>
        vault_seal (sv_lib env) (sv_seal_env env n) (se_vault (sv_store env)) b plaintext
          = Inr (pi_payload_envelope i))"

text \<open>
  The item \<open>i\<close> shows the projection of the draft \<open>d\<close>, and its integrity hash is taken over it. The
  name of the counterparty is made safe for display again, by the item and by the preview.
\<close>

definition display_name :: "'a hosted_lib_scheme \<Rightarrow> string \<Rightarrow> string result" where
  "display_name lib s = sanitize_public_text lib ''preview_item_binding_invalid'' s"

definition displays :: "service_env \<Rightarrow> checked_request \<Rightarrow> document_draft \<Rightarrow> preview_item \<Rightarrow> bool" where
  "displays env rq d i \<longleftrightarrow>
     (\<exists>shown. project (sv_lib env) (rq_projector rq) (dd_provider_arguments d) = Inr shown \<and>
        draft_integrity_hash (sv_lib env) rq (d, shown, pi_provider_call_hash i) = Inr (pi_preview_integrity_hash i) \<and>
        pi_document_type i = pd_document_type shown \<and>
        ebind (display_name (sv_lib env) (pd_counterparty_display shown)) (display_name (sv_lib env))
          = Inr (pi_counterparty_display i) \<and>
        pi_issue_date i = pd_issue_date shown \<and> pi_due_date i = pd_due_date shown \<and>
        pi_financials i = pd_financials shown \<and> pi_warnings i = dd_warnings d \<and>
        pi_review_points i = dd_review_points d)"

lemma validate_item_fields:
  assumes "validate_item lib i = Inr j"
  obtains name where "j = i\<lparr>pi_counterparty_display := name\<rparr>"
    and "display_name lib (pi_counterparty_display i) = Inr name"
  using assms by (auto simp: validate_item_def display_name_def outcome_simps Let_def)

lemma payload_seal_Inr:
  "payload_seal env n p i c call_hash integrity_hash plaintext = Inr e \<longleftrightarrow>
     (\<exists>b. item_binding (sv_lib env) p i c call_hash integrity_hash = Inr b \<and>
       vault_seal (sv_lib env) (sv_seal_env env n) (se_vault (sv_store env)) b plaintext = Inr e)"
  unfolding payload_seal_def ebind_eq_Inr[symmetric] by (auto split: sum.splits)

lemma build_item_Inr:
  assumes "build_item env p (n, d, shown, call_hash, integrity_hash) = Inr i"
    and "provider_call_hash (sv_lib env) p (dd_provider_arguments d) = Inr call_hash"
  shows "seals env p d i"
proof -
  from assms(1) obtain item_id plaintext envelope b where
    plaintext: "canonical_payload_bytes (dd_provider_arguments d) = Inr plaintext"
    and b: "item_binding (sv_lib env) p item_id (dd_client_item_id d) call_hash integrity_hash = Inr b"
    and seal: "vault_seal (sv_lib env) (sv_seal_env env n) (se_vault (sv_store env)) b plaintext = Inr envelope"
    and i: "pi_client_item_id i = dd_client_item_id d" "pi_provider_call_hash i = call_hash"
      "pi_preview_item_id i = item_id" "pi_preview_integrity_hash i = integrity_hash"
      "pi_payload_envelope i = envelope"
    by (auto simp: build_item_def payload_seal_Inr outcome_simps split: if_splits elim!: validate_item_fields)
  show ?thesis
    unfolding seals_def i using plaintext b seal assms(2) by blast
qed

lemma build_item_displays:
  assumes "build_item env p (n, d, shown, call_hash, integrity_hash) = Inr i"
    and "validate_item (sv_lib env) i = Inr j"
    and "draft_integrity_hash (sv_lib env) rq (d, shown, call_hash) = Inr integrity_hash"
    and "project (sv_lib env) (rq_projector rq) (dd_provider_arguments d) = Inr shown"
  shows "displays env rq d j"
proof -
  obtain name where j: "j = i\<lparr>pi_counterparty_display := name\<rparr>"
    and again: "display_name (sv_lib env) (pi_counterparty_display i) = Inr name"
    by (rule validate_item_fields[OF assms(2)])
  from assms(1) have i: "pi_provider_call_hash i = call_hash" "pi_preview_integrity_hash i = integrity_hash"
      "pi_document_type i = pd_document_type shown" "pi_issue_date i = pd_issue_date shown"
      "pi_due_date i = pd_due_date shown" "pi_financials i = pd_financials shown"
      "pi_warnings i = dd_warnings d" "pi_review_points i = dd_review_points d"
      "display_name (sv_lib env) (pd_counterparty_display shown) = Inr (pi_counterparty_display i)"
    by (auto simp: build_item_def outcome_simps split: if_splits elim!: validate_item_fields)
  show ?thesis
    unfolding displays_def by (rule exI[of _ shown]) (simp add: j i again assms(3,4))
qed

text \<open>Hashes of calls and bindings do not read the items and the display name of a preview.\<close>

lemma redisplayed:
  "item_binding lib (p\<lparr>dp_account_display_name := a, dp_items := xs\<rparr>) = item_binding lib p"
  "provider_call_hash lib (p\<lparr>dp_account_display_name := a, dp_items := xs\<rparr>) = provider_call_hash lib p"
  by (auto simp: item_binding_def payload_binding_valid_def payload_binding_json_def scope_non_nil_def
      provider_call_hash_def provider_call_payload_def fun_eq_iff)

lemma validate_document_preview_fields:
  assumes "validate_document_preview lib p = Inr q"
  obtains name items where "q = p\<lparr>dp_account_display_name := name, dp_items := items\<rparr>"
    and "validate_all (validate_item lib) (dp_items p) = Inr items"
  using assms by (auto simp: validate_document_preview_def outcome_simps fields_valid_Inr Let_def)

lemma seals_redisplayed:
  "seals env p d i \<Longrightarrow> seals env (p\<lparr>dp_account_display_name := a, dp_items := xs\<rparr>) d i"
  unfolding seals_def redisplayed .

lemma seals_validated_item:
  assumes "seals env p d i" and "validate_item lib i = Inr j"
  shows "seals env p d j"
proof -
  obtain name where j: "j = i\<lparr>pi_counterparty_display := name\<rparr>" by (rule validate_item_fields[OF assms(2)])
  have same: "pi_client_item_id j = pi_client_item_id i" "pi_provider_call_hash j = pi_provider_call_hash i"
    "pi_preview_item_id j = pi_preview_item_id i" "pi_preview_integrity_hash j = pi_preview_integrity_hash i"
    "pi_payload_envelope j = pi_payload_envelope i"
    by (simp_all add: j)
  show ?thesis using assms(1) unfolding seals_def same .
qed

lemma validate_all_emap: "validate_all f xs = Inr ys \<Longrightarrow> emap f xs = Inr ys"
proof (induction xs arbitrary: ys)
  case (Cons x xs)
  show ?case
  proof (cases "f x")
    case (Inl e)
    with Cons.prems show ?thesis by (simp add: fields_valid_Inr split: if_splits)
  next
    case (Inr y)
    with Cons.prems Cons.IH show ?thesis by (auto simp: outcome_simps)
  qed
qed simp

lemma list_all2_compose:
  assumes "list_all2 P xs ys" and "list_all2 Q ys zs" and "\<And>x y z. P x y \<Longrightarrow> Q y z \<Longrightarrow> R x z"
  shows "list_all2 R xs zs"
  using assms by (fastforce simp: list_all2_conv_all_nth)

lemma build_preview_items:
  assumes "build_preview env rq h = Inr q"
  obtains i items name checked where
    "emap (build_item env (preview_shell (sv_lib env) rq
         \<lparr>dp_preview_id := i, dp_account_display_name := hh_account h,
          dp_provider_call_hash := hh_call h, dp_preview_integrity_hash := hh_preview h\<rparr>))
       (zip [0..<length (rq_documents rq)] (zip (rq_documents rq) (zip (rq_projections rq)
         (zip (hh_items h) (hh_integrity h))))) = Inr items"
    and "emap (validate_item (sv_lib env)) items = Inr checked"
    and "q = preview_shell (sv_lib env) rq
         \<lparr>dp_preview_id := i, dp_provider_call_hash := hh_call h, dp_preview_integrity_hash := hh_preview h,
          dp_account_display_name := name, dp_items := checked\<rparr>"
proof -
  from assms obtain i items where
    items: "emap (build_item env (preview_shell (sv_lib env) rq
         \<lparr>dp_preview_id := i, dp_account_display_name := hh_account h,
          dp_provider_call_hash := hh_call h, dp_preview_integrity_hash := hh_preview h\<rparr>))
       (zip [0..<length (rq_documents rq)] (zip (rq_documents rq) (zip (rq_projections rq)
         (zip (hh_items h) (hh_integrity h))))) = Inr items"
    and valid: "validate_document_preview (sv_lib env) (preview_shell (sv_lib env) rq
         \<lparr>dp_preview_id := i, dp_account_display_name := hh_account h,
          dp_provider_call_hash := hh_call h, dp_preview_integrity_hash := hh_preview h, dp_items := items\<rparr>) = Inr q"
    by (auto simp: build_preview_def outcome_simps Let_def)
  show thesis
    by (rule validate_document_preview_fields[OF valid], rule that[OF items])
      (simp_all add: validate_all_emap)
qed

text \<open>The hashes of a request, one of each kind for every document.\<close>

lemma hash_request_nth:
  assumes "hash_request lib rq = Inr h" and "length (rq_projections rq) = length (rq_documents rq)"
  shows "length (hh_items h) = length (rq_documents rq)" and "length (hh_integrity h) = length (rq_documents rq)"
    and "\<And>n. n < length (rq_documents rq) \<Longrightarrow> draft_call_hash lib rq (rq_documents rq ! n) = Inr (hh_items h ! n)"
    and "\<And>n. n < length (rq_documents rq) \<Longrightarrow>
      draft_integrity_hash lib rq (rq_documents rq ! n, rq_projections rq ! n, hh_items h ! n) = Inr (hh_integrity h ! n)"
proof -
  from assms(1) have calls: "emap (draft_call_hash lib rq) (rq_documents rq) = Inr (hh_items h)"
    and integ: "emap (draft_integrity_hash lib rq) (zip (rq_documents rq) (zip (rq_projections rq) (hh_items h)))
      = Inr (hh_integrity h)"
    by (auto simp: hash_request_def outcome_simps split: if_splits)
  show len: "length (hh_items h) = length (rq_documents rq)" "length (hh_integrity h) = length (rq_documents rq)"
    using emap_eq_Inr_length[OF calls] emap_eq_Inr_length[OF integ] assms(2) by simp_all
  show "draft_call_hash lib rq (rq_documents rq ! n) = Inr (hh_items h ! n)" if "n < length (rq_documents rq)" for n
    using calls that unfolding emap_eq_Inr_iff by (auto dest: list_all2_nthD)
  show "draft_integrity_hash lib rq (rq_documents rq ! n, rq_projections rq ! n, hh_items h ! n) = Inr (hh_integrity h ! n)"
    if "n < length (rq_documents rq)" for n
    using integ that len assms(2) unfolding emap_eq_Inr_iff by (auto dest: list_all2_nthD)
qed

lemma build_preview_seals:
  assumes "hash_request (sv_lib env) rq = Inr h" and "build_preview env rq h = Inr q"
    and "list_all2 (\<lambda>d shown. project (sv_lib env) (rq_projector rq) (dd_provider_arguments d) = Inr shown)
      (rq_documents rq) (rq_projections rq)"
  shows "list_all2 (\<lambda>d i. seals env q d i \<and> displays env rq d i) (rq_documents rq) (dp_items q)"
proof (rule build_preview_items[OF assms(2)])
  fix i items name checked
  define p where "p = preview_shell (sv_lib env) rq
           \<lparr>dp_preview_id := i, dp_account_display_name := hh_account h,
            dp_provider_call_hash := hh_call h, dp_preview_integrity_hash := hh_preview h\<rparr>"
  assume "emap (build_item env (preview_shell (sv_lib env) rq
         \<lparr>dp_preview_id := i, dp_account_display_name := hh_account h,
          dp_provider_call_hash := hh_call h, dp_preview_integrity_hash := hh_preview h\<rparr>))
       (zip [0..<length (rq_documents rq)] (zip (rq_documents rq) (zip (rq_projections rq)
         (zip (hh_items h) (hh_integrity h))))) = Inr items"
  then have items: "list_all2 (\<lambda>x y. build_item env p x = Inr y) (zip [0..<length (rq_documents rq)]
      (zip (rq_documents rq) (zip (rq_projections rq) (zip (hh_items h) (hh_integrity h))))) items"
    by (simp add: p_def emap_eq_Inr_iff)
  assume "emap (validate_item (sv_lib env)) items = Inr checked"
  then have checked: "list_all2 (\<lambda>x y. validate_item (sv_lib env) x = Inr y) items checked"
    by (simp add: emap_eq_Inr_iff)
  assume "q = preview_shell (sv_lib env) rq
         \<lparr>dp_preview_id := i, dp_provider_call_hash := hh_call h, dp_preview_integrity_hash := hh_preview h,
          dp_account_display_name := name, dp_items := checked\<rparr>"
  then have q: "q = p\<lparr>dp_account_display_name := name, dp_items := checked\<rparr>" by (simp add: p_def)
  have shown: "length (rq_projections rq) = length (rq_documents rq)" using assms(3) by (simp add: list_all2_lengthD)
  note hashes = hash_request_nth[OF assms(1) shown]
  have len: "length items = length (rq_documents rq)" "length checked = length (rq_documents rq)"
    using list_all2_lengthD[OF items] list_all2_lengthD[OF checked] hashes(1,2) shown by simp_all
  show ?thesis
  proof (rule list_all2_all_nthI)
    fix n assume n: "n < length (rq_documents rq)"
    have built: "build_item env p (n, rq_documents rq ! n, rq_projections rq ! n, hh_items h ! n, hh_integrity h ! n)
        = Inr (items ! n)"
      using list_all2_nthD[OF items, of n] n hashes(1,2) shown by simp
    have "provider_call_hash (sv_lib env) p (dd_provider_arguments (rq_documents rq ! n)) = Inr (hh_items h ! n)"
      using hashes(3)[OF n] by (simp add: p_def draft_call_hash_def provider_call_hash_def provider_call_payload_def)
    note sealed = build_item_Inr[OF built this]
    have valid: "validate_item (sv_lib env) (items ! n) = Inr (checked ! n)"
      using list_all2_nthD[OF checked, of n] n len by simp
    have "project (sv_lib env) (rq_projector rq) (dd_provider_arguments (rq_documents rq ! n)) = Inr (rq_projections rq ! n)"
      using list_all2_nthD[OF assms(3) n] .
    from build_item_displays[OF built valid hashes(4)[OF n] this]
      seals_redisplayed[OF seals_validated_item[OF sealed valid]]
    show "seals env q (rq_documents rq ! n) (dp_items q ! n) \<and> displays env rq (rq_documents rq ! n) (dp_items q ! n)"
      by (simp add: q)
  qed (simp add: q len)
qed

lemma check_request_Inr:
  assumes "check_request env p w c capability version request supersedes = Inr rq"
  shows "request_documents (sv_lib env) request = Inr (rq_documents rq)"
    and "list_all2 (\<lambda>d shown. project (sv_lib env) (rq_projector rq) (dd_provider_arguments d) = Inr shown)
      (rq_documents rq) (rq_projections rq)"
    and "resolve_projector (se_projectors (sv_store env)) (rq_qualification rq) = Some (rq_projector rq)"
    and "wm_workspace_id (rq_membership rq) = w" and "rq_principal rq = p" and "pc_id (rq_connection rq) = c"
    and "sv_membership env p w = Inr (rq_membership rq)"
    and "qu_normalized_capability (rq_qualification rq) = capability"
    and "qu_capability_version_sha256 (rq_qualification rq) = version"
    and "auth_user_id (rq_connection rq) = mp_subject p \<and> workspace_id (rq_connection rq) = w"
    and "qualification_serves (sv_lib env) (rq_connection rq) capability version (rq_now rq) (rq_qualification rq)"
proof -
  from assms obtain now m con q pr ds shown where
    m: "resolve_membership env p w = Inr m" "wm_workspace_id m = w"
    and con: "resolve_connection env p w c m = Inr con"
    and q: "resolve_qualification env con capability version now = Inr q"
    and ds: "request_documents (sv_lib env) request = Inr ds" "project_documents env pr ds = Inr shown"
    and pr: "resolve_projector (se_projectors (sv_store env)) q = Some pr"
    and rq: "rq = \<lparr>rq_now = now, rq_membership = m, rq_principal = p, rq_connection = con,
              rq_qualification = q, rq_projector = pr, rq_documents = ds, rq_projections = shown,
              rq_supersedes = supersedes\<rparr>"
    by (auto simp: check_request_def outcome_simps split: if_splits option.splits)
  have serves: "qualification_serves (sv_lib env) con capability version now q"
    using q by (auto simp: resolve_qualification_def outcome_simps split: if_splits)
  show "request_documents (sv_lib env) request = Inr (rq_documents rq)" "wm_workspace_id (rq_membership rq) = w"
    "rq_principal rq = p" "sv_membership env p w = Inr (rq_membership rq)"
    using ds m by (auto simp: rq resolve_membership_def outcome_simps split: if_splits)
  show "pc_id (rq_connection rq) = c" "auth_user_id (rq_connection rq) = mp_subject p \<and> workspace_id (rq_connection rq) = w"
    using con by (auto simp: rq resolve_connection_def outcome_simps split: if_splits)
  show "list_all2 (\<lambda>d shown. project (sv_lib env) (rq_projector rq) (dd_provider_arguments d) = Inr shown)
      (rq_documents rq) (rq_projections rq)"
    using ds(2) by (simp add: rq project_documents_def emap_eq_Inr_iff)
  show "resolve_projector (se_projectors (sv_store env)) (rq_qualification rq) = Some (rq_projector rq)"
    using pr by (simp add: rq)
  show "qualification_serves (sv_lib env) (rq_connection rq) capability version (rq_now rq) (rq_qualification rq)"
    "qu_normalized_capability (rq_qualification rq) = capability"
    "qu_capability_version_sha256 (rq_qualification rq) = version"
    using serves by (simp_all add: rq qualification_serves_def)
qed

lemma build_preview_fields:
  assumes "build_preview env rq h = Inr q"
  shows "tenant_id q = wm_tenant_id (rq_membership rq)" and "workspace_id q = wm_workspace_id (rq_membership rq)"
    and "auth_user_id q = mp_subject (rq_principal rq)" and "connection_id q = pc_id (rq_connection rq)"
    and "dp_capability_id q = qu_normalized_capability (rq_qualification rq)"
    and "dp_capability_version q = qu_capability_version_sha256 (rq_qualification rq)"
    and "dp_state q = PreviewAwaitingConfirmation" and "dp_created_at q = rq_now rq"
    and "dp_expires_at q = rq_now rq + preview_ttl"
    and "dp_projector_id q = rp_projector_id (rq_projector rq)"
    and "dp_projector_version q = rp_projector_version (rq_projector rq)"
proof -
  obtain i name checked where q: "q = preview_shell (sv_lib env) rq
           \<lparr>dp_preview_id := i, dp_provider_call_hash := hh_call h,
            dp_preview_integrity_hash := hh_preview h, dp_account_display_name := name, dp_items := checked\<rparr>"
    by (rule build_preview_items[OF assms])
  show "tenant_id q = wm_tenant_id (rq_membership rq)" "workspace_id q = wm_workspace_id (rq_membership rq)"
    "auth_user_id q = mp_subject (rq_principal rq)" "connection_id q = pc_id (rq_connection rq)"
    "dp_capability_id q = qu_normalized_capability (rq_qualification rq)"
    "dp_capability_version q = qu_capability_version_sha256 (rq_qualification rq)"
    "dp_state q = PreviewAwaitingConfirmation" "dp_created_at q = rq_now rq"
    "dp_expires_at q = rq_now rq + preview_ttl"
    "dp_projector_id q = rp_projector_id (rq_projector rq)"
    "dp_projector_version q = rp_projector_version (rq_projector rq)"
    by (simp_all add: q preview_shell_def Let_def)
qed


lemma built_preview:
  assumes "check_request env p w c capability version request supersedes = Inr rq"
    and "hash_request (sv_lib env) rq = Inr h" and "build_preview env rq h = Inr q"
  shows "request_documents (sv_lib env) request = Inr (rq_documents rq) \<and>
    (\<exists>m. sv_membership env p w = Inr m \<and> tenant_id q = wm_tenant_id m) \<and>
    workspace_id q = w \<and> auth_user_id q = mp_subject p \<and> connection_id q = c \<and>
    dp_capability_id q = capability \<and> dp_capability_version q = version \<and>
    dp_state q = PreviewAwaitingConfirmation \<and> dp_expires_at q = dp_created_at q + preview_ttl \<and>
    resolve_projector (se_projectors (sv_store env)) (rq_qualification rq) = Some (rq_projector rq) \<and>
    dp_projector_id q = rp_projector_id (rq_projector rq) \<and>
    dp_projector_version q = rp_projector_version (rq_projector rq) \<and>
    list_all2 (\<lambda>d i. seals env q d i \<and> displays env rq d i) (rq_documents rq) (dp_items q)"
  using check_request_Inr[OF assms(1)] build_preview_fields[OF assms(3)]
    build_preview_seals[OF assms(2,3) check_request_Inr(2)[OF assms(1)]]
  by simp

section \<open>Properties\<close>

text \<open>
  C39: A preview that the service builds belongs to the caller and the requested connection, capability
  and version, waits for confirmation and expires half an hour after it was made. Its items are the
  requested documents in their order: the hash that a person confirms is the hash of exactly the
  arguments that are sealed, under a binding to this preview, item, account and authority, and what
  the item shows, over which its integrity hash is taken, is the projection of the same arguments by
  the reviewed projector of the capability, with the warnings and review points of the request.
\<close>

theorem built_preview_seals_what_it_shows:
  "case ebind (check_request env p w c capability version request supersedes) (\<lambda>rq.
        ebind (hash_request (sv_lib env) rq) (\<lambda>h. ebind (build_preview env rq h) (\<lambda>q. Inr (rq, q)))) of
     Inl e \<Rightarrow> True
   | Inr (rq, q) \<Rightarrow>
       request_documents (sv_lib env) request = Inr (rq_documents rq) \<and>
       (\<exists>m. sv_membership env p w = Inr m \<and> tenant_id q = wm_tenant_id m) \<and>
       workspace_id q = w \<and> auth_user_id q = mp_subject p \<and> connection_id q = c \<and>
       dp_capability_id q = capability \<and> dp_capability_version q = version \<and>
       dp_state q = PreviewAwaitingConfirmation \<and> dp_expires_at q = dp_created_at q + preview_ttl \<and>
       resolve_projector (se_projectors (sv_store env)) (rq_qualification rq) = Some (rq_projector rq) \<and>
       dp_projector_id q = rp_projector_id (rq_projector rq) \<and>
       dp_projector_version q = rp_projector_version (rq_projector rq) \<and>
       list_all2 (\<lambda>d i. seals env q d i \<and> displays env rq d i) (rq_documents rq) (dp_items q)"
proof (cases "ebind (check_request env p w c capability version request supersedes) (\<lambda>rq.
        ebind (hash_request (sv_lib env) rq) (\<lambda>h. ebind (build_preview env rq h) (\<lambda>q. Inr (rq, q))))")
  case (Inr x)
  then show ?thesis by (auto simp: outcome_simps dest: built_preview)
qed simp

text \<open>
  Whatever the service answers and whatever other tasks do to the store meanwhile, preparing and
  editing change the store only by calls of its methods, so everything that holds of the store after
  any sequence of calls holds while the service runs.
\<close>

lemma service_uses_store_calls:
  "wp (prepare_document_create env p w c capability version request supersedes) (\<lambda>r. by_calls s) s \<and>
   wp (edit_document_preview env p w c capability version i request) (\<lambda>r. by_calls s) s"
  by (simp add: prepare_calls edit_calls)

end
