(* ===== verification/Spec2Isabelle.thy ===== *)
theory Spec2Isabelle
  imports Request_Store Journal Fixture_Cleanup Fixture_Planner Execution_Safety Reconciliation Hosted_Service
begin

text \<open>
  Verification development of mercury-tools (\<open>src/src/mercury_tools\<close>, paths below are relative to
  it), a gateway through which a language model reads an accounting system (ERP) and, after an
  explicit approval by a person, changes it.

  \<^bold>\<open>The program.\<close> An ERP endpoint is a catalog action (\<open>catalog/models.py\<close>). A local write goes
  through a request template (\<open>execution/request_builder.py\<close>), a risk decision
  (\<open>execution/policy.py\<close>), a prepared request with an approval hash (\<open>execution/models.py\<close>), a
  store that allows one execution per hash (\<open>execution/store.py\<close>) and the executor
  (\<open>execution/executor.py\<close>), which approves, dispatches and records the outcome. The hosted service
  keeps previews of documents and operations of several items (\<open>execution/hosted/\<close>), with payloads
  sealed in envelopes (\<open>credentials/\<close>). Endpoints are qualified in sandbox runs that create and
  clean up fixtures (\<open>qualification/\<close>). General journals (\<open>journals/models.py\<close>) and the
  reconciliation of bank and book transactions (\<open>reconciliation/\<close>) are computations on top.

  \<^bold>\<open>Conventions.\<close> \<open>Mercury_Prelude\<close> has the errors as values (\<open>ebind\<close>, \<open>raise_if\<close>), timestamps and
  identifiers; \<open>Effects\<close> the methods that change state and may raise after they changed it (\<open>wp\<close>
  states claims about them); \<open>One_Shot\<close> the interface of everything that may happen at most once, a
  locale interpreted by the request store (executions), the run store (publications) and the hosted
  store (provider calls). Texts are lists of UTF-8 bytes; \<open>Text_Tools\<close> reads their characters and
  decimal literals. Python's integers are unbounded, so are the model's; the only fixed widths of
  the code are decimal contexts of 28 digits, which \<open>Text_Tools\<close>, \<open>Journal\<close> and \<open>Hosted_Money\<close>
  keep.

  \<^bold>\<open>Theories and code.\<close>

  Local writes. \<open>Canonical_Json\<close> is \<open>canonical.py\<close>, \<open>Catalog_Action\<close> the action of
  \<open>catalog/models.py\<close> and its identity, \<open>Risk_Policy\<close> is \<open>execution/policy.py\<close>, \<open>Path_Rendering\<close>
  and \<open>Prepared_Request\<close> are \<open>execution/models.py\<close>, \<open>Input_Schema\<close>, \<open>Request_Template\<close> and
  \<open>Bound_Requests\<close> are \<open>catalog/schema_contract.py\<close> and \<open>execution/request_builder.py\<close>,
  \<open>Request_Store\<close> is \<open>LocalRequestStore\<close>, \<open>Executor\<close> is \<open>ERPExecutor\<close> and \<open>Execution_Safety\<close> what
  it guarantees while other tasks use the same store.

  Hosted previews and operations. \<open>Hosted_Text\<close> (\<open>sanitization.py\<close>) projects display texts,
  \<open>Hosted_Money\<close> is the money of \<open>execution/hosted/models.py\<close>, \<open>Provider_Authority\<close> holds the
  connections (\<open>providers/models.py\<close>) and qualifications (\<open>catalog/models.py\<close>) a call is authorised
  by, \<open>Credential_Vault\<close> is \<open>credentials/\<close>: envelopes sealed under a binding. \<open>Hosted_Preview\<close> and
  \<open>Hosted_Operation\<close> are the previews and operations of \<open>models.py\<close>, over the state machines of
  \<open>Transitions\<close> (\<open>transitions.py\<close>); \<open>Hosted_Projector\<close> is \<open>projectors.py\<close>; \<open>Hosted_Store\<close> is the
  in-memory store of \<open>store.py\<close> with the check of the authority and the opening of a preview.
  \<open>Hosted_Sample\<close> is one invoice previewed, confirmed and dispatched; \<open>Hosted_Safety\<close> shows that
  every call is one move of an abstract store, its invariant, and what follows for any sequence of calls.
  \<open>Hosted_Service\<close> is \<open>preview_service.py\<close>, the service that prepares previews on top of the store.

  Qualification. \<open>Run_Store\<close> is \<open>qualification/run_store.py\<close>, \<open>Topological_Order\<close>,
  \<open>Fixture_Cleanup\<close> and \<open>Fixture_Planner\<close> are \<open>qualification/fixtures.py\<close> and the sorting core of
  \<open>qualification/planner.py\<close>.

  Computations. \<open>Journal\<close> is \<open>journals/models.py\<close>. \<open>Flow_Network\<close> is the residual graph and the
  successive shortest paths of \<open>reconciliation/matcher.py\<close>, \<open>Network_Layout\<close> what its flow means for
  the arcs, \<open>Transaction_Matching\<close> and \<open>Optimal_Matching\<close> the candidates, their costs and the best
  assignment, \<open>Reconciliation\<close> the whole of \<open>match_transactions\<close>.

  \<^bold>\<open>What the lemmas show.\<close> Hashes: equal canonical texts are equal values up to the order of keys,
  and the approval hash covers every part of the request. Local writes: only an approved, unexpired
  request is started, at most once, it is sent as approved, and every stored state is the one the
  end of the send allows; the store refines a state machine. Hosted operations: in any sequence of
  calls a provider call is dispatched at most once, an operation belongs to one confirmed preview
  and its log of events replays to its states, opened arguments are those that were previewed, the
  service seals exactly the arguments whose hash and projection it shows, and a preview of a call is never renewed;
  every allowed transition keeps parent and items coherent, runs are finite, and the dead ends are
  known.
  Qualification: publication requires a cleaned run and happens once, dependents are cleaned before
  what they depend on. Reconciliation: the result is the best one-to-one assignment and accounts
  for every transaction.

  \<^bold>\<open>Termination and bounds.\<close> No definition uses fuel. The loops that end for a reason the text
  does not show (the topological sort, the search and the two loops of \<open>Flow_Network\<close>) are
  \<open>partial_function\<close>s whose value \<open>None\<close> means that they never return, and lemmas prove that they
  return; the other recursions are structural or have a measure. Limits of the code (25 documents,
  2500 lines, field lengths, retention times) are the code's constants.

  \<^bold>\<open>Parameters.\<close> SHA-256, AES-GCM, case folding, Unicode categories, \<open>repr\<close> and float conversions,
  \<open>urlsplit\<close>, the clock, random identifiers, the operating system and the network answer
  arbitrarily, as arguments of the definitions; a theorem that needs a law of one names it as a
  hypothesis. The redaction and credential scanner of \<open>safety/redaction.py\<close> and
  \<open>catalog/identity.py\<close> are parameters too.

  \<^bold>\<open>Not modelled.\<close> The MCP servers, command line, HTTP clients, database adapters, OAuth flows,
  importers, flow runner, retrieval and readiness checks: input and output around libraries, or
  state that lives in SQL outside this code. The manifest names them one by one.
\<close>

end
